(* ===== verification/Prelude.thy ===== *)
theory Prelude
imports
  Main
  "HOL-Library.Word"
  "HOL-Library.AList"
  "HOL-Library.Char_ord"
  "HOL-Library.List_Lexorder"
  "HOL-Library.Multiset"
begin

text \<open>
  What the components share: machine integers with Rust's checked and saturating
  operations, results of fallible code and the \<^verbatim>\<open>?\<close> operator over an explicit state,
  the two standard maps (hash map and B-tree map) behind one interface, and the
  generic lemmas about them.

  Conventions. \<^verbatim>\<open>u64\<close> and \<^verbatim>\<open>usize\<close> are 64-bit words (the model is that of a 64-bit
  target), a byte is a \<open>char\<close>, \<^verbatim>\<open>String\<close> and \<^verbatim>\<open>&str\<close> are lists of bytes (Isabelle's
  \<open>string\<close>), \<^verbatim>\<open>Result<T, E>\<close> is the sum \<open>'e + 'a\<close> with \<open>Inl\<close> for \<^verbatim>\<open>Err\<close>.
\<close>

section \<open>Machine integers\<close>

type_synonym u16 = "16 word"
type_synonym u64 = "64 word"
type_synonym usize = "64 word"

named_theorems word_nat \<open>facts that move word arithmetic to natural numbers\<close>
named_theorems map_laws \<open>lookup after insertion, removal and modification\<close>

abbreviation u64_max :: nat where
  "u64_max \<equiv> 18446744073709551615"

definition checked_add :: "'a::len word \<Rightarrow> 'a word \<Rightarrow> 'a word option" where
  "checked_add a b = (if unat a + unat b < 2 ^ LENGTH('a) then Some (a + b) else None)"

definition saturating_add :: "'a::len word \<Rightarrow> 'a word \<Rightarrow> 'a word" where
  "saturating_add a b = (if unat a + unat b < 2 ^ LENGTH('a) then a + b else - 1)"

definition saturating_sub :: "'a::len word \<Rightarrow> 'a word \<Rightarrow> 'a word" where
  "saturating_sub a b = (if b \<le> a then a - b else 0)"

section \<open>Results and state\<close>

type_synonym ('e, 'a) result = "'e + 'a"
type_synonym ('s, 'e, 'a) comp = "'s \<Rightarrow> ('e + 'a) \<times> 's"

text \<open>The \<^verbatim>\<open>?\<close> operator: go on with the value, or return the error with the state reached.\<close>

definition try_bind :: "('s, 'e, 'a) comp \<Rightarrow> ('a \<Rightarrow> ('s, 'e, 'b) comp) \<Rightarrow> ('s, 'e, 'b) comp" where
  "try_bind m f = (\<lambda>s. case m s of (Inl e, s') \<Rightarrow> (Inl e, s') | (Inr x, s') \<Rightarrow> f x s')"

definition try_result :: "('e + 'a) \<Rightarrow> ('a \<Rightarrow> 'e + 'b) \<Rightarrow> 'e + 'b" where
  "try_result r f = (case r of Inl e \<Rightarrow> Inl e | Inr x \<Rightarrow> f x)"

definition map_err :: "('e \<Rightarrow> 'f) \<Rightarrow> 'e + 'a \<Rightarrow> 'f + 'a" where
  "map_err f r = (case r of Inl e \<Rightarrow> Inl (f e) | Inr x \<Rightarrow> Inr x)"

definition ok_or :: "'a option \<Rightarrow> 'e \<Rightarrow> 'e + 'a" where
  "ok_or x e = (case x of None \<Rightarrow> Inl e | Some v \<Rightarrow> Inr v)"

definition is_ok :: "'e + 'a \<Rightarrow> bool" where
  "is_ok r = (case r of Inl _ \<Rightarrow> False | Inr _ \<Rightarrow> True)"

section \<open>Hash maps\<close>

text \<open>
  \<^verbatim>\<open>HashMap<K, V>\<close> is an association list with distinct keys. The order of the list stands
  for the iteration order of one moment; where the result of an operation depends on that
  order, the operation takes the order as an argument of its own.
\<close>

type_synonym ('k, 'v) hash_map = "('k \<times> 'v) list"

definition hm_ok :: "('k, 'v) hash_map \<Rightarrow> bool" where
  "hm_ok m = distinct (map fst m)"

definition hm_get :: "('k, 'v) hash_map \<Rightarrow> 'k \<Rightarrow> 'v option" where
  "hm_get m k = map_of m k"

definition hm_insert :: "'k \<Rightarrow> 'v \<Rightarrow> ('k, 'v) hash_map \<Rightarrow> ('k, 'v) hash_map" where
  "hm_insert k v m = AList.update k v m"

definition hm_remove :: "'k \<Rightarrow> ('k, 'v) hash_map \<Rightarrow> ('k, 'v) hash_map" where
  "hm_remove k m = AList.delete k m"

text \<open>An update through \<^verbatim>\<open>get_mut\<close>: nothing happens when the key is absent.\<close>

definition hm_modify :: "'k \<Rightarrow> ('v \<Rightarrow> 'v) \<Rightarrow> ('k, 'v) hash_map \<Rightarrow> ('k, 'v) hash_map" where
  "hm_modify k f m = map (\<lambda>(k', v). if k' = k then (k', f v) else (k', v)) m"

section \<open>B-tree maps\<close>

text \<open>
  \<^verbatim>\<open>BTreeMap<K, V>\<close> is the list of its entries in iteration order, that is, strictly
  ascending in the key. String keys compare bytewise, which is the lexicographic order
  on \<open>string\<close>.
\<close>

type_synonym ('k, 'v) btree_map = "('k \<times> 'v) list"

definition bt_ok :: "('k::linorder, 'v) btree_map \<Rightarrow> bool" where
  "bt_ok m = sorted_wrt (<) (map fst m)"

definition bt_get :: "('k::linorder, 'v) btree_map \<Rightarrow> 'k \<Rightarrow> 'v option" where
  "bt_get m k = map_of m k"

fun bt_insert :: "'k::linorder \<Rightarrow> 'v \<Rightarrow> ('k, 'v) btree_map \<Rightarrow> ('k, 'v) btree_map" where
  "bt_insert k v [] = [(k, v)]"
| "bt_insert k v ((k', v') # m) =
     (if k < k' then (k, v) # (k', v') # m
      else if k = k' then (k, v) # m
      else (k', v') # bt_insert k v m)"

definition bt_remove :: "'k::linorder \<Rightarrow> ('k, 'v) btree_map \<Rightarrow> ('k, 'v) btree_map" where
  "bt_remove k m = filter (\<lambda>(k', _). k' \<noteq> k) m"

section \<open>Lemmas on integers\<close>

lemma checked_add_Some [word_nat]:
  fixes a b :: "'a::len word"
  shows "checked_add a b = Some c \<longleftrightarrow> unat a + unat b < 2 ^ LENGTH('a) \<and> c = a + b"
  by (auto simp: checked_add_def)

lemma checked_add_None [word_nat]:
  fixes a b :: "'a::len word"
  shows "checked_add a b = None \<longleftrightarrow> 2 ^ LENGTH('a) \<le> unat a + unat b"
  by (auto simp: checked_add_def)

lemma checked_add_unat:
  fixes a b :: "'a::len word"
  shows "checked_add a b = Some c \<Longrightarrow> unat c = unat a + unat b"
  by (auto simp: checked_add_def unat_add_lem split: if_splits)

lemma unat_max_word: "unat (- 1 :: 'a::len word) = 2 ^ LENGTH('a) - 1"
  by (simp add: unsigned_minus_1_eq_mask mask_eq_exp_minus_1)

lemma unat_saturating_add [word_nat]:
  fixes a b :: "'a::len word"
  shows "unat (saturating_add a b) = min (unat a + unat b) (2 ^ LENGTH('a) - 1)"
proof (cases "unat a + unat b < 2 ^ LENGTH('a)")
  case True
  then have "unat (a + b) = unat a + unat b"
    by (simp add: unat_add_lem)
  with True show ?thesis
    by (simp add: saturating_add_def)
next
  case False
  then show ?thesis
    by (simp add: saturating_add_def unat_max_word)
qed

lemma unat_saturating_sub [word_nat]:
  fixes a b :: "'a::len word"
  shows "unat (saturating_sub a b) = unat a - unat b"
  by (simp add: saturating_sub_def unat_sub word_le_nat_alt)

lemma unat_less_u64: "unat (x :: u64) < 18446744073709551616"
  using unsigned_less [of x] by simp

lemma unat_add_u64:
  fixes a b :: u64
  shows "unat a + unat b < 18446744073709551616 \<Longrightarrow> unat (a + b) = unat a + unat b"
  using unat_add_lem [of a b] by simp

lemma saturating_sub_add_cancel:
  fixes a b :: "'a::len word"
  shows "checked_add a b = Some c \<Longrightarrow> saturating_sub c b = a"
  by (simp add: word_unat_eq_iff unat_saturating_sub checked_add_unat)

section \<open>Lemmas on results\<close>

lemma try_bind_eq_Inr:
  "try_bind m f s = (Inr y, s'') \<longleftrightarrow> (\<exists>x s'. m s = (Inr x, s') \<and> f x s' = (Inr y, s''))"
  by (auto simp: try_bind_def split: prod.splits sum.splits)

lemma try_bind_cases:
  "try_bind m f s = (case m s of (r, s') \<Rightarrow> (case r of Inl e \<Rightarrow> (Inl e, s') | Inr x \<Rightarrow> f x s'))"
  by (simp add: try_bind_def split: prod.splits sum.splits)

lemma try_result_simps [simp]:
  "try_result (Inl e) f = Inl e"
  "try_result (Inr x) f = f x"
  by (simp_all add: try_result_def)

lemma try_result_eq_Inr: "try_result r f = Inr y \<longleftrightarrow> (\<exists>x. r = Inr x \<and> f x = Inr y)"
  by (cases r) auto

lemma map_err_simps [simp]:
  "map_err f (Inl e) = Inl (f e)"
  "map_err f (Inr x) = Inr x"
  by (simp_all add: map_err_def)

lemma map_err_eq_Inr [simp]: "map_err f r = Inr x \<longleftrightarrow> r = Inr x"
  by (cases r) auto

lemma ok_or_simps [simp]:
  "ok_or None e = Inl e"
  "ok_or (Some v) e = Inr v"
  by (simp_all add: ok_or_def)

lemma ok_or_eq_Inr [simp]: "ok_or x e = Inr v \<longleftrightarrow> x = Some v"
  by (cases x) auto

lemma is_ok_simps [simp]:
  "is_ok (Inl e) \<longleftrightarrow> False"
  "is_ok (Inr x) \<longleftrightarrow> True"
  by (simp_all add: is_ok_def)

section \<open>Lemmas on hash maps\<close>

lemma hm_get_Nil [simp]: "hm_get [] k = None"
  by (simp add: hm_get_def)

lemma hm_ok_Nil [simp]: "hm_ok []"
  by (simp add: hm_ok_def)

lemma hm_get_insert [map_laws, simp]:
  "hm_get (hm_insert k v m) k' = (if k' = k then Some v else hm_get m k')"
  by (simp add: hm_get_def hm_insert_def update_conv')

lemma hm_get_remove [map_laws, simp]:
  "hm_get (hm_remove k m) k' = (if k' = k then None else hm_get m k')"
  by (simp add: hm_get_def hm_remove_def delete_conv')

lemma hm_get_modify [map_laws, simp]:
  "hm_get (hm_modify k f m) k' =
     (if k' = k then map_option f (hm_get m k) else hm_get m k')"
  by (induction m) (auto simp: hm_get_def hm_modify_def)

lemma hm_ok_insert [simp]: "hm_ok m \<Longrightarrow> hm_ok (hm_insert k v m)"
  by (simp add: hm_ok_def hm_insert_def distinct_update)

lemma hm_ok_remove [simp]: "hm_ok m \<Longrightarrow> hm_ok (hm_remove k m)"
  by (simp add: hm_ok_def hm_remove_def distinct_delete)

lemma map_fst_hm_modify [simp]: "map fst (hm_modify k f m) = map fst m"
  by (induction m) (auto simp: hm_modify_def)

lemma hm_ok_modify [simp]: "hm_ok (hm_modify k f m) \<longleftrightarrow> hm_ok m"
  by (simp add: hm_ok_def)

lemma hm_get_set: "hm_get m k = Some v \<Longrightarrow> (k, v) \<in> set m"
  by (simp add: hm_get_def map_of_SomeD)

lemma hm_get_iff: "hm_ok m \<Longrightarrow> hm_get m k = Some v \<longleftrightarrow> (k, v) \<in> set m"
  by (simp add: hm_ok_def hm_get_def)

lemma hm_get_None_iff: "hm_get m k = None \<longleftrightarrow> k \<notin> fst ` set m"
  by (simp add: hm_get_def map_of_eq_None_iff)

lemma hm_insert_fresh: "hm_get m k = None \<Longrightarrow> hm_insert k v m = m @ [(k, v)]"
  by (induction m) (auto simp: hm_get_def hm_insert_def split: if_splits)

lemma hm_modify_absent [simp]: "hm_get m k = None \<Longrightarrow> hm_modify k f m = m"
  by (induction m) (auto simp: hm_get_def hm_modify_def split: if_splits)

lemma hm_remove_filter: "hm_remove k m = filter (\<lambda>(k', _). k' \<noteq> k) m"
  by (induction m) (auto simp: hm_remove_def)

lemma hm_modify_modify: "hm_modify k f (hm_modify k g m) = hm_modify k (f \<circ> g) m"
  by (induction m) (auto simp: hm_modify_def)

lemma hm_modify_same: "hm_ok m \<Longrightarrow> hm_get m k = Some v \<Longrightarrow> f v = v \<Longrightarrow> hm_modify k f m = m"
  unfolding hm_modify_def by (rule map_idI) (auto simp: hm_get_iff [symmetric])

lemma hm_modify_insert: "hm_ok m \<Longrightarrow> hm_modify k f (hm_insert k v m) = hm_insert k (f v) m"
proof (induction m)
  case (Cons e m)
  then show ?case
    using hm_modify_absent [of m k f]
    by (cases e) (auto simp: hm_ok_def hm_modify_def hm_insert_def hm_get_None_iff)
qed (simp add: hm_modify_def hm_insert_def)

lemma sum_list_hm_modify:
  fixes w :: "'k \<times> 'v \<Rightarrow> nat"
  assumes "hm_ok m" and "hm_get m k = Some v"
  shows "sum_list (map w (hm_modify k f m)) + w (k, v) = sum_list (map w m) + w (k, f v)"
  using assms
proof (induction m)
  case (Cons e m)
  obtain k' v' where e: "e = (k', v')" by (cases e)
  show ?case
  proof (cases "k' = k")
    case True
    then have "hm_modify k f m = m"
      using Cons.prems by (intro hm_modify_absent) (simp add: e hm_ok_def hm_get_None_iff)
    then show ?thesis
      using Cons.prems True by (simp add: e hm_modify_def hm_get_def)
  next
    case False
    then show ?thesis
      using Cons by (simp add: e hm_modify_def hm_get_def hm_ok_def)
  qed
qed simp

lemma sum_list_hm_remove:
  fixes w :: "'k \<times> 'v \<Rightarrow> nat"
  assumes "hm_ok m" and "hm_get m k = Some v"
  shows "sum_list (map w (hm_remove k m)) + w (k, v) = sum_list (map w m)"
  using assms
proof (induction m)
  case (Cons e m)
  obtain k' v' where e: "e = (k', v')" by (cases e)
  show ?case
  proof (cases "k' = k")
    case True
    then have "AList.delete k m = m"
      using Cons.prems by (intro delete_id) (simp add: e hm_ok_def)
    then show ?thesis
      using Cons.prems True by (simp add: e hm_remove_def hm_get_def)
  next
    case False
    then show ?thesis
      using Cons by (simp add: e hm_remove_def hm_get_def hm_ok_def)
  qed
qed simp

section \<open>Lemmas on B-tree maps\<close>

lemma bt_get_Nil [simp]: "bt_get [] k = None"
  by (simp add: bt_get_def)

lemma bt_ok_Nil [simp]: "bt_ok []"
  by (simp add: bt_ok_def)

lemma bt_ok_Cons [simp]: "bt_ok ((k, v) # m) \<longleftrightarrow> (\<forall>x \<in> set m. k < fst x) \<and> bt_ok m"
  by (auto simp: bt_ok_def)

lemma bt_get_insert [map_laws, simp]:
  "bt_get (bt_insert k v m) k' = (if k' = k then Some v else bt_get m k')"
  by (induction k v m rule: bt_insert.induct) (auto simp: bt_get_def)

lemma set_bt_insert: "set (bt_insert k v m) \<subseteq> insert (k, v) (set m)"
  by (induction k v m rule: bt_insert.induct) auto

lemma fst_set_bt_insert: "fst ` set (bt_insert k v m) = insert k (fst ` set m)"
  by (induction k v m rule: bt_insert.induct) auto

lemma bt_ok_insert [simp]: "bt_ok m \<Longrightarrow> bt_ok (bt_insert k v m)"
proof (induction k v m rule: bt_insert.induct)
  case (2 k v k' v' m)
  then show ?case
    using set_bt_insert [of k v m] by fastforce
qed simp

lemma bt_get_remove [map_laws, simp]:
  "bt_get (bt_remove k m) k' = (if k' = k then None else bt_get m k')"
  by (induction m) (auto simp: bt_get_def bt_remove_def)

lemma bt_ok_remove [simp]: "bt_ok m \<Longrightarrow> bt_ok (bt_remove k m)"
  by (induction m) (auto simp: bt_remove_def)

lemma bt_ok_distinct: "bt_ok m \<Longrightarrow> distinct (map fst m)"
  by (simp add: bt_ok_def strict_sorted_iff)

lemma bt_get_iff: "bt_ok m \<Longrightarrow> bt_get m k = Some v \<longleftrightarrow> (k, v) \<in> set m"
  by (simp add: bt_get_def bt_ok_distinct)

lemma bt_ok_ext:
  assumes "bt_ok m" and "bt_ok m'" and "\<And>k. bt_get m k = bt_get m' k"
  shows "m = m'"
proof (rule map_sorted_distinct_set_unique [of fst])
  show "inj_on fst (set m \<union> set m')"
    using assms by (auto simp: inj_on_def bt_get_iff [symmetric])
  show "sorted (map fst m)" and "distinct (map fst m)"
    using assms(1) by (simp_all add: bt_ok_def strict_sorted_iff)
  show "sorted (map fst m')" and "distinct (map fst m')"
    using assms(2) by (simp_all add: bt_ok_def strict_sorted_iff)
  show "set m = set m'"
    using assms by (auto simp: bt_get_iff [symmetric])
qed

lemma bt_insert_last: "\<forall>x \<in> set m. fst x < k \<Longrightarrow> bt_insert k v m = m @ [(k, v)]"
  by (induction k v m rule: bt_insert.induct) auto

lemma map_of_rev_eq: "distinct (map fst kvs) \<Longrightarrow> map_of (rev kvs) = map_of kvs"
  by (rule map_of_eqI) (auto simp: rev_map [symmetric] intro!: map_of_is_SomeI)

section \<open>The map interface\<close>

text \<open>
  What the clients of either map rely on. The entries collected from an iterator are
  inserted one by one, so the last entry of a key wins.
\<close>

locale map_impl =
  fixes lookup :: "'m \<Rightarrow> 'k \<Rightarrow> 'v option"
    and insert_entry :: "'k \<Rightarrow> 'v \<Rightarrow> 'm \<Rightarrow> 'm"
    and remove_entry :: "'k \<Rightarrow> 'm \<Rightarrow> 'm"
    and empty_map :: 'm
    and invar :: "'m \<Rightarrow> bool"
  assumes lookup_empty: "lookup empty_map k = None"
    and lookup_insert: "lookup (insert_entry k v m) k' = (if k' = k then Some v else lookup m k')"
    and lookup_remove: "lookup (remove_entry k m) k' = (if k' = k then None else lookup m k')"
    and invar_empty: "invar empty_map"
    and invar_insert: "invar m \<Longrightarrow> invar (insert_entry k v m)"
    and invar_remove: "invar m \<Longrightarrow> invar (remove_entry k m)"
begin

lemma lookup_fold_insert:
  "lookup (fold (\<lambda>(k, v). insert_entry k v) kvs m) k =
     (case map_of (rev kvs) k of None \<Rightarrow> lookup m k | Some v \<Rightarrow> Some v)"
  by (induction kvs arbitrary: m)
     (auto simp: lookup_insert map_add_def split: option.splits)

lemma lookup_collect:
  "distinct (map fst kvs) \<Longrightarrow>
   lookup (fold (\<lambda>(k, v). insert_entry k v) kvs empty_map) k = map_of kvs k"
  by (simp add: lookup_fold_insert lookup_empty map_of_rev_eq split: option.splits)

lemma invar_fold_insert: "invar m \<Longrightarrow> invar (fold (\<lambda>(k, v). insert_entry k v) kvs m)"
  by (induction kvs arbitrary: m) (auto intro: invar_insert)

lemma insert_then_remove: "lookup (remove_entry k (insert_entry k v m)) = (lookup m)(k := None)"
  by (rule ext) (simp add: lookup_insert lookup_remove)

end

interpretation hm: map_impl hm_get hm_insert hm_remove "[]" hm_ok
  by unfold_locales auto

interpretation bt: map_impl bt_get bt_insert bt_remove "[]" bt_ok
  by unfold_locales auto

end
