(* ===== verification/Text.thy ===== *)
theory Text
imports Prelude
begin

text \<open>
  The string operations of Rust's standard library that the sources use, over UTF-8 byte
  lists: \<^verbatim>\<open>trim\<close> and its two halves, \<^verbatim>\<open>to_ascii_lowercase\<close>, \<^verbatim>\<open>strip_prefix\<close>,
  \<^verbatim>\<open>trim_end_matches\<close>, \<^verbatim>\<open>split_once\<close>, \<^verbatim>\<open>lines\<close>, decimal and hexadecimal formatting.
  Whitespace is Unicode's \<^verbatim>\<open>White_Space\<close> set, each member given by its UTF-8 encoding; every
  multi-byte member starts with a lead byte, so on valid UTF-8 a byte suffix equal to a
  member is that character.
\<close>

section \<open>Whitespace and case\<close>

type_synonym bytes = "char list"

definition whitespace :: "string list" where
  "whitespace =
     [[CHR 0x09], [CHR 0x0A], [CHR 0x0B], [CHR 0x0C], [CHR 0x0D], [CHR 0x20],
      [CHR 0xC2, CHR 0x85], [CHR 0xC2, CHR 0xA0],
      [CHR 0xE1, CHR 0x9A, CHR 0x80],
      [CHR 0xE2, CHR 0x80, CHR 0x80], [CHR 0xE2, CHR 0x80, CHR 0x81],
      [CHR 0xE2, CHR 0x80, CHR 0x82], [CHR 0xE2, CHR 0x80, CHR 0x83],
      [CHR 0xE2, CHR 0x80, CHR 0x84], [CHR 0xE2, CHR 0x80, CHR 0x85],
      [CHR 0xE2, CHR 0x80, CHR 0x86], [CHR 0xE2, CHR 0x80, CHR 0x87],
      [CHR 0xE2, CHR 0x80, CHR 0x88], [CHR 0xE2, CHR 0x80, CHR 0x89],
      [CHR 0xE2, CHR 0x80, CHR 0x8A],
      [CHR 0xE2, CHR 0x80, CHR 0xA8], [CHR 0xE2, CHR 0x80, CHR 0xA9],
      [CHR 0xE2, CHR 0x80, CHR 0xAF],
      [CHR 0xE2, CHR 0x81, CHR 0x9F],
      [CHR 0xE3, CHR 0x80, CHR 0x80]]"

fun strip_prefix :: "string \<Rightarrow> string \<Rightarrow> string option" where
  "strip_prefix [] s = Some s"
| "strip_prefix (p # ps) [] = None"
| "strip_prefix (p # ps) (c # s) = (if p = c then strip_prefix ps s else None)"

fun strip_any :: "string list \<Rightarrow> string \<Rightarrow> string option" where
  "strip_any [] s = None"
| "strip_any (w # ws) s = (case strip_prefix w s of Some r \<Rightarrow> Some r | None \<Rightarrow> strip_any ws s)"

text \<open>The fuel is the number of bytes: each round removes at least one.\<close>

fun strip_all :: "string list \<Rightarrow> nat \<Rightarrow> string \<Rightarrow> string" where
  "strip_all ws 0 s = s"
| "strip_all ws (Suc n) s = (case strip_any ws s of None \<Rightarrow> s | Some r \<Rightarrow> strip_all ws n r)"

definition trim_start :: "string \<Rightarrow> string" where
  "trim_start s = strip_all whitespace (length s) s"

definition trim_end :: "string \<Rightarrow> string" where
  "trim_end s = rev (strip_all (map rev whitespace) (length s) (rev s))"

definition trim :: "string \<Rightarrow> string" where
  "trim s = trim_end (trim_start s)"

definition ascii_lower :: "char \<Rightarrow> char" where
  "ascii_lower c =
     (if 65 \<le> (of_char c :: nat) \<and> (of_char c :: nat) \<le> 90
      then char_of ((of_char c :: nat) + 32) else c)"

definition to_ascii_lowercase :: "string \<Rightarrow> string" where
  "to_ascii_lowercase s = map ascii_lower s"

definition is_ascii_alphanumeric :: "char \<Rightarrow> bool" where
  "is_ascii_alphanumeric c =
     (let n = (of_char c :: nat)
      in (48 \<le> n \<and> n \<le> 57) \<or> (65 \<le> n \<and> n \<le> 90) \<or> (97 \<le> n \<and> n \<le> 122))"

definition trim_end_matches :: "char \<Rightarrow> string \<Rightarrow> string" where
  "trim_end_matches c s = rev (dropWhile (\<lambda>x. x = c) (rev s))"

definition starts_with :: "string \<Rightarrow> string \<Rightarrow> bool" where
  "starts_with p s = (strip_prefix p s \<noteq> None)"

fun split_once :: "char \<Rightarrow> string \<Rightarrow> (string \<times> string) option" where
  "split_once c [] = None"
| "split_once c (x # xs) =
     (if x = c then Some ([], xs)
      else map_option (\<lambda>(a, b). (x # a, b)) (split_once c xs))"

text \<open>\<^verbatim>\<open>str::split(c)\<close>: always at least one piece.\<close>

fun split_on :: "char \<Rightarrow> string \<Rightarrow> string list" where
  "split_on c [] = [[]]"
| "split_on c (x # xs) =
     (if x = c then [] # split_on c xs
      else (case split_on c xs of [] \<Rightarrow> [[x]] | p # ps \<Rightarrow> (x # p) # ps))"

text \<open>
  \<^verbatim>\<open>str::lines\<close>: pieces ended by a line feed or by the end of the text; an empty last
  piece is dropped, and one carriage return before the line feed is removed.
\<close>

definition strip_cr :: "string \<Rightarrow> string" where
  "strip_cr l = (if l \<noteq> [] \<and> last l = CHR 0x0D then butlast l else l)"

fun lines_from :: "string \<Rightarrow> string \<Rightarrow> string list" where
  "lines_from acc [] = (if acc = [] then [] else [acc])"
| "lines_from acc (x # xs) =
     (if x = CHR 0x0A then strip_cr acc # lines_from [] xs else lines_from (acc @ [x]) xs)"

definition lines :: "string \<Rightarrow> string list" where
  "lines s = lines_from [] s"

fun join :: "string \<Rightarrow> string list \<Rightarrow> string" where
  "join sep [] = []"
| "join sep [x] = x"
| "join sep (x # y # ys) = x @ sep @ join sep (y # ys)"

section \<open>Numbers as text\<close>

fun show_nat :: "nat \<Rightarrow> string" where
  "show_nat n =
     (if n < 10 then [char_of (48 + n)] else show_nat (n div 10) @ [char_of (48 + n mod 10)])"

declare show_nat.simps [simp del]

definition hex_digit :: "nat \<Rightarrow> char" where
  "hex_digit n = (if n < 10 then char_of (48 + n) else char_of (87 + n))"

definition is_lower_hex :: "char \<Rightarrow> bool" where
  "is_lower_hex c =
     (let n = (of_char c :: nat) in (48 \<le> n \<and> n \<le> 57) \<or> (97 \<le> n \<and> n \<le> 102))"

definition hex_byte :: "char \<Rightarrow> string" where
  "hex_byte b = [hex_digit (of_char b div 16), hex_digit (of_char b mod 16)]"

definition hex_lower :: "bytes \<Rightarrow> string" where
  "hex_lower bs = concat (map hex_byte bs)"

section \<open>Lemmas\<close>

lemma strip_prefix_Some: "strip_prefix p s = Some r \<longleftrightarrow> s = p @ r"
  by (induction p s rule: strip_prefix.induct) auto

lemma strip_prefix_append [simp]: "strip_prefix p (p @ r) = Some r"
  by (simp add: strip_prefix_Some)

lemma strip_any_Some: "strip_any ws s = Some r \<Longrightarrow> \<exists>w \<in> set ws. s = w @ r"
  by (induction ws s rule: strip_any.induct)
     (auto simp: strip_prefix_Some split: option.splits)

lemma strip_any_None: "strip_any ws s = None \<longleftrightarrow> (\<forall>w \<in> set ws. strip_prefix w s = None)"
  by (induction ws s rule: strip_any.induct) (auto split: option.splits)

lemma strip_all_suffix: "\<exists>p. s = p @ strip_all ws n s"
proof (induction ws n s rule: strip_all.induct)
  case (2 ws n s)
  show ?case
  proof (cases "strip_any ws s")
    case (Some r)
    then obtain w where "s = w @ r" by (auto dest: strip_any_Some)
    moreover obtain p where "r = p @ strip_all ws n r" using 2 Some by blast
    ultimately show ?thesis using Some by (metis append.assoc option.simps(5) strip_all.simps(2))
  qed simp
qed simp

lemma strip_all_done:
  assumes "\<forall>w \<in> set ws. w \<noteq> []" and "length s \<le> n"
  shows "strip_any ws (strip_all ws n s) = None"
  using assms(2)
proof (induction n arbitrary: s)
  case 0
  then show ?case
    using assms(1) by (auto simp: strip_any_None) (metis list.exhaust strip_prefix.simps(2))
next
  case (Suc n)
  show ?case
  proof (cases "strip_any ws s")
    case (Some r)
    then obtain w where "w \<in> set ws" "s = w @ r" by (auto dest: strip_any_Some)
    then have "w \<noteq> []" using assms(1) by blast
    then have "length r \<le> n" using \<open>s = w @ r\<close> Suc.prems by (cases w) auto
    then show ?thesis using Suc.IH Some by simp
  qed simp
qed

lemma strip_all_fixed: "strip_any ws s = None \<Longrightarrow> strip_all ws n s = s"
  by (cases n) auto

lemma whitespace_nonempty: "\<forall>w \<in> set whitespace. w \<noteq> []"
  by (simp add: whitespace_def)

text \<open>\<^verbatim>\<open>trim_start\<close> removes a prefix, and nothing is left to remove.\<close>

lemma trim_start_suffix: "\<exists>p. s = p @ trim_start s"
  unfolding trim_start_def by (rule strip_all_suffix)

lemma trim_start_done: "strip_any whitespace (trim_start s) = None"
  unfolding trim_start_def by (rule strip_all_done [OF whitespace_nonempty]) simp

lemma trim_start_fixed: "strip_any whitespace s = None \<Longrightarrow> trim_start s = s"
  by (simp add: trim_start_def strip_all_fixed)

lemma trim_start_Nil [simp]: "trim_start [] = []"
  by (simp add: trim_start_def)

lemma trim_Nil [simp]: "trim [] = []"
  by (simp add: trim_def trim_end_def)

lemma trim_start_space: "trim_start (CHR '' '' # s) = trim_start s"
proof -
  have "strip_any whitespace (CHR '' '' # s) = Some s" by (simp add: whitespace_def)
  then show ?thesis by (simp add: trim_start_def)
qed

lemma trim_end_matches_fixed: "c \<notin> set s \<Longrightarrow> trim_end_matches c s = s"
  by (cases s rule: rev_cases) (auto simp: trim_end_matches_def)

lemma lines_from_LF:
  "CHR 0x0A \<notin> set l \<Longrightarrow> lines_from acc (l @ CHR 0x0A # rest) = strip_cr (acc @ l) # lines_from [] rest"
  by (induction l arbitrary: acc) auto

lemma lines_LF:
  "CHR 0x0A \<notin> set l \<Longrightarrow> CHR 0x0D \<notin> set l \<Longrightarrow> lines (l @ CHR 0x0A # rest) = l # lines rest"
  by (auto simp: lines_def lines_from_LF strip_cr_def dest: last_in_set)

lemma length_to_ascii_lowercase [simp]: "length (to_ascii_lowercase s) = length s"
  by (simp add: to_ascii_lowercase_def)

lemma ascii_lower_idem [simp]: "ascii_lower (ascii_lower c) = ascii_lower c"
  by (simp add: ascii_lower_def)

lemma to_ascii_lowercase_idem [simp]:
  "to_ascii_lowercase (to_ascii_lowercase s) = to_ascii_lowercase s"
  by (simp add: to_ascii_lowercase_def)

subsection \<open>Decimal and hexadecimal\<close>

lemma show_nat_nonempty: "show_nat n \<noteq> []"
  by (subst show_nat.simps) simp

lemma show_nat_inject_aux: "show_nat m = show_nat n \<Longrightarrow> m = n"
proof (induction m arbitrary: n rule: show_nat.induct)
  case (1 m)
  have digit: "a < 10 \<Longrightarrow> b < 10 \<Longrightarrow> char_of (48 + a) = (char_of (48 + b) :: char) \<Longrightarrow> a = b"
    for a b :: nat
    by (drule arg_cong [where f = "of_char :: char \<Rightarrow> nat"]) simp
  show ?case
  proof (cases "m < 10"; cases "n < 10")
    assume "m < 10" "n < 10"
    then show ?thesis using "1.prems" digit [of m n]
      by (simp add: show_nat.simps [of m] show_nat.simps [of n])
  next
    assume "m < 10" "\<not> n < 10"
    then show ?thesis using "1.prems" show_nat_nonempty [of "n div 10"]
      by (simp add: show_nat.simps [of m] show_nat.simps [of n])
  next
    assume "\<not> m < 10" "n < 10"
    then show ?thesis using "1.prems" show_nat_nonempty [of "m div 10"]
      by (simp add: show_nat.simps [of m] show_nat.simps [of n])
  next
    assume *: "\<not> m < 10" "\<not> n < 10"
    then have "show_nat (m div 10) = show_nat (n div 10)" and "m mod 10 = n mod 10"
      using "1.prems" digit [of "m mod 10" "n mod 10"]
      by (simp_all add: show_nat.simps [of m] show_nat.simps [of n])
    with "1.IH" * have "m div 10 = n div 10" by blast
    with \<open>m mod 10 = n mod 10\<close> show ?thesis by (metis div_mult_mod_eq)
  qed
qed

lemma show_nat_inject [simp]: "show_nat m = show_nat n \<longleftrightarrow> m = n"
  using show_nat_inject_aux by blast

lemma hex_digit_lower: "n < 16 \<Longrightarrow> is_lower_hex (hex_digit n)"
  by (auto simp: is_lower_hex_def hex_digit_def Let_def)

lemma hex_digit_inject: "m < 16 \<Longrightarrow> n < 16 \<Longrightarrow> hex_digit m = hex_digit n \<longleftrightarrow> m = n"
  by (auto simp: hex_digit_def dest!: arg_cong [where f = "of_char :: char \<Rightarrow> nat"] split: if_splits)

lemma of_char_less: "(of_char b :: nat) div 16 < 16" "(of_char b :: nat) mod 16 < 16"
proof -
  have "(of_char b :: nat) < 256"
    by (metis of_char_mod_256 mod_less_divisor zero_less_numeral)
  then show "(of_char b :: nat) div 16 < 16" "(of_char b :: nat) mod 16 < 16"
    by (simp_all add: div_less_iff_less_mult)
qed

lemma hex_byte_lower: "\<forall>c \<in> set (hex_byte b). is_lower_hex c"
  using of_char_less by (auto simp: hex_byte_def intro!: hex_digit_lower)

lemma length_hex_lower [simp]: "length (hex_lower bs) = 2 * length bs"
  by (induction bs) (auto simp: hex_lower_def hex_byte_def)

lemma hex_lower_lower: "\<forall>c \<in> set (hex_lower bs). is_lower_hex c"
  using hex_byte_lower by (auto simp: hex_lower_def)

lemma hex_byte_inject: "hex_byte a = hex_byte b \<longleftrightarrow> a = b"
proof
  assume "hex_byte a = hex_byte b"
  then have "(of_char a :: nat) div 16 = of_char b div 16" and "(of_char a :: nat) mod 16 = of_char b mod 16"
    using of_char_less
    by (simp_all add: hex_byte_def hex_digit_inject)
  then have "(of_char a :: nat) = of_char b" by (metis div_mult_mod_eq)
  then show "a = b" by simp
qed simp

lemma hex_lower_inject: "hex_lower as = hex_lower bs \<longleftrightarrow> as = bs"
proof
  assume eq: "hex_lower as = hex_lower bs"
  then have "length as = length bs"
    by (metis length_hex_lower mult_left_cancel zero_neq_numeral)
  then show "as = bs" using eq
  proof (induction as bs rule: list_induct2)
    case (Cons a as b bs)
    then show ?case
      by (simp add: hex_lower_def hex_byte_def) (metis hex_byte_def hex_byte_inject)
  qed simp
qed simp

end
