(* ===== verification/Common.thy ===== *)
theory Common
imports Text
begin

text \<open>
  The crate \<^verbatim>\<open>mooncache-common\<close>: the error type every component returns
  (\<^verbatim>\<open>crates/common/src/error.rs\<close>) and the validated identifiers
  (\<^verbatim>\<open>crates/common/src/ids.rs\<close>).
\<close>

section \<open>Errors\<close>

datatype cache_error =
    EmptyTenantId
  | InvalidCacheKey
  | InvalidId string
  | NotFound
  | Conflict string
  | QuotaExceeded string
  | UpstreamUnavailable string

type_synonym 'a cache_result = "cache_error + 'a"

text \<open>The \<^verbatim>\<open>#[error(...)]\<close> attributes: what \<^verbatim>\<open>to_string\<close> prints.\<close>

fun cache_error_to_string :: "cache_error \<Rightarrow> string" where
  "cache_error_to_string EmptyTenantId = ''tenant id must not be empty''"
| "cache_error_to_string InvalidCacheKey = ''cache key must be 64 lowercase hex characters''"
| "cache_error_to_string (InvalidId m) = ''invalid id: '' @ m"
| "cache_error_to_string NotFound = ''not found''"
| "cache_error_to_string (Conflict m) = ''conflict: '' @ m"
| "cache_error_to_string (QuotaExceeded m) = ''quota exceeded: '' @ m"
| "cache_error_to_string (UpstreamUnavailable m) = ''upstream unavailable: '' @ m"

section \<open>Identifiers\<close>

datatype tenant_id = TenantId (tenant_as_str: string)

datatype cache_key = CacheKey (key_as_str: string)

definition parse_tenant_id :: "string \<Rightarrow> tenant_id cache_result" where
  "parse_tenant_id value = (if trim value = [] then Inl EmptyTenantId else Inr (TenantId value))"

definition valid_key_text :: "string \<Rightarrow> bool" where
  "valid_key_text value \<longleftrightarrow> length value = 64 \<and> list_all is_lower_hex value"

definition cache_key_from_hex :: "string \<Rightarrow> cache_key cache_result" where
  "cache_key_from_hex value =
     (if \<not> valid_key_text value then Inl InvalidCacheKey else Inr (CacheKey value))"

text \<open>The character U+2026 between the two ends, in UTF-8.\<close>

definition ellipsis :: string where
  "ellipsis = [CHR 0xE2, CHR 0x80, CHR 0xA6]"

text \<open>
  \<^verbatim>\<open>&self.0[..8]\<close> and \<^verbatim>\<open>&self.0[60..]\<close> are in range for the 64-byte texts that
  \<^verbatim>\<open>from_hex\<close> lets through (\<open>redacted_in_range\<close> below).
\<close>

definition redacted :: "cache_key \<Rightarrow> string" where
  "redacted k = take 8 (key_as_str k) @ ellipsis @ drop 60 (key_as_str k)"

section \<open>Lemmas\<close>

lemma parse_tenant_id_eq_Inr [simp]:
  "parse_tenant_id v = Inr t \<longleftrightarrow> trim v \<noteq> [] \<and> t = TenantId v"
  by (auto simp: parse_tenant_id_def)

lemma parse_tenant_id_eq_Inl [simp]:
  "parse_tenant_id v = Inl e \<longleftrightarrow> trim v = [] \<and> e = EmptyTenantId"
  by (auto simp: parse_tenant_id_def)

lemma cache_key_from_hex_eq_Inr [simp]:
  "cache_key_from_hex v = Inr k \<longleftrightarrow> valid_key_text v \<and> k = CacheKey v"
  by (auto simp: cache_key_from_hex_def)

lemma cache_key_from_hex_eq_Inl [simp]:
  "cache_key_from_hex v = Inl e \<longleftrightarrow> \<not> valid_key_text v \<and> e = InvalidCacheKey"
  by (auto simp: cache_key_from_hex_def)

lemma valid_key_text_hex_lower: "length bs = 32 \<Longrightarrow> valid_key_text (hex_lower bs)"
  using hex_lower_lower by (simp add: valid_key_text_def list_all_iff)

lemma redacted_in_range: "cache_key_from_hex v = Inr k \<Longrightarrow> 60 \<le> length (key_as_str k)"
  by (simp add: valid_key_text_def)

lemma length_redacted: "cache_key_from_hex v = Inr k \<Longrightarrow> length (redacted k) = 15"
  by (simp add: valid_key_text_def redacted_def ellipsis_def)

end
