(* ===== verification/Quota.thy ===== *)
theory Quota
imports Common
begin

text \<open>
  \<^verbatim>\<open>crates/master/src/quota.rs\<close>: the DRAM budget of one tenant. Reserving adds to the usage
  with an overflow check and a limit check; releasing subtracts and stops at zero.
\<close>

record tenant_quota =
  dram_bytes :: u64
  ssd_bytes :: u64
  used_dram_bytes :: u64
  used_ssd_bytes :: u64

definition quota_new :: "u64 \<Rightarrow> u64 \<Rightarrow> tenant_quota" where
  "quota_new dram ssd =
     \<lparr>dram_bytes = dram, ssd_bytes = ssd, used_dram_bytes = 0, used_ssd_bytes = 0\<rparr>"

definition quota_with_usage :: "u64 \<Rightarrow> u64 \<Rightarrow> u64 \<Rightarrow> tenant_quota" where
  "quota_with_usage dram ssd used =
     \<lparr>dram_bytes = dram, ssd_bytes = ssd, used_dram_bytes = used, used_ssd_bytes = 0\<rparr>"

definition reserve_dram :: "u64 \<Rightarrow> tenant_quota \<Rightarrow> tenant_quota cache_result" where
  "reserve_dram bytes q =
     (case checked_add (used_dram_bytes q) bytes of
        None \<Rightarrow> Inl (QuotaExceeded ''DRAM quota accounting overflow'')
      | Some next_used \<Rightarrow>
          if next_used > dram_bytes q
          then Inl (QuotaExceeded
                 (''DRAM quota exceeded: requested '' @ show_nat (unat next_used)
                  @ '' bytes, limit '' @ show_nat (unat (dram_bytes q)) @ '' bytes''))
          else Inr (q\<lparr>used_dram_bytes := next_used\<rparr>))"

definition release_dram :: "u64 \<Rightarrow> tenant_quota \<Rightarrow> tenant_quota" where
  "release_dram bytes q = q\<lparr>used_dram_bytes := saturating_sub (used_dram_bytes q) bytes\<rparr>"

section \<open>Lemmas\<close>

lemma reserve_dram_eq_Inr:
  "reserve_dram b q = Inr q' \<longleftrightarrow>
     unat (used_dram_bytes q) + unat b \<le> unat (dram_bytes q)
     \<and> q' = q\<lparr>used_dram_bytes := used_dram_bytes q + b\<rparr>"
proof -
  have lim: "unat (dram_bytes q) < 2 ^ 64"
    using unat_less_u64 by simp
  show ?thesis
  proof (cases "checked_add (used_dram_bytes q) b")
    case None
    then have "2 ^ 64 \<le> unat (used_dram_bytes q) + unat b"
      by (simp add: checked_add_None)
    with None lim show ?thesis by (simp add: reserve_dram_def)
  next
    case (Some n)
    then have n: "unat n = unat (used_dram_bytes q) + unat b" "used_dram_bytes q + b = n"
      by (rule checked_add_unat) (use Some in \<open>simp add: checked_add_Some\<close>)
    have "reserve_dram b q = Inr q' \<longleftrightarrow> \<not> dram_bytes q < n \<and> q' = q\<lparr>used_dram_bytes := n\<rparr>"
      using Some by (auto simp: reserve_dram_def)
    then show ?thesis
      unfolding n(2) by (simp add: word_less_nat_alt not_less n(1))
  qed
qed

lemma reserve_dram_used:
  "reserve_dram b q = Inr q' \<Longrightarrow> unat (used_dram_bytes q') = unat (used_dram_bytes q) + unat b"
  using unat_less_u64 [of "dram_bytes q"]
  by (auto simp: reserve_dram_eq_Inr intro!: unat_add_u64)

lemma reserve_dram_within_limit:
  "reserve_dram b q = Inr q' \<Longrightarrow> used_dram_bytes q' \<le> dram_bytes q' \<and> dram_bytes q' = dram_bytes q"
  using reserve_dram_used [of b q q'] by (auto simp: reserve_dram_eq_Inr word_le_nat_alt)

lemma reserve_dram_error:
  "reserve_dram b q = Inl e \<Longrightarrow> \<exists>m. e = QuotaExceeded m"
  by (auto simp: reserve_dram_def split: option.splits if_splits)

lemma release_dram_used [simp]:
  "unat (used_dram_bytes (release_dram b q)) = unat (used_dram_bytes q) - unat b"
  by (simp add: release_dram_def unat_saturating_sub)

lemma release_dram_limits [simp]:
  "dram_bytes (release_dram b q) = dram_bytes q"
  "ssd_bytes (release_dram b q) = ssd_bytes q"
  "used_ssd_bytes (release_dram b q) = used_ssd_bytes q"
  by (simp_all add: release_dram_def)

lemma release_after_reserve: "reserve_dram b q = Inr q' \<Longrightarrow> release_dram b q' = q"
  using reserve_dram_used [of b q q']
  by (cases q) (auto simp: reserve_dram_eq_Inr release_dram_def word_unat_eq_iff unat_saturating_sub)

end
