(* ===== verification/Allocator.thy ===== *)
theory Allocator
imports Common
begin

text \<open>
  \<^verbatim>\<open>crates/master/src/allocator.rs\<close>: the bump allocator of the master. Each mounted segment
  hands out ascending offsets; one allocation takes the first segments that can hold the
  object, one replica per segment.
\<close>

record segment_allocation =
  alloc_node_id :: string
  alloc_offset :: u64
  alloc_len :: u64

record mounted_segment =
  seg_node_id :: string
  seg_len :: u64
  seg_next_offset :: u64

type_synonym segment_allocator = "mounted_segment list"

definition can_fit :: "u64 \<Rightarrow> mounted_segment \<Rightarrow> bool" where
  "can_fit object_len s =
     (case checked_add (seg_next_offset s) object_len of
        None \<Rightarrow> False | Some next_offset \<Rightarrow> next_offset \<le> seg_len s)"

definition allocator_mount :: "string \<Rightarrow> u64 \<Rightarrow> segment_allocator \<Rightarrow> segment_allocator" where
  "allocator_mount node_id len segs =
     segs @ [\<lparr>seg_node_id = node_id, seg_len = len, seg_next_offset = 0\<rparr>]"

definition segment_indexes :: "u64 \<Rightarrow> usize \<Rightarrow> segment_allocator \<Rightarrow> nat list" where
  "segment_indexes len replica_count segs =
     take (unat replica_count) (map fst (filter (\<lambda>(i, s). can_fit len s) (enumerate 0 segs)))"

fun allocate_at :: "u64 \<Rightarrow> nat list \<Rightarrow> segment_allocator \<Rightarrow> segment_allocation list \<times> segment_allocator"
where
  "allocate_at len [] segs = ([], segs)"
| "allocate_at len (index # rest) segs =
     (let segment = segs ! index;
          offset = seg_next_offset segment;
          segs' = segs[index := segment\<lparr>seg_next_offset := saturating_add offset len\<rparr>];
          (allocations, segs'') = allocate_at len rest segs'
      in (\<lparr>alloc_node_id = seg_node_id segment, alloc_offset = offset, alloc_len = len\<rparr> # allocations,
          segs''))"

definition allocator_allocate ::
  "u64 \<Rightarrow> usize \<Rightarrow> segment_allocator \<Rightarrow> cache_error + segment_allocation list \<times> segment_allocator" where
  "allocator_allocate len replica_count segs =
     (if len = 0 then Inl (Conflict ''object length must be greater than zero'')
      else if replica_count = 0 then Inl (Conflict ''replica count must be greater than zero'')
      else let indexes = segment_indexes len replica_count segs
           in if length indexes \<noteq> unat replica_count
              then Inl (Conflict ''insufficient mounted segment capacity'')
              else Inr (allocate_at len indexes segs))"

section \<open>Lemmas\<close>

definition segments_ok :: "segment_allocator \<Rightarrow> bool" where
  "segments_ok segs \<longleftrightarrow> (\<forall>s \<in> set segs. seg_next_offset s \<le> seg_len s)"

definition allocated_bytes :: "segment_allocator \<Rightarrow> nat" where
  "allocated_bytes segs = sum_list (map (unat \<circ> seg_next_offset) segs)"

definition mounted_bytes :: "segment_allocator \<Rightarrow> nat" where
  "mounted_bytes segs = sum_list (map (unat \<circ> seg_len) segs)"

lemma can_fit_iff: "can_fit len s \<longleftrightarrow> unat (seg_next_offset s) + unat len \<le> unat (seg_len s)"
proof (cases "checked_add (seg_next_offset s) len")
  case None
  then have "2 ^ 64 \<le> unat (seg_next_offset s) + unat len"
    by (simp add: checked_add_None)
  then show ?thesis
    using None unat_less_u64 [of "seg_len s"] by (simp add: can_fit_def)
next
  case (Some n)
  then show ?thesis
    by (simp add: can_fit_def word_le_nat_alt checked_add_unat)
qed

lemma can_fit_no_saturation:
  "can_fit len s \<Longrightarrow>
   unat (saturating_add (seg_next_offset s) len) = unat (seg_next_offset s) + unat len"
  using unat_less_u64 [of "seg_len s"] by (simp add: can_fit_iff unat_saturating_add)

lemma segment_indexes_fit:
  assumes "i \<in> set (segment_indexes len n segs)"
  shows "i < length segs \<and> can_fit len (segs ! i)"
  using assms by (auto simp: segment_indexes_def in_set_enumerate_eq dest!: in_set_takeD)

lemma segment_indexes_distinct: "distinct (segment_indexes len n segs)"
proof -
  have "distinct (map fst (filter (\<lambda>(i, s). can_fit len s) (enumerate 0 segs)))"
    by (rule distinct_map_filter) simp
  then show ?thesis
    unfolding segment_indexes_def by (rule distinct_take)
qed

text \<open>What the loop does, said without a loop: each chosen segment advances once.\<close>

lemma allocate_at_eq:
  assumes "distinct idx" and "\<forall>i \<in> set idx. i < length segs"
  shows "allocate_at len idx segs =
    (map (\<lambda>i. \<lparr>alloc_node_id = seg_node_id (segs ! i), alloc_offset = seg_next_offset (segs ! i),
                alloc_len = len\<rparr>) idx,
     map (\<lambda>i. if i \<in> set idx
               then (segs ! i)\<lparr>seg_next_offset := saturating_add (seg_next_offset (segs ! i)) len\<rparr>
               else segs ! i) [0..<length segs])"
  using assms
proof (induction idx arbitrary: segs)
  case Nil
  then show ?case by (simp add: map_nth)
next
  case (Cons i idx)
  let ?segs = "segs[i := (segs ! i)\<lparr>seg_next_offset := saturating_add (seg_next_offset (segs ! i)) len\<rparr>]"
  have "allocate_at len idx ?segs =
    (map (\<lambda>j. \<lparr>alloc_node_id = seg_node_id (?segs ! j), alloc_offset = seg_next_offset (?segs ! j),
                alloc_len = len\<rparr>) idx,
     map (\<lambda>j. if j \<in> set idx
               then (?segs ! j)\<lparr>seg_next_offset := saturating_add (seg_next_offset (?segs ! j)) len\<rparr>
               else ?segs ! j) [0..<length ?segs])"
    using Cons.prems by (intro Cons.IH) auto
  moreover have "j \<in> set idx \<Longrightarrow> ?segs ! j = segs ! j" for j
    using Cons.prems by (metis distinct.simps(2) nth_list_update_neq)
  ultimately show ?case
    using Cons.prems by (auto simp: Let_def nth_list_update intro!: map_cong)
qed

text \<open>The shape of a successful allocation, from which the facts below follow.\<close>

lemma allocate_shape:
  assumes "allocator_allocate len n segs = Inr (allocs, segs')"
  obtains idx where
    "distinct idx" and "\<forall>i \<in> set idx. i < length segs \<and> can_fit len (segs ! i)"
    and "length idx = unat n" and "0 < unat n" and "0 < unat len"
    and "allocs = map (\<lambda>i. \<lparr>alloc_node_id = seg_node_id (segs ! i),
           alloc_offset = seg_next_offset (segs ! i), alloc_len = len\<rparr>) idx"
    and "segs' = map (\<lambda>i. if i \<in> set idx
           then (segs ! i)\<lparr>seg_next_offset := saturating_add (seg_next_offset (segs ! i)) len\<rparr>
           else segs ! i) [0..<length segs]"
proof -
  let ?idx = "segment_indexes len n segs"
  have "allocate_at len ?idx segs = (allocs, segs')" and "length ?idx = unat n"
    and "len \<noteq> 0" and "n \<noteq> 0"
    using assms by (auto simp: allocator_allocate_def Let_def split: if_splits)
  then show thesis
    using allocate_at_eq [OF segment_indexes_distinct, of len n segs segs len]
    by (intro that [of ?idx])
       (auto simp: segment_indexes_distinct unat_gt_0 dest: segment_indexes_fit)
qed

lemma allocate_counts:
  assumes "allocator_allocate len n segs = Inr (allocs, segs')"
  shows "0 < unat len" and "0 < unat n" and "length allocs = unat n"
    and "\<forall>a \<in> set allocs. alloc_len a = len"
  by (rule allocate_shape [OF assms]; auto)+

lemma allocate_frame:
  assumes "allocator_allocate len n segs = Inr (allocs, segs')"
  shows "length segs' = length segs"
    and "map seg_node_id segs' = map seg_node_id segs"
    and "map seg_len segs' = map seg_len segs"
  by (rule allocate_shape [OF assms]; auto intro!: nth_equalityI)+

lemma allocate_segments_ok:
  assumes "allocator_allocate len n segs = Inr (allocs, segs')" and "segments_ok segs"
  shows "segments_ok segs'"
proof (rule allocate_shape [OF assms(1)])
  fix idx
  assume fit: "\<forall>i \<in> set idx. i < length segs \<and> can_fit len (segs ! i)"
    and segs': "segs' = map (\<lambda>i. if i \<in> set idx
           then (segs ! i)\<lparr>seg_next_offset := saturating_add (seg_next_offset (segs ! i)) len\<rparr>
           else segs ! i) [0..<length segs]"
  have "i < length segs \<Longrightarrow> seg_next_offset (segs' ! i) \<le> seg_len (segs' ! i)" for i
    using fit assms(2)
    by (auto simp: segs' segments_ok_def word_le_nat_alt can_fit_no_saturation can_fit_iff)
  then show ?thesis
    unfolding segments_ok_def using allocate_frame(1) [OF assms(1)] by (metis in_set_conv_nth)
qed

text \<open>
  Every replica of an allocation starts where its segment stood and ends where the
  segment stands afterwards, and segments never move backwards.
\<close>

lemma allocate_placement:
  assumes "allocator_allocate len n segs = Inr (allocs, segs')" and "a \<in> set allocs"
  shows "\<exists>i < length segs. alloc_node_id a = seg_node_id (segs ! i)
           \<and> alloc_offset a = seg_next_offset (segs ! i)
           \<and> unat (alloc_offset a) + unat (alloc_len a) = unat (seg_next_offset (segs' ! i))
           \<and> unat (seg_next_offset (segs' ! i)) \<le> unat (seg_len (segs ! i))"
  by (rule allocate_shape [OF assms(1)])
     (use assms(2) in \<open>auto simp: can_fit_no_saturation can_fit_iff\<close>)

lemma allocate_mono:
  assumes "allocator_allocate len n segs = Inr (allocs, segs')" and "i < length segs"
  shows "unat (seg_next_offset (segs ! i)) \<le> unat (seg_next_offset (segs' ! i))"
  by (rule allocate_shape [OF assms(1)])
     (use assms(2) in \<open>auto simp: can_fit_no_saturation\<close>)

lemma allocate_distinct_nodes:
  assumes "allocator_allocate len n segs = Inr (allocs, segs')"
    and "distinct (map seg_node_id segs)"
  shows "distinct (map alloc_node_id allocs)"
proof (rule allocate_shape [OF assms(1)])
  fix idx
  assume "distinct idx" and "\<forall>i \<in> set idx. i < length segs \<and> can_fit len (segs ! i)"
    and "allocs = map (\<lambda>i. \<lparr>alloc_node_id = seg_node_id (segs ! i),
           alloc_offset = seg_next_offset (segs ! i), alloc_len = len\<rparr>) idx"
  then show ?thesis
    using assms(2) by (auto simp: distinct_map inj_on_def comp_def distinct_conv_nth)
qed

lemma sum_list_nth: "(\<Sum>i \<leftarrow> [0..<length xs]. f (xs ! i)) = sum_list (map f xs)"
  by (rule arg_cong [where f = sum_list], rule nth_equalityI) auto

lemma sum_list_bump:
  assumes "distinct idx" and "\<forall>i \<in> set idx. i < k"
  shows "(\<Sum>i \<leftarrow> [0..<k]. f i + (if i \<in> set idx then c else 0)) =
           (\<Sum>i \<leftarrow> [0..<k]. f i) + length idx * (c :: nat)"
proof -
  have "(\<Sum>i \<leftarrow> [0..<k]. if i \<in> set idx then c else 0) = (\<Sum>i \<in> set idx. c)"
    using assms(2)
    by (auto simp: interv_sum_list_conv_sum_set_nat sum.If_cases intro!: sum.cong arg_cong [where f = card])
  then show ?thesis
    using assms(1) by (simp add: sum_list_addf distinct_card)
qed

lemma allocate_allocated_bytes:
  assumes "allocator_allocate len n segs = Inr (allocs, segs')"
  shows "allocated_bytes segs' = allocated_bytes segs + unat n * unat len"
proof (rule allocate_shape [OF assms])
  fix idx
  assume idx: "distinct idx" "\<forall>i \<in> set idx. i < length segs \<and> can_fit len (segs ! i)"
      "length idx = unat n"
    and segs': "segs' = map (\<lambda>i. if i \<in> set idx
           then (segs ! i)\<lparr>seg_next_offset := saturating_add (seg_next_offset (segs ! i)) len\<rparr>
           else segs ! i) [0..<length segs]"
  have "allocated_bytes segs' =
      (\<Sum>i \<leftarrow> [0..<length segs]. unat (seg_next_offset (segs ! i))
         + (if i \<in> set idx then unat len else 0))"
    unfolding allocated_bytes_def segs' map_map
    by (rule arg_cong [where f = sum_list], rule map_cong)
       (use idx(2) in \<open>auto simp: can_fit_no_saturation\<close>)
  also have "\<dots> = (\<Sum>i \<leftarrow> [0..<length segs]. unat (seg_next_offset (segs ! i)))
      + unat n * unat len"
    using sum_list_bump [OF idx(1), of "length segs"] idx by simp
  also have "(\<Sum>i \<leftarrow> [0..<length segs]. unat (seg_next_offset (segs ! i))) = allocated_bytes segs"
    by (simp add: allocated_bytes_def sum_list_nth [of "\<lambda>s. unat (seg_next_offset s)"] comp_def)
  finally show ?thesis .
qed

lemma allocated_le_mounted: "segments_ok segs \<Longrightarrow> allocated_bytes segs \<le> mounted_bytes segs"
  by (auto simp: segments_ok_def allocated_bytes_def mounted_bytes_def word_le_nat_alt
      intro!: sum_list_mono)

lemma allocator_mount_simps [simp]:
  "segments_ok (allocator_mount node len segs) \<longleftrightarrow> segments_ok segs"
  "allocated_bytes (allocator_mount node len segs) = allocated_bytes segs"
  "mounted_bytes (allocator_mount node len segs) = mounted_bytes segs + unat len"
  "map seg_node_id (allocator_mount node len segs) = map seg_node_id segs @ [node]"
  by (auto simp: allocator_mount_def segments_ok_def allocated_bytes_def mounted_bytes_def)

end
