(* ===== verification/Lease.thy ===== *)
theory Lease
imports Common
begin

text \<open>
  \<^verbatim>\<open>crates/master/src/object.rs\<close> and \<^verbatim>\<open>crates/master/src/lease.rs\<close>: the metadata of a cached
  object and the read leases. The wall clock (\<^verbatim>\<open>now_ms\<close>) is an argument.
\<close>

section \<open>Objects\<close>

datatype object_status = Reserving | Writing | Committed | Revoked | Evicted

record replica_descriptor =
  rep_node_id :: string
  rep_offset :: u64
  rep_len :: u64

record cache_object_meta =
  obj_tenant_id :: tenant_id
  obj_cache_key :: cache_key
  obj_len :: u64
  obj_status :: object_status
  obj_replicas :: "replica_descriptor list"
  obj_hard_pinned :: bool
  obj_soft_pinned_until_ms :: "u64 option"

section \<open>Leases\<close>

definition default_lease_ttl_ms :: u64 where
  "default_lease_ttl_ms = 5000"

record lease =
  lease_id :: string
  expires_at_ms :: u64

definition lease_new_at :: "u64 \<Rightarrow> u64 \<Rightarrow> lease" where
  "lease_new_at sequence now_ms =
     \<lparr>lease_id = ''lease-'' @ show_nat (unat sequence),
      expires_at_ms = saturating_add now_ms default_lease_ttl_ms\<rparr>"

record replica_list =
  rl_replicas :: "replica_descriptor list"
  rl_lease :: lease

type_synonym object_key = "tenant_id \<times> cache_key"
type_synonym lease_tracker = "(object_key, lease) hash_map"

definition lease_refresh ::
  "tenant_id \<Rightarrow> cache_key \<Rightarrow> u64 \<Rightarrow> u64 \<Rightarrow> lease_tracker \<Rightarrow> lease \<times> lease_tracker" where
  "lease_refresh tenant_id cache_key sequence now_ms leases =
     (let lease = lease_new_at sequence now_ms
      in (lease, hm_insert (tenant_id, cache_key) lease leases))"

definition has_active_lease :: "tenant_id \<Rightarrow> cache_key \<Rightarrow> u64 \<Rightarrow> lease_tracker \<Rightarrow> bool" where
  "has_active_lease tenant_id cache_key now_ms leases =
     (case hm_get leases (tenant_id, cache_key) of
        None \<Rightarrow> False | Some lease \<Rightarrow> expires_at_ms lease > now_ms)"

definition lease_remove :: "tenant_id \<Rightarrow> cache_key \<Rightarrow> lease_tracker \<Rightarrow> lease_tracker" where
  "lease_remove tenant_id cache_key leases = hm_remove (tenant_id, cache_key) leases"

section \<open>Lemmas\<close>

lemma lease_id_inject: "lease_id (lease_new_at m t) = lease_id (lease_new_at n t') \<longleftrightarrow> m = n"
  by (simp add: lease_new_at_def word_unat_eq_iff)

text \<open>
  A refreshed lease is active for five seconds and for no longer, unless the clock is
  within five seconds of its last value.
\<close>

lemma lease_active_window:
  assumes "unat now + 5000 < 18446744073709551616"
  shows "has_active_lease t k later (snd (lease_refresh t k n now leases))
           \<longleftrightarrow> unat later < unat now + 5000"
  using assms
  by (simp add: has_active_lease_def lease_refresh_def Let_def lease_new_at_def
      default_lease_ttl_ms_def word_less_nat_alt unat_saturating_add)

lemma has_active_lease_refresh_other:
  "(t', k') \<noteq> (t, k) \<Longrightarrow>
   has_active_lease t' k' now (snd (lease_refresh t k n clock leases)) = has_active_lease t' k' now leases"
  by (auto simp: has_active_lease_def lease_refresh_def Let_def)

lemma has_active_lease_remove [simp]:
  "has_active_lease t' k' now (lease_remove t k leases)
     \<longleftrightarrow> (t', k') \<noteq> (t, k) \<and> has_active_lease t' k' now leases"
  by (auto simp: has_active_lease_def lease_remove_def)

end
