(* ===== verification/Metrics.thy ===== *)
theory Metrics
imports Common
begin

text \<open>
  \<^verbatim>\<open>crates/common/src/metrics.rs\<close>: the observable statuses and their labels, the gateway's
  and the admin service's counters, and the snapshot types. An \<^verbatim>\<open>AtomicU64\<close> is its value;
  \<^verbatim>\<open>fetch_add\<close> wraps around, as \<open>+\<close> on words does. A latency arrives in microseconds as
  the natural number \<^verbatim>\<open>Duration::as_micros\<close> gives.
\<close>

section \<open>Statuses and labels\<close>

datatype cache_metric =
    RequestTotal | RequestLatencySeconds | VendorCallsAvoidedTotal | SingleflightWaitersTotal
  | MasterObjectsTotal | MasterEvictionsTotal | StoreDramBytes | StoreSsdBytes
  | StoreReadLatencySeconds | AdminAuditEventsTotal

fun metric_name :: "cache_metric \<Rightarrow> string" where
  "metric_name RequestTotal = ''mooncache_gateway_requests_total''"
| "metric_name RequestLatencySeconds = ''mooncache_gateway_request_latency_seconds''"
| "metric_name VendorCallsAvoidedTotal = ''mooncache_gateway_vendor_calls_avoided_total''"
| "metric_name SingleflightWaitersTotal = ''mooncache_gateway_singleflight_waiters_total''"
| "metric_name MasterObjectsTotal = ''mooncache_master_objects_total''"
| "metric_name MasterEvictionsTotal = ''mooncache_master_evictions_total''"
| "metric_name StoreDramBytes = ''mooncache_store_dram_bytes''"
| "metric_name StoreSsdBytes = ''mooncache_store_ssd_bytes''"
| "metric_name StoreReadLatencySeconds = ''mooncache_store_read_latency_seconds''"
| "metric_name AdminAuditEventsTotal = ''mooncache_admin_audit_events_total''"

datatype observed_status =
  ObsHit | ObsMiss | ObsBypass | ObsIneligible | ObsCacheOnlyMiss | ObsDegraded

fun observed_status_label :: "observed_status \<Rightarrow> string" where
  "observed_status_label ObsHit = ''hit''"
| "observed_status_label ObsMiss = ''miss''"
| "observed_status_label ObsBypass = ''bypass''"
| "observed_status_label ObsIneligible = ''ineligible''"
| "observed_status_label ObsCacheOnlyMiss = ''cache_only_miss''"
| "observed_status_label ObsDegraded = ''degraded''"

datatype observed_write = ObsCommitted | ObsFailed | ObsSkipped

fun observed_write_label :: "observed_write \<Rightarrow> string" where
  "observed_write_label ObsCommitted = ''committed''"
| "observed_write_label ObsFailed = ''failed''"
| "observed_write_label ObsSkipped = ''skipped''"

datatype singleflight_role = RoleLeader | RoleWaiter | RoleNone | RoleOverCapacity

fun singleflight_role_label :: "singleflight_role \<Rightarrow> string" where
  "singleflight_role_label RoleLeader = ''leader''"
| "singleflight_role_label RoleWaiter = ''waiter''"
| "singleflight_role_label RoleNone = ''none''"
| "singleflight_role_label RoleOverCapacity = ''over_capacity''"

section \<open>Gateway counters\<close>

record gateway_metrics =
  cache_hits :: u64
  cache_misses :: u64
  cache_bypasses :: u64
  cache_ineligible :: u64
  cache_only_misses :: u64
  cache_degraded :: u64
  write_committed :: u64
  write_failed :: u64
  write_skipped :: u64
  singleflight_leaders :: u64
  singleflight_waiters :: u64
  singleflight_none :: u64
  singleflight_over_capacity :: u64
  vendor_calls :: u64
  vendor_latency_micros_total :: u64

definition gateway_metrics_default :: gateway_metrics where
  "gateway_metrics_default =
     \<lparr>cache_hits = 0, cache_misses = 0, cache_bypasses = 0, cache_ineligible = 0,
      cache_only_misses = 0, cache_degraded = 0, write_committed = 0, write_failed = 0,
      write_skipped = 0, singleflight_leaders = 0, singleflight_waiters = 0,
      singleflight_none = 0, singleflight_over_capacity = 0, vendor_calls = 0,
      vendor_latency_micros_total = 0\<rparr>"

fun record_cache_status :: "observed_status \<Rightarrow> gateway_metrics \<Rightarrow> gateway_metrics" where
  "record_cache_status ObsHit m = m\<lparr>cache_hits := cache_hits m + 1\<rparr>"
| "record_cache_status ObsMiss m = m\<lparr>cache_misses := cache_misses m + 1\<rparr>"
| "record_cache_status ObsBypass m = m\<lparr>cache_bypasses := cache_bypasses m + 1\<rparr>"
| "record_cache_status ObsIneligible m = m\<lparr>cache_ineligible := cache_ineligible m + 1\<rparr>"
| "record_cache_status ObsCacheOnlyMiss m = m\<lparr>cache_only_misses := cache_only_misses m + 1\<rparr>"
| "record_cache_status ObsDegraded m = m\<lparr>cache_degraded := cache_degraded m + 1\<rparr>"

fun record_write :: "observed_write \<Rightarrow> gateway_metrics \<Rightarrow> gateway_metrics" where
  "record_write ObsCommitted m = m\<lparr>write_committed := write_committed m + 1\<rparr>"
| "record_write ObsFailed m = m\<lparr>write_failed := write_failed m + 1\<rparr>"
| "record_write ObsSkipped m = m\<lparr>write_skipped := write_skipped m + 1\<rparr>"

fun record_singleflight :: "singleflight_role \<Rightarrow> gateway_metrics \<Rightarrow> gateway_metrics" where
  "record_singleflight RoleLeader m = m\<lparr>singleflight_leaders := singleflight_leaders m + 1\<rparr>"
| "record_singleflight RoleWaiter m = m\<lparr>singleflight_waiters := singleflight_waiters m + 1\<rparr>"
| "record_singleflight RoleNone m = m\<lparr>singleflight_none := singleflight_none m + 1\<rparr>"
| "record_singleflight RoleOverCapacity m =
     m\<lparr>singleflight_over_capacity := singleflight_over_capacity m + 1\<rparr>"

definition record_vendor_call :: "nat \<Rightarrow> gateway_metrics \<Rightarrow> gateway_metrics" where
  "record_vendor_call micros m =
     m\<lparr>vendor_calls := vendor_calls m + 1,
       vendor_latency_micros_total :=
         vendor_latency_micros_total m + max (word_of_nat (min micros u64_max)) 1\<rparr>"

section \<open>Admin counters\<close>

datatype admin_action_result = ActSuccess | ActDenied | ActFailed

fun admin_action_result_label :: "admin_action_result \<Rightarrow> string" where
  "admin_action_result_label ActSuccess = ''success''"
| "admin_action_result_label ActDenied = ''denied''"
| "admin_action_result_label ActFailed = ''failed''"

record admin_metrics =
  audit_events_total :: u64
  audit_success_total :: u64
  audit_denied_total :: u64
  audit_failed_total :: u64
  action_counts :: "(string, u64) btree_map"

definition admin_metrics_default :: admin_metrics where
  "admin_metrics_default =
     \<lparr>audit_events_total = 0, audit_success_total = 0, audit_denied_total = 0,
      audit_failed_total = 0, action_counts = []\<rparr>"

definition record_action :: "string \<Rightarrow> admin_action_result \<Rightarrow> admin_metrics \<Rightarrow> admin_metrics" where
  "record_action action res m =
     (let m1 = m\<lparr>audit_events_total := audit_events_total m + 1\<rparr>;
          m2 = (case res of
                  ActSuccess \<Rightarrow> m1\<lparr>audit_success_total := audit_success_total m1 + 1\<rparr>
                | ActDenied \<Rightarrow> m1\<lparr>audit_denied_total := audit_denied_total m1 + 1\<rparr>
                | ActFailed \<Rightarrow> m1\<lparr>audit_failed_total := audit_failed_total m1 + 1\<rparr>);
          counts = action_counts m2;
          old = (case bt_get counts action of None \<Rightarrow> 0 | Some n \<Rightarrow> n)
      in m2\<lparr>action_counts := bt_insert action (old + 1) counts\<rparr>)"

section \<open>Snapshots\<close>

record gateway_metrics_snapshot =
  gms_cache_hits :: u64
  gms_cache_misses :: u64
  gms_cache_bypasses :: u64
  gms_cache_ineligible :: u64
  gms_cache_only_misses :: u64
  gms_cache_degraded :: u64
  gms_write_committed :: u64
  gms_write_failed :: u64
  gms_write_skipped :: u64
  gms_singleflight_leaders :: u64
  gms_singleflight_waiters :: u64
  gms_singleflight_none :: u64
  gms_singleflight_over_capacity :: u64
  gms_vendor_calls :: u64
  gms_vendor_latency_micros_total :: u64

definition gateway_snapshot :: "gateway_metrics \<Rightarrow> gateway_metrics_snapshot" where
  "gateway_snapshot m =
     \<lparr>gms_cache_hits = cache_hits m,
      gms_cache_misses = cache_misses m,
      gms_cache_bypasses = cache_bypasses m,
      gms_cache_ineligible = cache_ineligible m,
      gms_cache_only_misses = cache_only_misses m,
      gms_cache_degraded = cache_degraded m,
      gms_write_committed = write_committed m,
      gms_write_failed = write_failed m,
      gms_write_skipped = write_skipped m,
      gms_singleflight_leaders = singleflight_leaders m,
      gms_singleflight_waiters = singleflight_waiters m,
      gms_singleflight_none = singleflight_none m,
      gms_singleflight_over_capacity = singleflight_over_capacity m,
      gms_vendor_calls = vendor_calls m,
      gms_vendor_latency_micros_total = vendor_latency_micros_total m\<rparr>"

record admin_metrics_snapshot =
  ams_audit_events_total :: u64
  ams_audit_success_total :: u64
  ams_audit_denied_total :: u64
  ams_audit_failed_total :: u64
  ams_action_counts :: "(string, u64) btree_map"

definition admin_snapshot :: "admin_metrics \<Rightarrow> admin_metrics_snapshot" where
  "admin_snapshot m =
     \<lparr>ams_audit_events_total = audit_events_total m,
      ams_audit_success_total = audit_success_total m,
      ams_audit_denied_total = audit_denied_total m,
      ams_audit_failed_total = audit_failed_total m,
      ams_action_counts = action_counts m\<rparr>"

record store_capacity_snapshot =
  dram_bytes_used :: u64
  dram_bytes_capacity :: u64
  ssd_bytes_used :: u64
  ssd_bytes_capacity :: u64

record master_metrics_snapshot =
  objects_total :: u64
  snap_evictions_total :: u64

section \<open>Trace fields\<close>

record gateway_trace_fields =
  gtf_request_id :: string
  gtf_tenant_id :: string
  gtf_cache_key_redacted :: string
  gtf_cache_status :: observed_status
  gtf_vendor_id :: string
  gtf_model_version :: string
  gtf_coalesced_role :: singleflight_role
  gtf_writeback_status :: observed_write

definition as_label_pairs :: "gateway_trace_fields \<Rightarrow> (string, string) btree_map" where
  "as_label_pairs f = fold (\<lambda>(k, v). bt_insert k v)
     [(''request_id'', gtf_request_id f),
      (''tenant_id'', gtf_tenant_id f),
      (''cache_key'', gtf_cache_key_redacted f),
      (''cache_status'', observed_status_label (gtf_cache_status f)),
      (''vendor_id'', gtf_vendor_id f),
      (''model_version'', gtf_model_version f),
      (''coalesced_role'', singleflight_role_label (gtf_coalesced_role f)),
      (''writeback_status'', observed_write_label (gtf_writeback_status f))] []"

section \<open>Lemmas\<close>

text \<open>The requests a gateway has recorded, summed over the outcomes.\<close>

definition status_total :: "gateway_metrics \<Rightarrow> u64" where
  "status_total m =
     cache_hits m + cache_misses m + cache_bypasses m + cache_ineligible m
     + cache_only_misses m + cache_degraded m"

definition write_total :: "gateway_metrics \<Rightarrow> u64" where
  "write_total m = write_committed m + write_failed m + write_skipped m"

lemma status_total_record [simp]:
  "status_total (record_cache_status s m) = status_total m + 1"
  "status_total (record_write w m) = status_total m"
  "status_total (record_singleflight r m) = status_total m"
  "status_total (record_vendor_call n m) = status_total m"
  by ((cases s; simp add: status_total_def)[1], (cases w; simp add: status_total_def)[1],
      (cases r; simp add: status_total_def)[1], simp add: status_total_def record_vendor_call_def)

lemma write_total_record [simp]:
  "write_total (record_cache_status s m) = write_total m"
  "write_total (record_write w m) = write_total m + 1"
  "write_total (record_singleflight r m) = write_total m"
  "write_total (record_vendor_call n m) = write_total m"
  by ((cases s; simp add: write_total_def)[1], (cases w; simp add: write_total_def)[1],
      (cases r; simp add: write_total_def)[1], simp add: write_total_def record_vendor_call_def)

lemma vendor_calls_record [simp]:
  "vendor_calls (record_cache_status s m) = vendor_calls m"
  "vendor_calls (record_write w m) = vendor_calls m"
  "vendor_calls (record_singleflight r m) = vendor_calls m"
  "vendor_calls (record_vendor_call n m) = vendor_calls m + 1"
  by ((cases s; simp)[1], (cases w; simp)[1], (cases r; simp)[1],
      simp add: record_vendor_call_def)

text \<open>The three result counters always add up to the event counter.\<close>

definition admin_metrics_balanced :: "admin_metrics \<Rightarrow> bool" where
  "admin_metrics_balanced m \<longleftrightarrow>
     audit_events_total m = audit_success_total m + audit_denied_total m + audit_failed_total m
     \<and> audit_events_total m = sum_list (map snd (action_counts m))
     \<and> bt_ok (action_counts m)"

lemma sum_list_bt_insert:
  fixes m :: "('k::linorder, u64) btree_map"
  assumes "bt_ok m"
  shows "sum_list (map snd (bt_insert k v m)) =
           sum_list (map snd m) + v - (case bt_get m k of None \<Rightarrow> 0 | Some n \<Rightarrow> n)"
  using assms
proof (induction k v m rule: bt_insert.induct)
  case (2 k v k' v' m)
  have "k < k' \<Longrightarrow> map_of m k = None"
    using "2.prems" by (auto simp: map_of_eq_None_iff dest: order.asym less_trans)
  then show ?case
    using 2 by (auto simp: bt_get_def algebra_simps split: option.splits)
qed (simp add: bt_get_def)

lemma admin_metrics_balanced_default [simp]: "admin_metrics_balanced admin_metrics_default"
  by (simp add: admin_metrics_balanced_def admin_metrics_default_def)

lemma admin_metrics_balanced_record [simp]:
  "admin_metrics_balanced m \<Longrightarrow> admin_metrics_balanced (record_action a r m)"
  by (cases r)
     (auto simp: admin_metrics_balanced_def record_action_def Let_def sum_list_bt_insert
       split: option.splits)

lemma audit_events_total_record [simp]:
  "audit_events_total (record_action a r m) = audit_events_total m + 1"
  by (cases r) (simp_all add: record_action_def Let_def)

end
