(* ===== verification/Master.thy ===== *)
theory Master
imports Quota Allocator Lease Metrics
begin

text \<open>
  \<^verbatim>\<open>crates/master/src/state.rs\<close> and \<^verbatim>\<open>crates/master/src/eviction.rs\<close>: the control plane. A
  \<^verbatim>\<open>&mut self\<close> method takes the state last and returns its result with the new state. The
  wall clock is an argument of the operations that read it; \<^verbatim>\<open>evict_for_tenant\<close>, whose
  result depends on the iteration order of a hash map, also takes the entries in the order
  of the iteration.
\<close>

section \<open>Eviction classes\<close>

datatype eviction_candidate_class = Normal | SoftPinned

definition candidate_class ::
  "cache_object_meta \<Rightarrow> bool \<Rightarrow> u64 \<Rightarrow> eviction_candidate_class option" where
  "candidate_class obj active_lease now_ms =
     (if obj_status obj \<noteq> Committed \<or> active_lease \<or> obj_hard_pinned obj then None
      else if (case obj_soft_pinned_until_ms obj of
                 None \<Rightarrow> False | Some expires \<Rightarrow> expires > now_ms)
           then Some SoftPinned
           else Some Normal)"

section \<open>State\<close>

record master_state =
  objects :: "(object_key, cache_object_meta) hash_map"
  quotas :: "(tenant_id, tenant_quota) hash_map"
  leases :: lease_tracker
  allocator :: segment_allocator
  next_lease_sequence :: u64
  evictions_total :: u64

record master_metadata_snapshot =
  snap_objects :: "cache_object_meta list"
  snap_quotas :: "(tenant_id \<times> tenant_quota) list"
  snap_evictions :: u64

definition master_new :: master_state where
  "master_new =
     \<lparr>objects = [], quotas = [], leases = [], allocator = [], next_lease_sequence = 0,
      evictions_total = 0\<rparr>"

definition quota_reserved_bytes :: "cache_object_meta \<Rightarrow> u64" where
  "quota_reserved_bytes obj =
     (if obj_status obj \<in> {Reserving, Writing, Committed} then obj_len obj else 0)"

definition metadata_snapshot :: "master_state \<Rightarrow> master_metadata_snapshot" where
  "metadata_snapshot st =
     \<lparr>snap_objects = map snd (objects st), snap_quotas = quotas st,
      snap_evictions = evictions_total st\<rparr>"

definition from_metadata_snapshot :: "master_metadata_snapshot \<Rightarrow> master_state" where
  "from_metadata_snapshot snap =
     \<lparr>objects = fold (\<lambda>(k, v). hm_insert k v)
        (map (\<lambda>obj. ((obj_tenant_id obj, obj_cache_key obj), obj)) (snap_objects snap)) [],
      quotas = fold (\<lambda>(k, v). hm_insert k v) (snap_quotas snap) [],
      leases = [], allocator = [], next_lease_sequence = 0,
      evictions_total = snap_evictions snap\<rparr>"

definition mount_segment :: "string \<Rightarrow> u64 \<Rightarrow> master_state \<Rightarrow> master_state" where
  "mount_segment node_id len st = st\<lparr>allocator := allocator_mount node_id len (allocator st)\<rparr>"

definition observability_snapshot :: "master_state \<Rightarrow> master_metrics_snapshot" where
  "observability_snapshot st =
     \<lparr>objects_total = word_of_nat (length (objects st)),
      snap_evictions_total = evictions_total st\<rparr>"

section \<open>Quotas\<close>

definition tenant_used_bytes :: "tenant_id \<Rightarrow> (object_key, cache_object_meta) hash_map \<Rightarrow> u64" where
  "tenant_used_bytes tenant_id objs =
     fold (\<lambda>(_, obj) used. saturating_add used (quota_reserved_bytes obj))
       (filter (\<lambda>(_, obj). obj_tenant_id obj = tenant_id) objs) 0"

definition set_tenant_quota ::
  "string \<Rightarrow> u64 \<Rightarrow> u64 \<Rightarrow> master_state \<Rightarrow> unit cache_result \<times> master_state" where
  "set_tenant_quota tenant dram ssd st =
     (case parse_tenant_id tenant of
        Inl e \<Rightarrow> (Inl e, st)
      | Inr tenant_id \<Rightarrow>
          let used = tenant_used_bytes tenant_id (objects st)
          in (Inr (), st\<lparr>quotas := hm_insert tenant_id (quota_with_usage dram ssd used) (quotas st)\<rparr>))"

definition reserve_tenant_quota ::
  "tenant_id \<Rightarrow> u64 \<Rightarrow> master_state \<Rightarrow> unit cache_result \<times> master_state" where
  "reserve_tenant_quota tenant_id bytes st =
     (case hm_get (quotas st) tenant_id of
        None \<Rightarrow> (Inr (), st)
      | Some quota \<Rightarrow>
          (case reserve_dram bytes quota of
             Inl e \<Rightarrow> (Inl e, st)
           | Inr quota' \<Rightarrow> (Inr (), st\<lparr>quotas := hm_modify tenant_id (\<lambda>_. quota') (quotas st)\<rparr>)))"

definition release_tenant_quota :: "tenant_id \<Rightarrow> u64 \<Rightarrow> master_state \<Rightarrow> master_state" where
  "release_tenant_quota tenant_id bytes st =
     st\<lparr>quotas := hm_modify tenant_id (release_dram bytes) (quotas st)\<rparr>"

section \<open>Object life cycle\<close>

definition replica_of_allocation :: "segment_allocation \<Rightarrow> replica_descriptor" where
  "replica_of_allocation a =
     \<lparr>rep_node_id = alloc_node_id a, rep_offset = alloc_offset a, rep_len = alloc_len a\<rparr>"

definition put_start ::
  "tenant_id \<Rightarrow> cache_key \<Rightarrow> u64 \<Rightarrow> usize \<Rightarrow> master_state
   \<Rightarrow> replica_descriptor list cache_result \<times> master_state" where
  "put_start tenant_id cache_key len replica_count st =
     (if hm_get (objects st) (tenant_id, cache_key) \<noteq> None
      then (Inl (Conflict ''object already exists''), st)
      else case reserve_tenant_quota tenant_id len st of
        (Inl e, st1) \<Rightarrow> (Inl e, st1)
      | (Inr _, st1) \<Rightarrow>
          (case allocator_allocate len replica_count (allocator st1) of
             Inl e \<Rightarrow> (Inl e, release_tenant_quota tenant_id len st1)
           | Inr (allocations, alloc') \<Rightarrow>
               let replicas = map replica_of_allocation allocations
               in (Inr replicas,
                   st1\<lparr>allocator := alloc',
                       objects := hm_insert (tenant_id, cache_key)
                         \<lparr>obj_tenant_id = tenant_id, obj_cache_key = cache_key, obj_len = len,
                          obj_status = Reserving, obj_replicas = replicas,
                          obj_hard_pinned = False, obj_soft_pinned_until_ms = None\<rparr>
                         (objects st1)\<rparr>)))"

definition put_end ::
  "tenant_id \<Rightarrow> cache_key \<Rightarrow> master_state \<Rightarrow> unit cache_result \<times> master_state" where
  "put_end tenant_id cache_key st =
     (case hm_get (objects st) (tenant_id, cache_key) of
        None \<Rightarrow> (Inl NotFound, st)
      | Some obj \<Rightarrow>
          (case obj_status obj of
             Reserving \<Rightarrow>
               (Inr (), st\<lparr>objects := hm_modify (tenant_id, cache_key)
                                (\<lambda>obj. obj\<lparr>obj_status := Committed\<rparr>) (objects st)\<rparr>)
           | Writing \<Rightarrow>
               (Inr (), st\<lparr>objects := hm_modify (tenant_id, cache_key)
                                (\<lambda>obj. obj\<lparr>obj_status := Committed\<rparr>) (objects st)\<rparr>)
           | Committed \<Rightarrow> (Inl (Conflict ''object already committed''), st)
           | Revoked \<Rightarrow> (Inl (Conflict ''object is not writable''), st)
           | Evicted \<Rightarrow> (Inl (Conflict ''object is not writable''), st)))"

definition put_revoke ::
  "tenant_id \<Rightarrow> cache_key \<Rightarrow> master_state \<Rightarrow> unit cache_result \<times> master_state" where
  "put_revoke tenant_id cache_key st =
     (case hm_get (objects st) (tenant_id, cache_key) of
        None \<Rightarrow> (Inl NotFound, st)
      | Some obj \<Rightarrow>
          let released_len = quota_reserved_bytes obj;
              st1 = st\<lparr>objects := hm_modify (tenant_id, cache_key)
                            (\<lambda>obj. obj\<lparr>obj_status := Revoked\<rparr>) (objects st)\<rparr>;
              st2 = release_tenant_quota tenant_id released_len st1
          in (Inr (), st2\<lparr>leases := lease_remove tenant_id cache_key (leases st2)\<rparr>))"

definition get_replica_list ::
  "u64 \<Rightarrow> tenant_id \<Rightarrow> cache_key \<Rightarrow> master_state \<Rightarrow> replica_list cache_result \<times> master_state" where
  "get_replica_list now_ms tenant_id cache_key st =
     (case hm_get (objects st) (tenant_id, cache_key) of
        None \<Rightarrow> (Inl NotFound, st)
      | Some obj \<Rightarrow>
          if obj_status obj \<noteq> Committed then (Inl NotFound, st)
          else let sequence = saturating_add (next_lease_sequence st) 1;
                   (lease, leases') =
                     lease_refresh tenant_id cache_key sequence now_ms (leases st)
               in (Inr \<lparr>rl_replicas = obj_replicas obj, rl_lease = lease\<rparr>,
                   st\<lparr>next_lease_sequence := sequence, leases := leases'\<rparr>))"

definition remove ::
  "tenant_id \<Rightarrow> cache_key \<Rightarrow> master_state \<Rightarrow> unit cache_result \<times> master_state" where
  "remove tenant_id cache_key st =
     (case hm_get (objects st) (tenant_id, cache_key) of
        None \<Rightarrow> (Inl NotFound, st)
      | Some obj \<Rightarrow>
          let st1 = st\<lparr>objects := hm_remove (tenant_id, cache_key) (objects st)\<rparr>;
              st2 = release_tenant_quota tenant_id (quota_reserved_bytes obj) st1
          in (Inr (), st2\<lparr>leases := lease_remove tenant_id cache_key (leases st2)\<rparr>))"

section \<open>Eviction\<close>

fun evict_candidate_keys ::
  "tenant_id \<Rightarrow> u64 \<Rightarrow> cache_key list \<Rightarrow> u64 \<Rightarrow> master_state \<Rightarrow> u64 \<times> master_state" where
  "evict_candidate_keys tenant_id target [] reclaimed st = (reclaimed, st)"
| "evict_candidate_keys tenant_id target (cache_key # rest) reclaimed st =
     (if reclaimed \<ge> target then (reclaimed, st)
      else case hm_get (objects st) (tenant_id, cache_key) of
        None \<Rightarrow> evict_candidate_keys tenant_id target rest reclaimed st
      | Some obj \<Rightarrow>
          let released_len = quota_reserved_bytes obj;
              st1 = st\<lparr>objects := hm_modify (tenant_id, cache_key)
                            (\<lambda>obj. obj\<lparr>obj_status := Evicted\<rparr>) (objects st)\<rparr>;
              st2 = release_tenant_quota tenant_id released_len st1;
              st3 = st2\<lparr>leases := lease_remove tenant_id cache_key (leases st2)\<rparr>;
              st4 = st3\<lparr>evictions_total := saturating_add (evictions_total st3) 1\<rparr>
          in evict_candidate_keys tenant_id target rest
               (saturating_add reclaimed released_len) st4)"

fun collect_candidates ::
  "tenant_id \<Rightarrow> u64 \<Rightarrow> lease_tracker \<Rightarrow> (object_key \<times> cache_object_meta) list
   \<Rightarrow> cache_key list \<times> cache_key list" where
  "collect_candidates tenant_id now_ms tracker [] = ([], [])"
| "collect_candidates tenant_id now_ms tracker (((object_tenant_id, cache_key), obj) # rest) =
     (let (normal, soft) = collect_candidates tenant_id now_ms tracker rest
      in if object_tenant_id \<noteq> tenant_id then (normal, soft)
         else case candidate_class obj (has_active_lease object_tenant_id cache_key now_ms tracker) now_ms of
           Some Normal \<Rightarrow> (cache_key # normal, soft)
         | Some SoftPinned \<Rightarrow> (normal, cache_key # soft)
         | None \<Rightarrow> (normal, soft))"

definition evict_for_tenant ::
  "(object_key \<times> cache_object_meta) list \<Rightarrow> u64 \<Rightarrow> tenant_id \<Rightarrow> u64 \<Rightarrow> master_state
   \<Rightarrow> u64 cache_result \<times> master_state" where
  "evict_for_tenant order now_ms tenant_id target st =
     (let (normal, soft) = collect_candidates tenant_id now_ms (leases st) order;
          (reclaimed, st1) = evict_candidate_keys tenant_id target normal 0 st
      in if reclaimed < target
         then let (more, st2) = evict_candidate_keys tenant_id (target - reclaimed) soft 0 st1
              in (Inr (saturating_add reclaimed more), st2)
         else (Inr reclaimed, st1))"

end
