(* ===== verification/Memory_Store.thy ===== *)
theory Memory_Store
imports Lease Metrics
begin

text \<open>
  The crate \<^verbatim>\<open>mooncache-store\<close>, DRAM tier: \<^verbatim>\<open>chunk.rs\<close>, \<^verbatim>\<open>memory.rs\<close> and the error type of
  \<^verbatim>\<open>lib.rs\<close>. SHA-256 comes from the \<^verbatim>\<open>sha2\<close> crate and is the argument
  \<open>sha256\<close>. \<^verbatim>\<open>usize\<close> has 64 bits, so the conversions between \<^verbatim>\<open>usize\<close> and \<^verbatim>\<open>u64\<close> never fail.
\<close>

type_synonym chunk_checksum = bytes

section \<open>Errors and handles\<close>

datatype store_error =
    EmptyChunk
  | InsufficientCapacity (ic_requested: usize) (ic_available: usize)
  | InvalidHandle (ih_offset: u64) (ih_len: u64)
  | LengthMismatch (lm_expected: usize) (lm_actual: usize)
  | UnwrittenChunk
  | ChecksumMismatch (cm_offset: u64)

type_synonym 'a store_result = "store_error + 'a"

record chunk_handle =
  ch_offset :: usize
  ch_len :: usize

definition chunk_handle_new :: "usize \<Rightarrow> usize \<Rightarrow> chunk_handle" where
  "chunk_handle_new offset len = \<lparr>ch_offset = offset, ch_len = len\<rparr>"

definition chunk_is_empty :: "chunk_handle \<Rightarrow> bool" where
  "chunk_is_empty h \<longleftrightarrow> ch_len h = 0"

definition from_replica :: "replica_descriptor \<Rightarrow> chunk_handle store_result" where
  "from_replica r = Inr \<lparr>ch_offset = rep_offset r, ch_len = rep_len r\<rparr>"

section \<open>The memory store\<close>

record chunk_meta =
  cm_len :: usize
  cm_checksum :: "chunk_checksum option"

record memory_store =
  arena :: bytes
  next_offset :: usize
  allocations :: "(usize, chunk_meta) hash_map"

definition memory_with_capacity :: "usize \<Rightarrow> memory_store" where
  "memory_with_capacity capacity =
     \<lparr>arena = replicate (unat capacity) (CHR 0x00), next_offset = 0, allocations = []\<rparr>"

definition invalid_handle :: "chunk_handle \<Rightarrow> store_error" where
  "invalid_handle h = InvalidHandle (ch_offset h) (ch_len h)"

definition chunk_end :: "chunk_handle \<Rightarrow> usize store_result" where
  "chunk_end h = ok_or (checked_add (ch_offset h) (ch_len h)) (invalid_handle h)"

definition capacity :: "memory_store \<Rightarrow> usize" where
  "capacity st = word_of_nat (length (arena st))"

definition available_capacity :: "memory_store \<Rightarrow> usize" where
  "available_capacity st = saturating_sub (capacity st) (next_offset st)"

definition capacity_snapshot :: "memory_store \<Rightarrow> store_capacity_snapshot" where
  "capacity_snapshot st =
     \<lparr>dram_bytes_used = next_offset st, dram_bytes_capacity = capacity st,
      ssd_bytes_used = 0, ssd_bytes_capacity = 0\<rparr>"

definition memory_allocate :: "usize \<Rightarrow> memory_store \<Rightarrow> chunk_handle store_result \<times> memory_store" where
  "memory_allocate len st =
     (if len = 0 then (Inl EmptyChunk, st)
      else case checked_add (next_offset st) len of
        None \<Rightarrow> (Inl (InsufficientCapacity len (available_capacity st)), st)
      | Some end_offset \<Rightarrow>
          if end_offset > capacity st
          then (Inl (InsufficientCapacity len (available_capacity st)), st)
          else let handle = chunk_handle_new (next_offset st) len
               in (Inr handle,
                   st\<lparr>allocations := hm_insert (ch_offset handle) \<lparr>cm_len = len, cm_checksum = None\<rparr>
                        (allocations st),
                      next_offset := end_offset\<rparr>))"

definition validate_allocated_handle :: "chunk_handle \<Rightarrow> memory_store \<Rightarrow> chunk_meta store_result" where
  "validate_allocated_handle h st =
     (case hm_get (allocations st) (ch_offset h) of
        None \<Rightarrow> Inl (invalid_handle h)
      | Some meta \<Rightarrow>
          if cm_len meta \<noteq> ch_len h then Inl (invalid_handle h)
          else case chunk_end h of
            Inl e \<Rightarrow> Inl e
          | Inr end_offset \<Rightarrow> if end_offset > capacity st then Inl (invalid_handle h) else Inr meta)"

definition validate_preallocated_handle :: "chunk_handle \<Rightarrow> usize \<Rightarrow> memory_store \<Rightarrow> unit store_result" where
  "validate_preallocated_handle h write_len st =
     (if chunk_is_empty h then Inl EmptyChunk
      else if write_len \<noteq> ch_len h then Inl (LengthMismatch (ch_len h) write_len)
      else case chunk_end h of
        Inl e \<Rightarrow> Inl e
      | Inr end_offset \<Rightarrow>
          if end_offset > capacity st
          then Inl (InsufficientCapacity (ch_len h) (saturating_sub (capacity st) (ch_offset h)))
          else Inr ())"

text \<open>\<^verbatim>\<open>arena.get(offset..end)\<close>, and the arena after \<^verbatim>\<open>copy_from_slice\<close> into that range.\<close>

definition arena_get :: "usize \<Rightarrow> usize \<Rightarrow> bytes \<Rightarrow> bytes option" where
  "arena_get offset end_offset a =
     (if unat offset \<le> unat end_offset \<and> unat end_offset \<le> length a
      then Some (take (unat end_offset - unat offset) (drop (unat offset) a)) else None)"

definition arena_put :: "usize \<Rightarrow> bytes \<Rightarrow> bytes \<Rightarrow> bytes" where
  "arena_put offset bs a = take (unat offset) a @ bs @ drop (unat offset + length bs) a"

definition write_chunk ::
  "(bytes \<Rightarrow> chunk_checksum) \<Rightarrow> chunk_handle \<Rightarrow> bytes \<Rightarrow> memory_store \<Rightarrow> unit store_result \<times> memory_store"
where
  "write_chunk sha256 h bs st =
     (case validate_allocated_handle h st of
        Inl e \<Rightarrow> (Inl e, st)
      | Inr _ \<Rightarrow>
          if length bs \<noteq> unat (ch_len h)
          then (Inl (LengthMismatch (ch_len h) (word_of_nat (length bs))), st)
          else case chunk_end h of
            Inl e \<Rightarrow> (Inl e, st)
          | Inr end_offset \<Rightarrow>
              (case arena_get (ch_offset h) end_offset (arena st) of
                 None \<Rightarrow> (Inl (invalid_handle h), st)
               | Some _ \<Rightarrow>
                   (Inr (), st\<lparr>arena := arena_put (ch_offset h) bs (arena st),
                       allocations := hm_modify (ch_offset h)
                         (\<lambda>meta. meta\<lparr>cm_checksum := Some (sha256 bs)\<rparr>) (allocations st)\<rparr>)))"

definition write_preallocated_chunk ::
  "(bytes \<Rightarrow> chunk_checksum) \<Rightarrow> chunk_handle \<Rightarrow> bytes \<Rightarrow> memory_store \<Rightarrow> unit store_result \<times> memory_store"
where
  "write_preallocated_chunk sha256 h bs st =
     (case validate_preallocated_handle h (word_of_nat (length bs)) st of
        Inl e \<Rightarrow> (Inl e, st)
      | Inr _ \<Rightarrow>
          let st1 = st\<lparr>allocations := hm_insert (ch_offset h)
                        \<lparr>cm_len = ch_len h, cm_checksum = None\<rparr> (allocations st)\<rparr>
          in case chunk_end h of
               Inl e \<Rightarrow> (Inl e, st1)
             | Inr end_offset \<Rightarrow>
                 write_chunk sha256 h bs (st1\<lparr>next_offset := max (next_offset st1) end_offset\<rparr>))"

definition read_chunk ::
  "(bytes \<Rightarrow> chunk_checksum) \<Rightarrow> chunk_handle \<Rightarrow> memory_store \<Rightarrow> bytes store_result" where
  "read_chunk sha256 h st =
     (case validate_allocated_handle h st of
        Inl e \<Rightarrow> Inl e
      | Inr meta \<Rightarrow>
          (case cm_checksum meta of
             None \<Rightarrow> Inl UnwrittenChunk
           | Some expected \<Rightarrow>
               (case chunk_end h of
                  Inl e \<Rightarrow> Inl e
                | Inr end_offset \<Rightarrow>
                    (case arena_get (ch_offset h) end_offset (arena st) of
                       None \<Rightarrow> Inl (invalid_handle h)
                     | Some bs \<Rightarrow>
                         if sha256 bs \<noteq> expected then Inl (ChecksumMismatch (ch_offset h))
                         else Inr bs))))"

section \<open>Invariant\<close>

text \<open>
  The arena has at most \<^verbatim>\<open>usize::MAX\<close> bytes; every known chunk is non-empty and ends at or
  below the watermark, which stays within the arena.
\<close>

definition memory_inv :: "memory_store \<Rightarrow> bool" where
  "memory_inv st \<longleftrightarrow>
     length (arena st) \<le> u64_max \<and> hm_ok (allocations st)
     \<and> unat (next_offset st) \<le> length (arena st)
     \<and> (\<forall>off meta. hm_get (allocations st) off = Some meta \<longrightarrow>
          0 < unat (cm_len meta) \<and> unat off + unat (cm_len meta) \<le> unat (next_offset st))"

definition chunk_disjoint :: "chunk_handle \<Rightarrow> chunk_handle \<Rightarrow> bool" where
  "chunk_disjoint a b \<longleftrightarrow>
     unat (ch_offset a) + unat (ch_len a) \<le> unat (ch_offset b)
     \<or> unat (ch_offset b) + unat (ch_len b) \<le> unat (ch_offset a)"

text \<open>A handle the store can serve: non-empty and inside the arena.\<close>

definition chunk_fits :: "chunk_handle \<Rightarrow> memory_store \<Rightarrow> bool" where
  "chunk_fits h st \<longleftrightarrow>
     0 < unat (ch_len h) \<and> unat (ch_offset h) + unat (ch_len h) \<le> length (arena st)"

section \<open>Lemmas on the arena\<close>

lemma chunk_end_eq_Inr:
  "chunk_end h = Inr e \<longleftrightarrow>
     unat (ch_offset h) + unat (ch_len h) < 2 ^ 64 \<and> e = ch_offset h + ch_len h"
  by (auto simp: chunk_end_def ok_or_def checked_add_def split: option.splits)

lemma unat_chunk_end:
  "chunk_end h = Inr e \<Longrightarrow> unat e = unat (ch_offset h) + unat (ch_len h)"
  by (auto simp: chunk_end_eq_Inr unat_add_u64)

lemma unat_capacity: "memory_inv st \<Longrightarrow> unat (capacity st) = length (arena st)"
  by (simp add: memory_inv_def capacity_def unsigned_of_nat take_bit_nat_eq_self)

lemma length_arena_put [simp]:
  "unat off + length bs \<le> length a \<Longrightarrow> length (arena_put off bs a) = length a"
  by (simp add: arena_put_def)

lemma arena_get_put_same:
  assumes "unat off + length bs \<le> length a" and "unat e = unat off + length bs"
  shows "arena_get off e (arena_put off bs a) = Some bs"
  using assms by (simp add: arena_get_def arena_put_def)

lemma arena_get_put_other:
  assumes "unat off + length bs \<le> length a"
    and "unat e \<le> unat off \<or> unat off + length bs \<le> unat off'"
  shows "arena_get off' e (arena_put off bs a) = arena_get off' e a"
proof -
  have "drop (unat off') (take (unat e) (arena_put off bs a)) = drop (unat off') (take (unat e) a)"
    if "unat off' \<le> unat e"
    using assms(2)
  proof
    assume "unat e \<le> unat off"
    then show ?thesis using assms(1) by (simp add: arena_put_def)
  next
    assume "unat off + length bs \<le> unat off'"
    then show ?thesis
      using assms(1) that unfolding drop_take by (simp add: arena_put_def)
  qed
  then show ?thesis
    using assms(1) by (auto simp: arena_get_def take_drop)
qed

section \<open>What each operation does\<close>

lemma validate_allocated_eq_Inr:
  assumes "memory_inv st"
  shows "validate_allocated_handle h st = Inr meta \<longleftrightarrow>
    hm_get (allocations st) (ch_offset h) = Some meta \<and> cm_len meta = ch_len h"
proof -
  have "chunk_end h = Inr (ch_offset h + ch_len h) \<and> \<not> capacity st < ch_offset h + ch_len h"
    if "hm_get (allocations st) (ch_offset h) = Some meta" "cm_len meta = ch_len h" for meta
  proof -
    have "unat (ch_offset h) + unat (ch_len h) \<le> length (arena st)"
      using assms that by (fastforce simp: memory_inv_def)
    then show ?thesis
      using assms unat_capacity [OF assms]
      by (auto simp: chunk_end_eq_Inr word_less_nat_alt unat_add_u64 memory_inv_def)
  qed
  then show ?thesis
    by (auto simp: validate_allocated_handle_def split: option.splits)
qed

lemma write_chunk_Inr:
  assumes "memory_inv st"
  shows "write_chunk sha256 h bs st = (Inr u, st') \<longleftrightarrow>
    (\<exists>meta. hm_get (allocations st) (ch_offset h) = Some meta \<and> cm_len meta = ch_len h)
    \<and> length bs = unat (ch_len h)
    \<and> st' = st\<lparr>arena := arena_put (ch_offset h) bs (arena st),
               allocations := hm_modify (ch_offset h)
                 (\<lambda>meta. meta\<lparr>cm_checksum := Some (sha256 bs)\<rparr>) (allocations st)\<rparr>"
proof (cases "\<exists>meta. hm_get (allocations st) (ch_offset h) = Some meta \<and> cm_len meta = ch_len h")
  case True
  then obtain meta where meta: "hm_get (allocations st) (ch_offset h) = Some meta" "cm_len meta = ch_len h"
    by blast
  have fits: "unat (ch_offset h) + unat (ch_len h) \<le> length (arena st)" "length (arena st) \<le> u64_max"
    using assms meta by (fastforce simp: memory_inv_def)+
  then have e: "chunk_end h = Inr (ch_offset h + ch_len h)"
    by (simp add: chunk_end_eq_Inr)
  have "arena_get (ch_offset h) (ch_offset h + ch_len h) (arena st) \<noteq> None"
    using fits unat_chunk_end [OF e] by (simp add: arena_get_def)
  moreover have "validate_allocated_handle h st = Inr meta"
    using meta by (simp add: validate_allocated_eq_Inr [OF assms])
  ultimately show ?thesis
    using meta e by (auto simp: write_chunk_def)
next
  case False
  then obtain e where "validate_allocated_handle h st = Inl e"
    using validate_allocated_eq_Inr [OF assms] by (metis sum.exhaust)
  with False show ?thesis by (simp add: write_chunk_def)
qed

lemma write_chunk_Inl: "write_chunk sha256 h bs st = (Inl e, st') \<Longrightarrow> st' = st"
  by (auto simp: write_chunk_def split: sum.splits if_splits option.splits)

lemma write_preallocated_Inr:
  assumes inv: "memory_inv st"
  shows "write_preallocated_chunk sha256 h bs st = (Inr u, st') \<longleftrightarrow>
    chunk_fits h st \<and> length bs = unat (ch_len h)
    \<and> st' = st\<lparr>arena := arena_put (ch_offset h) bs (arena st),
               allocations := hm_insert (ch_offset h)
                 \<lparr>cm_len = ch_len h, cm_checksum = Some (sha256 bs)\<rparr> (allocations st),
               next_offset := max (next_offset st) (ch_offset h + ch_len h)\<rparr>"
proof (cases "chunk_fits h st")
  case fits: True
  have small: "length (arena st) \<le> u64_max" using inv by (simp add: memory_inv_def)
  have e: "chunk_end h = Inr (ch_offset h + ch_len h)"
    using fits small by (simp add: chunk_end_eq_Inr chunk_fits_def)
  have bound: "\<not> capacity st < ch_offset h + ch_len h"
    using fits unat_capacity [OF inv] unat_chunk_end [OF e] by (simp add: word_less_nat_alt chunk_fits_def)
  have arena_ok: "arena_get (ch_offset h) (ch_offset h + ch_len h) (arena st) \<noteq> None"
    using fits unat_chunk_end [OF e] by (simp add: arena_get_def chunk_fits_def)
  have nonempty: "\<not> chunk_is_empty h" using fits by (auto simp: chunk_is_empty_def chunk_fits_def)
  have ok: "hm_ok (allocations st)" using inv by (simp add: memory_inv_def)
  show ?thesis
    using fits e bound arena_ok nonempty hm_modify_insert [OF ok]
    by (auto simp: write_preallocated_chunk_def validate_preallocated_handle_def write_chunk_def
        validate_allocated_handle_def capacity_def Let_def)
next
  case False
  have "\<exists>e. validate_preallocated_handle h (word_of_nat (length bs)) st = Inl e"
  proof (cases "chunk_end h")
    case (Inr e)
    then show ?thesis
      using False unat_capacity [OF inv] unat_chunk_end [OF Inr]
      by (auto simp: validate_preallocated_handle_def chunk_fits_def chunk_is_empty_def
          word_less_nat_alt unat_gt_0)
  qed (simp add: validate_preallocated_handle_def)
  with False show ?thesis by (auto simp: write_preallocated_chunk_def)
qed

lemma write_preallocated_Inl:
  assumes "memory_inv st" and "length bs \<le> u64_max"
    and "write_preallocated_chunk sha256 h bs st = (Inl e, st')"
  shows "st' = st"
proof (cases "validate_preallocated_handle h (word_of_nat (length bs)) st")
  case (Inl e')
  then show ?thesis using assms(3) by (simp add: write_preallocated_chunk_def)
next
  case (Inr u)
  then have "ch_len h = word_of_nat (length bs)"
    by (auto simp: validate_preallocated_handle_def split: if_splits)
  then have "length bs = unat (ch_len h)"
    using assms(2) by (simp add: unsigned_of_nat take_bit_nat_eq_self)
  moreover have "chunk_fits h st"
    using Inr unat_capacity [OF assms(1)] unat_chunk_end [of h]
    by (auto simp: validate_preallocated_handle_def chunk_fits_def chunk_is_empty_def
        word_less_nat_alt unat_gt_0 split: if_splits sum.splits)
  ultimately show ?thesis
    using write_preallocated_Inr [OF assms(1)] assms(3) by (metis Pair_inject sum.distinct(1))
qed

lemma memory_allocate_Inr:
  assumes "memory_inv st"
  shows "memory_allocate len st = (Inr h, st') \<longleftrightarrow>
    0 < unat len \<and> unat (next_offset st) + unat len \<le> length (arena st)
    \<and> h = \<lparr>ch_offset = next_offset st, ch_len = len\<rparr>
    \<and> st' = st\<lparr>allocations := hm_insert (next_offset st) \<lparr>cm_len = len, cm_checksum = None\<rparr> (allocations st),
               next_offset := next_offset st + len\<rparr>"
  using assms unat_capacity [OF assms]
  by (auto simp: memory_allocate_def chunk_handle_new_def Let_def checked_add_def word_less_nat_alt
      unat_add_u64 memory_inv_def unat_gt_0 split: if_splits)

lemma memory_allocate_Inl: "memory_allocate len st = (Inl e, st') \<Longrightarrow> st' = st"
  by (auto simp: memory_allocate_def Let_def split: if_splits option.splits)

lemma read_chunk_cong:
  assumes "hm_get (allocations st') (ch_offset h) = hm_get (allocations st) (ch_offset h)"
    and "capacity st' = capacity st"
    and "\<And>e. chunk_end h = Inr e \<Longrightarrow>
      arena_get (ch_offset h) e (arena st') = arena_get (ch_offset h) e (arena st)"
  shows "read_chunk sha256 h st' = read_chunk sha256 h st"
  using assms
  by (auto simp: read_chunk_def validate_allocated_handle_def split: option.splits sum.splits)

lemma read_chunk_Inr:
  assumes "memory_inv st"
  shows "read_chunk sha256 h st = Inr bs \<longleftrightarrow>
    (\<exists>meta. hm_get (allocations st) (ch_offset h) = Some meta \<and> cm_len meta = ch_len h
       \<and> cm_checksum meta = Some (sha256 bs))
    \<and> arena_get (ch_offset h) (ch_offset h + ch_len h) (arena st) = Some bs"
proof -
  have "chunk_end h = Inr (ch_offset h + ch_len h)"
    if "hm_get (allocations st) (ch_offset h) = Some meta" "cm_len meta = ch_len h" for meta
    using that assms by (fastforce simp: memory_inv_def chunk_end_eq_Inr)
  note ends = this
  show ?thesis
  proof (cases "validate_allocated_handle h st")
    case (Inl e)
    then have "\<not> (hm_get (allocations st) (ch_offset h) = Some meta \<and> cm_len meta = ch_len h)" for meta
      using validate_allocated_eq_Inr [OF assms, of h meta] by simp
    with Inl show ?thesis by (auto simp: read_chunk_def)
  next
    case (Inr meta)
    then have meta: "hm_get (allocations st) (ch_offset h) = Some meta" "cm_len meta = ch_len h"
      using validate_allocated_eq_Inr [OF assms] by blast+
    with Inr ends [OF meta] show ?thesis
      by (auto simp: read_chunk_def split: option.splits)
  qed
qed

subsection \<open>The invariant is kept\<close>

lemma memory_inv_with_capacity: "memory_inv (memory_with_capacity n)"
  using unat_less_u64 [of n] by (simp add: memory_inv_def memory_with_capacity_def)

lemma memory_inv_insert:
  assumes "memory_inv st" and "length a = length (arena st)" and "0 < unat (cm_len meta)"
    and "unat off + unat (cm_len meta) \<le> unat n"
    and "unat (next_offset st) \<le> unat n" and "unat n \<le> length (arena st)"
  shows "memory_inv (st\<lparr>arena := a, allocations := hm_insert off meta (allocations st), next_offset := n\<rparr>)"
  using assms by (auto simp: memory_inv_def intro: le_trans)

lemma memory_inv_allocate:
  assumes "memory_inv st"
  shows "memory_inv (snd (memory_allocate len st))"
proof (cases "fst (memory_allocate len st)")
  case (Inl e)
  then show ?thesis using memory_allocate_Inl [of len st e] assms by (metis prod.collapse)
next
  case (Inr h)
  then obtain st' where run: "memory_allocate len st = (Inr h, st')" by (metis prod.collapse)
  note w = run [unfolded memory_allocate_Inr [OF assms]]
  have "unat (next_offset st + len) = unat (next_offset st) + unat len"
    using w assms by (simp add: memory_inv_def unat_add_u64)
  then show ?thesis
    using w assms memory_inv_insert [of st "arena st" "\<lparr>cm_len = len, cm_checksum = None\<rparr>" "next_offset st"
        "next_offset st + len"]
    by (simp add: run)
qed

lemma memory_inv_write:
  assumes "memory_inv st"
  shows "memory_inv (snd (write_chunk sha256 h bs st))"
proof (cases "fst (write_chunk sha256 h bs st)")
  case (Inl e)
  then show ?thesis using write_chunk_Inl [of sha256 h bs st e] assms by (metis prod.collapse)
next
  case (Inr u)
  then obtain st' where run: "write_chunk sha256 h bs st = (Inr u, st')" by (metis prod.collapse)
  note w = run [unfolded write_chunk_Inr [OF assms]]
  have "0 < unat (ch_len h)" and "unat (ch_offset h) + unat (ch_len h) \<le> unat (next_offset st)"
    using w assms unfolding memory_inv_def by metis+
  then show ?thesis
    using w assms by (auto simp: run memory_inv_def)
qed

lemma memory_inv_write_preallocated:
  assumes "memory_inv st" and "length bs \<le> u64_max"
  shows "memory_inv (snd (write_preallocated_chunk sha256 h bs st))"
proof (cases "fst (write_preallocated_chunk sha256 h bs st)")
  case (Inl e)
  then show ?thesis using write_preallocated_Inl [OF assms, of sha256 h e] assms by (metis prod.collapse)
next
  case (Inr u)
  then obtain st' where run: "write_preallocated_chunk sha256 h bs st = (Inr u, st')" by (metis prod.collapse)
  note w = run [unfolded write_preallocated_Inr [OF assms(1)]]
  have sum: "unat (ch_offset h + ch_len h) = unat (ch_offset h) + unat (ch_len h)"
    using w assms(1) by (simp add: chunk_fits_def memory_inv_def unat_add_u64)
  have max: "unat (max a b) = max (unat a) (unat b)" for a b :: usize
    by (simp add: max_def word_le_nat_alt)
  have "memory_inv (st\<lparr>arena := arena_put (ch_offset h) bs (arena st),
      allocations := hm_insert (ch_offset h) \<lparr>cm_len = ch_len h, cm_checksum = Some (sha256 bs)\<rparr> (allocations st),
      next_offset := max (next_offset st) (ch_offset h + ch_len h)\<rparr>)"
    using w assms(1) by (intro memory_inv_insert) (auto simp: chunk_fits_def max sum memory_inv_def)
  then show ?thesis using w by (simp add: run)
qed

section \<open>The interface of a chunk store\<close>

text \<open>
  What a client of \<^verbatim>\<open>trait Store\<close> relies on: a chunk that was written reads back, chunks that
  do not overlap do not affect each other, and a failed write changes nothing.
\<close>

locale chunk_store =
  fixes put :: "chunk_handle \<Rightarrow> bytes \<Rightarrow> 's \<Rightarrow> unit store_result \<times> 's"
    and get :: "chunk_handle \<Rightarrow> 's \<Rightarrow> bytes store_result"
    and inv :: "'s \<Rightarrow> bool"
  assumes inv_write: "inv st \<Longrightarrow> length bs \<le> u64_max \<Longrightarrow> inv (snd (put h bs st))"
    and read_written: "inv st \<Longrightarrow> put h bs st = (Inr u, st') \<Longrightarrow> get h st' = Inr bs"
    and read_other: "inv st \<Longrightarrow> put h bs st = (Inr u, st') \<Longrightarrow> chunk_disjoint h h' \<Longrightarrow>
      0 < unat (ch_len h') \<Longrightarrow> get h' st' = get h' st"
    and write_failed: "inv st \<Longrightarrow> length bs \<le> u64_max \<Longrightarrow> put h bs st = (Inl e, st') \<Longrightarrow> st' = st"
begin

lemma inv_written: "inv st \<Longrightarrow> length bs \<le> u64_max \<Longrightarrow> put h bs st = (r, st') \<Longrightarrow> inv st'"
  using inv_write [of st bs h] by simp

text \<open>Whatever the outcome of a write, the chunks beside it stay as they were.\<close>

lemma read_beside:
  assumes "inv st" and "length bs \<le> u64_max" and "chunk_disjoint h h'" and "0 < unat (ch_len h')"
  shows "get h' (snd (put h bs st)) = get h' st"
  using read_other [OF assms(1) _ assms(3,4)] write_failed [OF assms(1,2)]
  by (cases "fst (put h bs st)") (metis prod.collapse)+

end

lemma arena_fits_put:
  "chunk_fits h st \<Longrightarrow> length bs = unat (ch_len h) \<Longrightarrow>
   length (arena_put (ch_offset h) bs (arena st)) = length (arena st)"
  by (simp add: chunk_fits_def)

lemma allocated_chunk_fits:
  assumes "memory_inv st" and "hm_get (allocations st) (ch_offset h) = Some meta" and "cm_len meta = ch_len h"
  shows "chunk_fits h st"
  using assms by (fastforce simp: memory_inv_def chunk_fits_def)

lemma chunk_disjoint_offsets:
  assumes "chunk_disjoint h h'" and "0 < unat (ch_len h)" and "0 < unat (ch_len h')"
  shows "ch_offset h' \<noteq> ch_offset h"
  using assms by (auto simp: chunk_disjoint_def)

lemma arena_get_beside:
  assumes "chunk_fits h st" and "length bs = unat (ch_len h)" and "chunk_disjoint h h'"
    and "chunk_end h' = Inr e"
  shows "arena_get (ch_offset h') e (arena_put (ch_offset h) bs (arena st)) = arena_get (ch_offset h') e (arena st)"
  using assms unat_chunk_end [OF assms(4)]
  by (intro arena_get_put_other) (auto simp: chunk_fits_def chunk_disjoint_def)

lemma arena_get_written:
  assumes "memory_inv st" and "chunk_fits h st" and "length bs = unat (ch_len h)"
  shows "arena_get (ch_offset h) (ch_offset h + ch_len h) (arena_put (ch_offset h) bs (arena st)) = Some bs"
  using assms by (intro arena_get_put_same) (auto simp: chunk_fits_def memory_inv_def unat_add_u64)

interpretation mem: chunk_store "write_chunk sha256" "read_chunk sha256" memory_inv for sha256
proof (unfold_locales, goal_cases)
  case 1 then show ?case by (simp add: memory_inv_write)
next
  case (2 st h bs u st')
  note w = 2(2) [unfolded write_chunk_Inr [OF 2(1)]]
  have "memory_inv st'" using memory_inv_write [OF 2(1), of sha256 h bs] 2(2) by simp
  then show ?case
    using w arena_get_written [OF 2(1) allocated_chunk_fits [OF 2(1)]]
    by (auto simp: read_chunk_Inr)
next
  case (3 st h bs u st' h')
  note w = 3(2) [unfolded write_chunk_Inr [OF 3(1)]]
  have fits: "chunk_fits h st" using w allocated_chunk_fits [OF 3(1)] by blast
  then have "ch_offset h' \<noteq> ch_offset h"
    using chunk_disjoint_offsets [OF 3(3) _ 3(4)] by (simp add: chunk_fits_def)
  then show ?case
    using w fits 3(3)
    by (intro read_chunk_cong) (auto simp: capacity_def arena_fits_put arena_get_beside)
next
  case 4 then show ?case by (simp add: write_chunk_Inl)
qed

interpretation pre: chunk_store "write_preallocated_chunk sha256" "read_chunk sha256" memory_inv for sha256
proof (unfold_locales, goal_cases)
  case 1 then show ?case by (simp add: memory_inv_write_preallocated)
next
  case (2 st h bs u st')
  note w = 2(2) [unfolded write_preallocated_Inr [OF 2(1)]]
  have "length bs \<le> u64_max" using w unat_less_u64 [of "ch_len h"] by simp
  then have "memory_inv st'" using memory_inv_write_preallocated [OF 2(1), of bs sha256 h] 2(2) by simp
  then show ?case
    using w arena_get_written [OF 2(1)] by (auto simp: read_chunk_Inr)
next
  case (3 st h bs u st' h')
  note w = 3(2) [unfolded write_preallocated_Inr [OF 3(1)]]
  then have "ch_offset h' \<noteq> ch_offset h"
    using chunk_disjoint_offsets [OF 3(3) _ 3(4)] by (simp add: chunk_fits_def)
  then show ?case
    using w 3(3)
    by (intro read_chunk_cong) (auto simp: capacity_def arena_fits_put arena_get_beside)
next
  case 4 then show ?case by (simp add: write_preallocated_Inl)
qed

section \<open>Runs of a store\<close>

text \<open>
  A run of the store with the bytes last written at each offset as a ghost; failing calls
  change nothing and are left out.
\<close>

inductive memory_run ::
  "(bytes \<Rightarrow> chunk_checksum) \<Rightarrow> (usize \<rightharpoonup> bytes) \<Rightarrow> memory_store \<Rightarrow> bool" for sha256 where
  run_start: "memory_run sha256 Map.empty (memory_with_capacity n)"
| run_allocate: "memory_run sha256 g st \<Longrightarrow> memory_allocate len st = (Inr h, st') \<Longrightarrow>
    memory_run sha256 (g(ch_offset h := None)) st'"
| run_write: "memory_run sha256 g st \<Longrightarrow> write_chunk sha256 h bs st = (Inr u, st') \<Longrightarrow>
    memory_run sha256 (g(ch_offset h \<mapsto> bs)) st'"
| run_write_preallocated:
    "memory_run sha256 g st \<Longrightarrow> write_preallocated_chunk sha256 h bs st = (Inr u, st') \<Longrightarrow>
    memory_run sha256 (g(ch_offset h \<mapsto> bs)) st'"

lemma memory_run_inv:
  assumes "memory_run sha256 g st"
  shows "memory_inv st \<and> (\<forall>off meta c. hm_get (allocations st) off = Some meta \<longrightarrow>
    cm_checksum meta = Some c \<longrightarrow> (\<exists>b. g off = Some b \<and> c = sha256 b))"
  using assms
proof induction
  case (run_start n)
  then show ?case using memory_inv_with_capacity by (simp add: memory_with_capacity_def)
next
  case (run_allocate g st len h st')
  then have inv: "memory_inv st" by simp
  have "memory_inv st'" using memory_inv_allocate [OF inv, of len] run_allocate.hyps by simp
  then show ?case
    using run_allocate by (auto simp: memory_allocate_Inr [OF inv])
next
  case (run_write g st h bs u st')
  then have inv: "memory_inv st" by simp
  have "memory_inv st'" using memory_inv_write [OF inv, of sha256 h bs] run_write.hyps by simp
  then show ?case
    using run_write by (auto simp: write_chunk_Inr [OF inv])
next
  case (run_write_preallocated g st h bs u st')
  then have inv: "memory_inv st" by simp
  note w = run_write_preallocated.hyps(2) [unfolded write_preallocated_Inr [OF inv]]
  have "length bs \<le> u64_max" using w unat_less_u64 [of "ch_len h"] by simp
  then have "memory_inv st'"
    using memory_inv_write_preallocated [OF inv, of bs sha256 h] run_write_preallocated.hyps by simp
  then show ?case
    using run_write_preallocated.IH w by (auto split: if_splits)
qed

lemma arena_get_length: "arena_get off e a = Some bs \<Longrightarrow> length bs = unat e - unat off"
  by (auto simp: arena_get_def split: if_splits)

text \<open>
  C25: the store never serves bytes that were not written. In any run of the store, bytes
  that \<^verbatim>\<open>read_chunk\<close> returns have the checksum of the bytes last written at that offset
  and the length of the handle; with an injective checksum on the run they are those
  bytes. Overlapping writes and memory corruption surface as errors.
\<close>

theorem served_bytes_were_written:
  assumes "memory_run sha256 g st" and "read_chunk sha256 h st = Inr bs"
  shows "\<exists>written. g (ch_offset h) = Some written \<and> sha256 written = sha256 bs
           \<and> length bs = unat (ch_len h)"
proof -
  have inv: "memory_inv st" using memory_run_inv [OF assms(1)] by simp
  obtain meta where meta: "hm_get (allocations st) (ch_offset h) = Some meta" "cm_len meta = ch_len h"
    "cm_checksum meta = Some (sha256 bs)"
    "arena_get (ch_offset h) (ch_offset h + ch_len h) (arena st) = Some bs"
    using assms(2) by (auto simp: read_chunk_Inr [OF inv])
  have "unat (ch_offset h + ch_len h) = unat (ch_offset h) + unat (ch_len h)"
    using allocated_chunk_fits [OF inv meta(1,2)] inv
    by (simp add: chunk_fits_def memory_inv_def unat_add_u64)
  then show ?thesis
    using memory_run_inv [OF assms(1)] meta arena_get_length [OF meta(4)] by fastforce
qed

lemma memory_run_example:
  "\<exists>st'. write_preallocated_chunk id \<lparr>ch_offset = 4, ch_len = 2\<rparr> ''hi'' (memory_with_capacity 8) = (Inr (), st')
     \<and> memory_run id [4 \<mapsto> ''hi''] st' \<and> memory_inv st'"
proof -
  let ?h = "\<lparr>ch_offset = 4, ch_len = 2\<rparr>" and ?st = "memory_with_capacity 8"
  have "chunk_fits ?h ?st" by (simp add: chunk_fits_def memory_with_capacity_def)
  then obtain st' where w: "write_preallocated_chunk id ?h ''hi'' ?st = (Inr (), st')"
    using write_preallocated_Inr [OF memory_inv_with_capacity, of id ?h "''hi''" 8] by fastforce
  then have "memory_run id [4 \<mapsto> ''hi''] st'"
    using run_write_preallocated [OF run_start w] by simp
  then show ?thesis using w memory_run_inv by blast
qed

theorem served_bytes_were_written_witness:
  "\<exists>st' g. read_chunk id \<lparr>ch_offset = 4, ch_len = 2\<rparr> st' = Inr ''hi'' \<and> g 4 = Some ''hi''
     \<and> memory_run id g st'"
proof -
  obtain st' where st': "write_preallocated_chunk id \<lparr>ch_offset = 4, ch_len = 2\<rparr> ''hi'' (memory_with_capacity 8)
      = (Inr (), st')" "memory_run id [4 \<mapsto> ''hi''] st'"
    using memory_run_example by blast
  have "read_chunk id \<lparr>ch_offset = 4, ch_len = 2\<rparr> st' = Inr ''hi''"
    using pre.read_written [OF memory_inv_with_capacity st'(1)] .
  with served_bytes_were_written [OF st'(2) this] st'(2) show ?thesis
    by (intro exI [of _ st'] exI [of _ "[4 \<mapsto> ''hi'']"]) simp
qed

text \<open>
  Chunks are independent. After a successful write through a handle, reading that handle
  gives the bytes written, and reading any handle that does not overlap it gives what it
  gave before; a write that fails changes nothing.
\<close>

lemma chunk_writes_are_independent:
  assumes "memory_inv st" and "length bs \<le> u64_max"
    and "chunk_disjoint h h'" and "0 < unat (ch_len h')"
  shows "case write_preallocated_chunk sha256 h bs st of
      (Inr _, st') \<Rightarrow> memory_inv st' \<and> read_chunk sha256 h st' = Inr bs
        \<and> read_chunk sha256 h' st' = read_chunk sha256 h' st
    | (Inl _, st') \<Rightarrow> st' = st"
  using pre.read_written [OF assms(1)] pre.read_other [OF assms(1) _ assms(3,4)]
    pre.write_failed [OF assms(1,2)] pre.inv_written [OF assms(1,2)]
  by (auto split: prod.splits sum.splits)

text \<open>
  When a placed write is accepted. The store takes a chunk placed by the master exactly
  when the chunk is non-empty, the payload has the chunk's length and the chunk ends within
  the arena; the checks are made on the true sum of offset and length, so a handle whose end
  overflows is refused.
\<close>

lemma placed_write_accepted_iff:
  assumes "memory_inv st"
  shows "(\<exists>st'. write_preallocated_chunk sha256 h bs st = (Inr (), st')) \<longleftrightarrow>
    0 < unat (ch_len h) \<and> length bs = unat (ch_len h)
    \<and> unat (ch_offset h) + unat (ch_len h) \<le> length (arena st)"
  using write_preallocated_Inr [OF assms, of sha256 h bs "()"] by (auto simp: chunk_fits_def)

end
