(* ===== verification/Json.thy ===== *)
theory Json
imports Common
begin

text \<open>
  JSON values as \<^verbatim>\<open>serde_json::Value\<close> has them (without the feature \<^verbatim>\<open>preserve_order\<close>, so an
  object is a B-tree map from member names to values), and the accessors the sources use.
  A number is a \<^verbatim>\<open>u64\<close>, a negative \<^verbatim>\<open>i64\<close> or the bits of a finite \<^verbatim>\<open>f64\<close>.
\<close>

datatype json_number = PosInt u64 | NegInt int | Float u64

datatype json =
    JNull
  | JBool bool
  | JNumber json_number
  | JString string
  | JArray "json list"
  | JObject "(string \<times> json) list"

text \<open>Objects that \<^verbatim>\<open>serde_json\<close> can build: members in ascending order of their names.\<close>

fun json_ok :: "json \<Rightarrow> bool" where
  "json_ok (JArray vs) = list_all json_ok vs"
| "json_ok (JObject m) = (bt_ok m \<and> list_all (\<lambda>(_, v). json_ok v) m)"
| "json_ok v = True"

text \<open>Values with no repeated member name, in any order: what a JSON text denotes.\<close>

fun json_distinct :: "json \<Rightarrow> bool" where
  "json_distinct (JArray vs) = list_all json_distinct vs"
| "json_distinct (JObject m) = (distinct (map fst m) \<and> list_all (\<lambda>(_, v). json_distinct v) m)"
| "json_distinct v = True"

definition json_obj :: "(string \<times> json) list \<Rightarrow> json" where
  "json_obj kvs = JObject (fold (\<lambda>(k, v). bt_insert k v) kvs [])"

definition json_get :: "json \<Rightarrow> string \<Rightarrow> json option" where
  "json_get v k = (case v of JObject m \<Rightarrow> bt_get m k | _ \<Rightarrow> None)"

definition json_as_str :: "json \<Rightarrow> string option" where
  "json_as_str v = (case v of JString s \<Rightarrow> Some s | _ \<Rightarrow> None)"

definition json_as_bool :: "json \<Rightarrow> bool option" where
  "json_as_bool v = (case v of JBool b \<Rightarrow> Some b | _ \<Rightarrow> None)"

definition json_as_number :: "json \<Rightarrow> json_number option" where
  "json_as_number v = (case v of JNumber n \<Rightarrow> Some n | _ \<Rightarrow> None)"

definition json_as_u64 :: "json \<Rightarrow> u64 option" where
  "json_as_u64 v = (case v of JNumber (PosInt n) \<Rightarrow> Some n | _ \<Rightarrow> None)"

definition json_as_array :: "json \<Rightarrow> json list option" where
  "json_as_array v = (case v of JArray vs \<Rightarrow> Some vs | _ \<Rightarrow> None)"

definition json_is_object :: "json \<Rightarrow> bool" where
  "json_is_object v = (case v of JObject _ \<Rightarrow> True | _ \<Rightarrow> False)"

text \<open>
  Whether the number, converted by \<^verbatim>\<open>as_f64\<close>, compares equal to \<^verbatim>\<open>0.0\<close>: a positive integer only
  when it is 0, a negative one never, a float when all its bits but the sign are 0.
\<close>

fun number_is_zero :: "json_number \<Rightarrow> bool" where
  "number_is_zero (PosInt n) = (n = 0)"
| "number_is_zero (NegInt i) = False"
| "number_is_zero (Float b) = (unat b mod 2 ^ 63 = 0)"

section \<open>Lemmas\<close>

lemma json_ok_obj:
  "list_all (\<lambda>(_, v). json_ok v) kvs \<Longrightarrow> json_ok (json_obj kvs)"
proof -
  have "bt_ok m \<Longrightarrow> list_all (\<lambda>(_, v). json_ok v) m \<Longrightarrow> list_all (\<lambda>(_, v). json_ok v) kvs \<Longrightarrow>
    list_all (\<lambda>(_, v). json_ok v) (fold (\<lambda>(k, v). bt_insert k v) kvs m)" for m
  proof (induction kvs arbitrary: m)
    case (Cons e kvs)
    have "list_all (\<lambda>(_, v). json_ok v) (bt_insert (fst e) (snd e) m)"
      using Cons.prems(2,3) by (induction m) (auto split: prod.splits)
    then show ?case using Cons by (cases e) simp
  qed simp
  then show "list_all (\<lambda>(_, v). json_ok v) kvs \<Longrightarrow> json_ok (json_obj kvs)"
    using bt.invar_fold_insert [of "[]" kvs] by (simp add: json_obj_def bt_ok_def)
qed

lemma json_ok_distinct: "json_ok v \<Longrightarrow> json_distinct v"
  by (induction v rule: json_ok.induct) (auto simp: list_all_iff bt_ok_distinct)

lemma json_get_obj:
  "distinct (map fst kvs) \<Longrightarrow> json_get (json_obj kvs) k = map_of kvs k"
  by (simp add: json_get_def json_obj_def bt.lookup_collect)

section \<open>A serializer to instantiate the parameters with\<close>

text \<open>
  A length-prefixed encoding of JSON values. It stands in for \<^verbatim>\<open>serde_json\<close> where a theorem
  that assumes a faithful serializer is exercised.
\<close>

definition netstring_head :: "char \<Rightarrow> nat \<Rightarrow> string" where
  "netstring_head c n = c # show_nat n @ '':''"

fun encode_number :: "json_number \<Rightarrow> string" where
  "encode_number (PosInt n) = netstring_head (CHR ''p'') (unat n)"
| "encode_number (NegInt i) = netstring_head (if i < 0 then CHR ''m'' else CHR ''q'') (nat \<bar>i\<bar>)"
| "encode_number (Float b) = netstring_head (CHR ''f'') (unat b)"

fun json_encode :: "json \<Rightarrow> string" where
  "json_encode JNull = ''n''"
| "json_encode (JBool b) = (if b then ''t'' else ''u'')"
| "json_encode (JNumber n) = encode_number n"
| "json_encode (JString s) = netstring_head (CHR ''s'') (length s) @ s"
| "json_encode (JArray vs) = netstring_head (CHR ''a'') (length vs) @ concat (map json_encode vs)"
| "json_encode (JObject m) =
     netstring_head (CHR ''o'') (length m)
     @ concat (map (\<lambda>(k, v). netstring_head (CHR ''k'') (length k) @ k @ json_encode v) m)"

definition json_decode :: "bytes \<Rightarrow> string + json" where
  "json_decode bs = (if bs \<in> range json_encode then Inr (the_inv json_encode bs) else Inl ''malformed'')"

lemma show_nat_digits: "c \<in> set (show_nat n) \<Longrightarrow> c \<noteq> CHR '':''"
proof (induction n arbitrary: c rule: show_nat.induct)
  case (1 n)
  have digit: "char_of (48 + k) \<noteq> CHR '':''" if "k < 10" for k :: nat
  proof
    assume "char_of (48 + k) = CHR '':''"
    then have "(of_char (char_of (48 + k)) :: nat) = of_char (CHR '':'')" by simp
    then show False using that by simp
  qed
  show ?case
    using 1 digit [of n] digit [of "n mod 10"] by (subst (asm) (2) show_nat.simps) (auto split: if_splits)
qed

lemma append_delimiter_eq:
  assumes "xs @ c # r = ys @ c # r'" and "c \<notin> set xs" and "c \<notin> set ys"
  shows "xs = ys \<and> r = r'"
proof -
  have "takeWhile (\<lambda>x. x \<noteq> c) (xs @ c # r) = xs" "takeWhile (\<lambda>x. x \<noteq> c) (ys @ c # r') = ys"
    using assms(2,3) by (auto simp: takeWhile_append)
  then show ?thesis using assms(1) by simp
qed

lemma netstring_head_eq:
  "netstring_head c m @ r = netstring_head d n @ r' \<longleftrightarrow> c = d \<and> m = n \<and> r = r'"
  using append_delimiter_eq [of "show_nat m" "CHR '':''" r "show_nat n" r'] show_nat_digits
  by (auto simp: netstring_head_def)

lemma netstring_head_Cons:
  "netstring_head c n @ r = d # r' \<longleftrightarrow> c = d \<and> r' = show_nat n @ '':'' @ r"
  "d # r' = netstring_head c n @ r \<longleftrightarrow> c = d \<and> r' = show_nat n @ '':'' @ r"
  by (auto simp: netstring_head_def)

lemma encode_number_eq: "encode_number a @ r = encode_number b @ r' \<Longrightarrow> a = b \<and> r = r'"
  by (cases a; cases b) (auto simp: netstring_head_eq word_unat_eq_iff split: if_splits)

lemma concat_prefix_eq:
  assumes "concat (map f xs) @ r = concat (map f ys) @ r'" and "length xs = length ys"
    and "\<And>x y r r'. x \<in> set xs \<Longrightarrow> f x @ r = f y @ r' \<Longrightarrow> x = y \<and> r = r'"
  shows "xs = ys \<and> r = r'"
  using assms(2,1,3)
proof (induction xs ys arbitrary: r r' rule: list_induct2)
  case (Cons x xs y ys)
  have "f x @ (concat (map f xs) @ r) = f y @ (concat (map f ys) @ r')" using Cons.prems(1) by simp
  then have "x = y" and "concat (map f xs) @ r = concat (map f ys) @ r'"
    using Cons.prems(2) [of x] by force+
  then show ?case using Cons.IH [of r r'] Cons.prems(2) by auto
qed simp

fun number_tag :: "json_number \<Rightarrow> char" where
  "number_tag (PosInt n) = CHR ''p''"
| "number_tag (NegInt i) = (if i < 0 then CHR ''m'' else CHR ''q'')"
| "number_tag (Float b) = CHR ''f''"

fun json_tag :: "json \<Rightarrow> char" where
  "json_tag JNull = CHR ''n''"
| "json_tag (JBool b) = (if b then CHR ''t'' else CHR ''u'')"
| "json_tag (JNumber n) = number_tag n"
| "json_tag (JString s) = CHR ''s''"
| "json_tag (JArray vs) = CHR ''a''"
| "json_tag (JObject m) = CHR ''o''"

lemma json_encode_tag: "json_encode v @ r = json_encode w @ r' \<Longrightarrow> json_tag v = json_tag w"
proof -
  have number: "hd (encode_number n @ r) = number_tag n" for n r
    by (cases n) (simp_all add: netstring_head_def)
  have "hd (json_encode v @ r) = json_tag v" for v r
    by (cases v) (simp_all add: number, simp_all add: netstring_head_def)
  then show "json_encode v @ r = json_encode w @ r' \<Longrightarrow> json_tag v = json_tag w" by metis
qed

lemma number_tag_range:
  "number_tag n \<noteq> CHR ''n''" "number_tag n \<noteq> CHR ''t''" "number_tag n \<noteq> CHR ''u''"
  "number_tag n \<noteq> CHR ''s''" "number_tag n \<noteq> CHR ''a''" "number_tag n \<noteq> CHR ''o''"
  by (cases n; simp)+

lemmas number_tag_facts = number_tag_range number_tag_range [symmetric]

lemma json_tag_shape:
  "json_tag w = CHR ''n'' \<Longrightarrow> w = JNull"
  "json_tag w = CHR ''s'' \<Longrightarrow> \<exists>s. w = JString s"
  "json_tag w = CHR ''a'' \<Longrightarrow> \<exists>vs. w = JArray vs"
  "json_tag w = CHR ''o'' \<Longrightarrow> \<exists>m. w = JObject m"
  "json_tag w = (if b then CHR ''t'' else CHR ''u'') \<Longrightarrow> w = JBool b"
  "json_tag w = number_tag n \<Longrightarrow> \<exists>n'. w = JNumber n'"
  by (cases w; auto simp: number_tag_facts split: if_splits)+

lemma json_encode_prefix: "json_encode v @ r = json_encode w @ r' \<Longrightarrow> v = w \<and> r = r'"
proof (induction v arbitrary: w r r' rule: json_encode.induct)
  case 1
  then have "w = JNull" using json_encode_tag [OF 1] json_tag_shape(1) by simp
  then show ?case using 1 by simp
next
  case (2 b)
  then have "w = JBool b" using json_encode_tag [OF 2] json_tag_shape(5) by simp
  then show ?case using 2 by (simp split: if_splits)
next
  case (3 n)
  then obtain n' where "w = JNumber n'" using json_encode_tag [OF 3] json_tag_shape(6) [of w n] by auto
  then show ?case using 3 encode_number_eq [of n] by auto
next
  case (4 s)
  then obtain s' where "w = JString s'" using json_encode_tag [OF 4] json_tag_shape(2) by fastforce
  then show ?case using 4 by (auto simp: netstring_head_eq)
next
  case (5 vs)
  then obtain ws where w: "w = JArray ws" using json_encode_tag [OF 5(2)] json_tag_shape(3) by fastforce
  have "length vs = length ws" "concat (map json_encode vs) @ r = concat (map json_encode ws) @ r'"
    using 5(2) by (simp_all add: w netstring_head_eq)
  then show ?case
    using concat_prefix_eq [of json_encode vs r ws r'] 5(1) by (simp add: w)
next
  case (6 m)
  let ?f = "\<lambda>(k, v). netstring_head (CHR ''k'') (length k) @ k @ json_encode v"
  obtain m' where w: "w = JObject m'" using json_encode_tag [OF 6(2)] json_tag_shape(4) by fastforce
  have eqs: "length m = length m'" "concat (map ?f m) @ r = concat (map ?f m') @ r'"
    using 6(2) by (simp_all add: w netstring_head_eq)
  have "x = y \<and> r = r'" if "x \<in> set m" "?f x @ r = ?f y @ r'" for x y r r'
    using that 6(1) [of x "fst x" "snd x" r "snd y" r']
    by (auto simp: netstring_head_eq case_prod_unfold prod_eq_iff)
  then show ?case
    using concat_prefix_eq [OF eqs(2,1)] by (simp add: w)
qed

lemma json_encode_inject: "json_encode v = json_encode w \<longleftrightarrow> v = w"
  using json_encode_prefix [of v "[]" w "[]"] by auto

lemma json_decode_encode [simp]: "json_decode (json_encode v) = Inr v"
  by (simp add: json_decode_def the_inv_f_f inj_on_def json_encode_inject)

end
