(* ===== verification/Protocol.thy ===== *)
theory Protocol
imports Json
begin

text \<open>
  The crate \<^verbatim>\<open>mooncache-protocol\<close>: the cache-control header, the request and event types of
  the Responses API and the error of the admin protocol, with the conversions that
  \<^verbatim>\<open>#[derive(Serialize, Deserialize)]\<close> generates for them. A failing typed conversion is
  \<open>None\<close>; the text of such an error belongs to \<^verbatim>\<open>serde_json\<close>.
\<close>

section \<open>Cache control\<close>

datatype cache_control =
  CcDefault | CcBypass | CcReadOnly | CcWriteOnly | CcCacheOnly | CcForceReplay

datatype header_error = InvalidCacheControl string

fun header_error_to_string :: "header_error \<Rightarrow> string" where
  "header_error_to_string (InvalidCacheControl v) = ''invalid cache control: '' @ v"

definition parse_cache_control :: "string \<Rightarrow> header_error + cache_control" where
  "parse_cache_control val =
     (let v = to_ascii_lowercase (trim val)
      in if v = '''' \<or> v = ''default'' then Inr CcDefault
         else if v = ''bypass'' then Inr CcBypass
         else if v = ''read-only'' then Inr CcReadOnly
         else if v = ''write-only'' then Inr CcWriteOnly
         else if v = ''cache-only'' then Inr CcCacheOnly
         else if v = ''force-replay'' then Inr CcForceReplay
         else Inl (InvalidCacheControl v))"

datatype cache_status =
  Hit | Miss | StatusBypass | Ineligible | CacheOnlyMiss | Degraded

section \<open>Requests and events\<close>

record responses_request =
  rr_model :: string
  rr_body :: json

text \<open>
  The flattened member takes every entry but the named one; only an object is accepted, and
  an absent or non-string \<^verbatim>\<open>model\<close> is an error.
\<close>

definition responses_request_from_value :: "json \<Rightarrow> responses_request option" where
  "responses_request_from_value v =
     (case v of
        JObject m \<Rightarrow>
          (case Option.bind (bt_get m ''model'') json_as_str of
             None \<Rightarrow> None
           | Some model \<Rightarrow> Some \<lparr>rr_model = model, rr_body = JObject (bt_remove ''model'' m)\<rparr>)
      | _ \<Rightarrow> None)"

text \<open>\<^verbatim>\<open>json!(request)\<close>: the named member, then the flattened entries.\<close>

definition responses_request_to_value :: "responses_request \<Rightarrow> json" where
  "responses_request_to_value r =
     json_obj ((''model'', JString (rr_model r))
       # (case rr_body r of JObject m \<Rightarrow> m | _ \<Rightarrow> []))"

record sse_event =
  sse_name :: "string option"
  sse_data :: string

definition sse_event_to_value :: "sse_event \<Rightarrow> json" where
  "sse_event_to_value e =
     JObject [(''event'', case sse_name e of None \<Rightarrow> JNull | Some n \<Rightarrow> JString n),
              (''data'', JString (sse_data e))]"

text \<open>A derived \<^verbatim>\<open>Option<String>\<close> member: absent and \<^verbatim>\<open>null\<close> are \<open>None\<close>, and only a string is \<open>Some\<close>.\<close>

definition optional_string :: "json option \<Rightarrow> string option option" where
  "optional_string v =
     (case v of
        None \<Rightarrow> Some None
      | Some JNull \<Rightarrow> Some None
      | Some (JString s) \<Rightarrow> Some (Some s)
      | Some _ \<Rightarrow> None)"

text \<open>A derived struct is read from an object, or from an array of its members in order.\<close>

definition sse_event_from_value :: "json \<Rightarrow> sse_event option" where
  "sse_event_from_value v =
     (case v of
        JObject m \<Rightarrow>
          (case (optional_string (bt_get m ''event''), Option.bind (bt_get m ''data'') json_as_str) of
             (Some name, Some data) \<Rightarrow> Some \<lparr>sse_name = name, sse_data = data\<rparr>
           | _ \<Rightarrow> None)
      | JArray [e, d] \<Rightarrow>
          (case (optional_string (Some e), json_as_str d) of
             (Some name, Some data) \<Rightarrow> Some \<lparr>sse_name = name, sse_data = data\<rparr>
           | _ \<Rightarrow> None)
      | _ \<Rightarrow> None)"

section \<open>Admin errors\<close>

record cache_object_ref =
  cor_tenant_id :: tenant_id
  cor_cache_key :: cache_key

datatype admin_error =
    Unauthorized
  | InvalidRequest string
  | CacheObjectNotFound cache_object_ref

fun admin_error_to_string :: "admin_error \<Rightarrow> string" where
  "admin_error_to_string Unauthorized = ''unauthorized''"
| "admin_error_to_string (InvalidRequest m) = ''invalid admin request: '' @ m"
| "admin_error_to_string (CacheObjectNotFound r) = ''cache object not found''"

section \<open>Lemmas\<close>

text \<open>A request survives the conversion to its typed form and back.\<close>

lemma responses_request_round_trip:
  assumes "json_ok v" and "responses_request_from_value v = Some r"
  shows "responses_request_to_value r = v"
proof -
  obtain m where m: "v = JObject m" and ok: "bt_ok m"
    using assms by (auto simp: responses_request_from_value_def split: json.splits)
  have r: "bt_get m ''model'' = Some (JString (rr_model r))" "rr_body r = JObject (bt_remove ''model'' m)"
    using assms(2) m
    by (auto simp: responses_request_from_value_def json_as_str_def split: option.splits json.splits bind_splits)
  let ?kvs = "(''model'', JString (rr_model r)) # bt_remove ''model'' m"
  have dist: "distinct (map fst ?kvs)"
    using bt_ok_distinct [OF ok] by (auto simp: bt_remove_def distinct_map_filter)
  have "fold (\<lambda>(k, v). bt_insert k v) ?kvs [] = m"
  proof (rule bt_ok_ext)
    show "bt_ok (fold (\<lambda>(k, v). bt_insert k v) ?kvs [])"
      by (rule bt.invar_fold_insert) (simp add: bt_ok_def)
    show "bt_get (fold (\<lambda>(k, v). bt_insert k v) ?kvs []) k = bt_get m k" for k
      using bt.lookup_collect [OF dist, of k] r(1) bt.lookup_remove [of "''model''" m k]
      by (auto simp: bt_get_def)
  qed (rule ok)
  then show ?thesis by (simp add: responses_request_to_value_def r(2) json_obj_def m)
qed

lemma sse_event_from_sorted:
  "sse_event_from_value (JObject [(''data'', JString (sse_data e)),
     (''event'', case sse_name e of None \<Rightarrow> JNull | Some n \<Rightarrow> JString n)]) = Some e"
  by (simp add: sse_event_from_value_def bt_get_def optional_string_def json_as_str_def split: option.splits)

end
