(* ===== verification/Config.thy ===== *)
theory Config
imports Common
begin

text \<open>
  \<^verbatim>\<open>crates/gateway/src/config.rs\<close>: the tenant and vendor configuration, their validation and
  the lookup of a tenant by its bearer token. The TOML parser is the argument \<open>from_toml\<close>, which
  gives the deserialized list of entries; SHA-256 is the argument \<open>sha256\<close>.
\<close>

type_synonym u32 = "32 word"

datatype config_error = ConfigRead string string | ConfigParse string | ConfigInvalid string

fun config_error_to_string :: "config_error \<Rightarrow> string" where
  "config_error_to_string (ConfigRead path src) = ''failed to read tenant config '' @ path @ '': '' @ src"
| "config_error_to_string (ConfigParse e) = ''failed to parse tenant config: '' @ e"
| "config_error_to_string (ConfigInvalid m) = ''invalid tenant config: '' @ m"

section \<open>Data\<close>

datatype tenant_cache_policy = PolicyCacheFirst | PolicyBypass | PolicyCacheOnly

record raw_tenant_config =
  rt_id :: string
  rt_name :: string
  rt_enabled :: bool
  rt_api_key_sha256 :: string
  rt_dram_quota_bytes :: u64
  rt_ssd_quota_bytes :: u64
  rt_request_rate_limit_per_minute :: u32
  rt_stream_concurrency_limit :: u32
  rt_vendor_spend_budget_usd :: u32
  rt_default_ttl_seconds :: u64
  rt_max_ttl_seconds :: u64
  rt_policy :: tenant_cache_policy
  rt_allowed_vendors :: "string list"

record tenant_config =
  tc_id :: tenant_id
  tc_name :: string
  tc_enabled :: bool
  tc_api_key_sha256 :: string
  tc_dram_quota_bytes :: u64
  tc_ssd_quota_bytes :: u64
  tc_request_rate_limit_per_minute :: u32
  tc_stream_concurrency_limit :: u32
  tc_vendor_spend_budget_usd :: u32
  tc_default_ttl_seconds :: u64
  tc_max_ttl_seconds :: u64
  tc_policy :: tenant_cache_policy
  tc_allowed_vendors :: "string list"

type_synonym tenant_config_set = "(string, tenant_config) btree_map"

record vendor_model_config =
  vm_requested :: string
  vm_resolved :: string
  vm_cache_eligible :: bool

record raw_vendor_config =
  rv_id :: string
  rv_adapter :: string
  rv_adapter_version :: string
  rv_base_url :: string
  rv_api_key_env :: string
  rv_timeout_ms :: u64
  rv_headers :: "(string, string) btree_map"
  rv_models :: "vendor_model_config list"

record vendor_config =
  vc_id :: string
  vc_adapter :: string
  vc_adapter_version :: string
  vc_base_url :: string
  vc_api_key_env :: string
  vc_timeout_ms :: u64
  vc_headers :: "(string, string) btree_map"
  vc_models :: "vendor_model_config list"

type_synonym vendor_config_set = "(string, vendor_config) btree_map"

section \<open>Validation\<close>

definition validate_non_empty :: "string \<Rightarrow> string \<Rightarrow> config_error + unit" where
  "validate_non_empty val field =
     (if trim val = [] then Inl (ConfigInvalid (field @ '' must not be empty'')) else Inr ())"

definition validate_sha256 :: "string \<Rightarrow> config_error + unit" where
  "validate_sha256 val =
     (if length val = 64 \<and> list_all is_lower_hex val then Inr ()
      else Inl (ConfigInvalid ''api_key_sha256 must be 64 lowercase hex characters''))"

definition sha256_hex :: "(bytes \<Rightarrow> bytes) \<Rightarrow> bytes \<Rightarrow> string" where
  "sha256_hex sha256 bs = hex_lower (sha256 bs)"

definition tenant_problem :: "raw_tenant_config \<Rightarrow> string \<Rightarrow> config_error" where
  "tenant_problem raw what = ConfigInvalid (''tenant `'' @ rt_id raw @ ''` '' @ what)"

text \<open>The checks of one entry, in the order of the loop body, up to the constructed entry.\<close>

definition check_tenant :: "raw_tenant_config \<Rightarrow> config_error + tenant_config" where
  "check_tenant raw =
     (case map_err (\<lambda>e. ConfigInvalid (cache_error_to_string e)) (parse_tenant_id (rt_id raw)) of
        Inl e \<Rightarrow> Inl e
      | Inr tid \<Rightarrow>
     (case validate_sha256 (rt_api_key_sha256 raw) of
        Inl e \<Rightarrow> Inl e
      | Inr _ \<Rightarrow>
     if trim (rt_name raw) = [] then Inl (tenant_problem raw ''name must not be empty'')
     else if rt_request_rate_limit_per_minute raw = 0
     then Inl (tenant_problem raw ''request_rate_limit_per_minute must be greater than zero'')
     else if rt_stream_concurrency_limit raw = 0
     then Inl (tenant_problem raw ''stream_concurrency_limit must be greater than zero'')
     else if rt_default_ttl_seconds raw = 0 \<or> rt_max_ttl_seconds raw = 0
     then Inl (tenant_problem raw ''TTL values must be greater than zero'')
     else if rt_default_ttl_seconds raw > rt_max_ttl_seconds raw
     then Inl (tenant_problem raw ''default_ttl_seconds must not exceed max_ttl_seconds'')
     else if rt_allowed_vendors raw = []
     then Inl (tenant_problem raw ''must allow at least one vendor'')
     else if list_ex (\<lambda>vendor. trim vendor = []) (rt_allowed_vendors raw)
     then Inl (tenant_problem raw ''allowed_vendors must not contain empty values'')
     else Inr \<lparr>tc_id = tid, tc_name = rt_name raw,
       tc_enabled = rt_enabled raw,
       tc_api_key_sha256 = rt_api_key_sha256 raw,
       tc_dram_quota_bytes = rt_dram_quota_bytes raw,
       tc_ssd_quota_bytes = rt_ssd_quota_bytes raw,
       tc_request_rate_limit_per_minute = rt_request_rate_limit_per_minute raw,
       tc_stream_concurrency_limit = rt_stream_concurrency_limit raw,
       tc_vendor_spend_budget_usd = rt_vendor_spend_budget_usd raw,
       tc_default_ttl_seconds = rt_default_ttl_seconds raw,
       tc_max_ttl_seconds = rt_max_ttl_seconds raw,
       tc_policy = rt_policy raw,
       tc_allowed_vendors = rt_allowed_vendors raw\<rparr>))"

fun load_tenants :: "raw_tenant_config list \<Rightarrow> tenant_config_set \<Rightarrow> config_error + tenant_config_set" where
  "load_tenants [] tenants = Inr tenants"
| "load_tenants (raw # rest) tenants =
     (case check_tenant raw of
        Inl e \<Rightarrow> Inl e
      | Inr config \<Rightarrow>
          if bt_get tenants (rt_id raw) \<noteq> None
          then Inl (ConfigInvalid (''duplicate tenant id `'' @ rt_id raw @ ''`''))
          else load_tenants rest (bt_insert (rt_id raw) config tenants))"

definition parse_tenant_toml ::
  "(string \<Rightarrow> string + raw_tenant_config list) \<Rightarrow> string \<Rightarrow> config_error + tenant_config_set" where
  "parse_tenant_toml from_toml txt =
     (case from_toml txt of
        Inl e \<Rightarrow> Inl (ConfigParse e)
      | Inr raws \<Rightarrow>
          if raws = [] then Inl (ConfigInvalid ''tenant config must contain at least one tenant'')
          else load_tenants raws [])"

definition load_tenant_config ::
  "(string \<Rightarrow> string + raw_tenant_config list) \<Rightarrow> (string \<Rightarrow> string + string) \<Rightarrow> string
   \<Rightarrow> config_error + tenant_config_set" where
  "load_tenant_config from_toml read_to_string path =
     (case read_to_string path of
        Inl e \<Rightarrow> Inl (ConfigRead path e)
      | Inr txt \<Rightarrow> parse_tenant_toml from_toml txt)"

definition config_tenant :: "tenant_config_set \<Rightarrow> string \<Rightarrow> tenant_config option" where
  "config_tenant configs tenant_id = bt_get configs tenant_id"

definition config_tenants :: "tenant_config_set \<Rightarrow> tenant_config list" where
  "config_tenants configs = map snd configs"

definition tenant_for_bearer_token ::
  "(bytes \<Rightarrow> bytes) \<Rightarrow> tenant_config_set \<Rightarrow> string \<Rightarrow> tenant_config option" where
  "tenant_for_bearer_token sha256 configs token =
     (let digest = sha256_hex sha256 token
      in find (\<lambda>tenant. tc_enabled tenant \<and> tc_api_key_sha256 tenant = digest) (map snd configs))"

section \<open>Vendors\<close>

definition check_models :: "vendor_model_config list \<Rightarrow> config_error + unit" where
  "check_models models =
     fold (\<lambda>model res. try_result res (\<lambda>_.
             try_result (validate_non_empty (vm_requested model) ''vendor model requested'') (\<lambda>_.
             validate_non_empty (vm_resolved model) ''vendor model resolved''))) models (Inr ())"

definition check_vendor :: "raw_vendor_config \<Rightarrow> config_error + vendor_config" where
  "check_vendor raw =
     try_result (validate_non_empty (rv_id raw) ''vendor id'') (\<lambda>_.
     try_result (validate_non_empty (rv_adapter raw) ''vendor adapter'') (\<lambda>_.
     try_result (validate_non_empty (rv_adapter_version raw) ''vendor adapter_version'') (\<lambda>_.
     try_result (validate_non_empty (rv_base_url raw) ''vendor base_url'') (\<lambda>_.
     try_result (validate_non_empty (rv_api_key_env raw) ''vendor api_key_env'') (\<lambda>_.
     if rv_timeout_ms raw = 0
     then Inl (ConfigInvalid (''vendor `'' @ rv_id raw @ ''` timeout_ms must be greater than zero''))
     else if rv_models raw = []
     then Inl (ConfigInvalid (''vendor `'' @ rv_id raw @ ''` must define at least one model''))
     else try_result (check_models (rv_models raw)) (\<lambda>_.
     Inr \<lparr>vc_id = rv_id raw, vc_adapter = rv_adapter raw, vc_adapter_version = rv_adapter_version raw, vc_base_url = rv_base_url raw,
       vc_api_key_env = rv_api_key_env raw, vc_timeout_ms = rv_timeout_ms raw, vc_headers = rv_headers raw, vc_models = rv_models raw\<rparr>))))))"

fun load_vendors :: "raw_vendor_config list \<Rightarrow> vendor_config_set \<Rightarrow> config_error + vendor_config_set" where
  "load_vendors [] vendors = Inr vendors"
| "load_vendors (raw # rest) vendors =
     (case check_vendor raw of
        Inl e \<Rightarrow> Inl e
      | Inr config \<Rightarrow>
          if bt_get vendors (rv_id raw) \<noteq> None
          then Inl (ConfigInvalid (''duplicate vendor id `'' @ rv_id raw @ ''`''))
          else load_vendors rest (bt_insert (rv_id raw) config vendors))"

definition parse_vendor_toml ::
  "(string \<Rightarrow> string + raw_vendor_config list) \<Rightarrow> string \<Rightarrow> config_error + vendor_config_set" where
  "parse_vendor_toml from_toml txt =
     (case from_toml txt of
        Inl e \<Rightarrow> Inl (ConfigParse e)
      | Inr raws \<Rightarrow>
          if raws = [] then Inl (ConfigInvalid ''vendor config must contain at least one vendor'')
          else load_vendors raws [])"

definition load_vendor_config ::
  "(string \<Rightarrow> string + raw_vendor_config list) \<Rightarrow> (string \<Rightarrow> string + string) \<Rightarrow> string
   \<Rightarrow> config_error + vendor_config_set" where
  "load_vendor_config from_toml read_to_string path =
     (case read_to_string path of
        Inl e \<Rightarrow> Inl (ConfigRead path e)
      | Inr txt \<Rightarrow> parse_vendor_toml from_toml txt)"

definition config_vendor :: "vendor_config_set \<Rightarrow> string \<Rightarrow> vendor_config option" where
  "config_vendor configs vendor_id = bt_get configs vendor_id"

definition config_vendors :: "vendor_config_set \<Rightarrow> vendor_config list" where
  "config_vendors configs = map snd configs"

section \<open>Lemmas\<close>

text \<open>What the checks establish for an entry.\<close>

definition tenant_valid :: "tenant_config \<Rightarrow> bool" where
  "tenant_valid c \<longleftrightarrow>
     trim (tenant_as_str (tc_id c)) \<noteq> [] \<and> trim (tc_name c) \<noteq> []
     \<and> length (tc_api_key_sha256 c) = 64 \<and> list_all is_lower_hex (tc_api_key_sha256 c)
     \<and> tc_request_rate_limit_per_minute c \<noteq> 0 \<and> tc_stream_concurrency_limit c \<noteq> 0
     \<and> 0 < tc_default_ttl_seconds c \<and> tc_default_ttl_seconds c \<le> tc_max_ttl_seconds c
     \<and> tc_allowed_vendors c \<noteq> [] \<and> list_all (\<lambda>v. trim v \<noteq> []) (tc_allowed_vendors c)"

lemma check_tenant_valid:
  assumes "check_tenant raw = Inr c"
  shows "tenant_valid c" and "tc_id c = TenantId (rt_id raw)"
    and "tc_api_key_sha256 c = rt_api_key_sha256 raw" and "tc_enabled c = rt_enabled raw"
  using assms
  by (auto simp: check_tenant_def tenant_valid_def map_err_def parse_tenant_id_def validate_sha256_def
      list_ex_iff list_all_iff word_neq_0_conv not_less split: if_splits)

lemma check_tenant_refuses:
  assumes "trim (rt_id raw) = [] \<or> trim (rt_name raw) = [] \<or> rt_request_rate_limit_per_minute raw = 0
    \<or> rt_stream_concurrency_limit raw = 0 \<or> rt_default_ttl_seconds raw = 0
    \<or> rt_max_ttl_seconds raw < rt_default_ttl_seconds raw \<or> rt_allowed_vendors raw = []"
  shows "\<exists>m. check_tenant raw = Inl (ConfigInvalid m)"
  using assms
  by (auto simp: check_tenant_def map_err_def parse_tenant_id_def validate_sha256_def tenant_problem_def)

lemma load_tenants_Inr:
  assumes "load_tenants raws tenants = Inr configs" and "bt_ok tenants"
  shows "bt_ok configs \<and> distinct (map rt_id raws)
    \<and> (\<forall>raw \<in> set raws. bt_get tenants (rt_id raw) = None)
    \<and> (\<forall>key. bt_get configs key =
          (case find (\<lambda>raw. rt_id raw = key) raws of
             None \<Rightarrow> bt_get tenants key
           | Some raw \<Rightarrow> (case check_tenant raw of Inl _ \<Rightarrow> None | Inr c \<Rightarrow> Some c)))
    \<and> (\<forall>raw \<in> set raws. \<exists>c. check_tenant raw = Inr c)"
  using assms
proof (induction raws arbitrary: tenants)
  case (Cons raw raws)
  obtain c where c: "check_tenant raw = Inr c" and fresh: "bt_get tenants (rt_id raw) = None"
    and rest: "load_tenants raws (bt_insert (rt_id raw) c tenants) = Inr configs"
    using Cons.prems(1) by (auto split: sum.splits if_splits)
  have "bt_ok (bt_insert (rt_id raw) c tenants)" using Cons.prems(2) by simp
  note IH = Cons.IH [OF rest this]
  have notin: "rt_id raw \<notin> rt_id ` set raws" using IH by (auto split: if_splits)
  then have "find (\<lambda>r. rt_id r = rt_id raw) raws = None"
    unfolding find_None_iff by (metis imageI)
  then show ?case using IH c fresh notin by (auto split: option.splits if_splits)
qed simp

lemma parse_tenant_toml_Inr:
  assumes "parse_tenant_toml from_toml txt = Inr configs"
  shows "\<exists>raws. from_toml txt = Inr raws \<and> raws \<noteq> [] \<and> distinct (map rt_id raws) \<and> bt_ok configs
    \<and> (\<forall>raw \<in> set raws. \<exists>c. config_tenant configs (rt_id raw) = Some c \<and> check_tenant raw = Inr c)
    \<and> (\<forall>key c. config_tenant configs key = Some c \<longrightarrow>
         tenant_valid c \<and> key = tenant_as_str (tc_id c) \<and> key \<in> rt_id ` set raws)"
proof -
  obtain raws where raws: "from_toml txt = Inr raws" "raws \<noteq> []" "load_tenants raws [] = Inr configs"
    using assms by (auto simp: parse_tenant_toml_def split: sum.splits if_splits)
  have "bt_ok ([] :: tenant_config_set)" by (simp add: bt_ok_def)
  note load = load_tenants_Inr [OF raws(3) this]
  have get: "config_tenant configs key = (case find (\<lambda>raw. rt_id raw = key) raws of
      None \<Rightarrow> None | Some raw \<Rightarrow> (case check_tenant raw of Inl _ \<Rightarrow> None | Inr c \<Rightarrow> Some c))" for key
    using load bt.lookup_empty
    by (cases "find (\<lambda>raw. rt_id raw = key) raws") (simp_all add: config_tenant_def)
  have "\<exists>c. config_tenant configs (rt_id raw) = Some c \<and> check_tenant raw = Inr c" if "raw \<in> set raws" for raw
  proof -
    have "find (\<lambda>r. rt_id r = rt_id raw) raws = Some raw"
      using that load by (auto simp: find_Some_iff distinct_conv_nth in_set_conv_nth) 
    then show ?thesis using that load by (auto simp: get)
  qed
  moreover have "tenant_valid c \<and> key = tenant_as_str (tc_id c) \<and> key \<in> rt_id ` set raws"
    if "config_tenant configs key = Some c" for key c
    using that check_tenant_valid
    by (auto simp: get find_Some_iff split: option.splits sum.splits)
  ultimately show ?thesis using raws load by blast
qed

section \<open>Contract\<close>

text \<open>
  C37: a loaded tenant configuration is valid. When loading succeeds, the set is not empty,
  every entry of the file is in it under its own id (so ids are unique), and each entry has a
  non-blank id and name, a well-formed key digest, positive limits, a default lifetime within
  the maximum, and at least one vendor, none of them blank.
\<close>

theorem loaded_tenants_are_valid:
  assumes "parse_tenant_toml from_toml txt = Inr configs"
  shows "\<exists>raws. from_toml txt = Inr raws \<and> raws \<noteq> [] \<and> distinct (map rt_id raws) \<and> bt_ok configs
    \<and> (\<forall>raw \<in> set raws. \<exists>c. config_tenant configs (rt_id raw) = Some c \<and> check_tenant raw = Inr c)
    \<and> (\<forall>key c. config_tenant configs key = Some c \<longrightarrow>
         tenant_valid c \<and> key = tenant_as_str (tc_id c) \<and> key \<in> rt_id ` set raws)"
  by (rule parse_tenant_toml_Inr [OF assms])

definition example_tenant :: "string \<Rightarrow> string \<Rightarrow> raw_tenant_config" where
  "example_tenant tid digest =
     \<lparr>rt_id = tid, rt_name = ''Acme'', rt_enabled = True, rt_api_key_sha256 = digest,
      rt_dram_quota_bytes = 1000, rt_ssd_quota_bytes = 0, rt_request_rate_limit_per_minute = 60,
      rt_stream_concurrency_limit = 4, rt_vendor_spend_budget_usd = 10, rt_default_ttl_seconds = 60,
      rt_max_ttl_seconds = 600, rt_policy = PolicyCacheFirst, rt_allowed_vendors = [''openai'']\<rparr>"

definition example_tenants_toml :: "string \<Rightarrow> string + raw_tenant_config list" where
  "example_tenants_toml txt =
     (if txt = ''ok'' then Inr [example_tenant ''acme'' (replicate 64 (CHR ''a''))] else Inl ''parse error'')"

lemma example_tenants_load:
  "\<exists>configs. parse_tenant_toml example_tenants_toml ''ok'' = Inr configs"
proof -
  have "trim ''acme'' \<noteq> []" "trim ''Acme'' \<noteq> []" "trim ''openai'' \<noteq> []" by code_simp+
  moreover have "is_lower_hex (CHR ''a'')" by code_simp
  ultimately show ?thesis
    by (simp add: parse_tenant_toml_def example_tenants_toml_def example_tenant_def check_tenant_def
        map_err_def parse_tenant_id_def validate_sha256_def list_all_iff bt_get_def)
qed

theorem loaded_tenants_are_valid_witness:
  "\<exists>configs c. parse_tenant_toml example_tenants_toml ''ok'' = Inr configs
     \<and> config_tenant configs ''acme'' = Some c \<and> tenant_valid c"
proof -
  obtain configs where load: "parse_tenant_toml example_tenants_toml ''ok'' = Inr configs"
    using example_tenants_load by blast
  from loaded_tenants_are_valid [OF load] obtain raws where raws: "example_tenants_toml ''ok'' = Inr raws"
    and entry: "\<forall>raw \<in> set raws. \<exists>c. config_tenant configs (rt_id raw) = Some c \<and> check_tenant raw = Inr c"
    and valid: "\<forall>key c. config_tenant configs key = Some c \<longrightarrow> tenant_valid c
         \<and> key = tenant_as_str (tc_id c) \<and> key \<in> rt_id ` set raws"
    by blast
  have "example_tenant ''acme'' (replicate 64 (CHR ''a'')) \<in> set raws"
    using raws by (auto simp: example_tenants_toml_def)
  then obtain c where "config_tenant configs ''acme'' = Some c"
    using entry by (force simp: example_tenant_def)
  then show ?thesis using load valid by blast
qed

end
