(* ===== verification/Vendor.thy ===== *)
theory Vendor
imports Protocol Config
begin

text \<open>
  \<^verbatim>\<open>crates/gateway/src/vendor.rs\<close>: the vendor interface, the adapter of the Responses API and
  its parser of server-sent events. The HTTP client is the argument \<open>send\<close> over the state \<open>'w\<close>
  of the outside world; what \<^verbatim>\<open>reqwest\<close> makes of a response body (text, JSON) is part of the
  response.
\<close>

section \<open>Errors and interface\<close>

datatype vendor_error =
    VendorHttpStatus u16 string
  | VendorTransport string
  | VendorInvalidResponse string

fun vendor_error_to_string :: "vendor_error \<Rightarrow> string" where
  "vendor_error_to_string (VendorHttpStatus s b) =
     ''vendor returned HTTP '' @ show_nat (unat s) @ '': '' @ b"
| "vendor_error_to_string (VendorTransport m) = ''vendor transport error: '' @ m"
| "vendor_error_to_string (VendorInvalidResponse m) = ''vendor response was invalid: '' @ m"

fun is_retryable_before_stream_start :: "vendor_error \<Rightarrow> bool" where
  "is_retryable_before_stream_start (VendorTransport m) = True"
| "is_retryable_before_stream_start (VendorHttpStatus s b) = (s = 429 \<or> (500 \<le> s \<and> s \<le> 599))"
| "is_retryable_before_stream_start (VendorInvalidResponse m) = False"

text \<open>A stream is the list of the items it yields, up to the first error.\<close>

type_synonym vendor_stream = "(vendor_error + sse_event) list"

record 'w vendor_adapter =
  va_vendor_id :: string
  va_adapter_version :: string
  va_model_cache_eligible :: "string \<Rightarrow> bool"
  va_resolve_model_version :: "string \<Rightarrow> 'w \<Rightarrow> (vendor_error + string) \<times> 'w"
  va_complete :: "responses_request \<Rightarrow> 'w \<Rightarrow> (vendor_error + json) \<times> 'w"
  va_stream :: "responses_request \<Rightarrow> 'w \<Rightarrow> (vendor_error + vendor_stream) \<times> 'w"

section \<open>Server-sent events\<close>

type_synonym sse_state = "sse_event list \<times> string option \<times> string list"

definition flush_sse_event :: "sse_state \<Rightarrow> sse_state" where
  "flush_sse_event s =
     (case s of (events, event_name, data_lines) \<Rightarrow>
        if data_lines = [] then (events, None, [])
        else (events @ [\<lparr>sse_name = event_name, sse_data = join [CHR 0x0A] data_lines\<rparr>], None, []))"

definition sse_line :: "string \<Rightarrow> sse_state \<Rightarrow> sse_state" where
  "sse_line raw s =
     (case s of (events, event_name, data_lines) \<Rightarrow>
        let line = trim_end_matches (CHR 0x0D) raw
        in if line = [] then flush_sse_event s
           else if starts_with '':'' line then s
           else case strip_prefix ''event:'' line of
             Some val \<Rightarrow> (events, Some (trim_start val), data_lines)
           | None \<Rightarrow>
               (case strip_prefix ''data:'' line of
                  Some val \<Rightarrow> (events, event_name, data_lines @ [trim_start val])
                | None \<Rightarrow> s))"

definition parse_sse_events :: "string \<Rightarrow> vendor_error + sse_event list" where
  "parse_sse_events txt =
     (let (events, _, _) = flush_sse_event (fold sse_line (lines txt) ([], None, []))
      in if events = [] then Inl (VendorInvalidResponse ''vendor stream did not contain SSE events'')
         else Inr events)"

section \<open>The adapter of the Responses API\<close>

record http_request =
  hreq_url :: string
  hreq_bearer :: string
  hreq_body :: json
  hreq_headers :: "(string \<times> string) list"
  hreq_timeout_ms :: u64

record http_response =
  hres_status :: u16
  hres_text :: "string + string"
  hres_json :: "string + json"

definition is_success :: "u16 \<Rightarrow> bool" where
  "is_success s \<longleftrightarrow> 200 \<le> s \<and> s < 300"

record openai_adapter =
  oa_base_url :: string
  oa_api_key :: string
  oa_timeout_ms :: u64
  oa_headers :: "(string, string) btree_map"
  oa_models :: "(string, vendor_model_config) btree_map"

definition openai_new ::
  "string option \<Rightarrow> string \<Rightarrow> string \<Rightarrow> u64 \<Rightarrow> (string, string) btree_map
   \<Rightarrow> vendor_model_config list \<Rightarrow> vendor_error + openai_adapter" where
  "openai_new build_error base_url api_key timeout_ms headers models =
     (let base_url = trim_end_matches (CHR ''/'') base_url
      in if base_url = [] then Inl (VendorInvalidResponse ''vendor base_url must not be empty'')
         else if trim api_key = [] then Inl (VendorInvalidResponse ''vendor api key must not be empty'')
         else case build_error of
           Some e \<Rightarrow> Inl (VendorTransport e)
         | None \<Rightarrow> Inr \<lparr>oa_base_url = base_url, oa_api_key = api_key, oa_timeout_ms = timeout_ms,
                        oa_headers = headers,
                        oa_models = fold (\<lambda>(k, v). bt_insert k v)
                          (map (\<lambda>model. (vm_requested model, model)) models) []\<rparr>)"

definition responses_url :: "openai_adapter \<Rightarrow> string" where
  "responses_url a = oa_base_url a @ ''/responses''"

type_synonym 'w http_send = "http_request \<Rightarrow> 'w \<Rightarrow> (string + http_response) \<times> 'w"

definition openai_post_json ::
  "'w http_send \<Rightarrow> openai_adapter \<Rightarrow> json \<Rightarrow> 'w \<Rightarrow> (vendor_error + http_response) \<times> 'w" where
  "openai_post_json send a body w =
     (case send \<lparr>hreq_url = responses_url a, hreq_bearer = oa_api_key a, hreq_body = body,
                  hreq_headers = oa_headers a, hreq_timeout_ms = oa_timeout_ms a\<rparr> w of
        (Inl e, w') \<Rightarrow> (Inl (VendorTransport e), w')
      | (Inr r, w') \<Rightarrow> (Inr r, w'))"

definition openai_model_cache_eligible :: "openai_adapter \<Rightarrow> string \<Rightarrow> bool" where
  "openai_model_cache_eligible a requested =
     (case bt_get (oa_models a) requested of None \<Rightarrow> True | Some model \<Rightarrow> vm_cache_eligible model)"

definition openai_resolve_model_version :: "openai_adapter \<Rightarrow> string \<Rightarrow> string" where
  "openai_resolve_model_version a requested =
     (case bt_get (oa_models a) requested of None \<Rightarrow> requested | Some model \<Rightarrow> vm_resolved model)"

definition read_error_body :: "http_response \<Rightarrow> string" where
  "read_error_body r =
     (case hres_text r of
        Inr txt \<Rightarrow> txt
      | Inl e \<Rightarrow> ''[failed to read error body: '' @ e @ '']'')"

definition openai_complete ::
  "'w http_send \<Rightarrow> openai_adapter \<Rightarrow> responses_request \<Rightarrow> 'w \<Rightarrow> (vendor_error + json) \<times> 'w" where
  "openai_complete send a request w =
     (case openai_post_json send a (responses_request_to_value request) w of
        (Inl e, w') \<Rightarrow> (Inl e, w')
      | (Inr response, w') \<Rightarrow>
          if \<not> is_success (hres_status response)
          then (Inl (VendorHttpStatus (hres_status response) (read_error_body response)), w')
          else (map_err VendorInvalidResponse (hres_json response), w'))"

definition openai_stream ::
  "'w http_send \<Rightarrow> openai_adapter \<Rightarrow> responses_request \<Rightarrow> 'w \<Rightarrow> (vendor_error + vendor_stream) \<times> 'w" where
  "openai_stream send a request w =
     (let body = (case responses_request_to_value request of
                    JObject m \<Rightarrow> JObject (bt_insert ''stream'' (JBool True) m) | v \<Rightarrow> v)
      in case openai_post_json send a body w of
        (Inl e, w') \<Rightarrow> (Inl e, w')
      | (Inr response, w') \<Rightarrow>
          if \<not> is_success (hres_status response)
          then (Inl (VendorHttpStatus (hres_status response) (read_error_body response)), w')
          else case hres_text response of
            Inl e \<Rightarrow> (Inl (VendorTransport e), w')
          | Inr txt \<Rightarrow> (try_result (parse_sse_events txt) (\<lambda>events. Inr (map Inr events)), w'))"

definition openai_vendor :: "'w http_send \<Rightarrow> openai_adapter \<Rightarrow> 'w vendor_adapter" where
  "openai_vendor send a =
     \<lparr>va_vendor_id = ''openai'', va_adapter_version = ''openai-responses-v1'',
      va_model_cache_eligible = openai_model_cache_eligible a,
      va_resolve_model_version = (\<lambda>requested w. (Inr (openai_resolve_model_version a requested), w)),
      va_complete = openai_complete send a, va_stream = openai_stream send a\<rparr>"

section \<open>The wire format of events\<close>

text \<open>
  An event on the wire: an optional name line, at least one data line, an empty line. A text
  fits on a line when it has no line break and does not start with white space.
\<close>

type_synonym wire_event = "string option \<times> string list"

definition wire_clean :: "string \<Rightarrow> bool" where
  "wire_clean s \<longleftrightarrow> CHR 0x0A \<notin> set s \<and> CHR 0x0D \<notin> set s \<and> strip_any whitespace s = None"

fun wire_event_ok :: "wire_event \<Rightarrow> bool" where
  "wire_event_ok (name, ds) \<longleftrightarrow>
     (case name of None \<Rightarrow> True | Some n \<Rightarrow> wire_clean n) \<and> ds \<noteq> [] \<and> list_all wire_clean ds"

fun render_event :: "wire_event \<Rightarrow> string" where
  "render_event (name, ds) =
     (case name of None \<Rightarrow> [] | Some n \<Rightarrow> ''event: '' @ n @ [CHR 0x0A])
     @ concat (map (\<lambda>d. ''data: '' @ d @ [CHR 0x0A]) ds) @ [CHR 0x0A]"

fun event_of_wire :: "wire_event \<Rightarrow> sse_event" where
  "event_of_wire (name, ds) = \<lparr>sse_name = name, sse_data = join [CHR 0x0A] ds\<rparr>"

lemma trim_start_clean: "wire_clean s \<Longrightarrow> trim_start (CHR '' '' # s) = s"
  by (simp add: wire_clean_def trim_start_space trim_start_fixed)

lemma sse_line_event:
  assumes "wire_clean n"
  shows "sse_line (''event: '' @ n) (es, name, ds) = (es, Some n, ds)"
proof -
  have "trim_end_matches (CHR 0x0D) (''event: '' @ n) = ''event: '' @ n"
    using assms by (intro trim_end_matches_fixed) (simp add: wire_clean_def)
  then show ?thesis
    using trim_start_clean [OF assms] by (simp add: sse_line_def starts_with_def)
qed

lemma sse_line_data:
  assumes "wire_clean d"
  shows "sse_line (''data: '' @ d) (es, name, ds) = (es, name, ds @ [d])"
proof -
  have "trim_end_matches (CHR 0x0D) (''data: '' @ d) = ''data: '' @ d"
    using assms by (intro trim_end_matches_fixed) (simp add: wire_clean_def)
  then show ?thesis
    using trim_start_clean [OF assms] by (simp add: sse_line_def starts_with_def)
qed

lemma lines_field:
  assumes "wire_clean d" and "CHR 0x0A \<notin> set p" and "CHR 0x0D \<notin> set p"
  shows "lines ((p @ d @ [CHR 0x0A]) @ rest) = (p @ d) # lines rest"
  using lines_LF [of "p @ d" rest] assms by (simp add: wire_clean_def)

lemma fold_data_lines:
  assumes "list_all wire_clean ds"
  shows "fold sse_line (lines (concat (map (\<lambda>d. ''data: '' @ d @ [CHR 0x0A]) ds) @ rest)) (es, name, acc)
       = fold sse_line (lines rest) (es, name, acc @ ds)"
  using assms
proof (induction ds arbitrary: acc)
  case (Cons d ds)
  have "lines (concat (map (\<lambda>d. ''data: '' @ d @ [CHR 0x0A]) (d # ds)) @ rest) =
      (''data: '' @ d) # lines (concat (map (\<lambda>d. ''data: '' @ d @ [CHR 0x0A]) ds) @ rest)"
    using Cons.prems lines_field [of d "''data: ''"] by simp
  then show ?case
    using Cons sse_line_data [of d es name acc] by simp
qed simp

lemma fold_render_event:
  assumes "wire_event_ok e"
  shows "fold sse_line (lines (render_event e @ rest)) (es, None, []) =
         fold sse_line (lines rest) (es @ [event_of_wire e], None, [])"
proof (cases e)
  case (Pair name ds)
  have blank: "lines (CHR 0x0A # rest) = [] # lines rest" using lines_LF [of "[]" rest] by simp
  have finish: "sse_line [] (es, name, ds) = (es @ [event_of_wire e], None, [])"
    using assms Pair by (simp add: sse_line_def flush_sse_event_def trim_end_matches_def)
  have datas: "fold sse_line (lines (concat (map (\<lambda>d. ''data: '' @ d @ [CHR 0x0A]) ds) @ CHR 0x0A # rest))
      (es, name, []) = fold sse_line (lines rest) (es @ [event_of_wire e], None, [])"
    using fold_data_lines [of ds "CHR 0x0A # rest" es name "[]"] assms Pair finish by (simp add: blank)
  show ?thesis
  proof (cases name)
    case None
    then show ?thesis using datas Pair by simp
  next
    case (Some n)
    then have "wire_clean n" using assms Pair by simp
    then show ?thesis
      using datas Pair Some lines_field [of n "''event: ''"] sse_line_event [of n es None "[]"] by simp
  qed
qed

lemma fold_render_events:
  assumes "list_all wire_event_ok ws"
  shows "fold sse_line (lines (concat (map render_event ws))) (es, None, []) =
         (es @ map event_of_wire ws, None, [])"
  using assms
proof (induction ws arbitrary: es)
  case Nil
  then show ?case by (simp add: lines_def)
next
  case (Cons w ws)
  then show ?case using fold_render_event [of w "concat (map render_event ws)" es] by simp
qed

text \<open>
  The event parser inverts the wire format. Any non-empty sequence of events whose name
  and data lines fit on a line is read back exactly, in order, with multi-line data joined
  by line feeds.
\<close>

lemma sse_events_round_trip:
  assumes "list_all wire_event_ok ws" and "ws \<noteq> []"
  shows "parse_sse_events (concat (map render_event ws)) = Inr (map event_of_wire ws)"
  using fold_render_events [OF assms(1), of "[]"] assms(2)
  by (simp add: parse_sse_events_def flush_sse_event_def)

section \<open>The adapter\<close>

text \<open>
  What the adapter sends. A completion posts the request exactly as the client sent it,
  with its unknown members, to the responses endpoint under the configured key; a stream
  posts the same with \<^verbatim>\<open>stream\<close> set. Retries are advised only for transport errors, 429 and
  5xx answers.
\<close>

lemma adapter_forwards_request:
  assumes "json_ok v" and "responses_request_from_value v = Some r"
  shows "openai_complete send a r w =
      (case send \<lparr>hreq_url = oa_base_url a @ ''/responses'', hreq_bearer = oa_api_key a, hreq_body = v,
                  hreq_headers = oa_headers a, hreq_timeout_ms = oa_timeout_ms a\<rparr> w of
         (Inl e, w') \<Rightarrow> (Inl (VendorTransport e), w')
       | (Inr res, w') \<Rightarrow>
           (if hres_status res < 200 \<or> 300 \<le> hres_status res
            then Inl (VendorHttpStatus (hres_status res) (read_error_body res))
            else map_err VendorInvalidResponse (hres_json res), w'))"
  using responses_request_round_trip [OF assms]
  by (auto simp: openai_complete_def openai_post_json_def responses_url_def is_success_def
      split: prod.splits sum.splits)

end
