(* ===== verification/Fingerprint.thy ===== *)
theory Fingerprint
imports Json
begin

text \<open>
  The crate \<^verbatim>\<open>mooncache-fingerprint\<close>: canonical JSON, the cache key of a request and the
  decision whether a request may be cached. The serializer \<^verbatim>\<open>serde_json::to_vec\<close> and the
  digest are arguments.
\<close>

section \<open>Canonical JSON\<close>

fun canonicalize :: "json \<Rightarrow> json" where
  "canonicalize (JObject m) =
     (let cm = map (\<lambda>(k, v). (k, canonicalize v)) m;
          keys = sort (map fst m)
      in JObject (fold (\<lambda>(k, v). bt_insert k v) (map (\<lambda>key. (key, the (map_of cm key))) keys) []))"
| "canonicalize (JArray items) = JArray (map canonicalize items)"
| "canonicalize v = v"

type_synonym serializer = "json \<Rightarrow> string + bytes"

definition canonical_json_bytes :: "serializer \<Rightarrow> json \<Rightarrow> string + bytes" where
  "canonical_json_bytes to_vec v = to_vec (canonicalize v)"

section \<open>Cache keys\<close>

record fingerprint_input =
  fi_tenant_id :: tenant_id
  fi_endpoint_version :: string
  fi_vendor_id :: string
  fi_resolved_model_version :: string
  fi_adapter_version :: string
  fi_cache_policy :: string
  fi_body :: json

definition fingerprint_document :: "fingerprint_input \<Rightarrow> json" where
  "fingerprint_document input =
     json_obj
       [(''tenant_id'', JString (tenant_as_str (fi_tenant_id input))),
        (''endpoint_version'', JString (fi_endpoint_version input)),
        (''vendor_id'', JString (fi_vendor_id input)),
        (''resolved_model_version'', JString (fi_resolved_model_version input)),
        (''adapter_version'', JString (fi_adapter_version input)),
        (''cache_policy'', JString (fi_cache_policy input)),
        (''body'', fi_body input)]"

definition compute_cache_key ::
  "serializer \<Rightarrow> (bytes \<Rightarrow> bytes) \<Rightarrow> fingerprint_input \<Rightarrow> cache_key cache_result" where
  "compute_cache_key to_vec sha256 input =
     (case canonical_json_bytes to_vec (fingerprint_document input) of
        Inl err \<Rightarrow> Inl (InvalidId err)
      | Inr bs \<Rightarrow> cache_key_from_hex (hex_lower (sha256 bs)))"

section \<open>Eligibility\<close>

datatype eligibility_decision = Cacheable | Bypass (bypass_reason: string)

definition classify_request :: "json \<Rightarrow> bool \<Rightarrow> eligibility_decision" where
  "classify_request body force_replay =
     (if force_replay then Cacheable
      else let temperature = Option.bind (json_get body ''temperature'') json_as_number
           in if (case temperature of None \<Rightarrow> True | Some n \<Rightarrow> number_is_zero n) then Cacheable
              else Bypass ''stochastic temperature requires explicit force replay'')"

section \<open>Equality up to the order of members\<close>

inductive json_equiv :: "json \<Rightarrow> json \<Rightarrow> bool" where
  equiv_refl: "json_equiv v v"
| equiv_array: "list_all2 json_equiv vs ws \<Longrightarrow> json_equiv (JArray vs) (JArray ws)"
| equiv_object: "list_all2 (\<lambda>e e'. fst e = fst e' \<and> json_equiv (snd e) (snd e')) m m'' \<Longrightarrow>
    mset m'' = mset m' \<Longrightarrow>
    json_equiv (JObject m) (JObject m')"

inductive_simps json_equiv_array: "json_equiv (JArray vs) w"
inductive_simps json_equiv_object: "json_equiv (JObject m) w"

section \<open>Lemmas on canonical JSON\<close>

lemma map_of_self: "distinct ks \<Longrightarrow> set ks = dom m \<Longrightarrow> map_of (map (\<lambda>k. (k, the (m k))) ks) = m"
  by (rule ext) (auto simp: map_of_map_restrict restrict_map_def)

text \<open>The members of a canonical object: the sorted map of the canonical members.\<close>

definition canonical_members :: "(string \<times> json) list \<Rightarrow> (string \<times> json) list" where
  "canonical_members cm = fold (\<lambda>(k, v). bt_insert k v)
     (map (\<lambda>key. (key, the (map_of cm key))) (sort (map fst cm))) []"

lemma canonicalize_object:
  "canonicalize (JObject m) = JObject (canonical_members (map (\<lambda>(k, v). (k, canonicalize v)) m))"
  by (simp add: canonical_members_def Let_def comp_def case_prod_unfold)

lemma canonical_members_ok: "bt_ok (canonical_members cm)"
  unfolding canonical_members_def by (rule bt.invar_fold_insert) (simp add: bt_ok_def)

lemma canonical_members_get:
  assumes "distinct (map fst cm)"
  shows "bt_get (canonical_members cm) = map_of cm"
proof
  fix k
  have "bt_get (canonical_members cm) k = map_of (map (\<lambda>key. (key, the (map_of cm key))) (sort (map fst cm))) k"
    unfolding canonical_members_def using assms by (intro bt.lookup_collect) (simp add: comp_def)
  also have "\<dots> = map_of cm k"
    using assms by (subst map_of_self) (auto simp: dom_map_of_conv_image_fst)
  finally show "bt_get (canonical_members cm) k = map_of cm k" .
qed

lemma canonical_members_eq_iff:
  assumes "distinct (map fst cm)" and "distinct (map fst cm')"
  shows "canonical_members cm = canonical_members cm' \<longleftrightarrow> mset cm = mset cm'"
proof
  assume "canonical_members cm = canonical_members cm'"
  then have "map_of cm = map_of cm'"
    using canonical_members_get assms by metis
  then have "set cm = set cm'"
    using map_of_inject_set [OF assms] by simp
  then show "mset cm = mset cm'"
    using assms by (metis distinct_map set_eq_iff_mset_eq_distinct)
next
  assume eq: "mset cm = mset cm'"
  have "map_of cm = map_of cm'"
    using eq assms by (metis map_of_inject_set mset_eq_setD)
  then show "canonical_members cm = canonical_members cm'"
    using canonical_members_get assms canonical_members_ok by (intro bt_ok_ext) metis+
qed

lemma mset_map_eq_perm:
  "mset (map f xs) = mset (map f ys) \<Longrightarrow> \<exists>zs. mset zs = mset ys \<and> map f zs = map f xs"
proof (induction xs arbitrary: ys)
  case (Cons x xs)
  then have "f x \<in> set (map f ys)" by (metis list.set_intros(1) list.simps(9) mset_eq_setD)
  then obtain us y vs where ys: "ys = us @ y # vs" "f y = f x"
    by (auto simp: in_set_conv_decomp dest!: split_list)
  then have "mset (map f xs) = mset (map f (us @ vs))" using Cons.prems by simp
  then obtain zs where "mset zs = mset (us @ vs)" "map f zs = map f xs" using Cons.IH by blast
  then show ?case using ys by (intro exI [of _ "y # zs"]) simp
qed simp

lemma canonicalize_equiv:
  "json_equiv a b \<Longrightarrow> json_distinct a \<Longrightarrow> json_distinct b \<Longrightarrow> canonicalize a = canonicalize b"
proof (induction rule: json_equiv.induct)
  case (equiv_array vs ws)
  then have "length vs = length ws" and "\<forall>i < length vs. canonicalize (vs ! i) = canonicalize (ws ! i)"
    by (simp_all add: list_all2_conv_all_nth list_all_length)
  then show ?case by (simp add: list_eq_iff_nth_eq)
next
  case (equiv_object m m'' m')
  have sets: "set m'' = set m'" using equiv_object.hyps by (rule mset_eq_setD)
  have "map (\<lambda>(k, v). (k, canonicalize v)) m = map (\<lambda>(k, v). (k, canonicalize v)) m''"
  proof (rule nth_equalityI)
    show "length (map (\<lambda>(k, v). (k, canonicalize v)) m) = length (map (\<lambda>(k, v). (k, canonicalize v)) m'')"
      using equiv_object.IH by (simp add: list_all2_lengthD)
    fix i
    assume i: "i < length (map (\<lambda>(k, v). (k, canonicalize v)) m)"
    have len: "length m = length m''" using equiv_object.IH by (simp add: list_all2_lengthD)
    have mem: "m'' ! i \<in> set m'" "m ! i \<in> set m" using i sets len nth_mem [of i m''] by simp_all
    have "json_distinct (snd (m ! i))" "json_distinct (snd (m'' ! i))"
      using equiv_object.prems mem by (simp_all add: list_all_iff case_prod_unfold)
    moreover have "fst (m ! i) = fst (m'' ! i)" and
      "json_distinct (snd (m ! i)) \<longrightarrow> json_distinct (snd (m'' ! i)) \<longrightarrow>
         canonicalize (snd (m ! i)) = canonicalize (snd (m'' ! i))"
      using list_all2_nthD [OF equiv_object.IH, of i] i by simp_all
    ultimately show "map (\<lambda>(k, v). (k, canonicalize v)) m ! i = map (\<lambda>(k, v). (k, canonicalize v)) m'' ! i"
      using i len by (simp add: case_prod_unfold)
  qed
  then have "mset (map (\<lambda>(k, v). (k, canonicalize v)) m) = mset (map (\<lambda>(k, v). (k, canonicalize v)) m')"
    using equiv_object.hyps by (metis mset_map)
  then show ?case
    using equiv_object.prems unfolding canonicalize_object
    by (subst canonical_members_eq_iff [THEN iffD2]) (simp_all add: comp_def case_prod_unfold)
qed simp

lemma canonicalize_eq_equiv:
  "canonicalize a = canonicalize b \<Longrightarrow> json_distinct a \<Longrightarrow> json_distinct b \<Longrightarrow> json_equiv a b"
proof (induction a arbitrary: b rule: canonicalize.induct)
  case (1 m)
  obtain m' where b: "b = JObject m'"
    using "1.prems"(1) by (cases b) (simp_all add: Let_def)
  let ?f = "\<lambda>(k, v). (k, canonicalize v)"
  have dist: "distinct (map fst (map ?f m))" "distinct (map fst (map ?f m'))"
    using "1.prems"(2,3) by (simp_all add: b comp_def case_prod_unfold)
  have "mset (map ?f m) = mset (map ?f m')"
    using "1.prems"(1) canonical_members_eq_iff [OF dist] unfolding b canonicalize_object by simp
  then obtain m'' where m'': "mset m'' = mset m'" "map ?f m'' = map ?f m"
    using mset_map_eq_perm [of ?f m m'] by blast
  have len: "length m'' = length m" using m''(2) by (metis length_map)
  have "fst (m ! i) = fst (m'' ! i) \<and> json_equiv (snd (m ! i)) (snd (m'' ! i))" if i: "i < length m" for i
  proof -
    have eq: "fst (m ! i) = fst (m'' ! i)" "canonicalize (snd (m ! i)) = canonicalize (snd (m'' ! i))"
      using arg_cong [OF m''(2), of "\<lambda>xs. xs ! i"] i len by (simp_all add: case_prod_unfold)
    have "m'' ! i \<in> set m'" using mset_eq_setD [OF m''(1)] i len by (metis nth_mem)
    then have "json_distinct (snd (m ! i))" "json_distinct (snd (m'' ! i))"
      using "1.prems"(2,3) nth_mem [OF i] by (auto simp: b list_all_iff case_prod_unfold)
    then show ?thesis
      using "1.IH" [OF nth_mem [OF i] prod.collapse eq(2)] eq(1) by simp
  qed
  then have "list_all2 (\<lambda>e e'. fst e = fst e' \<and> json_equiv (snd e) (snd e')) m m''"
    using len by (simp add: list_all2_conv_all_nth)
  then show ?case unfolding b by (rule equiv_object [OF _ m''(1)])
next
  case (2 items)
  obtain ws where b: "b = JArray ws"
    using "2.prems"(1) by (cases b) (simp_all add: Let_def)
  have "list_all2 json_equiv items ws"
    using 2 by (auto simp: b list_all2_conv_all_nth list_all_length map_equality_iff)
  then show ?case unfolding b by (rule equiv_array)
qed (case_tac b; simp add: Let_def equiv_refl)+

lemma canonical_members_id: "bt_ok cm \<Longrightarrow> canonical_members cm = cm"
  using canonical_members_get [of cm] canonical_members_ok [of cm] bt_ok_distinct [of cm]
  by (intro bt_ok_ext) (auto simp: bt_get_def)

text \<open>On the values \<^verbatim>\<open>serde_json\<close> builds, whose members are sorted already, nothing changes.\<close>

lemma canonicalize_id: "json_ok v \<Longrightarrow> canonicalize v = v"
proof (induction v rule: canonicalize.induct)
  case (1 m)
  have "map (\<lambda>(k, v). (k, canonicalize v)) m = m"
    using 1 by (intro map_idI) (auto simp: list_all_iff)
  then show ?case
    using "1.prems" unfolding canonicalize_object by (simp add: canonical_members_id)
next
  case (2 items)
  then show ?case by (auto simp: list_all_iff intro: map_idI)
qed simp_all

lemma canonicalize_ok: "json_distinct v \<Longrightarrow> json_ok (canonicalize v)"
proof (induction v rule: canonicalize.induct)
  case (1 m)
  let ?cm = "map (\<lambda>(k, v). (k, canonicalize v)) m"
  have dist: "distinct (map fst ?cm)" using "1.prems" by (simp add: comp_def case_prod_unfold)
  have "json_ok v" if "(k, v) \<in> set (canonical_members ?cm)" for k v
  proof -
    have "bt_get (canonical_members ?cm) k = Some v"
      using that canonical_members_ok by (simp add: bt_get_iff)
    then have "(k, v) \<in> set ?cm"
      unfolding canonical_members_get [OF dist] by (rule map_of_SomeD)
    then obtain w where w: "(k, w) \<in> set m" "v = canonicalize w" by auto
    then have "json_distinct w" using "1.prems" by (auto simp: list_all_iff)
    then show ?thesis using "1.IH" [OF w(1) refl] w(2) by simp
  qed
  then show ?case
    unfolding canonicalize_object by (auto simp: canonical_members_ok list_all_iff)
qed (auto simp: list_all_iff)

section \<open>The document that is hashed\<close>

lemma fingerprint_document_eq:
  "fingerprint_document i =
     JObject [(''adapter_version'', JString (fi_adapter_version i)), (''body'', fi_body i),
       (''cache_policy'', JString (fi_cache_policy i)), (''endpoint_version'', JString (fi_endpoint_version i)),
       (''resolved_model_version'', JString (fi_resolved_model_version i)),
       (''tenant_id'', JString (tenant_as_str (fi_tenant_id i))), (''vendor_id'', JString (fi_vendor_id i))]"
  by (simp add: fingerprint_document_def json_obj_def less_char_def)

lemma fingerprint_document_distinct: "json_distinct (fingerprint_document i) \<longleftrightarrow> json_distinct (fi_body i)"
  by (simp add: fingerprint_document_eq)

definition same_request :: "fingerprint_input \<Rightarrow> fingerprint_input \<Rightarrow> bool" where
  "same_request i j \<longleftrightarrow>
     fi_tenant_id i = fi_tenant_id j \<and> fi_endpoint_version i = fi_endpoint_version j
     \<and> fi_vendor_id i = fi_vendor_id j \<and> fi_resolved_model_version i = fi_resolved_model_version j
     \<and> fi_adapter_version i = fi_adapter_version j \<and> fi_cache_policy i = fi_cache_policy j
     \<and> json_equiv (fi_body i) (fi_body j)"

lemma canonical_document_eq_iff:
  assumes "json_distinct (fi_body i)" and "json_distinct (fi_body j)"
  shows "canonicalize (fingerprint_document i) = canonicalize (fingerprint_document j) \<longleftrightarrow> same_request i j"
proof -
  let ?f = "\<lambda>(k, v). (k, canonicalize v)"
  have doc: "canonicalize (fingerprint_document i) = JObject (map ?f
      [(''adapter_version'', JString (fi_adapter_version i)), (''body'', fi_body i),
       (''cache_policy'', JString (fi_cache_policy i)), (''endpoint_version'', JString (fi_endpoint_version i)),
       (''resolved_model_version'', JString (fi_resolved_model_version i)),
       (''tenant_id'', JString (tenant_as_str (fi_tenant_id i))), (''vendor_id'', JString (fi_vendor_id i))])" for i
    unfolding fingerprint_document_eq canonicalize_object
    by (subst canonical_members_id) (simp_all add: bt_ok_def less_char_def)
  show ?thesis
    using canonicalize_equiv [of "fi_body i" "fi_body j"] canonicalize_eq_equiv [of "fi_body i" "fi_body j"] assms
    unfolding doc by (auto simp: same_request_def tenant_id.expand)
qed

section \<open>Contract\<close>

lemma canonical_document_ok: "json_distinct (fi_body i) \<Longrightarrow> json_ok (canonicalize (fingerprint_document i))"
  by (intro canonicalize_ok) (simp add: fingerprint_document_distinct)

text \<open>
  C24: the cache key is a fingerprint of the request. Two requests get the same key exactly
  when tenant, endpoint, vendor, resolved model, adapter and policy agree and their bodies are
  equal up to the order of object members (of bodies without repeated member names). The
  serializer is assumed to succeed and to be injective on values with sorted members, the
  digest to have 32 bytes and not to collide on the two documents.
\<close>

theorem cache_key_identifies_request:
  assumes "json_distinct (fi_body i)" and "json_distinct (fi_body j)"
    and serializes: "\<And>v. json_ok v \<Longrightarrow> \<exists>bs. to_vec v = Inr bs"
    and injective: "\<And>v w. json_ok v \<Longrightarrow> json_ok w \<Longrightarrow> to_vec v = to_vec w \<Longrightarrow> v = w"
    and digest: "\<And>bs. length (sha256 bs) = 32"
    and no_collision: "\<And>x y. canonical_json_bytes to_vec (fingerprint_document i) = Inr x \<Longrightarrow>
      canonical_json_bytes to_vec (fingerprint_document j) = Inr y \<Longrightarrow> sha256 x = sha256 y \<Longrightarrow> x = y"
  shows "(\<exists>k. compute_cache_key to_vec sha256 i = Inr k)
    \<and> (compute_cache_key to_vec sha256 i = compute_cache_key to_vec sha256 j \<longleftrightarrow> same_request i j)"
proof -
  note ok = canonical_document_ok [OF assms(1)] canonical_document_ok [OF assms(2)]
  obtain x y where x: "to_vec (canonicalize (fingerprint_document i)) = Inr x"
    and y: "to_vec (canonicalize (fingerprint_document j)) = Inr y"
    using serializes ok by blast
  have key: "compute_cache_key to_vec sha256 i = Inr (CacheKey (hex_lower (sha256 x)))"
    "compute_cache_key to_vec sha256 j = Inr (CacheKey (hex_lower (sha256 y)))"
    using x y digest by (simp_all add: compute_cache_key_def canonical_json_bytes_def valid_key_text_hex_lower)
  have "sha256 x = sha256 y \<longleftrightarrow> canonicalize (fingerprint_document i) = canonicalize (fingerprint_document j)"
    using no_collision [of x y] injective [OF ok] x y by (auto simp: canonical_json_bytes_def)
  then show ?thesis
    using key canonical_document_eq_iff [OF assms(1,2)] by (simp add: hex_lower_inject)
qed

definition example_input :: "string \<Rightarrow> fingerprint_input" where
  "example_input tenant =
     \<lparr>fi_tenant_id = TenantId tenant, fi_endpoint_version = ''v1'', fi_vendor_id = ''openai'',
      fi_resolved_model_version = ''m'', fi_adapter_version = ''a'', fi_cache_policy = ''default'',
      fi_body = JObject [(''input'', JString ''hi''), (''temperature'', JNumber (PosInt 0))]\<rparr>"

definition example_digest :: "bytes \<Rightarrow> bytes" where
  "example_digest bs =
     replicate 32 (if bs = json_encode (canonicalize (fingerprint_document (example_input ''a'')))
                   then CHR ''0'' else CHR ''1'')"

theorem cache_key_identifies_request_witness:
  "compute_cache_key (\<lambda>v. Inr (json_encode v)) example_digest (example_input ''a'')
     \<noteq> compute_cache_key (\<lambda>v. Inr (json_encode v)) example_digest (example_input ''b'')"
proof -
  let ?enc = "\<lambda>v. Inr (json_encode v) :: string + bytes"
  have distinct: "json_distinct (fi_body (example_input t))" for t by (simp add: example_input_def)
  have differ: "\<not> same_request (example_input ''a'') (example_input ''b'')"
    by (simp add: same_request_def example_input_def)
  have "(\<exists>k. compute_cache_key ?enc example_digest (example_input ''a'') = Inr k)
    \<and> (compute_cache_key ?enc example_digest (example_input ''a'')
         = compute_cache_key ?enc example_digest (example_input ''b'')
       \<longleftrightarrow> same_request (example_input ''a'') (example_input ''b''))"
  proof (rule cache_key_identifies_request [OF distinct distinct])
    show "x = y" if "canonical_json_bytes ?enc (fingerprint_document (example_input ''a'')) = Inr x"
      and "example_digest x = example_digest y" for x y
      using that by (auto simp: canonical_json_bytes_def example_digest_def split: if_splits)
    show "v = w" if "?enc v = ?enc w" for v w using that by (simp add: json_encode_inject)
    show "length (example_digest bs) = 32" for bs by (simp add: example_digest_def)
  qed simp
  with differ show ?thesis by simp
qed

text \<open>
  Eligibility: a request is cached when replay is forced, or when its temperature is
  absent, not a number, or a number equal to zero (of either sign); otherwise it bypasses
  the cache.
\<close>

lemma classify_request_cacheable_iff:
  "classify_request body force = Cacheable \<longleftrightarrow>
     force \<or> (\<forall>n. json_get body ''temperature'' = Some (JNumber n) \<longrightarrow> number_is_zero n)"
  by (auto simp: classify_request_def Let_def json_as_number_def split: option.splits json.splits bind_splits)

lemma negative_zero_temperature_is_cacheable:
  "classify_request (JObject [(''temperature'', JNumber (Float 0x8000000000000000))]) False = Cacheable"
  using classify_request_cacheable_iff [of "JObject [(''temperature'', JNumber (Float 0x8000000000000000))]" False]
  by (simp add: json_get_def bt_get_def)

end
