(* ===== verification/Streaming.thy ===== *)
theory Streaming
imports Vendor Fingerprint
begin

text \<open>
  \<^verbatim>\<open>crates/gateway/src/streaming.rs\<close>: capturing a vendor's event stream, the object that is
  cached for it and how a cached object is told from a plain body. The functions of
  \<^verbatim>\<open>serde_json\<close> and the text of its conversion errors are the record \<open>serde\<close>.
\<close>

record serde =
  sj_to_vec :: "json \<Rightarrow> string + bytes"
  sj_from_slice :: "bytes \<Rightarrow> string + json"
  sj_type_error :: "json \<Rightarrow> string"

definition streaming_object_type :: string where
  "streaming_object_type = ''mooncache.streaming-response.v1''"

record captured_stream =
  cap_events :: "sse_event list"
  cap_final_body :: json

record cached_stream_object =
  cso_mooncache_object :: string
  cso_events :: "sse_event list"
  cso_final_body :: json

section \<open>Capturing\<close>

definition aggregate_final_body :: "serde \<Rightarrow> sse_event list \<Rightarrow> vendor_error + json" where
  "aggregate_final_body sj events =
     (case find (\<lambda>event. sse_name event = Some ''response.completed'') (rev events) of
        None \<Rightarrow> Inl (VendorInvalidResponse ''stream completed without response.completed event'')
      | Some completed \<Rightarrow>
          (case sj_from_slice sj (sse_data completed) of
             Inl err \<Rightarrow> Inl (VendorInvalidResponse (''response.completed data was not valid JSON: '' @ err))
           | Inr (JObject m) \<Rightarrow>
               Inr (case bt_get m ''response'' of
                      Some response \<Rightarrow> response | None \<Rightarrow> JObject (bt_remove ''response'' m))
           | Inr v \<Rightarrow> Inr v))"

fun collect_events :: "vendor_stream \<Rightarrow> vendor_error + sse_event list" where
  "collect_events [] = Inr []"
| "collect_events (Inl e # rest) = Inl e"
| "collect_events (Inr event # rest) = try_result (collect_events rest) (\<lambda>events. Inr (event # events))"

definition collect_stream :: "serde \<Rightarrow> vendor_stream \<Rightarrow> vendor_error + captured_stream" where
  "collect_stream sj stream =
     try_result (collect_events stream) (\<lambda>events.
     try_result (aggregate_final_body sj events) (\<lambda>final_body.
     Inr \<lparr>cap_events = events, cap_final_body = final_body\<rparr>))"

section \<open>The cached object\<close>

text \<open>What the derived serializer writes, with the members in the order of the struct.\<close>

definition stream_object_value :: "captured_stream \<Rightarrow> json" where
  "stream_object_value captured =
     JObject [(''mooncache_object'', JString streaming_object_type),
              (''events'', JArray (map sse_event_to_value (cap_events captured))),
              (''final_body'', cap_final_body captured)]"

definition serialize_stream_object :: "serde \<Rightarrow> captured_stream \<Rightarrow> string + bytes" where
  "serialize_stream_object sj captured = sj_to_vec sj (stream_object_value captured)"

fun sse_events_from_values :: "json list \<Rightarrow> sse_event list option" where
  "sse_events_from_values [] = Some []"
| "sse_events_from_values (v # vs) =
     (case (sse_event_from_value v, sse_events_from_values vs) of
        (Some e, Some es) \<Rightarrow> Some (e # es) | _ \<Rightarrow> None)"

definition stream_object_from_value :: "json \<Rightarrow> cached_stream_object option" where
  "stream_object_from_value v =
     (case (Option.bind (json_get v ''mooncache_object'') json_as_str,
            Option.bind (Option.bind (json_get v ''events'') json_as_array) sse_events_from_values,
            json_get v ''final_body'') of
        (Some ty, Some events, Some final_body) \<Rightarrow>
          Some \<lparr>cso_mooncache_object = ty, cso_events = events, cso_final_body = final_body\<rparr>
      | _ \<Rightarrow> None)"

definition is_streaming_object :: "json \<Rightarrow> bool" where
  "is_streaming_object v =
     (case Option.bind (json_get v ''mooncache_object'') json_as_str of
        None \<Rightarrow> False | Some object_type \<Rightarrow> object_type = streaming_object_type)"

definition cached_body_from_bytes :: "serde \<Rightarrow> bytes \<Rightarrow> string + json" where
  "cached_body_from_bytes sj bs =
     try_result (sj_from_slice sj bs) (\<lambda>val.
       if is_streaming_object val
       then (case stream_object_from_value val of
               None \<Rightarrow> Inl (sj_type_error sj val) | Some obj \<Rightarrow> Inr (cso_final_body obj))
       else Inr val)"

definition stream_object_from_bytes :: "serde \<Rightarrow> bytes \<Rightarrow> string + cached_stream_object option" where
  "stream_object_from_bytes sj bs =
     try_result (sj_from_slice sj bs) (\<lambda>val.
       if is_streaming_object val
       then (case stream_object_from_value val of
               None \<Rightarrow> Inl (sj_type_error sj val) | Some obj \<Rightarrow> Inr (Some obj))
       else Inr None)"

section \<open>Lemmas\<close>

lemma collect_events_map [simp]: "collect_events (map Inr events) = Inr events"
  by (induction events) (simp_all add: try_result_def)

lemma collect_events_Inr: "collect_events stream = Inr events \<longleftrightarrow> stream = map Inr events"
proof
  show "collect_events stream = Inr events \<Longrightarrow> stream = map Inr events"
    by (induction stream arbitrary: events rule: collect_events.induct)
       (auto simp: try_result_def split: sum.splits)
qed simp

lemma collect_stream_Inr:
  "collect_stream sj stream = Inr captured \<longleftrightarrow>
     stream = map Inr (cap_events captured)
     \<and> aggregate_final_body sj (cap_events captured) = Inr (cap_final_body captured)"
  by (cases captured)
     (auto simp: collect_stream_def try_result_def collect_events_Inr [symmetric] split: sum.splits)

lemma canonical_sse_event:
  "canonicalize (sse_event_to_value e) = JObject [(''data'', JString (sse_data e)),
     (''event'', case sse_name e of None \<Rightarrow> JNull | Some n \<Rightarrow> JString n)]"
  by (simp add: sse_event_to_value_def less_char_def split: option.splits)

lemma sse_events_from_canonical:
  "sse_events_from_values (map (canonicalize \<circ> sse_event_to_value) es) = Some es"
  by (induction es) (simp_all add: canonical_sse_event sse_event_from_sorted)

lemma canonical_stream_object:
  assumes "json_ok (cap_final_body captured)"
  shows "canonicalize (stream_object_value captured) =
    JObject [(''events'', JArray (map (canonicalize \<circ> sse_event_to_value) (cap_events captured))),
             (''final_body'', cap_final_body captured),
             (''mooncache_object'', JString streaming_object_type)]"
  using canonicalize_id [OF assms]
  by (simp add: stream_object_value_def canonicalize_object del: canonicalize.simps(1))
     (simp add: canonical_members_def less_char_def)

lemma stream_object_from_canonical:
  assumes "json_ok (cap_final_body captured)"
  shows "is_streaming_object (canonicalize (stream_object_value captured))"
    and "stream_object_from_value (canonicalize (stream_object_value captured)) =
      Some \<lparr>cso_mooncache_object = streaming_object_type, cso_events = cap_events captured,
            cso_final_body = cap_final_body captured\<rparr>"
  using sse_events_from_canonical [of "cap_events captured"]
  by (simp_all add: canonical_stream_object [OF assms] is_streaming_object_def stream_object_from_value_def
      json_get_def bt_get_def json_as_str_def json_as_array_def)

lemma find_rev_last:
  assumes "P y" and "\<forall>x \<in> set later. \<not> P x"
  shows "find P (rev (earlier @ y # later)) = Some y"
proof -
  have "find P (rev later @ y # rev earlier) = Some y"
    using assms by (induction later rule: rev_induct) auto
  then show ?thesis by simp
qed

section \<open>Contract\<close>

text \<open>
  A captured stream survives the cache. The bytes written for a captured stream are read
  back as a streaming object with the same events in the same order and the same final body,
  and a non-streaming read of them gives the final body. The JSON library is assumed to parse
  what it printed for this object, with the members of objects sorted.
\<close>

lemma stream_object_round_trip:
  assumes "json_ok (cap_final_body captured)"
    and "serialize_stream_object sj captured = Inr bs"
    and "sj_from_slice sj bs = Inr (canonicalize (stream_object_value captured))"
  shows "stream_object_from_bytes sj bs = Inr (Some \<lparr>cso_mooncache_object = streaming_object_type,
           cso_events = cap_events captured, cso_final_body = cap_final_body captured\<rparr>)
    \<and> cached_body_from_bytes sj bs = Inr (cap_final_body captured)"
  using stream_object_from_canonical [OF assms(1)] assms(3)
  by (simp add: stream_object_from_bytes_def cached_body_from_bytes_def try_result_def)

text \<open>
  A cached plain body is returned as it was stored exactly when it does not carry the
  marker of a streaming object: a body whose member \<^verbatim>\<open>mooncache_object\<close> is the marker is
  taken apart, and its own \<^verbatim>\<open>final_body\<close> (or an error) is returned instead.
\<close>

lemma plain_body_round_trip:
  assumes "sj_to_vec sj body = Inr bs" and "sj_from_slice sj bs = Inr body"
  shows "cached_body_from_bytes sj bs =
      (if json_get body ''mooncache_object'' = Some (JString streaming_object_type)
       then (case stream_object_from_value body of
               None \<Rightarrow> Inl (sj_type_error sj body) | Some obj \<Rightarrow> Inr (cso_final_body obj))
       else Inr body)"
  using assms
  by (auto simp: cached_body_from_bytes_def try_result_def is_streaming_object_def json_as_str_def
      split: option.splits json.splits bind_splits)

text \<open>
  The final body of a stream is that of its last completion event. Capturing fails when
  an item of the stream is an error or no event is named \<^verbatim>\<open>response.completed\<close>; otherwise the
  payload of the last such event decides, unwrapped from its member \<^verbatim>\<open>response\<close> when it has one.
\<close>

lemma captured_body_is_last_completion:
  assumes "sse_name completed = Some ''response.completed''"
    and "\<forall>e \<in> set later. sse_name e \<noteq> Some ''response.completed''"
    and "sj_from_slice sj (sse_data completed) = Inr (JObject m)"
  shows "collect_stream sj (map Inr (earlier @ completed # later)) =
      Inr \<lparr>cap_events = earlier @ completed # later,
           cap_final_body = (case bt_get m ''response'' of None \<Rightarrow> JObject m | Some r \<Rightarrow> r)\<rparr>"
proof -
  have found: "find (\<lambda>event. sse_name event = Some ''response.completed'') (rev (earlier @ completed # later))
      = Some completed"
    using find_rev_last [of "\<lambda>event. sse_name event = Some ''response.completed''" completed later earlier]
      assms(1,2) by simp
  have same: "bt_get m ''response'' = None \<Longrightarrow> bt_remove ''response'' m = m"
    by (force simp: bt_get_def bt_remove_def map_of_eq_None_iff intro!: filter_True)
  have "aggregate_final_body sj (earlier @ completed # later) =
      Inr (case bt_get m ''response'' of None \<Rightarrow> JObject m | Some r \<Rightarrow> r)"
    unfolding aggregate_final_body_def found using assms(3) same by (simp split: option.splits)
  then show ?thesis by (simp only: collect_stream_def collect_events_map try_result_def sum.case)
qed

end
