(* ===== verification/Routes.thy ===== *)
theory Routes
imports Streaming
begin

text \<open>
  \<^verbatim>\<open>crates/gateway/src/routes.rs\<close>: the gateway's response with its cache headers, and the two
  header texts of \<^verbatim>\<open>cache_flow.rs\<close> it uses.
\<close>

definition cache_status_header :: "cache_status \<Rightarrow> string" where
  "cache_status_header s =
     (case s of Hit \<Rightarrow> ''hit'' | Miss \<Rightarrow> ''miss'' | StatusBypass \<Rightarrow> ''bypass''
      | Ineligible \<Rightarrow> ''ineligible'' | CacheOnlyMiss \<Rightarrow> ''cache-only-miss'' | Degraded \<Rightarrow> ''degraded'')"

record gateway_request =
  gq_authorization :: "string option"
  gq_cache_control :: "string option"
  gq_body :: json

record gateway_response =
  gr_status_code :: u16
  gr_headers :: "(string, string) btree_map"
  gr_body :: json
  gr_stream_events :: "sse_event list option"

definition with_cache_headers ::
  "u16 \<Rightarrow> json \<Rightarrow> cache_status \<Rightarrow> string \<Rightarrow> string \<Rightarrow> gateway_response" where
  "with_cache_headers status_code body cache_status cache_write cache_tier =
     (let headers = bt_insert ''x-cache-status'' (cache_status_header cache_status) [];
          headers = bt_insert ''x-cache-write'' cache_write headers;
          headers = bt_insert ''x-cache-tier'' cache_tier headers;
          headers = bt_insert ''x-cache-coalesced'' ''none'' headers
      in \<lparr>gr_status_code = status_code, gr_headers = headers, gr_body = body, gr_stream_events = None\<rparr>)"

definition set_header :: "string \<Rightarrow> string \<Rightarrow> gateway_response \<Rightarrow> gateway_response" where
  "set_header name val r = r\<lparr>gr_headers := bt_insert name val (gr_headers r)\<rparr>"

definition with_cache_key :: "cache_key \<Rightarrow> gateway_response \<Rightarrow> gateway_response" where
  "with_cache_key key r = set_header ''x-cache-key'' (redacted key) r"

definition with_cache_coalesced :: "string \<Rightarrow> gateway_response \<Rightarrow> gateway_response" where
  "with_cache_coalesced role r = set_header ''x-cache-coalesced'' role r"

definition with_cache_write :: "string \<Rightarrow> gateway_response \<Rightarrow> gateway_response" where
  "with_cache_write cache_write r = set_header ''x-cache-write'' cache_write r"

definition response_ok ::
  "json \<Rightarrow> cache_status \<Rightarrow> string \<Rightarrow> string \<Rightarrow> cache_key option \<Rightarrow> gateway_response" where
  "response_ok body cache_status cache_write cache_tier cache_key =
     (let response = with_cache_headers 200 body cache_status cache_write cache_tier
      in case cache_key of None \<Rightarrow> response | Some key \<Rightarrow> with_cache_key key response)"

definition response_ok_stream ::
  "json \<Rightarrow> sse_event list \<Rightarrow> cache_status \<Rightarrow> string \<Rightarrow> string \<Rightarrow> cache_key option \<Rightarrow> gateway_response" where
  "response_ok_stream body events cache_status cache_write cache_tier cache_key =
     (let response = (with_cache_headers 200 body cache_status cache_write cache_tier)
                       \<lparr>gr_stream_events := Some events\<rparr>
      in case cache_key of None \<Rightarrow> response | Some key \<Rightarrow> with_cache_key key response)"

definition response_error :: "u16 \<Rightarrow> string \<Rightarrow> cache_status \<Rightarrow> string \<Rightarrow> string \<Rightarrow> gateway_response" where
  "response_error status_code message cache_status cache_write cache_tier =
     with_cache_headers status_code (json_obj [(''error'', JString message)]) cache_status cache_write cache_tier"

section \<open>Lemmas\<close>

definition header :: "string \<Rightarrow> gateway_response \<Rightarrow> string option" where
  "header name r = bt_get (gr_headers r) name"

lemma header_set [simp]:
  "header name (set_header name' val r) = (if name = name' then Some val else header name r)"
  "gr_body (set_header name' val r) = gr_body r"
  "gr_status_code (set_header name' val r) = gr_status_code r"
  "gr_stream_events (set_header name' val r) = gr_stream_events r"
  by (simp_all add: header_def set_header_def)

lemma header_updated_events [simp]:
  "header name (r\<lparr>gr_stream_events := es\<rparr>) = header name r"
  by (simp add: header_def)

lemma header_with_cache_headers:
  "header ''x-cache-status'' (with_cache_headers c b s w t) = Some (cache_status_header s)"
  "header ''x-cache-write'' (with_cache_headers c b s w t) = Some w"
  "header ''x-cache-tier'' (with_cache_headers c b s w t) = Some t"
  "header ''x-cache-coalesced'' (with_cache_headers c b s w t) = Some ''none''"
  "header ''x-cache-key'' (with_cache_headers c b s w t) = None"
  "gr_body (with_cache_headers c b s w t) = b"
  "gr_status_code (with_cache_headers c b s w t) = c"
  "gr_stream_events (with_cache_headers c b s w t) = None"
  by (simp_all add: header_def with_cache_headers_def Let_def bt_get_def bt.lookup_empty)

end
