(* ===== verification/Clients.thy ===== *)
theory Clients
imports Master Memory_Store Routes
begin

text \<open>
  \<^verbatim>\<open>crates/gateway/src/clients.rs\<close> and the error type of \<^verbatim>\<open>cache_flow.rs\<close>: the interfaces to the
  control plane and to the stores as records of functions over a world \<open>'w\<close>, the local clients
  over a master and a memory store of the same process, and the remote clients over HTTP. A
  lock of the local clients is never poisoned: nothing panics while one is held.
\<close>

section \<open>Errors\<close>

fun store_error_to_string :: "store_error \<Rightarrow> string" where
  "store_error_to_string EmptyChunk = ''chunk length must be greater than zero''"
| "store_error_to_string (InsufficientCapacity r a) =
     ''insufficient DRAM capacity: requested '' @ show_nat (unat r) @ '' bytes, available ''
     @ show_nat (unat a) @ '' bytes''"
| "store_error_to_string (InvalidHandle off len) =
     ''invalid chunk handle: offset '' @ show_nat (unat off) @ '', len '' @ show_nat (unat len)"
| "store_error_to_string (LengthMismatch e a) =
     ''chunk write length mismatch: expected '' @ show_nat (unat e) @ '' bytes, got ''
     @ show_nat (unat a) @ '' bytes''"
| "store_error_to_string UnwrittenChunk = ''chunk has not been written''"
| "store_error_to_string (ChecksumMismatch off) =
     ''checksum mismatch for chunk at offset '' @ show_nat (unat off)"

datatype gateway_error =
    GeCache cache_error
  | GeStore store_error
  | GeVendor vendor_error
  | GeJson string
  | GePoisonedLock
  | GeReservationRevokeFailed string string
  | GeSingleflightLeaderFailed string
  | GeMasterUpstream string
  | GeStoreUpstream string

fun gateway_error_to_string :: "gateway_error \<Rightarrow> string" where
  "gateway_error_to_string (GeCache e) = cache_error_to_string e"
| "gateway_error_to_string (GeStore e) = store_error_to_string e"
| "gateway_error_to_string (GeVendor e) = vendor_error_to_string e"
| "gateway_error_to_string (GeJson m) = m"
| "gateway_error_to_string GePoisonedLock = ''gateway state lock was poisoned''"
| "gateway_error_to_string (GeReservationRevokeFailed w r) =
     ''cache write failed ('' @ w @ ''); additionally failed to revoke reservation ('' @ r @ '')''"
| "gateway_error_to_string (GeSingleflightLeaderFailed m) = ''singleflight leader failed: '' @ m"
| "gateway_error_to_string (GeMasterUpstream m) = ''master upstream error: '' @ m"
| "gateway_error_to_string (GeStoreUpstream m) = ''store upstream error: '' @ m"

section \<open>Interfaces\<close>

record store_chunk =
  sch_bytes :: bytes
  sch_tier :: string

record 'w master_client =
  mc_get_replica_list :: "tenant_id \<Rightarrow> cache_key \<Rightarrow> 'w \<Rightarrow> (gateway_error + replica_list) \<times> 'w"
  mc_put_start :: "tenant_id \<Rightarrow> cache_key \<Rightarrow> u64 \<Rightarrow> usize \<Rightarrow> 'w
    \<Rightarrow> (gateway_error + replica_descriptor list) \<times> 'w"
  mc_put_end :: "tenant_id \<Rightarrow> cache_key \<Rightarrow> 'w \<Rightarrow> (gateway_error + unit) \<times> 'w"
  mc_put_revoke :: "tenant_id \<Rightarrow> cache_key \<Rightarrow> 'w \<Rightarrow> (gateway_error + unit) \<times> 'w"

record 'w store_client =
  sc_read_chunk :: "tenant_id \<Rightarrow> cache_key \<Rightarrow> chunk_handle \<Rightarrow> 'w \<Rightarrow> (gateway_error + store_chunk) \<times> 'w"
  sc_write_preallocated_chunk :: "string \<Rightarrow> tenant_id \<Rightarrow> cache_key \<Rightarrow> chunk_handle \<Rightarrow> bytes \<Rightarrow> 'w
    \<Rightarrow> (gateway_error + unit) \<times> 'w"

section \<open>Local clients\<close>

text \<open>The process holds one master and one store; \<open>lw_now\<close> is what the clock shows.\<close>

record local_world =
  lw_master :: master_state
  lw_store :: memory_store
  lw_now :: u64

definition local_master ::
  "(master_state \<Rightarrow> 'a cache_result \<times> master_state) \<Rightarrow> ('w local_world_scheme) \<Rightarrow> (gateway_error + 'a) \<times> 'w local_world_scheme"
where
  "local_master f w =
     (case f (lw_master w) of (r, m) \<Rightarrow> (map_err GeCache r, w\<lparr>lw_master := m\<rparr>))"

definition local_master_client :: "('w local_world_scheme) master_client" where
  "local_master_client =
     \<lparr>mc_get_replica_list = (\<lambda>t k w. local_master (get_replica_list (lw_now w) t k) w),
      mc_put_start = (\<lambda>t k len n. local_master (put_start t k len n)),
      mc_put_end = (\<lambda>t k. local_master (put_end t k)),
      mc_put_revoke = (\<lambda>t k. local_master (put_revoke t k))\<rparr>"

definition local_read_chunk ::
  "(bytes \<Rightarrow> bytes) \<Rightarrow> tenant_id \<Rightarrow> cache_key \<Rightarrow> chunk_handle \<Rightarrow> ('w local_world_scheme)
   \<Rightarrow> (gateway_error + store_chunk) \<times> 'w local_world_scheme" where
  "local_read_chunk sha256 tenant_id cache_key h w =
     (case read_chunk sha256 h (lw_store w) of
        Inl e \<Rightarrow> (Inl (GeStore e), w)
      | Inr bs \<Rightarrow> (Inr \<lparr>sch_bytes = bs, sch_tier = ''dram''\<rparr>, w))"

definition local_write_preallocated_chunk ::
  "(bytes \<Rightarrow> bytes) \<Rightarrow> string \<Rightarrow> tenant_id \<Rightarrow> cache_key \<Rightarrow> chunk_handle \<Rightarrow> bytes \<Rightarrow> ('w local_world_scheme)
   \<Rightarrow> (gateway_error + unit) \<times> 'w local_world_scheme" where
  "local_write_preallocated_chunk sha256 node_id tenant_id cache_key h bs w =
     (case write_preallocated_chunk sha256 h bs (lw_store w) of
        (r, s) \<Rightarrow> (map_err GeStore r, w\<lparr>lw_store := s\<rparr>))"

definition local_store_client :: "(bytes \<Rightarrow> bytes) \<Rightarrow> ('w local_world_scheme) store_client" where
  "local_store_client sha256 =
     \<lparr>sc_read_chunk = local_read_chunk sha256,
      sc_write_preallocated_chunk = local_write_preallocated_chunk sha256\<rparr>"

section \<open>Typed answers\<close>

text \<open>
  The members of a derived struct: by name from an object, by position from an array. A
  missing member is \<open>None\<close> in the list.
\<close>

definition json_struct :: "string list \<Rightarrow> json \<Rightarrow> json option list option" where
  "json_struct names v =
     (case v of
        JObject m \<Rightarrow> Some (map (bt_get m) names)
      | JArray vs \<Rightarrow> if length vs = length names then Some (map Some vs) else None
      | _ \<Rightarrow> None)"

definition replica_from_value :: "json \<Rightarrow> replica_descriptor option" where
  "replica_from_value v =
     (case json_struct [''node_id'', ''offset'', ''len''] v of
        Some [n, off, len] \<Rightarrow>
          (case (Option.bind n json_as_str, Option.bind off json_as_u64, Option.bind len json_as_u64) of
             (Some n, Some off, Some len) \<Rightarrow> Some \<lparr>rep_node_id = n, rep_offset = off, rep_len = len\<rparr>
           | _ \<Rightarrow> None)
      | _ \<Rightarrow> None)"

definition list_from_value :: "(json \<Rightarrow> 'a option) \<Rightarrow> json \<Rightarrow> 'a list option" where
  "list_from_value f v =
     (case v of
        JArray vs \<Rightarrow> (if list_all (\<lambda>v. f v \<noteq> None) vs then Some (map (the \<circ> f) vs) else None)
      | _ \<Rightarrow> None)"

definition lease_from_value :: "json \<Rightarrow> lease option" where
  "lease_from_value v =
     (case json_struct [''lease_id'', ''expires_at_ms''] v of
        Some [i, x] \<Rightarrow>
          (case (Option.bind i json_as_str, Option.bind x json_as_u64) of
             (Some i, Some x) \<Rightarrow> Some \<lparr>lease_id = i, expires_at_ms = x\<rparr>
           | _ \<Rightarrow> None)
      | _ \<Rightarrow> None)"

definition replica_list_from_value :: "json \<Rightarrow> replica_list option" where
  "replica_list_from_value v =
     (case json_struct [''replicas'', ''lease''] v of
        Some [rs, l] \<Rightarrow>
          (case (Option.bind rs (list_from_value replica_from_value), Option.bind l lease_from_value) of
             (Some rs, Some l) \<Rightarrow> Some \<lparr>rl_replicas = rs, rl_lease = l\<rparr>
           | _ \<Rightarrow> None)
      | _ \<Rightarrow> None)"

definition member_from_value :: "string \<Rightarrow> (json \<Rightarrow> 'a option) \<Rightarrow> json \<Rightarrow> 'a option" where
  "member_from_value name f v =
     (case json_struct [name] v of Some [x] \<Rightarrow> Option.bind x f | _ \<Rightarrow> None)"

definition byte_from_value :: "json \<Rightarrow> char option" where
  "byte_from_value v =
     (case json_as_u64 v of
        Some n \<Rightarrow> if unat n < 256 then Some (char_of (unat n)) else None
      | None \<Rightarrow> None)"

definition store_read_from_value :: "json \<Rightarrow> store_chunk option" where
  "store_read_from_value v =
     (case json_struct [''offset'', ''len'', ''tier'', ''data''] v of
        Some [off, len, tier, dat] \<Rightarrow>
          (case (Option.bind off json_as_u64, Option.bind len json_as_u64, optional_string tier,
                 Option.bind dat (list_from_value byte_from_value)) of
             (Some _, Some _, Some tier, Some bs) \<Rightarrow>
               Some \<lparr>sch_bytes = bs, sch_tier = (case tier of None \<Rightarrow> ''dram'' | Some t \<Rightarrow> t)\<rparr>
           | _ \<Rightarrow> None)
      | _ \<Rightarrow> None)"

text \<open>\<^verbatim>\<open>response.json::<T>()\<close>; \<open>type_error\<close> is the text of \<^verbatim>\<open>reqwest\<close>'s error.\<close>

definition typed_json :: "(json \<Rightarrow> string) \<Rightarrow> (json \<Rightarrow> 'a option) \<Rightarrow> http_response \<Rightarrow> string + 'a" where
  "typed_json type_error decode r =
     (case hres_json r of
        Inl e \<Rightarrow> Inl e
      | Inr v \<Rightarrow> (case decode v of None \<Rightarrow> Inl (type_error v) | Some x \<Rightarrow> Inr x))"

definition upstream_error_text :: "http_response \<Rightarrow> string" where
  "upstream_error_text r =
     (case typed_json (\<lambda>_. []) (member_from_value ''error'' json_as_str) r of
        Inl _ \<Rightarrow> ''unknown error'' | Inr e \<Rightarrow> e)"

section \<open>Remote clients\<close>

datatype http_call = HttpGet string | HttpPost string json

type_synonym 'w http = "http_call \<Rightarrow> 'w \<Rightarrow> (string + http_response) \<times> 'w"

record remote_master_client =
  rm_base_url :: string

definition remote_master_new :: "string \<Rightarrow> remote_master_client" where
  "remote_master_new base_url = \<lparr>rm_base_url = trim_end_matches (CHR ''/'') base_url\<rparr>"

definition master_post_json ::
  "'w http \<Rightarrow> (json \<Rightarrow> string) \<Rightarrow> (json \<Rightarrow> 'a option) \<Rightarrow> remote_master_client \<Rightarrow> string \<Rightarrow> json \<Rightarrow> 'w
   \<Rightarrow> (gateway_error + 'a) \<times> 'w" where
  "master_post_json http type_error decode c path body w =
     (case http (HttpPost (rm_base_url c @ path) body) w of
        (Inl e, w') \<Rightarrow> (Inl (GeMasterUpstream e), w')
      | (Inr response, w') \<Rightarrow>
          if is_success (hres_status response)
          then (map_err GeMasterUpstream (typed_json type_error decode response), w')
          else (Inl (GeMasterUpstream (upstream_error_text response)), w'))"

definition object_body :: "tenant_id \<Rightarrow> cache_key \<Rightarrow> (string \<times> json) list \<Rightarrow> json" where
  "object_body tenant_id cache_key extra =
     json_obj ([(''tenant_id'', JString (tenant_as_str tenant_id)),
                (''cache_key'', JString (key_as_str cache_key))] @ extra)"

definition remote_get_replica_list ::
  "'w http \<Rightarrow> (json \<Rightarrow> string) \<Rightarrow> remote_master_client \<Rightarrow> tenant_id \<Rightarrow> cache_key \<Rightarrow> 'w
   \<Rightarrow> (gateway_error + replica_list) \<times> 'w" where
  "remote_get_replica_list http type_error c tenant_id cache_key w =
     (let url = rm_base_url c @ ''/objects/replicas?tenant_id='' @ tenant_as_str tenant_id
                @ ''&cache_key='' @ key_as_str cache_key
      in case http (HttpGet url) w of
        (Inl e, w') \<Rightarrow> (Inl (GeMasterUpstream e), w')
      | (Inr response, w') \<Rightarrow>
          if hres_status response = 404 then (Inl (GeCache NotFound), w')
          else if \<not> is_success (hres_status response)
          then (Inl (GeMasterUpstream (upstream_error_text response)), w')
          else (map_err GeMasterUpstream (typed_json type_error replica_list_from_value response), w'))"

definition unit_result :: "(gateway_error + 'a) \<times> 'w \<Rightarrow> (gateway_error + unit) \<times> 'w" where
  "unit_result r = (case r of (Inl e, w) \<Rightarrow> (Inl e, w) | (Inr _, w) \<Rightarrow> (Inr (), w))"

abbreviation master_ok :: "json \<Rightarrow> bool option" where
  "master_ok \<equiv> member_from_value ''ok'' json_as_bool"

definition remote_put_start ::
  "'w http \<Rightarrow> (json \<Rightarrow> string) \<Rightarrow> remote_master_client \<Rightarrow> tenant_id \<Rightarrow> cache_key \<Rightarrow> u64 \<Rightarrow> usize \<Rightarrow> 'w
   \<Rightarrow> (gateway_error + replica_descriptor list) \<times> 'w" where
  "remote_put_start http type_error c tenant_id cache_key len replica_count w =
     master_post_json http type_error (member_from_value ''replicas'' (list_from_value replica_from_value)) c
       ''/objects/start''
       (object_body tenant_id cache_key
          [(''len'', JNumber (PosInt len)), (''replica_count'', JNumber (PosInt replica_count))]) w"

definition remote_put_end ::
  "'w http \<Rightarrow> (json \<Rightarrow> string) \<Rightarrow> remote_master_client \<Rightarrow> tenant_id \<Rightarrow> cache_key \<Rightarrow> 'w
   \<Rightarrow> (gateway_error + unit) \<times> 'w" where
  "remote_put_end http type_error c tenant_id cache_key w =
     unit_result (master_post_json http type_error master_ok c ''/objects/end'' (object_body tenant_id cache_key []) w)"

definition remote_put_revoke ::
  "'w http \<Rightarrow> (json \<Rightarrow> string) \<Rightarrow> remote_master_client \<Rightarrow> tenant_id \<Rightarrow> cache_key \<Rightarrow> 'w
   \<Rightarrow> (gateway_error + unit) \<times> 'w" where
  "remote_put_revoke http type_error c tenant_id cache_key w =
     unit_result (master_post_json http type_error master_ok c ''/objects/revoke'' (object_body tenant_id cache_key []) w)"

definition remote_mount_segment ::
  "'w http \<Rightarrow> (json \<Rightarrow> string) \<Rightarrow> remote_master_client \<Rightarrow> string \<Rightarrow> u64 \<Rightarrow> 'w \<Rightarrow> (gateway_error + unit) \<times> 'w" where
  "remote_mount_segment http type_error c node_id len w =
     unit_result (master_post_json http type_error master_ok c ''/segments/mount''
       (json_obj [(''node_id'', JString node_id), (''len'', JNumber (PosInt len))]) w)"

definition remote_set_tenant_quota ::
  "'w http \<Rightarrow> (json \<Rightarrow> string) \<Rightarrow> remote_master_client \<Rightarrow> string \<Rightarrow> u64 \<Rightarrow> u64 \<Rightarrow> 'w
   \<Rightarrow> (gateway_error + unit) \<times> 'w" where
  "remote_set_tenant_quota http type_error c tenant_id dram ssd w =
     unit_result (master_post_json http type_error master_ok c ''/tenants/quota''
       (json_obj [(''tenant_id'', JString tenant_id), (''dram_bytes'', JNumber (PosInt dram)),
                  (''ssd_bytes'', JNumber (PosInt ssd))]) w)"

definition remote_master_ops :: "'w http \<Rightarrow> (json \<Rightarrow> string) \<Rightarrow> remote_master_client \<Rightarrow> 'w master_client" where
  "remote_master_ops http type_error c =
     \<lparr>mc_get_replica_list = remote_get_replica_list http type_error c,
      mc_put_start = remote_put_start http type_error c,
      mc_put_end = remote_put_end http type_error c,
      mc_put_revoke = remote_put_revoke http type_error c\<rparr>"

text \<open>The node table is listed in the order in which the hash map is iterated.\<close>

record remote_store_client =
  rs_node_urls :: "(string, string) hash_map"

definition remote_store_new :: "(string, string) hash_map \<Rightarrow> remote_store_client" where
  "remote_store_new node_urls =
     \<lparr>rs_node_urls = map (\<lambda>(node_id, url). (node_id, trim_end_matches (CHR ''/'') url)) node_urls\<rparr>"

definition remote_store_single_node :: "string \<Rightarrow> string \<Rightarrow> remote_store_client" where
  "remote_store_single_node node_id base_url =
     \<lparr>rs_node_urls = hm_insert node_id (trim_end_matches (CHR ''/'') base_url) []\<rparr>"

definition remote_read_chunk ::
  "'w http \<Rightarrow> (json \<Rightarrow> string) \<Rightarrow> remote_store_client \<Rightarrow> tenant_id \<Rightarrow> cache_key \<Rightarrow> chunk_handle \<Rightarrow> 'w
   \<Rightarrow> (gateway_error + store_chunk) \<times> 'w" where
  "remote_read_chunk http type_error c tenant_id cache_key h w =
     (case map snd (rs_node_urls c) of
        [] \<Rightarrow> (Inl (GeStoreUpstream ''no store nodes configured''), w)
      | base_url # _ \<Rightarrow>
          let url = base_url @ ''/chunks/'' @ show_nat (unat (ch_offset h)) @ ''/'' @ show_nat (unat (ch_len h))
                    @ ''?tenant_id='' @ tenant_as_str tenant_id @ ''&cache_key='' @ key_as_str cache_key
          in case http (HttpGet url) w of
               (Inl e, w') \<Rightarrow> (Inl (GeStoreUpstream e), w')
             | (Inr response, w') \<Rightarrow>
                 if is_success (hres_status response)
                 then (map_err GeStoreUpstream (typed_json type_error store_read_from_value response), w')
                 else (Inl (GeStoreUpstream (upstream_error_text response)), w'))"

definition remote_write_preallocated_chunk ::
  "'w http \<Rightarrow> remote_store_client \<Rightarrow> string \<Rightarrow> tenant_id \<Rightarrow> cache_key \<Rightarrow> chunk_handle \<Rightarrow> bytes \<Rightarrow> 'w
   \<Rightarrow> (gateway_error + unit) \<times> 'w" where
  "remote_write_preallocated_chunk http c node_id tenant_id cache_key h bs w =
     (case hm_get (rs_node_urls c) node_id of
        None \<Rightarrow> (Inl (GeStoreUpstream (''store node `'' @ node_id @ ''` is not configured'')), w)
      | Some base_url \<Rightarrow>
          let url = base_url @ ''/chunks/preallocated'';
              body = object_body tenant_id cache_key
                [(''offset'', JNumber (PosInt (ch_offset h))), (''len'', JNumber (PosInt (ch_len h))),
                 (''data'', JArray (map (\<lambda>b. JNumber (PosInt (of_char b))) bs))]
          in case http (HttpPost url body) w of
               (Inl e, w') \<Rightarrow> (Inl (GeStoreUpstream e), w')
             | (Inr response, w') \<Rightarrow>
                 if is_success (hres_status response) then (Inr (), w')
                 else (Inl (GeStoreUpstream (upstream_error_text response)), w'))"

definition remote_store_ops :: "'w http \<Rightarrow> (json \<Rightarrow> string) \<Rightarrow> remote_store_client \<Rightarrow> 'w store_client" where
  "remote_store_ops http type_error c =
     \<lparr>sc_read_chunk = remote_read_chunk http type_error c,
      sc_write_preallocated_chunk = remote_write_preallocated_chunk http c\<rparr>"

end
