(* ===== verification/Singleflight.thy ===== *)
theory Singleflight
imports Common
begin

text \<open>
  \<^verbatim>\<open>crates/gateway/src/singleflight.rs\<close>: coalescing of concurrent misses of one key. The
  \<^verbatim>\<open>watch\<close> channel of a flight is open until its leader publishes a result or is dropped; the
  table of channels stands for the channels that the waiters hold. No code panics while it
  holds the lock, so the lock is never poisoned.
\<close>

section \<open>State\<close>

datatype singleflight_write_mode = Writable | ReadOnlyMode

record singleflight_key =
  sfk_tenant_id :: tenant_id
  sfk_cache_key :: cache_key
  sfk_write_mode :: singleflight_write_mode

datatype 'r channel = Open | Published "string + 'r" | Closed

record shared_in_flight =
  fl_sender :: nat
  fl_waiters :: usize

record 'r singleflight_group =
  sf_inner :: "(singleflight_key, shared_in_flight) hash_map"
  sf_max_waiters :: usize
  sf_channels :: "'r channel list"

datatype singleflight_start = Leader singleflight_key | Waiter nat | OverCapacity

definition default_max_waiters_per_key :: usize where
  "default_max_waiters_per_key = 1024"

definition singleflight_new :: "usize \<Rightarrow> 'r singleflight_group" where
  "singleflight_new max_waiters = \<lparr>sf_inner = [], sf_max_waiters = max_waiters, sf_channels = []\<rparr>"

section \<open>Operations\<close>

definition sf_begin ::
  "singleflight_key \<Rightarrow> 'r singleflight_group \<Rightarrow> singleflight_start \<times> 'r singleflight_group" where
  "sf_begin key sf =
     (case hm_get (sf_inner sf) key of
        Some in_flight \<Rightarrow>
          if fl_waiters in_flight \<ge> sf_max_waiters sf then (OverCapacity, sf)
          else (Waiter (fl_sender in_flight),
                sf\<lparr>sf_inner := hm_modify key (\<lambda>f. f\<lparr>fl_waiters := fl_waiters f + 1\<rparr>) (sf_inner sf)\<rparr>)
      | None \<Rightarrow>
          (Leader key,
           sf\<lparr>sf_inner := hm_insert key \<lparr>fl_sender = length (sf_channels sf), fl_waiters = 0\<rparr> (sf_inner sf),
              sf_channels := sf_channels sf @ [Open]\<rparr>))"

text \<open>Removing a flight drops its sender; what its channel is left with is the last argument.\<close>

definition sf_finish ::
  "singleflight_key \<Rightarrow> 'r channel \<Rightarrow> 'r singleflight_group \<Rightarrow> 'r singleflight_group" where
  "sf_finish key ch sf =
     (case hm_get (sf_inner sf) key of
        None \<Rightarrow> sf
      | Some in_flight \<Rightarrow>
          sf\<lparr>sf_inner := hm_remove key (sf_inner sf),
             sf_channels := (sf_channels sf)[fl_sender in_flight := ch]\<rparr>)"

definition sf_publish ::
  "singleflight_key \<Rightarrow> string + 'r \<Rightarrow> 'r singleflight_group \<Rightarrow> 'r singleflight_group" where
  "sf_publish leader res sf = sf_finish leader (Published res) sf"

definition sf_leader_drop :: "bool \<Rightarrow> singleflight_key \<Rightarrow> 'r singleflight_group \<Rightarrow> 'r singleflight_group" where
  "sf_leader_drop completed leader sf = (if completed then sf else sf_finish leader Closed sf)"

text \<open>One look of a waiter at its channel: \<open>None\<close> is still pending.\<close>

definition sf_wait :: "nat \<Rightarrow> 'r singleflight_group \<Rightarrow> (string + 'r) option" where
  "sf_wait receiver sf =
     (case sf_channels sf ! receiver of
        Published res \<Rightarrow> Some res
      | Closed \<Rightarrow> Some (Inl ''singleflight leader dropped before publishing result'')
      | Open \<Rightarrow> None)"

section \<open>Concurrent requests\<close>

text \<open>
  The requests in progress: the leaders, and the waiters with the key they asked for and the
  channel they listen to. Each step is one critical section of one request.
\<close>

record 'r flight_system =
  fs_group :: "'r singleflight_group"
  fs_leaders :: "singleflight_key list"
  fs_waiting :: "(singleflight_key \<times> nat) list"

inductive flight_step :: "'r flight_system \<Rightarrow> 'r flight_system \<Rightarrow> bool" where
  flight_leader: "sf_begin key (fs_group s) = (Leader k, g) \<Longrightarrow>
    flight_step s (s\<lparr>fs_group := g, fs_leaders := k # fs_leaders s\<rparr>)"
| flight_waiter: "sf_begin key (fs_group s) = (Waiter c, g) \<Longrightarrow>
    flight_step s (s\<lparr>fs_group := g, fs_waiting := (key, c) # fs_waiting s\<rparr>)"
| flight_over: "sf_begin key (fs_group s) = (OverCapacity, g) \<Longrightarrow> flight_step s (s\<lparr>fs_group := g\<rparr>)"
| flight_publish: "key \<in> set (fs_leaders s) \<Longrightarrow>
    flight_step s (s\<lparr>fs_group := sf_publish key res (fs_group s), fs_leaders := remove1 key (fs_leaders s)\<rparr>)"
| flight_drop: "key \<in> set (fs_leaders s) \<Longrightarrow>
    flight_step s (s\<lparr>fs_group := sf_leader_drop False key (fs_group s), fs_leaders := remove1 key (fs_leaders s)\<rparr>)"
| flight_done: "w \<in> set (fs_waiting s) \<Longrightarrow> sf_wait (snd w) (fs_group s) = Some res \<Longrightarrow>
    flight_step s (s\<lparr>fs_waiting := remove1 w (fs_waiting s)\<rparr>)"

inductive flight_reachable :: "usize \<Rightarrow> 'r flight_system \<Rightarrow> bool" for limit where
  flight_start: "flight_reachable limit \<lparr>fs_group = singleflight_new limit, fs_leaders = [], fs_waiting = []\<rparr>"
| flight_more: "flight_reachable limit s \<Longrightarrow> flight_step s s' \<Longrightarrow> flight_reachable limit s'"

section \<open>Invariant\<close>

definition flights_ok :: "'r singleflight_group \<Rightarrow> bool" where
  "flights_ok sf \<longleftrightarrow>
     hm_ok (sf_inner sf)
     \<and> (\<forall>k f. hm_get (sf_inner sf) k = Some f \<longrightarrow>
          fl_sender f < length (sf_channels sf) \<and> sf_channels sf ! fl_sender f = Open
          \<and> fl_waiters f \<le> sf_max_waiters sf)
     \<and> (\<forall>k f k' f'. hm_get (sf_inner sf) k = Some f \<longrightarrow> hm_get (sf_inner sf) k' = Some f' \<longrightarrow>
          fl_sender f = fl_sender f' \<longrightarrow> k = k')"

definition flight_inv :: "usize \<Rightarrow> 'r flight_system \<Rightarrow> bool" where
  "flight_inv limit s \<longleftrightarrow>
     flights_ok (fs_group s) \<and> sf_max_waiters (fs_group s) = limit
     \<and> distinct (fs_leaders s)
     \<and> (\<forall>k. k \<in> set (fs_leaders s) \<longleftrightarrow> hm_get (sf_inner (fs_group s)) k \<noteq> None)
     \<and> (\<forall>(k, c) \<in> set (fs_waiting s). c < length (sf_channels (fs_group s))
          \<and> (sf_channels (fs_group s) ! c = Open \<longrightarrow>
               (\<exists>f. hm_get (sf_inner (fs_group s)) k = Some f \<and> fl_sender f = c)))"

lemma flights_ok_new: "flights_ok (singleflight_new n)"
  by (simp add: flights_ok_def singleflight_new_def)

lemma flights_ok_begin:
  assumes "flights_ok sf" and "sf_begin key sf = (start, sf')"
  shows "flights_ok sf'"
proof (cases "hm_get (sf_inner sf) key")
  case None
  have small: "fl_sender f < length (sf_channels sf)" if "hm_get (sf_inner sf) k = Some f" for k f
    using that assms(1) by (auto simp: flights_ok_def)
  then have fresh: "fl_sender f \<noteq> length (sf_channels sf)" if "hm_get (sf_inner sf) k = Some f" for k f
    using small [OF that] by simp
  have eq: "sf' = sf\<lparr>sf_inner := hm_insert key \<lparr>fl_sender = length (sf_channels sf), fl_waiters = 0\<rparr> (sf_inner sf),
              sf_channels := sf_channels sf @ [Open]\<rparr>"
    using assms(2) None by (simp add: sf_begin_def)
  show ?thesis
    using assms(1) small fresh unfolding flights_ok_def eq
    by (auto simp: nth_append intro: less_SucI dest: fresh split: if_splits)
next
  case (Some f)
  then have "sf' = sf \<or> (fl_waiters f < sf_max_waiters sf
      \<and> sf' = sf\<lparr>sf_inner := hm_modify key (\<lambda>f. f\<lparr>fl_waiters := fl_waiters f + 1\<rparr>) (sf_inner sf)\<rparr>)"
    using assms(2) by (auto simp: sf_begin_def not_le split: if_splits)
  moreover have "fl_waiters f + 1 \<le> sf_max_waiters sf" if "fl_waiters f < sf_max_waiters sf"
    using that by (metis inc_le)
  ultimately show ?thesis
    using assms(1) Some by (fastforce simp: flights_ok_def split: if_splits)
qed

lemma sf_begin_Leader:
  "sf_begin key sf = (Leader k, sf') \<longleftrightarrow>
     k = key \<and> hm_get (sf_inner sf) key = None
     \<and> sf' = sf\<lparr>sf_inner := hm_insert key \<lparr>fl_sender = length (sf_channels sf), fl_waiters = 0\<rparr> (sf_inner sf),
               sf_channels := sf_channels sf @ [Open]\<rparr>"
  by (auto simp: sf_begin_def split: option.splits)

lemma sf_begin_Waiter:
  "sf_begin key sf = (Waiter c, sf') \<longleftrightarrow>
     (\<exists>f. hm_get (sf_inner sf) key = Some f \<and> fl_waiters f < sf_max_waiters sf \<and> c = fl_sender f)
     \<and> sf' = sf\<lparr>sf_inner := hm_modify key (\<lambda>f. f\<lparr>fl_waiters := fl_waiters f + 1\<rparr>) (sf_inner sf)\<rparr>"
  by (auto simp: sf_begin_def split: option.splits)

lemma sf_begin_OverCapacity:
  "sf_begin key sf = (OverCapacity, sf') \<longleftrightarrow>
     (\<exists>f. hm_get (sf_inner sf) key = Some f \<and> sf_max_waiters sf \<le> fl_waiters f) \<and> sf' = sf"
  by (auto simp: sf_begin_def split: option.splits)

lemma sf_finish_Some:
  "hm_get (sf_inner sf) key = Some f \<Longrightarrow>
   sf_finish key ch sf = sf\<lparr>sf_inner := hm_remove key (sf_inner sf), sf_channels := (sf_channels sf)[fl_sender f := ch]\<rparr>"
  by (simp add: sf_finish_def)

lemma flights_ok_finish:
  assumes "flights_ok sf" and "hm_get (sf_inner sf) key = Some f"
  shows "flights_ok (sf_finish key ch sf)"
proof -
  have "fl_sender g \<noteq> fl_sender f" if "hm_get (sf_inner sf) k = Some g" "k \<noteq> key" for k g
    using that assms unfolding flights_ok_def by metis
  then show ?thesis
    using assms unfolding sf_finish_Some [OF assms(2)] flights_ok_def
    by (auto simp: nth_list_update split: if_splits)
qed

lemma flight_inv_finish:
  assumes "flight_inv limit s" and "key \<in> set (fs_leaders s)" and "ch \<noteq> Open"
  shows "flight_inv limit (s\<lparr>fs_group := sf_finish key ch (fs_group s), fs_leaders := remove1 key (fs_leaders s)\<rparr>)"
proof -
  let ?sf = "fs_group s"
  obtain f where f: "hm_get (sf_inner ?sf) key = Some f"
    using assms(1,2) by (auto simp: flight_inv_def)
  have ok: "flights_ok ?sf" using assms(1) by (simp add: flight_inv_def)
  have waiting: "c < length (sf_channels ?sf) \<and> ((sf_channels ?sf)[fl_sender f := ch] ! c = Open \<longrightarrow>
      (\<exists>g. hm_get (hm_remove key (sf_inner ?sf)) k = Some g \<and> fl_sender g = c))"
    if "(k, c) \<in> set (fs_waiting s)" for k c
  proof -
    have c: "c < length (sf_channels ?sf)"
      "sf_channels ?sf ! c = Open \<longrightarrow> (\<exists>g. hm_get (sf_inner ?sf) k = Some g \<and> fl_sender g = c)"
      using that assms(1) by (auto simp: flight_inv_def)
    show ?thesis
      using c f assms(3) ok by (cases "c = fl_sender f") (auto simp: flights_ok_def)
  qed
  have "k \<in> set (remove1 key (fs_leaders s)) \<longleftrightarrow> hm_get (hm_remove key (sf_inner ?sf)) k \<noteq> None" for k
    using assms(1) ok by (auto simp: flight_inv_def flights_ok_def)
  moreover have "distinct (remove1 key (fs_leaders s))" using assms(1) by (simp add: flight_inv_def)
  ultimately show ?thesis
    using flights_ok_finish [OF ok f, of ch] waiting assms(1)
    unfolding flight_inv_def by (auto simp: sf_finish_Some [OF f])
qed

lemma flight_inv_step:
  assumes "flight_step s s'" and "flight_inv limit s"
  shows "flight_inv limit s'"
  using assms
proof induction
  case (flight_leader key s k g)
  note ok = flights_ok_begin [OF _ flight_leader.hyps]
  let ?sf = "fs_group s"
  have key: "k = key" "hm_get (sf_inner ?sf) key = None"
    and g: "g = ?sf\<lparr>sf_inner := hm_insert key \<lparr>fl_sender = length (sf_channels ?sf), fl_waiters = 0\<rparr> (sf_inner ?sf),
               sf_channels := sf_channels ?sf @ [Open]\<rparr>"
    using flight_leader.hyps by (simp_all add: sf_begin_Leader)
  have "c < length (sf_channels g) \<and> (sf_channels g ! c = Open \<longrightarrow>
      (\<exists>f. hm_get (sf_inner g) k' = Some f \<and> fl_sender f = c))" if "(k', c) \<in> set (fs_waiting s)" for k' c
  proof -
    have c: "c < length (sf_channels ?sf)"
      "sf_channels ?sf ! c = Open \<longrightarrow> (\<exists>g. hm_get (sf_inner ?sf) k' = Some g \<and> fl_sender g = c)"
      using that flight_leader.prems by (auto simp: flight_inv_def)
    then show ?thesis using key by (cases "k' = key") (auto simp: g nth_append)
  qed
  then show ?case
    using flight_leader.prems ok key by (auto simp: flight_inv_def g)
next
  case (flight_waiter key s c g)
  note ok = flights_ok_begin [OF _ flight_waiter.hyps]
  let ?sf = "fs_group s"
  have sf: "flights_ok ?sf" using flight_waiter.prems by (simp add: flight_inv_def)
  obtain f where f: "hm_get (sf_inner ?sf) key = Some f" "c = fl_sender f"
    and g: "g = ?sf\<lparr>sf_inner := hm_modify key (\<lambda>f. f\<lparr>fl_waiters := fl_waiters f + 1\<rparr>) (sf_inner ?sf)\<rparr>"
    using flight_waiter.hyps by (auto simp: sf_begin_Waiter)
  have same: "(\<exists>f. hm_get (sf_inner g) k = Some f \<and> fl_sender f = d)
      \<longleftrightarrow> (\<exists>f. hm_get (sf_inner ?sf) k = Some f \<and> fl_sender f = d)" for k d
    by (cases "hm_get (sf_inner ?sf) k") (auto simp: g)
  have "d < length (sf_channels g) \<and> (sf_channels g ! d = Open \<longrightarrow>
      (\<exists>f. hm_get (sf_inner g) k = Some f \<and> fl_sender f = d))"
    if "(k, d) \<in> set ((key, c) # fs_waiting s)" for k d
    using that f sf flight_waiter.prems unfolding same
    by (auto simp: g flight_inv_def flights_ok_def)
  moreover have "hm_get (sf_inner g) k = None \<longleftrightarrow> hm_get (sf_inner ?sf) k = None" for k
    by (auto simp: g)
  moreover have "sf_max_waiters g = sf_max_waiters ?sf" by (simp add: g)
  ultimately show ?case
    using flight_waiter.prems ok sf unfolding flight_inv_def by auto
next
  case (flight_over key s g)
  then show ?case by (simp add: sf_begin_OverCapacity)
next
  case (flight_publish key s res)
  then show ?case unfolding sf_publish_def by (intro flight_inv_finish) simp_all
next
  case (flight_drop key s)
  then show ?case unfolding sf_leader_drop_def if_False by (intro flight_inv_finish) simp_all
next
  case (flight_done w s res)
  then show ?case by (auto simp: flight_inv_def dest: notin_set_remove1)
qed

lemma flight_inv_reachable: "flight_reachable limit s \<Longrightarrow> flight_inv limit s"
proof (induction rule: flight_reachable.induct)
  case flight_start
  then show ?case using flights_ok_new by (simp add: flight_inv_def singleflight_new_def)
qed (blast intro: flight_inv_step)

section \<open>Contract\<close>

text \<open>
  C17: one leader per key, and no stranded waiter. Whatever the interleaving of requests, no
  two leaders of the same key are at work at the same time, no flight has more waiters than
  the limit, and a waiter whose result is still pending has a leader of its own key at work.
\<close>

theorem singleflight_safety:
  assumes "flight_reachable limit s"
  shows "distinct (fs_leaders s)
    \<and> (\<forall>k f. hm_get (sf_inner (fs_group s)) k = Some f \<longrightarrow> fl_waiters f \<le> limit)
    \<and> (\<forall>(k, c) \<in> set (fs_waiting s). sf_wait c (fs_group s) = None \<longrightarrow> k \<in> set (fs_leaders s))"
proof -
  have inv: "flight_inv limit s" using flight_inv_reachable [OF assms] .
  moreover have "sf_wait c (fs_group s) = None \<longleftrightarrow> sf_channels (fs_group s) ! c = Open" for c
    by (simp add: sf_wait_def split: channel.splits)
  ultimately show ?thesis
    by (fastforce simp: flight_inv_def flights_ok_def)
qed

text \<open>
  Every waiter gets the outcome of its leader. When the leader of a key publishes, each
  request that is waiting on that key's flight sees exactly the published result; when the
  leader goes away without publishing, each of them sees the error that says so. In both
  cases the key is free again and the next request becomes its leader.
\<close>

lemma singleflight_delivery:
  assumes "flight_reachable limit s" and "k \<in> set (fs_leaders s)"
    and "(k, c) \<in> set (fs_waiting s)" and "sf_wait c (fs_group s) = None"
  shows "sf_wait c (sf_publish k res (fs_group s)) = Some res
    \<and> sf_wait c (sf_leader_drop False k (fs_group s))
        = Some (Inl ''singleflight leader dropped before publishing result'')
    \<and> fst (sf_begin k (sf_publish k res (fs_group s))) = Leader k
    \<and> fst (sf_begin k (sf_leader_drop False k (fs_group s))) = Leader k"
proof -
  have inv: "flight_inv limit s" using flight_inv_reachable [OF assms(1)] .
  have "sf_channels (fs_group s) ! c = Open"
    using assms(4) by (simp add: sf_wait_def split: channel.splits)
  then obtain f where f: "hm_get (sf_inner (fs_group s)) k = Some f" "fl_sender f = c"
    and c: "c < length (sf_channels (fs_group s))"
    using inv assms(3) by (auto simp: flight_inv_def)
  have ok: "hm_ok (sf_inner (fs_group s))" using inv by (simp add: flight_inv_def flights_ok_def)
  show ?thesis
    using f c ok
    by (simp add: sf_publish_def sf_leader_drop_def sf_finish_Some [OF f(1)] sf_wait_def sf_begin_def)
qed

section \<open>Example\<close>

definition example_key :: singleflight_key where
  "example_key = \<lparr>sfk_tenant_id = TenantId ''t'', sfk_cache_key = CacheKey ''k'', sfk_write_mode = Writable\<rparr>"

definition example_flight :: "nat flight_system" where
  "example_flight =
     \<lparr>fs_group = \<lparr>sf_inner = [(example_key, \<lparr>fl_sender = 0, fl_waiters = 1\<rparr>)], sf_max_waiters = 4,
                  sf_channels = [Open]\<rparr>,
      fs_leaders = [example_key], fs_waiting = [(example_key, 0)]\<rparr>"

lemma example_flight_reachable: "flight_reachable 4 example_flight"
proof -
  let ?s0 = "\<lparr>fs_group = singleflight_new 4, fs_leaders = [], fs_waiting = []\<rparr> :: nat flight_system"
  let ?g1 = "\<lparr>sf_inner = [(example_key, \<lparr>fl_sender = 0, fl_waiters = 0\<rparr>)], sf_max_waiters = 4,
      sf_channels = [Open]\<rparr> :: nat singleflight_group"
  have 1: "sf_begin example_key (fs_group ?s0) = (Leader example_key, ?g1)"
    by (simp add: sf_begin_def singleflight_new_def hm_get_def hm_insert_def)
  have 2: "sf_begin example_key (fs_group (?s0\<lparr>fs_group := ?g1, fs_leaders := [example_key]\<rparr>))
      = (Waiter 0, fs_group example_flight)"
    by (simp add: sf_begin_def example_flight_def hm_get_def hm_modify_def)
  have "flight_reachable 4 (?s0\<lparr>fs_group := ?g1, fs_leaders := [example_key]\<rparr>)"
    using flight_more [OF flight_start flight_leader [OF 1]] by simp
  from flight_more [OF this flight_waiter [OF 2]] show ?thesis
    by (simp add: example_flight_def)
qed

theorem singleflight_safety_witness:
  "distinct (fs_leaders example_flight) \<and> example_key \<in> set (fs_leaders example_flight)"
  using singleflight_safety [OF example_flight_reachable]
  by (simp add: example_flight_def)

end
