(* ===== verification/Cache_Flow.thy ===== *)
theory Cache_Flow
imports Clients Singleflight
begin

text \<open>
  \<^verbatim>\<open>crates/gateway/src/cache_flow.rs\<close>: the life of a request in the gateway. A handler is a
  function over the mutable part of the gateway (the world behind the clients, the counters,
  the flights in progress); the \<^verbatim>\<open>?\<close> operator is \<open>try_bind\<close>. The environment of a request
  gives the functions of the crates the code calls, the duration of the vendor call and, for
  a request that waits on another, what the wait returns.
\<close>

section \<open>State\<close>

definition endpoint_version :: string where "endpoint_version = ''responses-v1''"
definition test_api_key :: string where "test_api_key = ''test-api-key''"
definition test_tenant_id :: string where "test_tenant_id = ''test-tenant''"
definition replica_count :: usize where "replica_count = 1"

record 'w gateway_state =
  gs_master_client :: "'w master_client"
  gs_store_client :: "'w store_client"
  gs_vendor :: "'w vendor_adapter"
  gs_tenant_id :: tenant_id
  gs_tenant_configs :: "tenant_config_set option"
  gs_cache_available :: bool

record 'w gateway_run =
  gw_world :: 'w
  gw_metrics :: gateway_metrics
  gw_flights :: "gateway_response singleflight_group"

record request_env =
  env_sha256 :: "bytes \<Rightarrow> bytes"
  env_serde :: serde
  env_vendor_micros :: nat
  env_wait :: "string + gateway_response"

type_synonym ('w, 'a) handler = "'w gateway_run \<Rightarrow> (gateway_error + 'a) \<times> 'w gateway_run"

text \<open>The tenant of the first configured entry, or the test tenant.\<close>

definition first_tenant_id :: "tenant_config_set \<Rightarrow> tenant_id" where
  "first_tenant_id configs =
     (case config_tenants configs of [] \<Rightarrow> TenantId test_tenant_id | tenant # _ \<Rightarrow> tc_id tenant)"

definition gateway_new_with_clients ::
  "'w master_client \<Rightarrow> 'w store_client \<Rightarrow> 'w vendor_adapter \<Rightarrow> 'w gateway_state" where
  "gateway_new_with_clients master store vendor =
     \<lparr>gs_master_client = master, gs_store_client = store, gs_vendor = vendor,
      gs_tenant_id = TenantId test_tenant_id, gs_tenant_configs = None, gs_cache_available = True\<rparr>"

definition gateway_new_with_clients_and_tenant_config ::
  "'w master_client \<Rightarrow> 'w store_client \<Rightarrow> 'w vendor_adapter \<Rightarrow> tenant_config_set \<Rightarrow> 'w gateway_state" where
  "gateway_new_with_clients_and_tenant_config master store vendor configs =
     \<lparr>gs_master_client = master, gs_store_client = store, gs_vendor = vendor,
      gs_tenant_id = first_tenant_id configs, gs_tenant_configs = Some configs, gs_cache_available = True\<rparr>"

definition gateway_new_with_tenant_config ::
  "(bytes \<Rightarrow> bytes) \<Rightarrow> ('x local_world_scheme) vendor_adapter \<Rightarrow> tenant_config_set
   \<Rightarrow> ('x local_world_scheme) gateway_state" where
  "gateway_new_with_tenant_config sha256 vendor configs =
     \<lparr>gs_master_client = local_master_client, gs_store_client = local_store_client sha256, gs_vendor = vendor,
      gs_tenant_id = first_tenant_id configs, gs_tenant_configs = Some configs, gs_cache_available = True\<rparr>"

text \<open>
  The two constructors of the test support; the master and the store of the second are a
  fresh master and an empty store, in the world the gateway starts in.
\<close>

definition gateway_new_for_test ::
  "(bytes \<Rightarrow> bytes) \<Rightarrow> ('x local_world_scheme) vendor_adapter \<Rightarrow> ('x local_world_scheme) gateway_state" where
  "gateway_new_for_test sha256 vendor =
     \<lparr>gs_master_client = local_master_client, gs_store_client = local_store_client sha256, gs_vendor = vendor,
      gs_tenant_id = TenantId test_tenant_id, gs_tenant_configs = None, gs_cache_available = True\<rparr>"

definition gateway_new_unavailable ::
  "(bytes \<Rightarrow> bytes) \<Rightarrow> (local_world) vendor_adapter \<Rightarrow> u64 \<Rightarrow> local_world gateway_state \<times> local_world" where
  "gateway_new_unavailable sha256 vendor now_ms =
     (\<lparr>gs_master_client = local_master_client, gs_store_client = local_store_client sha256, gs_vendor = vendor,
       gs_tenant_id = TenantId test_tenant_id, gs_tenant_configs = None, gs_cache_available = False\<rparr>,
      \<lparr>lw_master = master_new, lw_store = memory_with_capacity 0, lw_now = now_ms\<rparr>)"

definition gateway_run_new :: "'w \<Rightarrow> 'w gateway_run" where
  "gateway_run_new w =
     \<lparr>gw_world = w, gw_metrics = gateway_metrics_default,
      gw_flights = singleflight_new default_max_waiters_per_key\<rparr>"

section \<open>Access to the parts\<close>

definition on_world :: "('w \<Rightarrow> ('e + 'a) \<times> 'w) \<Rightarrow> 'w gateway_run \<Rightarrow> ('e + 'a) \<times> 'w gateway_run" where
  "on_world f s = (case f (gw_world s) of (r, w) \<Rightarrow> (r, s\<lparr>gw_world := w\<rparr>))"

definition on_metrics :: "(gateway_metrics \<Rightarrow> gateway_metrics) \<Rightarrow> 'w gateway_run \<Rightarrow> 'w gateway_run" where
  "on_metrics f s = s\<lparr>gw_metrics := f (gw_metrics s)\<rparr>"

definition authenticate ::
  "(bytes \<Rightarrow> bytes) \<Rightarrow> 'w gateway_state \<Rightarrow> string option \<Rightarrow> tenant_id option" where
  "authenticate sha256 state authorization =
     Option.bind (Option.bind authorization (strip_prefix ''Bearer '')) (\<lambda>token.
       case gs_tenant_configs state of
         Some configs \<Rightarrow> map_option tc_id (tenant_for_bearer_token sha256 configs token)
       | None \<Rightarrow> if token = test_api_key then Some (gs_tenant_id state) else None)"

definition tenant_allows_vendor :: "'w gateway_state \<Rightarrow> tenant_id \<Rightarrow> string \<Rightarrow> bool" where
  "tenant_allows_vendor state tenant_id vendor_id =
     (case gs_tenant_configs state of
        None \<Rightarrow> True
      | Some configs \<Rightarrow>
          (case config_tenant configs (tenant_as_str tenant_id) of
             None \<Rightarrow> False | Some tenant \<Rightarrow> list_ex (\<lambda>i. i = vendor_id) (tc_allowed_vendors tenant)))"

section \<open>Write status and counters\<close>

datatype cache_write_status = WriteCommitted | WriteSkipped | WriteFailed

fun write_header_value :: "cache_write_status \<Rightarrow> string" where
  "write_header_value WriteCommitted = ''committed''"
| "write_header_value WriteSkipped = ''skipped''"
| "write_header_value WriteFailed = ''failed''"

fun write_metrics_status :: "cache_write_status \<Rightarrow> observed_write" where
  "write_metrics_status WriteCommitted = ObsCommitted"
| "write_metrics_status WriteSkipped = ObsSkipped"
| "write_metrics_status WriteFailed = ObsFailed"

fun observed_cache_status :: "cache_status \<Rightarrow> observed_status" where
  "observed_cache_status Hit = ObsHit"
| "observed_cache_status Miss = ObsMiss"
| "observed_cache_status StatusBypass = ObsBypass"
| "observed_cache_status Ineligible = ObsIneligible"
| "observed_cache_status CacheOnlyMiss = ObsCacheOnlyMiss"
| "observed_cache_status Degraded = ObsDegraded"

definition record_gateway_metrics ::
  "cache_status \<Rightarrow> cache_write_status \<Rightarrow> 'w gateway_run \<Rightarrow> 'w gateway_run" where
  "record_gateway_metrics status write_status s =
     on_metrics (record_write (write_metrics_status write_status) \<circ> record_cache_status (observed_cache_status status)) s"

definition record_simple :: "cache_status \<Rightarrow> cache_write_status \<Rightarrow> 'w gateway_run \<Rightarrow> 'w gateway_run" where
  "record_simple status write_status s =
     on_metrics (record_singleflight RoleNone) (record_gateway_metrics status write_status s)"

section \<open>Request normalisation\<close>

definition fingerprint_body_without_stream :: "json \<Rightarrow> json" where
  "fingerprint_body_without_stream body =
     (case body of
        JObject m \<Rightarrow> if bt_get m ''stream'' = None then body else JObject (bt_remove ''stream'' m)
      | _ \<Rightarrow> body)"

definition flight_write_mode :: "cache_control \<Rightarrow> singleflight_write_mode" where
  "flight_write_mode control = (if control = CcReadOnly then ReadOnlyMode else Writable)"

definition fingerprint_policy :: "cache_control \<Rightarrow> string" where
  "fingerprint_policy control = (if control = CcForceReplay then ''force-replay'' else ''default'')"

section \<open>Reading and writing the cache\<close>

definition read_cached_bytes ::
  "'w gateway_state \<Rightarrow> tenant_id \<Rightarrow> cache_key \<Rightarrow> ('w, store_chunk option) handler" where
  "read_cached_bytes state tenant_id cache_key s =
     (case on_world (mc_get_replica_list (gs_master_client state) tenant_id cache_key) s of
        (Inl e, s1) \<Rightarrow> if e = GeCache NotFound then (Inr None, s1) else (Inl e, s1)
      | (Inr replica_list, s1) \<Rightarrow>
          (case rl_replicas replica_list of
             [] \<Rightarrow> (Inr None, s1)
           | replica # _ \<Rightarrow>
               (case from_replica replica of
                  Inl e \<Rightarrow> (Inl (GeStore e), s1)
                | Inr handle \<Rightarrow>
                    try_bind (on_world (sc_read_chunk (gs_store_client state) tenant_id cache_key handle))
                      (\<lambda>chunk s2. (Inr (Some chunk), s2)) s1)))"

definition read_cached_body ::
  "request_env \<Rightarrow> 'w gateway_state \<Rightarrow> tenant_id \<Rightarrow> cache_key \<Rightarrow> ('w, (json \<times> string) option) handler" where
  "read_cached_body env state tenant_id cache_key =
     try_bind (read_cached_bytes state tenant_id cache_key) (\<lambda>chunk s.
       case chunk of
         None \<Rightarrow> (Inr None, s)
       | Some chunk \<Rightarrow>
           (case cached_body_from_bytes (env_serde env) (sch_bytes chunk) of
              Inl e \<Rightarrow> (Inl (GeJson e), s)
            | Inr val \<Rightarrow> (Inr (Some (val, sch_tier chunk)), s)))"

definition read_cached_stream_object ::
  "request_env \<Rightarrow> 'w gateway_state \<Rightarrow> tenant_id \<Rightarrow> cache_key
   \<Rightarrow> ('w, (cached_stream_object \<times> string) option) handler" where
  "read_cached_stream_object env state tenant_id cache_key =
     try_bind (read_cached_bytes state tenant_id cache_key) (\<lambda>chunk s.
       case chunk of
         None \<Rightarrow> (Inr None, s)
       | Some chunk \<Rightarrow>
           (case stream_object_from_bytes (env_serde env) (sch_bytes chunk) of
              Inl e \<Rightarrow> (Inl (GeJson e), s)
            | Inr None \<Rightarrow> (Inr None, s)
            | Inr (Some obj) \<Rightarrow> (Inr (Some (obj, sch_tier chunk)), s)))"

fun write_reserved_replicas ::
  "'w gateway_state \<Rightarrow> tenant_id \<Rightarrow> cache_key \<Rightarrow> replica_descriptor list \<Rightarrow> bytes \<Rightarrow> ('w, unit) handler" where
  "write_reserved_replicas state tenant_id cache_key [] bs s = (Inr (), s)"
| "write_reserved_replicas state tenant_id cache_key (replica # rest) bs s =
     (case from_replica replica of
        Inl e \<Rightarrow> (Inl (GeStore e), s)
      | Inr handle \<Rightarrow>
          try_bind (on_world (sc_write_preallocated_chunk (gs_store_client state) (rep_node_id replica)
                                tenant_id cache_key handle bs))
            (\<lambda>_. write_reserved_replicas state tenant_id cache_key rest bs) s)"

definition revoke_reservation_after_write_failure ::
  "'w gateway_state \<Rightarrow> tenant_id \<Rightarrow> cache_key \<Rightarrow> gateway_error \<Rightarrow> 'w gateway_run
   \<Rightarrow> gateway_error \<times> 'w gateway_run" where
  "revoke_reservation_after_write_failure state tenant_id cache_key write_error s =
     (case on_world (mc_put_revoke (gs_master_client state) tenant_id cache_key) s of
        (Inr _, s1) \<Rightarrow> (write_error, s1)
      | (Inl revoke_error, s1) \<Rightarrow>
          (GeReservationRevokeFailed (gateway_error_to_string write_error)
             (gateway_error_to_string revoke_error), s1))"

definition write_cached_bytes ::
  "'w gateway_state \<Rightarrow> tenant_id \<Rightarrow> cache_key \<Rightarrow> bytes \<Rightarrow> ('w, cache_write_status) handler" where
  "write_cached_bytes state tenant_id cache_key bs s =
     (let len = word_of_nat (length bs)
      in case on_world (mc_put_start (gs_master_client state) tenant_id cache_key len replica_count) s of
           (Inl e, s1) \<Rightarrow> (Inl e, s1)
         | (Inr replicas, s1) \<Rightarrow>
             (case write_reserved_replicas state tenant_id cache_key replicas bs s1 of
                (Inl e, s2) \<Rightarrow>
                  (case revoke_reservation_after_write_failure state tenant_id cache_key e s2 of
                     (e', s3) \<Rightarrow> (Inl e', s3))
              | (Inr _, s2) \<Rightarrow>
                  (case on_world (mc_put_end (gs_master_client state) tenant_id cache_key) s2 of
                     (Inl e, s3) \<Rightarrow>
                       (case revoke_reservation_after_write_failure state tenant_id cache_key e s3 of
                          (e', s4) \<Rightarrow> (Inl e', s4))
                   | (Inr _, s3) \<Rightarrow> (Inr WriteCommitted, s3))))"

definition write_cached_body ::
  "request_env \<Rightarrow> 'w gateway_state \<Rightarrow> tenant_id \<Rightarrow> cache_key \<Rightarrow> json \<Rightarrow> ('w, cache_write_status) handler" where
  "write_cached_body env state tenant_id cache_key body s =
     (case sj_to_vec (env_serde env) body of
        Inl e \<Rightarrow> (Inl (GeJson e), s)
      | Inr bs \<Rightarrow> write_cached_bytes state tenant_id cache_key bs s)"

definition write_cached_stream_object ::
  "request_env \<Rightarrow> 'w gateway_state \<Rightarrow> tenant_id \<Rightarrow> cache_key \<Rightarrow> captured_stream
   \<Rightarrow> ('w, cache_write_status) handler" where
  "write_cached_stream_object env state tenant_id cache_key captured s =
     (case serialize_stream_object (env_serde env) captured of
        Inl e \<Rightarrow> (Inl (GeJson e), s)
      | Inr bs \<Rightarrow> write_cached_bytes state tenant_id cache_key bs s)"

text \<open>\<^verbatim>\<open>unwrap_or(CacheWriteStatus::Failed)\<close>\<close>

definition write_or_failed ::
  "('w, cache_write_status) handler \<Rightarrow> 'w gateway_run \<Rightarrow> cache_write_status \<times> 'w gateway_run" where
  "write_or_failed m s = (case m s of (Inl _, s1) \<Rightarrow> (WriteFailed, s1) | (Inr st, s1) \<Rightarrow> (st, s1))"

section \<open>Vendor calls\<close>

definition complete_vendor ::
  "request_env \<Rightarrow> 'w gateway_state \<Rightarrow> responses_request \<Rightarrow> ('w, json) handler" where
  "complete_vendor env state request s =
     (case on_world (va_complete (gs_vendor state) request) s of
        (response, s1) \<Rightarrow>
          (map_err GeVendor response, on_metrics (record_vendor_call (env_vendor_micros env)) s1))"

definition vendor_response ::
  "request_env \<Rightarrow> 'w gateway_state \<Rightarrow> responses_request \<Rightarrow> cache_status \<Rightarrow> cache_write_status
   \<Rightarrow> cache_key option \<Rightarrow> ('w, gateway_response) handler" where
  "vendor_response env state request cache_status write_status cache_key =
     try_bind (complete_vendor env state request) (\<lambda>body s.
       (Inr (response_ok body cache_status (write_header_value write_status) ''vendor'' cache_key),
        record_simple cache_status write_status s))"

text \<open>Opening the stream, draining it, and the counter of vendor calls on success.\<close>

definition capture_vendor_stream ::
  "request_env \<Rightarrow> 'w gateway_state \<Rightarrow> responses_request \<Rightarrow> ('w, captured_stream) handler" where
  "capture_vendor_stream env state request s =
     (case on_world (va_stream (gs_vendor state) request) s of
        (Inl e, s1) \<Rightarrow> (Inl (GeVendor e), s1)
      | (Inr stream, s1) \<Rightarrow>
          (case collect_stream (env_serde env) stream of
             Inl e \<Rightarrow> (Inl (GeVendor e), s1)
           | Inr captured \<Rightarrow> (Inr captured, on_metrics (record_vendor_call (env_vendor_micros env)) s1)))"

definition vendor_stream_response ::
  "request_env \<Rightarrow> 'w gateway_state \<Rightarrow> responses_request \<Rightarrow> cache_status \<Rightarrow> cache_write_status
   \<Rightarrow> cache_key option \<Rightarrow> ('w, gateway_response) handler" where
  "vendor_stream_response env state request cache_status write_status cache_key =
     try_bind (capture_vendor_stream env state request) (\<lambda>captured s.
       (Inr (response_ok_stream (cap_final_body captured) (cap_events captured) cache_status
               (write_header_value write_status) ''vendor'' cache_key),
        record_simple cache_status write_status s))"

section \<open>Misses\<close>

definition cacheable_non_streaming_miss ::
  "request_env \<Rightarrow> 'w gateway_state \<Rightarrow> tenant_id \<Rightarrow> cache_control \<Rightarrow> responses_request \<Rightarrow> cache_key
   \<Rightarrow> ('w, gateway_response) handler" where
  "cacheable_non_streaming_miss env state tenant_id control request cache_key =
     try_bind (complete_vendor env state request) (\<lambda>body s.
       case (if control = CcReadOnly then (WriteSkipped, s)
             else write_or_failed (write_cached_body env state tenant_id cache_key body) s) of
         (write_status, s1) \<Rightarrow>
           (Inr (response_ok body Miss (write_header_value write_status) ''vendor'' (Some cache_key)),
            record_gateway_metrics Miss write_status s1))"

definition streaming_response ::
  "request_env \<Rightarrow> 'w gateway_state \<Rightarrow> tenant_id \<Rightarrow> cache_control \<Rightarrow> responses_request
   \<Rightarrow> eligibility_decision \<Rightarrow> cache_key \<Rightarrow> ('w, gateway_response) handler" where
  "streaming_response env state tenant_id control request eligibility cache_key s =
     (if control = CcBypass
      then vendor_stream_response env state request StatusBypass WriteSkipped None s
      else if eligibility \<noteq> Cacheable
      then vendor_stream_response env state request Ineligible WriteSkipped (Some cache_key) s
      else try_bind
        (if control \<noteq> CcWriteOnly then read_cached_stream_object env state tenant_id cache_key
         else (\<lambda>s. (Inr None, s)))
        (\<lambda>cached s1.
          case cached of
            Some (obj, tier) \<Rightarrow>
              (Inr (response_ok_stream (cso_final_body obj) (cso_events obj) Hit
                      (write_header_value WriteSkipped) tier (Some cache_key)),
               record_simple Hit WriteSkipped s1)
          | None \<Rightarrow>
              if control = CcCacheOnly
              then (Inr (with_cache_key cache_key
                          (response_error 404 ''cache object not found'' CacheOnlyMiss
                             (write_header_value WriteSkipped) ''none'')),
                    record_simple CacheOnlyMiss WriteSkipped s1)
              else try_bind (capture_vendor_stream env state request) (\<lambda>captured s2.
                case (if control = CcReadOnly then (WriteSkipped, s2)
                      else write_or_failed (write_cached_stream_object env state tenant_id cache_key captured) s2) of
                  (write_status, s3) \<Rightarrow>
                    (Inr (response_ok_stream (cap_final_body captured) (cap_events captured) Miss
                            (write_header_value write_status) ''vendor'' (Some cache_key)),
                     record_simple Miss write_status s3)) s1) s)"

section \<open>The coalesced miss\<close>

definition coalesced_miss ::
  "request_env \<Rightarrow> 'w gateway_state \<Rightarrow> tenant_id \<Rightarrow> cache_control \<Rightarrow> responses_request \<Rightarrow> cache_key
   \<Rightarrow> ('w, gateway_response) handler" where
  "coalesced_miss env state tenant_id control request cache_key s =
     (let key = \<lparr>sfk_tenant_id = tenant_id, sfk_cache_key = cache_key,
                 sfk_write_mode = flight_write_mode control\<rparr>;
          (start, flights) = sf_begin key (gw_flights s);
          s1 = s\<lparr>gw_flights := flights\<rparr>
      in case start of
           Leader leader \<Rightarrow>
             (case cacheable_non_streaming_miss env state tenant_id control request cache_key
                     (on_metrics (record_singleflight RoleLeader) s1) of
                (Inr response, s2) \<Rightarrow>
                  (Inr (with_cache_coalesced ''leader'' response),
                   s2\<lparr>gw_flights := sf_publish leader (Inr response) (gw_flights s2)\<rparr>)
              | (Inl err, s2) \<Rightarrow>
                  (Inl err,
                   s2\<lparr>gw_flights := sf_publish leader (Inl (gateway_error_to_string err)) (gw_flights s2)\<rparr>))
         | Waiter _ \<Rightarrow>
             (case env_wait env of
                Inr response \<Rightarrow>
                  (Inr (with_cache_write (write_header_value WriteSkipped)
                          (with_cache_coalesced ''waiter'' response)),
                   record_gateway_metrics Miss WriteSkipped (on_metrics (record_singleflight RoleWaiter) s1))
              | Inl message \<Rightarrow> (Inl (GeSingleflightLeaderFailed message), s1))
         | OverCapacity \<Rightarrow>
             cacheable_non_streaming_miss env state tenant_id control request cache_key
               (on_metrics (record_singleflight RoleOverCapacity) s1))"

definition cache_only_miss :: "cache_key \<Rightarrow> ('w, gateway_response) handler" where
  "cache_only_miss cache_key s =
     (Inr (with_cache_key cache_key
             (response_error 404 ''cache object not found'' CacheOnlyMiss (write_header_value WriteSkipped) ''none'')),
      record_simple CacheOnlyMiss WriteSkipped s)"

definition plain_response ::
  "request_env \<Rightarrow> 'w gateway_state \<Rightarrow> tenant_id \<Rightarrow> cache_control \<Rightarrow> responses_request
   \<Rightarrow> eligibility_decision \<Rightarrow> cache_key \<Rightarrow> ('w, gateway_response) handler" where
  "plain_response env state tenant_id control request eligibility cache_key s =
     (if control = CcBypass
      then vendor_response env state request StatusBypass WriteSkipped None s
      else if eligibility \<noteq> Cacheable
      then vendor_response env state request Ineligible WriteSkipped (Some cache_key) s
      else if \<not> gs_cache_available state
      then (if control = CcCacheOnly then cache_only_miss cache_key s
            else vendor_response env state request Degraded WriteFailed (Some cache_key) s)
      else try_bind
        (if control \<noteq> CcWriteOnly then read_cached_body env state tenant_id cache_key
         else (\<lambda>s. (Inr None, s)))
        (\<lambda>cached s1.
          case cached of
            Some (body, tier) \<Rightarrow>
              (Inr (response_ok body Hit (write_header_value WriteSkipped) tier (Some cache_key)),
               record_simple Hit WriteSkipped s1)
          | None \<Rightarrow>
              if control = CcCacheOnly then cache_only_miss cache_key s1
              else coalesced_miss env state tenant_id control request cache_key s1) s)"

section \<open>The handler\<close>

definition refuse :: "u16 \<Rightarrow> string \<Rightarrow> ('w, gateway_response) handler" where
  "refuse status message s =
     (Inr (response_error status message StatusBypass (write_header_value WriteSkipped) ''none''),
      record_simple StatusBypass WriteSkipped s)"

definition request_fingerprint ::
  "'w gateway_state \<Rightarrow> tenant_id \<Rightarrow> cache_control \<Rightarrow> string \<Rightarrow> json \<Rightarrow> fingerprint_input" where
  "request_fingerprint state tenant_id control resolved_model body =
     \<lparr>fi_tenant_id = tenant_id, fi_endpoint_version = endpoint_version,
      fi_vendor_id = va_vendor_id (gs_vendor state), fi_resolved_model_version = resolved_model,
      fi_adapter_version = va_adapter_version (gs_vendor state), fi_cache_policy = fingerprint_policy control,
      fi_body = fingerprint_body_without_stream body\<rparr>"

definition request_eligibility ::
  "'w gateway_state \<Rightarrow> cache_control \<Rightarrow> responses_request \<Rightarrow> json \<Rightarrow> eligibility_decision" where
  "request_eligibility state control request body =
     (if va_model_cache_eligible (gs_vendor state) (rr_model request)
      then classify_request body (control = CcForceReplay)
      else Bypass ''model is not cache eligible'')"

definition is_streaming_request :: "json \<Rightarrow> bool" where
  "is_streaming_request body =
     (case Option.bind (json_get body ''stream'') json_as_bool of None \<Rightarrow> False | Some b \<Rightarrow> b)"

definition handle_response_request ::
  "request_env \<Rightarrow> 'w gateway_state \<Rightarrow> string option \<Rightarrow> string option \<Rightarrow> json \<Rightarrow> ('w, gateway_response) handler" where
  "handle_response_request env state authorization cache_control body s =
     (case authenticate (env_sha256 env) state authorization of
        None \<Rightarrow> refuse 401 ''unauthorized'' s
      | Some tenant_id \<Rightarrow>
        if \<not> tenant_allows_vendor state tenant_id (va_vendor_id (gs_vendor state))
        then refuse 403 ''tenant is not allowed to use configured vendor'' s
        else case parse_cache_control (case cache_control of None \<Rightarrow> [] | Some v \<Rightarrow> v) of
          Inl err \<Rightarrow> refuse 400 (header_error_to_string err) s
        | Inr control \<Rightarrow>
          (case responses_request_from_value body of
             None \<Rightarrow> (Inl (GeJson (sj_type_error (env_serde env) body)), s)
           | Some request \<Rightarrow>
             (case on_world (va_resolve_model_version (gs_vendor state) (rr_model request)) s of
                (Inl e, s1) \<Rightarrow> (Inl (GeVendor e), s1)
              | (Inr resolved_model, s1) \<Rightarrow>
                (case compute_cache_key (sj_to_vec (env_serde env)) (env_sha256 env)
                        (request_fingerprint state tenant_id control resolved_model body) of
                   Inl e \<Rightarrow> (Inl (GeCache e), s1)
                 | Inr cache_key \<Rightarrow>
                     (if is_streaming_request body then streaming_response else plain_response)
                       env state tenant_id control request (request_eligibility state control request body)
                       cache_key s1))))"

definition handle_gateway_request ::
  "request_env \<Rightarrow> 'w gateway_state \<Rightarrow> gateway_request \<Rightarrow> ('w, gateway_response) handler" where
  "handle_gateway_request env state request =
     handle_response_request env state (gq_authorization request) (gq_cache_control request) (gq_body request)"

end
