(* ===== verification/Gateway_Contract.thy ===== *)
theory Gateway_Contract
imports Cache_Flow
begin

text \<open>
  What the gateway promises for any clients and any vendor: who is served, what each cache
  mode may touch, how answers are counted, and that failing writes never fail a request.
\<close>

section \<open>From the handler to a response\<close>

text \<open>The request passes every check before the cache is consulted.\<close>

definition dispatched ::
  "request_env \<Rightarrow> 'w gateway_state \<Rightarrow> string option \<Rightarrow> string option \<Rightarrow> json \<Rightarrow> 'w gateway_run
   \<Rightarrow> tenant_id \<Rightarrow> cache_control \<Rightarrow> responses_request \<Rightarrow> cache_key \<Rightarrow> 'w gateway_run \<Rightarrow> bool" where
  "dispatched env state auth cc body s tenant control request key s1 \<longleftrightarrow>
     authenticate (env_sha256 env) state auth = Some tenant
     \<and> tenant_allows_vendor state tenant (va_vendor_id (gs_vendor state))
     \<and> parse_cache_control (case cc of None \<Rightarrow> [] | Some v \<Rightarrow> v) = Inr control
     \<and> responses_request_from_value body = Some request
     \<and> (\<exists>resolved. on_world (va_resolve_model_version (gs_vendor state) (rr_model request)) s = (Inr resolved, s1)
          \<and> compute_cache_key (sj_to_vec (env_serde env)) (env_sha256 env)
              (request_fingerprint state tenant control resolved body) = Inr key)"

definition respond ::
  "bool \<Rightarrow> request_env \<Rightarrow> 'w gateway_state \<Rightarrow> tenant_id \<Rightarrow> cache_control \<Rightarrow> responses_request
   \<Rightarrow> eligibility_decision \<Rightarrow> cache_key \<Rightarrow> ('w, gateway_response) handler" where
  "respond streaming = (if streaming then streaming_response else plain_response)"

lemma handle_dispatched:
  assumes "dispatched env state auth cc body s tenant control request key s1"
  shows "handle_response_request env state auth cc body s =
    respond (is_streaming_request body) env state tenant control request
      (request_eligibility state control request body) key s1"
  using assms by (auto simp: dispatched_def handle_response_request_def respond_def)

lemma on_world_simps [simp]:
  "gw_metrics (snd (on_world f s)) = gw_metrics s"
  "gw_flights (snd (on_world f s)) = gw_flights s"
  by (simp_all add: on_world_def split: prod.splits)

text \<open>Every request is refused, fails before the cache is consulted, or is dispatched.\<close>

lemma handle_cases:
  obtains (refused) status message where
    "handle_response_request env state auth cc body s = refuse status message s"
    and "status \<in> {401, 403, 400}"
  | (failed) err s1 where "handle_response_request env state auth cc body s = (Inl err, s1)"
    and "gw_metrics s1 = gw_metrics s"
    and "s1 = s \<or> (\<exists>m r. on_world (va_resolve_model_version (gs_vendor state) m) s = (r, s1))"
  | (dispatched) tenant control request key s1 where
    "dispatched env state auth cc body s tenant control request key s1"
    and "gw_metrics s1 = gw_metrics s"
proof (cases "authenticate (env_sha256 env) state auth")
  case None
  then show thesis by (intro refused [of 401 "''unauthorized''"]) (simp_all add: handle_response_request_def)
next
  case (Some tenant)
  show thesis
  proof (cases "tenant_allows_vendor state tenant (va_vendor_id (gs_vendor state))")
    case False
    with Some show thesis
      by (intro refused [of 403 "''tenant is not allowed to use configured vendor''"])
         (simp_all add: handle_response_request_def)
  next
    case allowed: True
    show thesis
    proof (cases "parse_cache_control (case cc of None \<Rightarrow> [] | Some v \<Rightarrow> v)")
      case (Inl e)
      with Some allowed show thesis
        by (intro refused [of 400 "header_error_to_string e"]) (simp_all add: handle_response_request_def)
    next
      case control: (Inr control)
      show thesis
      proof (cases "responses_request_from_value body")
        case None
        with Some allowed control show thesis
          by (intro failed [of "GeJson (sj_type_error (env_serde env) body)" s])
             (simp_all add: handle_response_request_def)
      next
        case request: (Some request)
        obtain r s1 where run: "on_world (va_resolve_model_version (gs_vendor state) (rr_model request)) s = (r, s1)"
          by fastforce
        then have same: "gw_metrics s1 = gw_metrics s"
          using on_world_simps(1) [of "va_resolve_model_version (gs_vendor state) (rr_model request)" s] by simp
        show thesis
        proof (cases r)
          case (Inl e)
          with Some allowed control request run same show thesis
            by (intro failed [of "GeVendor e" s1]) (auto simp: handle_response_request_def)
        next
          case (Inr resolved)
          note facts = Some allowed control request run same this
          show thesis
          proof (cases "compute_cache_key (sj_to_vec (env_serde env)) (env_sha256 env)
              (request_fingerprint state tenant control resolved body)")
            case (Inl e)
            with facts show thesis
              by (intro failed [of "GeCache e" s1]) (auto simp: handle_response_request_def)
          next
            case (Inr key)
            with facts show thesis
              by (intro dispatched [of tenant control request key s1]) (simp_all add: dispatched_def)
          qed
        qed
      qed
    qed
  qed
qed

section \<open>Access\<close>

lemma find_SomeD: "find P xs = Some x \<Longrightarrow> x \<in> set xs \<and> P x"
  by (auto simp: find_Some_iff)

lemma authenticate_configured:
  assumes "gs_tenant_configs state = Some configs" and "authenticate sha256 state auth = Some t"
  obtains token tenant where "auth = Some (''Bearer '' @ token)" and "tenant \<in> set (config_tenants configs)"
    and "tc_enabled tenant" and "tc_api_key_sha256 tenant = sha256_hex sha256 token" and "t = tc_id tenant"
proof -
  obtain a token where "auth = Some a" "strip_prefix ''Bearer '' a = Some token"
    and t: "map_option tc_id (tenant_for_bearer_token sha256 configs token) = Some t"
    using assms by (auto simp: authenticate_def split: bind_splits)
  moreover from t obtain tenant where "tenant_for_bearer_token sha256 configs token = Some tenant" "t = tc_id tenant"
    by auto
  ultimately show thesis
    using that by (auto simp: tenant_for_bearer_token_def config_tenants_def Let_def strip_prefix_Some dest!: find_SomeD)
qed

text \<open>Within a loaded configuration the vendors of an authenticated tenant are those of its entry.\<close>

lemma allows_configured:
  assumes "parse_tenant_toml from_toml txt = Inr configs" and "gs_tenant_configs state = Some configs"
    and "tenant \<in> set (config_tenants configs)" and "tenant_allows_vendor state (tc_id tenant) v"
  shows "v \<in> set (tc_allowed_vendors tenant)"
proof -
  obtain raws where ok: "bt_ok configs"
    and ids: "\<And>key c. config_tenant configs key = Some c \<Longrightarrow> key = tenant_as_str (tc_id c)"
    using parse_tenant_toml_Inr [OF assms(1)] by blast
  obtain key where "(key, tenant) \<in> set configs" using assms(3) by (auto simp: config_tenants_def)
  then have "config_tenant configs key = Some tenant"
    using ok by (simp add: config_tenant_def bt_get_def bt_ok_distinct)
  with ids have "config_tenant configs (tenant_as_str (tc_id tenant)) = Some tenant" by auto
  then show ?thesis
    using assms(2,4) by (simp add: tenant_allows_vendor_def list_ex_iff)
qed

text \<open>
  C11: only an enabled tenant with the right key reaches the cache or the vendor. With a loaded
  tenant configuration, a request that does not carry the key of an enabled tenant whose
  vendors include the configured one is answered with 401 or 403; the master, the stores, the
  vendor and the flights in progress are untouched.
\<close>

theorem only_tenants_are_served:
  assumes "parse_tenant_toml from_toml txt = Inr configs" and "gs_tenant_configs state = Some configs"
    and "\<nexists>token tenant. auth = Some (''Bearer '' @ token) \<and> tenant \<in> set (config_tenants configs)
      \<and> tc_enabled tenant \<and> tc_api_key_sha256 tenant = sha256_hex (env_sha256 env) token
      \<and> va_vendor_id (gs_vendor state) \<in> set (tc_allowed_vendors tenant)"
  shows "\<exists>response s'. handle_response_request env state auth cc body s = (Inr response, s')
    \<and> gr_status_code response \<in> {401, 403} \<and> gw_world s' = gw_world s \<and> gw_flights s' = gw_flights s"
proof (cases "authenticate (env_sha256 env) state auth")
  case None
  then show ?thesis
    by (simp add: handle_response_request_def refuse_def response_error_def header_with_cache_headers
        record_simple_def record_gateway_metrics_def on_metrics_def)
next
  case (Some t)
  then obtain token tenant where "auth = Some (''Bearer '' @ token)" "tenant \<in> set (config_tenants configs)"
    "tc_enabled tenant" "tc_api_key_sha256 tenant = sha256_hex (env_sha256 env) token" "t = tc_id tenant"
    by (rule authenticate_configured [OF assms(2)])
  then have "\<not> tenant_allows_vendor state t (va_vendor_id (gs_vendor state))"
    using assms(3) allows_configured [OF assms(1,2)] by blast
  with Some show ?thesis
    by (simp add: handle_response_request_def refuse_def response_error_def header_with_cache_headers
        record_simple_def record_gateway_metrics_def on_metrics_def)
qed

section \<open>Cache modes\<close>

text \<open>The same gateway with other functions behind some of its interfaces.\<close>

definition with_vendor_calls ::
  "(responses_request \<Rightarrow> 'w \<Rightarrow> (vendor_error + json) \<times> 'w)
   \<Rightarrow> (responses_request \<Rightarrow> 'w \<Rightarrow> (vendor_error + vendor_stream) \<times> 'w) \<Rightarrow> 'w gateway_state \<Rightarrow> 'w gateway_state" where
  "with_vendor_calls complete stream state =
     state\<lparr>gs_vendor := (gs_vendor state)\<lparr>va_complete := complete, va_stream := stream\<rparr>\<rparr>"

definition with_cache_reads :: "'w master_client \<Rightarrow> 'w store_client \<Rightarrow> 'w gateway_state \<Rightarrow> 'w gateway_state" where
  "with_cache_reads mc sc state =
     state\<lparr>gs_master_client := (gs_master_client state)\<lparr>mc_get_replica_list := mc_get_replica_list mc\<rparr>,
           gs_store_client := (gs_store_client state)\<lparr>sc_read_chunk := sc_read_chunk sc\<rparr>\<rparr>"

definition with_cache_writes :: "'w master_client \<Rightarrow> 'w store_client \<Rightarrow> 'w gateway_state \<Rightarrow> 'w gateway_state" where
  "with_cache_writes mc sc state =
     state\<lparr>gs_master_client := mc\<lparr>mc_get_replica_list := mc_get_replica_list (gs_master_client state)\<rparr>,
           gs_store_client := sc\<lparr>sc_read_chunk := sc_read_chunk (gs_store_client state)\<rparr>\<rparr>"

definition with_clients :: "'w master_client \<Rightarrow> 'w store_client \<Rightarrow> 'w gateway_state \<Rightarrow> 'w gateway_state" where
  "with_clients mc sc state = state\<lparr>gs_master_client := mc, gs_store_client := sc\<rparr>"

lemma substituted_simps [simp]:
  "gs_tenant_configs (with_vendor_calls c st state) = gs_tenant_configs state"
  "gs_tenant_id (with_vendor_calls c st state) = gs_tenant_id state"
  "gs_cache_available (with_vendor_calls c st state) = gs_cache_available state"
  "gs_master_client (with_vendor_calls c st state) = gs_master_client state"
  "gs_store_client (with_vendor_calls c st state) = gs_store_client state"
  "va_vendor_id (gs_vendor (with_vendor_calls c st state)) = va_vendor_id (gs_vendor state)"
  "va_adapter_version (gs_vendor (with_vendor_calls c st state)) = va_adapter_version (gs_vendor state)"
  "va_model_cache_eligible (gs_vendor (with_vendor_calls c st state)) = va_model_cache_eligible (gs_vendor state)"
  "va_resolve_model_version (gs_vendor (with_vendor_calls c st state)) = va_resolve_model_version (gs_vendor state)"
  by (simp_all add: with_vendor_calls_def)

lemma substituted_client_simps [simp]:
  "gs_tenant_configs (with_cache_reads mc sc state) = gs_tenant_configs state"
  "gs_tenant_id (with_cache_reads mc sc state) = gs_tenant_id state"
  "gs_vendor (with_cache_reads mc sc state) = gs_vendor state"
  "gs_cache_available (with_cache_reads mc sc state) = gs_cache_available state"
  "mc_put_start (gs_master_client (with_cache_reads mc sc state)) = mc_put_start (gs_master_client state)"
  "mc_put_end (gs_master_client (with_cache_reads mc sc state)) = mc_put_end (gs_master_client state)"
  "mc_put_revoke (gs_master_client (with_cache_reads mc sc state)) = mc_put_revoke (gs_master_client state)"
  "sc_write_preallocated_chunk (gs_store_client (with_cache_reads mc sc state))
     = sc_write_preallocated_chunk (gs_store_client state)"
  "gs_tenant_configs (with_cache_writes mc sc state) = gs_tenant_configs state"
  "gs_tenant_id (with_cache_writes mc sc state) = gs_tenant_id state"
  "gs_vendor (with_cache_writes mc sc state) = gs_vendor state"
  "gs_cache_available (with_cache_writes mc sc state) = gs_cache_available state"
  "mc_get_replica_list (gs_master_client (with_cache_writes mc sc state)) = mc_get_replica_list (gs_master_client state)"
  "sc_read_chunk (gs_store_client (with_cache_writes mc sc state)) = sc_read_chunk (gs_store_client state)"
  "gs_tenant_configs (with_clients mc sc state) = gs_tenant_configs state"
  "gs_tenant_id (with_clients mc sc state) = gs_tenant_id state"
  "gs_vendor (with_clients mc sc state) = gs_vendor state"
  by (simp_all add: with_cache_reads_def with_cache_writes_def with_clients_def)

text \<open>The checks before the cache look at none of the substituted functions.\<close>

lemma authenticate_cong:
  assumes "gs_tenant_configs state' = gs_tenant_configs state" and "gs_tenant_id state' = gs_tenant_id state"
  shows "authenticate sha state' auth = authenticate sha state auth"
  unfolding authenticate_def assms ..

lemma tenant_allows_vendor_cong:
  assumes "gs_tenant_configs state' = gs_tenant_configs state"
  shows "tenant_allows_vendor state' = tenant_allows_vendor state"
  unfolding tenant_allows_vendor_def assms ..

lemma handle_substituted:
  fixes R :: "(gateway_error + gateway_response) \<times> 'w gateway_run \<Rightarrow> (gateway_error + gateway_response) \<times> 'w gateway_run \<Rightarrow> bool"
  assumes "\<And>tenant control request key s1.
      parse_cache_control (case cc of None \<Rightarrow> [] | Some v \<Rightarrow> v) = Inr control \<Longrightarrow>
      responses_request_from_value body = Some request \<Longrightarrow>
      R (respond (is_streaming_request body) env state' tenant control request
          (request_eligibility state control request body) key s1)
        (respond (is_streaming_request body) env state tenant control request
          (request_eligibility state control request body) key s1)"
    and refl: "\<And>r. R r r"
    and "gs_tenant_configs state' = gs_tenant_configs state" and "gs_tenant_id state' = gs_tenant_id state"
    and "va_vendor_id (gs_vendor state') = va_vendor_id (gs_vendor state)"
    and "va_adapter_version (gs_vendor state') = va_adapter_version (gs_vendor state)"
    and "va_model_cache_eligible (gs_vendor state') = va_model_cache_eligible (gs_vendor state)"
    and "va_resolve_model_version (gs_vendor state') = va_resolve_model_version (gs_vendor state)"
  shows "R (handle_response_request env state' auth cc body s) (handle_response_request env state auth cc body s)"
proof -
  have "authenticate sha state' auth = authenticate sha state auth" for sha
    using assms(3,4) by (rule authenticate_cong)
  moreover have "tenant_allows_vendor state' = tenant_allows_vendor state"
    using assms(3) by (rule tenant_allows_vendor_cong)
  moreover have "request_fingerprint state' = request_fingerprint state"
    using assms(5,6) by (intro ext) (simp add: request_fingerprint_def)
  moreover have "request_eligibility state' = request_eligibility state"
    using assms(7) by (intro ext) (simp add: request_eligibility_def)
  ultimately show ?thesis
    using assms(1,5,8) refl
    by (auto simp: handle_response_request_def respond_def split: option.splits sum.splits prod.splits)
qed

lemmas reading_defs = read_cached_body_def read_cached_stream_object_def read_cached_bytes_def
lemmas vendor_defs = vendor_response_def complete_vendor_def vendor_stream_response_def capture_vendor_stream_def
lemmas missing_defs = coalesced_miss_def cacheable_non_streaming_miss_def cache_only_miss_def Let_def
lemmas state_cong = option.case_cong sum.case_cong prod.case_cong list.case_cong if_cong singleflight_start.case_cong

lemma cache_only_respond:
  "respond b env (with_vendor_calls c st state) t CcCacheOnly request Cacheable key s =
   respond b env state t CcCacheOnly request Cacheable key s"
  by (simp add: respond_def streaming_response_def plain_response_def reading_defs missing_defs
      try_bind_cases cong: state_cong)

lemma bypass_respond:
  "respond b env (with_clients mc sc state) t CcBypass request e key s =
   respond b env state t CcBypass request e key s"
  by (simp add: respond_def streaming_response_def plain_response_def vendor_defs
      try_bind_cases cong: state_cong)

lemma read_only_respond:
  "respond b env (with_cache_writes mc sc state) t CcReadOnly request e key s =
   respond b env state t CcReadOnly request e key s"
  by (simp add: respond_def streaming_response_def plain_response_def reading_defs vendor_defs missing_defs
      try_bind_cases cong: state_cong)

lemma write_reserved_reads:
  "write_reserved_replicas (with_cache_reads mc sc state) t key rs bs s = write_reserved_replicas state t key rs bs s"
  by (induction rs arbitrary: s)
     (simp_all add: try_bind_cases cong: state_cong split: sum.splits prod.splits)

lemmas writing_defs = write_or_failed_def write_cached_body_def write_cached_stream_object_def write_cached_bytes_def
  revoke_reservation_after_write_failure_def

lemma write_only_respond:
  "respond b env (with_cache_reads mc sc state) t CcWriteOnly request e key s =
   respond b env state t CcWriteOnly request e key s"
proof -
  have "write_cached_bytes (with_cache_reads mc sc state) = write_cached_bytes state"
    by (intro ext) (simp add: write_cached_bytes_def write_reserved_reads
        revoke_reservation_after_write_failure_def cong: state_cong)
  then have writes: "write_cached_body env (with_cache_reads mc sc state) = write_cached_body env state"
    "write_cached_stream_object env (with_cache_reads mc sc state) = write_cached_stream_object env state"
    by (intro ext, simp add: write_cached_body_def write_cached_stream_object_def cong: state_cong)+
  show ?thesis
    by (simp add: respond_def streaming_response_def plain_response_def missing_defs writes vendor_defs
        try_bind_cases cong: state_cong)
qed

text \<open>
  C19: each cache mode touches only what it may. For any functions behind the interfaces: a
  bypass request has the same outcome (response and state) with any master and store clients;
  a read-only request with any functions that reserve, write, commit and revoke; a write-only
  request with any functions that look up and read; and a cache-only request that is eligible
  for caching with any vendor calls.
\<close>

theorem cache_modes_are_respected:
  assumes "parse_cache_control (case cc of None \<Rightarrow> [] | Some v \<Rightarrow> v) = Inr control"
  shows "(control = CcBypass \<longrightarrow>
        handle_response_request env (with_clients mc sc state) auth cc body s
        = handle_response_request env state auth cc body s)
    \<and> (control = CcReadOnly \<longrightarrow>
        handle_response_request env (with_cache_writes mc sc state) auth cc body s
        = handle_response_request env state auth cc body s)
    \<and> (control = CcWriteOnly \<longrightarrow>
        handle_response_request env (with_cache_reads mc sc state) auth cc body s
        = handle_response_request env state auth cc body s)
    \<and> (control = CcCacheOnly \<longrightarrow>
        (\<forall>request. responses_request_from_value body = Some request \<longrightarrow>
           request_eligibility state control request body = Cacheable) \<longrightarrow>
        handle_response_request env (with_vendor_calls complete stream state) auth cc body s
        = handle_response_request env state auth cc body s)"
proof (intro conjI impI)
  show "handle_response_request env (with_clients mc sc state) auth cc body s
      = handle_response_request env state auth cc body s" if "control = CcBypass"
    by (rule handle_substituted) (use assms that in \<open>simp_all add: bypass_respond\<close>)
  show "handle_response_request env (with_cache_writes mc sc state) auth cc body s
      = handle_response_request env state auth cc body s" if "control = CcReadOnly"
    by (rule handle_substituted) (use assms that in \<open>simp_all add: read_only_respond\<close>)
  show "handle_response_request env (with_cache_reads mc sc state) auth cc body s
      = handle_response_request env state auth cc body s" if "control = CcWriteOnly"
    by (rule handle_substituted) (use assms that in \<open>simp_all add: write_only_respond\<close>)
  show "handle_response_request env (with_vendor_calls complete stream state) auth cc body s
      = handle_response_request env state auth cc body s"
    if "control = CcCacheOnly" "\<forall>request. responses_request_from_value body = Some request \<longrightarrow>
           request_eligibility state control request body = Cacheable"
    by (rule handle_substituted) (use assms that in \<open>simp_all add: cache_only_respond\<close>)
qed

section \<open>Writes never fail a request\<close>

text \<open>Two answers that differ at most in the header \<^verbatim>\<open>x-cache-write\<close>.\<close>

fun same_answer :: "gateway_error + gateway_response \<Rightarrow> gateway_error + gateway_response \<Rightarrow> bool" where
  "same_answer (Inl e) (Inl e') = (e = e')"
| "same_answer (Inr a) (Inr b) =
     (gr_status_code a = gr_status_code b \<and> gr_body a = gr_body b \<and> gr_stream_events a = gr_stream_events b
      \<and> (\<forall>name. name \<noteq> ''x-cache-write'' \<longrightarrow> header name a = header name b))"
| "same_answer _ _ = False"

lemma same_answer_refl [simp]: "same_answer r r"
  by (cases r) simp_all

lemma header_other_headers:
  "name \<noteq> ''x-cache-write'' \<Longrightarrow> header name (with_cache_headers c b st w t) = header name (with_cache_headers c b st w' t)"
  by (simp add: header_def with_cache_headers_def Let_def bt_get_def)

lemma same_answer_ok:
  "same_answer (Inr (response_ok b st w t key)) (Inr (response_ok b st w' t key))"
  "same_answer (Inr (response_ok_stream b es st w t key)) (Inr (response_ok_stream b es st w' t key))"
  "same_answer (Inr a) (Inr b') \<Longrightarrow> same_answer (Inr (with_cache_coalesced role a)) (Inr (with_cache_coalesced role b'))"
  using header_other_headers
  by (auto simp: response_ok_def response_ok_stream_def with_cache_key_def with_cache_coalesced_def Let_def
      header_with_cache_headers split: option.splits)

lemma miss_same_answer:
  "same_answer (fst (cacheable_non_streaming_miss env (with_cache_writes mc sc state) t control request key s))
     (fst (cacheable_non_streaming_miss env state t control request key s))"
  by (auto simp: cacheable_non_streaming_miss_def complete_vendor_def try_bind_cases same_answer_ok
      simp del: same_answer.simps(2) split: prod.splits sum.splits)

lemma coalesced_same_answer:
  "same_answer (fst (coalesced_miss env (with_cache_writes mc sc state) t control request key s))
     (fst (coalesced_miss env state t control request key s))"
proof -
  obtain start flights where begun: "sf_begin \<lparr>sfk_tenant_id = t, sfk_cache_key = key,
      sfk_write_mode = flight_write_mode control\<rparr> (gw_flights s) = (start, flights)"
    by fastforce
  let ?s = "on_metrics (record_singleflight RoleLeader) (s\<lparr>gw_flights := flights\<rparr>)"
  show ?thesis
    using miss_same_answer [of env mc sc state t control request key ?s]
      miss_same_answer [of env mc sc state t control request key
        "on_metrics (record_singleflight RoleOverCapacity) (s\<lparr>gw_flights := flights\<rparr>)"]
    by (cases "cacheable_non_streaming_miss env (with_cache_writes mc sc state) t control request key ?s";
        cases "cacheable_non_streaming_miss env state t control request key ?s")
       (auto simp: coalesced_miss_def begun Let_def same_answer_ok(3) simp del: same_answer.simps(2)
         split: singleflight_start.splits sum.splits)
qed

lemma reads_with_writes:
  "read_cached_body env (with_cache_writes mc sc state) = read_cached_body env state"
  "read_cached_stream_object env (with_cache_writes mc sc state) = read_cached_stream_object env state"
  by (intro ext, simp add: reading_defs try_bind_cases cong: state_cong)+

lemma plain_same_answer:
  "same_answer (fst (plain_response env (with_cache_writes mc sc state) t control request e key s))
     (fst (plain_response env state t control request e key s))"
  by (auto simp: plain_response_def vendor_defs cache_only_miss_def reads_with_writes try_bind_cases
      coalesced_same_answer simp del: same_answer.simps(2) split: prod.splits sum.splits option.splits)

lemma streaming_same_answer:
  "same_answer (fst (streaming_response env (with_cache_writes mc sc state) t control request e key s))
     (fst (streaming_response env state t control request e key s))"
  by (auto simp: streaming_response_def vendor_defs reads_with_writes try_bind_cases same_answer_ok
      simp del: same_answer.simps(2) split: prod.splits sum.splits option.splits)

text \<open>
  C18: the cache never fails a request on the write side. Whatever the functions that reserve,
  write, commit and revoke do, the request has the same outcome: the same error, or a response
  with the same status, body, stream events and headers, except for \<^verbatim>\<open>x-cache-write\<close>.
\<close>

theorem cache_writes_never_fail_requests:
  "same_answer (fst (handle_response_request env (with_cache_writes mc sc state) auth cc body s))
     (fst (handle_response_request env state auth cc body s))"
  by (rule handle_substituted [of cc body "\<lambda>a b. same_answer (fst a) (fst b)"])
     (simp_all add: respond_def plain_same_answer streaming_same_answer)

section \<open>Counters\<close>

fun status_count :: "cache_status \<Rightarrow> gateway_metrics \<Rightarrow> u64" where
  "status_count Hit m = cache_hits m"
| "status_count Miss m = cache_misses m"
| "status_count StatusBypass m = cache_bypasses m"
| "status_count Ineligible m = cache_ineligible m"
| "status_count CacheOnlyMiss m = cache_only_misses m"
| "status_count Degraded m = cache_degraded m"

fun write_count :: "cache_write_status \<Rightarrow> gateway_metrics \<Rightarrow> u64" where
  "write_count WriteCommitted m = write_committed m"
| "write_count WriteSkipped m = write_skipped m"
| "write_count WriteFailed m = write_failed m"

text \<open>
  An answer is accounted for when exactly the counters its own headers name have gone up by
  one; an error leaves them all alone.
\<close>

definition uncounted :: "gateway_metrics \<Rightarrow> gateway_metrics \<Rightarrow> bool" where
  "uncounted m m' \<longleftrightarrow>
     (\<forall>st. status_count st m' = status_count st m) \<and> (\<forall>ws. write_count ws m' = write_count ws m)"

fun accounted :: "gateway_metrics \<Rightarrow> gateway_error + gateway_response \<Rightarrow> gateway_metrics \<Rightarrow> bool" where
  "accounted m (Inl e) m' \<longleftrightarrow> uncounted m m'"
| "accounted m (Inr r) m' \<longleftrightarrow>
     (\<exists>status ws. header ''x-cache-status'' r = Some (cache_status_header status)
        \<and> header ''x-cache-write'' r = Some (write_header_value ws)
        \<and> (\<forall>st. status_count st m' = status_count st m + (if st = status then 1 else 0))
        \<and> (\<forall>w. write_count w m' = write_count w m + (if w = ws then 1 else 0)))"

lemma status_count_record [simp]:
  "status_count st (record_cache_status (observed_cache_status status) m)
     = status_count st m + (if st = status then 1 else 0)"
  by (cases st; cases status) simp_all

lemma status_count_others [simp]:
  "status_count st (record_write w m) = status_count st m"
  "status_count st (record_singleflight role m) = status_count st m"
  "status_count st (record_vendor_call n m) = status_count st m"
proof -
  show "status_count st (record_write w m) = status_count st m" by (cases st; cases w) simp_all
  show "status_count st (record_singleflight role m) = status_count st m" by (cases st; cases role) simp_all
  show "status_count st (record_vendor_call n m) = status_count st m"
    by (cases st) (simp_all add: record_vendor_call_def)
qed

lemma write_count_record [simp]:
  "write_count ws (record_write (write_metrics_status w') m) = write_count ws m + (if ws = w' then 1 else 0)"
  by (cases ws; cases w') simp_all

lemma write_count_others [simp]:
  "write_count ws (record_cache_status st m) = write_count ws m"
  "write_count ws (record_singleflight role m) = write_count ws m"
  "write_count ws (record_vendor_call n m) = write_count ws m"
proof -
  show "write_count ws (record_cache_status st m) = write_count ws m" by (cases ws; cases st) simp_all
  show "write_count ws (record_singleflight role m) = write_count ws m" by (cases ws; cases role) simp_all
  show "write_count ws (record_vendor_call n m) = write_count ws m"
    by (cases ws) (simp_all add: record_vendor_call_def)
qed

lemma accounted_record:
  assumes "uncounted m (gw_metrics s)"
    and "header ''x-cache-status'' r = Some (cache_status_header status)"
    and "header ''x-cache-write'' r = Some (write_header_value ws)"
  shows "accounted m (Inr r) (gw_metrics (record_gateway_metrics status ws s))"
    and "accounted m (Inr r) (gw_metrics (record_simple status ws s))"
  using assms unfolding accounted.simps
  by (intro exI [of _ status] exI [of _ ws],
      simp add: record_gateway_metrics_def record_simple_def on_metrics_def uncounted_def
        del: record_singleflight.simps)+

lemma uncounted_refl [simp]: "uncounted m m"
  by (simp add: uncounted_def)

lemma uncounted_trans: "uncounted a b \<Longrightarrow> uncounted b c \<Longrightarrow> uncounted a c"
  by (simp add: uncounted_def)

lemma uncounted_on_metrics:
  "uncounted m (gw_metrics (on_metrics (record_singleflight role) s)) \<longleftrightarrow> uncounted m (gw_metrics s)"
  "uncounted m (gw_metrics (on_metrics (record_vendor_call n) s)) \<longleftrightarrow> uncounted m (gw_metrics s)"
  by (simp_all add: uncounted_def on_metrics_def)

text \<open>Reading, reserving, writing and calling the vendor record no status.\<close>

lemma on_world_metrics: "on_world f s = (r, s') \<Longrightarrow> gw_metrics s' = gw_metrics s"
  using on_world_simps(1) [of f s] by simp

lemma read_cached_bytes_metrics:
  "gw_metrics (snd (read_cached_bytes state t key s)) = gw_metrics s"
  by (auto simp: read_cached_bytes_def try_bind_cases split: prod.splits sum.splits list.splits
      dest!: on_world_metrics)

lemma write_reserved_metrics: "gw_metrics (snd (write_reserved_replicas state t key rs bs s)) = gw_metrics s"
  by (induction rs arbitrary: s)
     (auto simp: try_bind_cases split: prod.splits sum.splits dest!: on_world_metrics)

lemma write_cached_bytes_metrics: "gw_metrics (snd (write_cached_bytes state t key bs s)) = gw_metrics s"
proof -
  have "gw_metrics s2 = gw_metrics s1" if "write_reserved_replicas state t key rs bs s1 = (r, s2)" for rs r s1 s2
    using write_reserved_metrics [of state t key rs bs s1] that by simp
  then show ?thesis
    by (auto simp: write_cached_bytes_def revoke_reservation_after_write_failure_def Let_def
        split: prod.splits sum.splits dest!: on_world_metrics)
qed

lemma header_labels:
  "header ''x-cache-status'' (response_ok b st w t key) = Some (cache_status_header st)"
  "header ''x-cache-write'' (response_ok b st w t key) = Some w"
  "header ''x-cache-status'' (response_ok_stream b es st w t key) = Some (cache_status_header st)"
  "header ''x-cache-write'' (response_ok_stream b es st w t key) = Some w"
  "header ''x-cache-status'' (response_error c msg st w t) = Some (cache_status_header st)"
  "header ''x-cache-write'' (response_error c msg st w t) = Some w"
  by (simp_all add: response_ok_def response_ok_stream_def response_error_def Let_def with_cache_key_def
      header_with_cache_headers split: option.splits)

lemma complete_vendor_uncounted:
  "complete_vendor env state request s = (r, s') \<Longrightarrow> uncounted (gw_metrics s) (gw_metrics s')"
  by (auto simp: complete_vendor_def uncounted_on_metrics split: prod.splits dest!: on_world_metrics)

lemma capture_uncounted:
  "capture_vendor_stream env state request s = (r, s') \<Longrightarrow> uncounted (gw_metrics s) (gw_metrics s')"
  by (auto simp: capture_vendor_stream_def uncounted_on_metrics split: prod.splits sum.splits
      dest!: on_world_metrics)

lemma write_or_failed_metrics:
  "write_or_failed (write_cached_body env state t key body) s = (ws, s') \<Longrightarrow> gw_metrics s' = gw_metrics s"
  "write_or_failed (write_cached_stream_object env state t key captured) s = (ws, s') \<Longrightarrow> gw_metrics s' = gw_metrics s"
  using write_cached_bytes_metrics [of state t key _ s]
  by (auto simp: write_or_failed_def write_cached_body_def write_cached_stream_object_def
      split: prod.splits sum.splits) (metis snd_conv)+

lemma read_metrics:
  "read_cached_body env state t key s = (r, s') \<Longrightarrow> gw_metrics s' = gw_metrics s"
  "read_cached_stream_object env state t key s = (r', s') \<Longrightarrow> gw_metrics s' = gw_metrics s"
  using read_cached_bytes_metrics [of state t key s]
  by (auto simp: read_cached_body_def read_cached_stream_object_def try_bind_cases
      split: prod.splits sum.splits option.splits)

lemma miss_accounted:
  assumes "cacheable_non_streaming_miss env state t control request key s = (r, s')"
  shows "accounted (gw_metrics s) r (gw_metrics s')"
    and "r = Inr response \<Longrightarrow> header ''x-cache-status'' response = Some (cache_status_header Miss)"
proof -
  have "accounted (gw_metrics s) r (gw_metrics s')
    \<and> (\<forall>response. r = Inr response \<longrightarrow> header ''x-cache-status'' response = Some (cache_status_header Miss))"
    using assms
    by (auto simp: cacheable_non_streaming_miss_def try_bind_cases header_labels simp del: accounted.simps(2)
        split: prod.splits sum.splits if_splits dest!: write_or_failed_metrics complete_vendor_uncounted
        intro!: accounted_record)
  then show "accounted (gw_metrics s) r (gw_metrics s')"
    and "r = Inr response \<Longrightarrow> header ''x-cache-status'' response = Some (cache_status_header Miss)"
    by blast+
qed

lemma accounted_after: "uncounted m m1 \<Longrightarrow> accounted m1 r m2 \<Longrightarrow> accounted m r m2"
  by (cases r) (auto simp: uncounted_def)

lemma accounted_coalesced:
  "accounted m (Inr response) m' \<Longrightarrow> accounted m (Inr (with_cache_coalesced role response)) m'"
  by (simp add: with_cache_coalesced_def)

lemma coalesced_accounted:
  assumes "\<And>response. env_wait env = Inr response \<Longrightarrow> header ''x-cache-status'' response = Some ''miss''"
    and "coalesced_miss env state t control request key s = (r, s')"
  shows "accounted (gw_metrics s) r (gw_metrics s')"
proof -
  obtain start flights where begun: "sf_begin \<lparr>sfk_tenant_id = t, sfk_cache_key = key,
      sfk_write_mode = flight_write_mode control\<rparr> (gw_flights s) = (start, flights)"
    by fastforce
  let ?s1 = "s\<lparr>gw_flights := flights\<rparr>"
  let ?sr = "\<lambda>role. on_metrics (record_singleflight role) ?s1"
  have role: "uncounted (gw_metrics s) (gw_metrics (?sr role))" for role
    by (simp add: uncounted_on_metrics)
  show ?thesis
  proof (cases start)
    case (Leader leader)
    obtain r1 s1 where miss: "cacheable_non_streaming_miss env state t control request key (?sr RoleLeader) = (r1, s1)"
      by fastforce
    from accounted_after [OF role miss_accounted(1) [OF this]]
    show ?thesis
      using assms(2) begun Leader miss accounted_coalesced
      by (cases r1) (auto simp: coalesced_miss_def simp del: accounted.simps(2))
  next
    case (Waiter c)
    have "header ''x-cache-status'' (with_cache_write w (with_cache_coalesced role response)) = Some (cache_status_header Miss)"
      if "env_wait env = Inr response" for response w role
      using assms(1) [OF that] by (simp add: with_cache_write_def with_cache_coalesced_def cache_status_header_def)
    moreover have "header ''x-cache-write'' (with_cache_write w resp) = Some w" for w resp
      by (simp add: with_cache_write_def)
    ultimately show ?thesis
      using assms(2) begun Waiter accounted_record(1) [OF role]
      by (cases "env_wait env")
         (auto simp: coalesced_miss_def Let_def simp del: accounted.simps(2) write_header_value.simps)
  next
    case OverCapacity
    then show ?thesis
      using assms(2) begun accounted_after [OF role miss_accounted(1), of _ _ _ _ _ _ RoleOverCapacity]
      by (simp add: coalesced_miss_def del: accounted.simps(2))
  qed
qed

lemma cache_only_miss_accounted:
  "uncounted m (gw_metrics s) \<Longrightarrow> cache_only_miss key s = (r, s') \<Longrightarrow> accounted m r (gw_metrics s')"
  by (auto simp: cache_only_miss_def with_cache_key_def header_labels simp del: accounted.simps(2)
      intro!: accounted_record)

lemma vendor_accounted:
  "vendor_response env state request st ws k s = (r, s') \<Longrightarrow> accounted (gw_metrics s) r (gw_metrics s')"
  "vendor_stream_response env state request st ws k s = (r, s') \<Longrightarrow> accounted (gw_metrics s) r (gw_metrics s')"
  by (auto simp: vendor_response_def vendor_stream_response_def try_bind_cases header_labels
      simp del: accounted.simps(2) split: prod.splits sum.splits
      dest!: complete_vendor_uncounted capture_uncounted intro!: accounted_record)

lemma plain_accounted:
  assumes "\<And>response. env_wait env = Inr response \<Longrightarrow> header ''x-cache-status'' response = Some ''miss''"
    and "plain_response env state t control request e key s = (r, s')"
  shows "accounted (gw_metrics s) r (gw_metrics s')"
proof -
  have "accounted m r (gw_metrics y)"
    if "coalesced_miss env state t control request key x = (r, y)" "gw_metrics x = m" for x r y m
    using coalesced_accounted [of env, OF assms(1)] that by blast
  then show ?thesis
    using assms(2)
    by (auto simp: plain_response_def try_bind_cases header_labels simp del: accounted.simps(2)
        split: prod.splits sum.splits option.splits if_splits
        dest!: vendor_accounted(1) read_metrics cache_only_miss_accounted [rotated] intro!: accounted_record)
qed

lemma streaming_accounted:
  assumes "streaming_response env state t control request e key s = (r, s')"
  shows "accounted (gw_metrics s) r (gw_metrics s')"
  using assms
  by (auto simp: streaming_response_def try_bind_cases header_labels with_cache_key_def
      simp del: accounted.simps(2) write_header_value.simps
      split: prod.splits sum.splits option.splits if_splits
      dest!: vendor_accounted(2) read_metrics capture_uncounted write_or_failed_metrics
      intro!: accounted_record)

text \<open>
  C30: every answer is counted once, as what it says it is. The response names its cache status
  and its write outcome in its headers, and the handler raises exactly these two counters, by
  one; a request that ends in an error raises none of them. A response delivered to a waiting
  request is assumed to be labelled a miss, which is how every leader labels its result.
\<close>

theorem every_answer_is_counted:
  assumes "\<And>response. env_wait env = Inr response \<Longrightarrow> header ''x-cache-status'' response = Some ''miss''"
    and "handle_response_request env state auth cc body s = (r, s')"
  shows "accounted (gw_metrics s) r (gw_metrics s')"
proof (cases rule: handle_cases [of env state auth cc body s])
  case (refused status message)
  then show ?thesis
    using assms(2)
    by (auto simp: refuse_def header_labels simp del: accounted.simps(2) write_header_value.simps
        intro!: accounted_record)
next
  case (failed err s1)
  then show ?thesis using assms(2) by simp
next
  case (dispatched tenant control request key s1)
  then show ?thesis
    using assms(2) plain_accounted [of env state tenant control request _ key s1 r s', OF assms(1)]
      streaming_accounted [of env state tenant control request _ key s1 r s']
    by (simp add: handle_dispatched [OF dispatched(1)] respond_def split: if_splits)
qed

section \<open>Failing reads and ineligible requests\<close>

text \<open>
  C38: a failing lookup fails the request. When the master answers a lookup with an error other
  than "not found", the request ends with that error and the vendor is not asked, although the
  design calls for a fallback to the vendor (labelled degraded) when the cache is down.
\<close>

theorem failing_lookup_fails_request:
  assumes "dispatched env state auth cc body s tenant control request key s1"
    and "request_eligibility state control request body = Cacheable" and "gs_cache_available state"
    and "control \<notin> {CcBypass, CcWriteOnly}"
    and "on_world (mc_get_replica_list (gs_master_client state) tenant key) s1 = (Inl err, s2)"
    and "err \<noteq> GeCache NotFound"
  shows "handle_response_request env state auth cc body s = (Inl err, s2)"
  using assms
  by (simp add: handle_dispatched [OF assms(1)] respond_def plain_response_def streaming_response_def
      reading_defs try_bind_cases)

text \<open>
  A cache-only request that is not eligible for caching is sent to the vendor and answered
  with the vendor's body; the mode is honoured only for eligible requests.
\<close>

lemma ineligible_cache_only_calls_vendor:
  assumes "dispatched env state auth cc body s tenant CcCacheOnly request key s1"
    and "request_eligibility state CcCacheOnly request body \<noteq> Cacheable" and "\<not> is_streaming_request body"
    and "on_world (va_complete (gs_vendor state) request) s1 = (Inr answer, s2)"
  shows "\<exists>response s'. handle_response_request env state auth cc body s = (Inr response, s')
    \<and> gr_status_code response = 200 \<and> gr_body response = answer
    \<and> header ''x-cache-status'' response = Some ''ineligible'' \<and> gw_world s' = gw_world s2"
  using assms
  by (simp add: handle_dispatched [OF assms(1)] respond_def plain_response_def vendor_response_def
      complete_vendor_def try_bind_cases header_labels cache_status_header_def response_ok_def Let_def
      with_cache_key_def header_with_cache_headers record_simple_def record_gateway_metrics_def on_metrics_def)

section \<open>Cache keys of streaming requests\<close>

lemma bt_remove_insert:
  assumes "bt_ok m" and "bt_get m k = None"
  shows "bt_remove k (bt_insert k v m) = m"
  by (rule bt_ok_ext) (use assms in \<open>auto simp: fun_eq_iff\<close>)

text \<open>
  A streaming request and its non-streaming twin have the same cache key, whatever the
  value of the flag, so the stored answer of one can serve the other.
\<close>

lemma stream_flag_is_not_part_of_the_key:
  assumes "bt_ok m" and "bt_get m ''stream'' = None"
  shows "compute_cache_key to_vec sha256
      (request_fingerprint state tenant control model (JObject (bt_insert ''stream'' flag m)))
    = compute_cache_key to_vec sha256 (request_fingerprint state tenant control model (JObject m))"
  using assms by (simp add: request_fingerprint_def fingerprint_body_without_stream_def bt_remove_insert)

end
