(* ===== verification/Cache_Backend.thy ===== *)
theory Cache_Backend
imports Gateway_Contract
begin

text \<open>
  What the gateway relies on in its two clients, as one interface: together they are a map
  from tenant and key to bytes. The request handler is then a client of that map, whatever the
  clients are made of.
\<close>

section \<open>What an answer says about the cache\<close>

text \<open>The bytes an answer is stored as.\<close>

definition payload :: "serde \<Rightarrow> gateway_response \<Rightarrow> string + bytes" where
  "payload sj r =
     (case gr_stream_events r of
        None \<Rightarrow> sj_to_vec sj (gr_body r)
      | Some events \<Rightarrow> serialize_stream_object sj \<lparr>cap_events = events, cap_final_body = gr_body r\<rparr>)"

text \<open>
  The map changed as the answer says: an answer labelled committed is stored under a new key.
  When the outcome of a write may be unknown to the gateway (\<open>exact\<close> is false), an answer that is
  not labelled may be stored as well.
\<close>

definition stored :: "serde \<Rightarrow> object_key \<Rightarrow> (object_key \<rightharpoonup> bytes) \<Rightarrow> gateway_response \<Rightarrow> (object_key \<rightharpoonup> bytes) \<Rightarrow> bool" where
  "stored sj key c r c' \<longleftrightarrow> c key = None \<and> (\<exists>bs. payload sj r = Inr bs \<and> c' = c(key \<mapsto> bs))"

fun reflected ::
  "bool \<Rightarrow> serde \<Rightarrow> object_key \<Rightarrow> (object_key \<rightharpoonup> bytes) \<Rightarrow> gateway_error + gateway_response \<Rightarrow> (object_key \<rightharpoonup> bytes) \<Rightarrow> bool"
where
  "reflected exact sj key c (Inl e) c' = (c' = c)"
| "reflected exact sj key c (Inr r) c' =
     (if header ''x-cache-write'' r = Some ''committed'' then stored sj key c r c'
      else c' = c \<or> \<not> exact \<and> stored sj key c r c')"

text \<open>A vector of bytes has at most \<^verbatim>\<open>usize::MAX\<close> bytes.\<close>

definition serde_bounded :: "serde \<Rightarrow> bool" where
  "serde_bounded sj \<longleftrightarrow> (\<forall>v bs. sj_to_vec sj v = Inr bs \<longrightarrow> length bs \<le> u64_max)"

text \<open>The outcomes of a write of given bytes, or of none when they cannot be produced.\<close>

definition wrote ::
  "bool \<Rightarrow> cache_write_status \<Rightarrow> object_key \<Rightarrow> (object_key \<rightharpoonup> bytes) \<Rightarrow> string + bytes \<Rightarrow> (object_key \<rightharpoonup> bytes) \<Rightarrow> bool" where
  "wrote exact ws key c result c' \<longleftrightarrow>
     (let new = (c key = None \<and> (\<exists>bs. result = Inr bs \<and> c' = c(key \<mapsto> bs)))
      in if ws = WriteCommitted then new else c' = c \<or> \<not> exact \<and> new)"

lemma payload_ok:
  "payload sj (response_ok b st w t key) = sj_to_vec sj b"
  "payload sj (response_ok_stream b es st w t key) = serialize_stream_object sj \<lparr>cap_events = es, cap_final_body = b\<rparr>"
  by (simp_all add: payload_def response_ok_def response_ok_stream_def Let_def with_cache_key_def
      header_with_cache_headers split: option.splits)

lemma payload_set_header [simp]: "payload sj (set_header n v r) = payload sj r"
  by (cases "gr_stream_events r") (simp_all add: payload_def)

lemma stored_set_header [simp]: "stored sj key c (set_header n v r) c' \<longleftrightarrow> stored sj key c r c'"
  by (simp add: stored_def)

section \<open>The interface\<close>

text \<open>A gateway that uses given clients.\<close>

definition backed :: "'w master_client \<Rightarrow> 'w store_client \<Rightarrow> 'w gateway_state \<Rightarrow> bool" where
  "backed mc sc state \<longleftrightarrow> gs_master_client state = mc \<and> gs_store_client state = sc"

text \<open>
  \<open>contents\<close> is the map the clients represent, \<open>pending\<close> says that a replica is reserved for a
  key, and \<open>filled\<close> that the reserved replica holds given bytes. The laws follow the protocol
  of a write: reserve, write, commit, and revoke when one of them failed. They are promised for
  the \<open>usable\<close> keys only: clients over a network build their requests from the key's text. Clients
  that are \<open>exact\<close> find what is stored and report a commit as it happened; others may fail in a
  lookup, and may report a failure although the object was committed.
\<close>

locale cache_backend =
  fixes mc :: "'w master_client" and sc :: "'w store_client"
    and inv :: "'w \<Rightarrow> bool" and contents :: "'w \<Rightarrow> object_key \<rightharpoonup> bytes"
    and pending :: "'w \<Rightarrow> object_key \<Rightarrow> replica_descriptor \<Rightarrow> bool"
    and filled :: "'w \<Rightarrow> object_key \<Rightarrow> replica_descriptor \<Rightarrow> bytes \<Rightarrow> bool"
    and usable :: "object_key \<Rightarrow> bool" and exact :: bool
  assumes looked_up: "inv w \<Longrightarrow> usable (t, k) \<Longrightarrow> mc_get_replica_list mc t k w = (found, w') \<Longrightarrow>
      inv w' \<and> contents w' = contents w"
    and chunk_read: "inv w \<Longrightarrow> usable (t, k) \<Longrightarrow> mc_get_replica_list mc t k w = (Inr rl, w') \<Longrightarrow>
      rl_replicas rl = r # rs \<Longrightarrow> from_replica r = Inr h \<Longrightarrow> sc_read_chunk sc t k h w' = (got, w'') \<Longrightarrow>
      inv w'' \<and> contents w'' = contents w \<and> (\<forall>chunk. got = Inr chunk \<longrightarrow> contents w (t, k) = Some (sch_bytes chunk))"
    and lookup_present: "exact \<Longrightarrow> inv w \<Longrightarrow> usable (t, k) \<Longrightarrow> contents w (t, k) = Some bs \<Longrightarrow>
      \<exists>rl r rs h tier w' w''. mc_get_replica_list mc t k w = (Inr rl, w') \<and> rl_replicas rl = r # rs
        \<and> from_replica r = Inr h \<and> sc_read_chunk sc t k h w' = (Inr \<lparr>sch_bytes = bs, sch_tier = tier\<rparr>, w'')"
    and start_refused: "inv w \<Longrightarrow> usable (t, k) \<Longrightarrow> mc_put_start mc t k len replica_count w = (Inl e, w') \<Longrightarrow>
      inv w' \<and> contents w' = contents w"
    and start_granted: "inv w \<Longrightarrow> usable (t, k) \<Longrightarrow> mc_put_start mc t k len replica_count w = (Inr rs, w') \<Longrightarrow>
      \<exists>r h. rs = [r] \<and> from_replica r = Inr h \<and> inv w' \<and> contents w' = contents w
        \<and> contents w (t, k) = None \<and> pending w' (t, k) r"
    and written: "inv w \<Longrightarrow> usable (t, k) \<Longrightarrow> pending w (t, k) r \<Longrightarrow> from_replica r = Inr h \<Longrightarrow>
      length bs \<le> u64_max \<Longrightarrow> sc_write_preallocated_chunk sc (rep_node_id r) t k h bs w = (res, w') \<Longrightarrow>
      inv w' \<and> contents w' = contents w \<and> pending w' (t, k) r \<and> (res = Inr () \<longrightarrow> filled w' (t, k) r bs)"
    and committed: "inv w \<Longrightarrow> usable (t, k) \<Longrightarrow> filled w (t, k) r bs \<Longrightarrow> mc_put_end mc t k w = (Inr u, w') \<Longrightarrow>
      inv w' \<and> contents w' = (contents w)((t, k) \<mapsto> bs)"
    and not_committed: "inv w \<Longrightarrow> usable (t, k) \<Longrightarrow> filled w (t, k) r bs \<Longrightarrow> mc_put_end mc t k w = (Inl e, w') \<Longrightarrow>
      inv w' \<and> (contents w' = contents w \<and> pending w' (t, k) r \<or> \<not> exact \<and> contents w' = (contents w)((t, k) \<mapsto> bs))"
    and revoked: "inv w \<Longrightarrow> usable (t, k) \<Longrightarrow> pending w (t, k) r \<Longrightarrow> mc_put_revoke mc t k w = (res, w') \<Longrightarrow>
      inv w' \<and> contents w' = contents w"
    and withdrawn: "\<not> exact \<Longrightarrow> inv w \<Longrightarrow> usable (t, k) \<Longrightarrow> contents w (t, k) = Some bs \<Longrightarrow>
      mc_put_revoke mc t k w = (res, w') \<Longrightarrow>
      inv w' \<and> (contents w' = contents w \<or> contents w' = (contents w)((t, k) := None))"
begin

text \<open>A read, whatever it finds, leaves the map alone, and what it finds is what the map has.\<close>

lemma read_keeps:
  assumes "backed mc sc state" and "inv (gw_world s)" and "usable (t, k)" and "read_cached_bytes state t k s = (r, s')"
  shows "inv (gw_world s') \<and> contents (gw_world s') = contents (gw_world s)"
    and "r = Inr (Some chunk) \<Longrightarrow> contents (gw_world s) (t, k) = Some (sch_bytes chunk)"
proof -
  have clients: "gs_master_client state = mc" "gs_store_client state = sc" using assms(1) by (simp_all add: backed_def)
  obtain res w' where get: "mc_get_replica_list mc t k (gw_world s) = (res, w')" by fastforce
  note w' = looked_up [OF assms(2,3) get]
  have "inv (gw_world s') \<and> contents (gw_world s') = contents (gw_world s)
    \<and> (\<forall>chunk. r = Inr (Some chunk) \<longrightarrow> contents (gw_world s) (t, k) = Some (sch_bytes chunk))"
  proof (cases "\<exists>rl rep rs h. res = Inr rl \<and> rl_replicas rl = rep # rs \<and> from_replica rep = Inr h")
    case True
    then obtain rl rep rs h where found: "res = Inr rl" "rl_replicas rl = rep # rs" "from_replica rep = Inr h" by blast
    obtain res2 w'' where read: "sc_read_chunk sc t k h w' = (res2, w'')" by fastforce
    from chunk_read [OF assms(2,3) get [unfolded found(1)] found(2,3) read] show ?thesis
      using assms(4) get found read
      by (cases res2) (auto simp: read_cached_bytes_def on_world_def clients try_bind_cases)
  next
    case False
    then have "s' = s\<lparr>gw_world := w'\<rparr> \<and> (\<forall>chunk. r \<noteq> Inr (Some chunk))"
      using assms(4) get by (cases res) (auto simp: read_cached_bytes_def on_world_def clients split: list.splits sum.splits if_splits)
    then show ?thesis using w' by simp
  qed
  then show "inv (gw_world s') \<and> contents (gw_world s') = contents (gw_world s)"
    and "r = Inr (Some chunk) \<Longrightarrow> contents (gw_world s) (t, k) = Some (sch_bytes chunk)" by blast+
qed

lemma read_present:
  assumes "exact" and "backed mc sc state" and "inv (gw_world s)" and "usable (t, k)"
    and "contents (gw_world s) (t, k) = Some bs"
  obtains tier s' where "read_cached_bytes state t k s = (Inr (Some \<lparr>sch_bytes = bs, sch_tier = tier\<rparr>), s')"
    and "inv (gw_world s')" and "contents (gw_world s') = contents (gw_world s)"
proof -
  obtain rl r rs h tier w' w'' where *: "mc_get_replica_list mc t k (gw_world s) = (Inr rl, w')"
    "rl_replicas rl = r # rs" "from_replica r = Inr h"
    "sc_read_chunk sc t k h w' = (Inr \<lparr>sch_bytes = bs, sch_tier = tier\<rparr>, w'')"
    using lookup_present [OF assms(1,3-5)] by blast
  have "read_cached_bytes state t k s = (Inr (Some \<lparr>sch_bytes = bs, sch_tier = tier\<rparr>), s\<lparr>gw_world := w''\<rparr>)"
    using * assms(2) by (simp add: read_cached_bytes_def on_world_def backed_def try_bind_cases)
  then show thesis using that read_keeps(1) [OF assms(2-4)] by blast
qed

lemma revoke_keeps:
  assumes "backed mc sc state" and "inv (gw_world s)" and "usable (t, k)"
    and "revoke_reservation_after_write_failure state t k e s = (e', s')"
  shows "pending (gw_world s) (t, k) r \<Longrightarrow> inv (gw_world s') \<and> contents (gw_world s') = contents (gw_world s)"
    and "\<not> exact \<Longrightarrow> contents (gw_world s) (t, k) = Some bs \<Longrightarrow> inv (gw_world s')
      \<and> (contents (gw_world s') = contents (gw_world s) \<or> contents (gw_world s') = (contents (gw_world s))((t, k) := None))"
proof -
  obtain res w' where w': "mc_put_revoke mc t k (gw_world s) = (res, w')" by fastforce
  have world: "gw_world s' = w'"
    using assms(1,4) w' by (auto simp: revoke_reservation_after_write_failure_def on_world_def backed_def split: sum.splits)
  show "pending (gw_world s) (t, k) r \<Longrightarrow> inv (gw_world s') \<and> contents (gw_world s') = contents (gw_world s)"
    using revoked [OF assms(2,3) _ w'] world by simp
  show "\<not> exact \<Longrightarrow> contents (gw_world s) (t, k) = Some bs \<Longrightarrow> inv (gw_world s')
      \<and> (contents (gw_world s') = contents (gw_world s) \<or> contents (gw_world s') = (contents (gw_world s))((t, k) := None))"
    using withdrawn [OF _ assms(2,3) _ w'] world by simp
qed

text \<open>Writing: on success the key is new and holds the bytes; on failure nothing changed, or the same happened.\<close>

lemma write_outcome:
  assumes "backed mc sc state" and "inv (gw_world s)" and "usable (t, k)" and "length bs \<le> u64_max"
    and "write_cached_bytes state t k bs s = (r, s')"
  shows "inv (gw_world s') \<and> (case r of
      Inl _ \<Rightarrow> contents (gw_world s') = contents (gw_world s) \<or> \<not> exact \<and> contents (gw_world s) (t, k) = None
        \<and> contents (gw_world s') = (contents (gw_world s))((t, k) \<mapsto> bs)
    | Inr status \<Rightarrow> status = WriteCommitted \<and> contents (gw_world s) (t, k) = None
        \<and> contents (gw_world s') = (contents (gw_world s))((t, k) \<mapsto> bs))"
proof -
  have clients: "gs_master_client state = mc" "gs_store_client state = sc"
    using assms(1) by (simp_all add: backed_def)
  let ?len = "word_of_nat (length bs)"
  obtain r1 w1 where start: "mc_put_start mc t k ?len replica_count (gw_world s) = (r1, w1)"
    by fastforce
  show ?thesis
  proof (cases r1)
    case (Inl e)
    then show ?thesis
      using assms(5) start start_refused [OF assms(2,3), of ?len e w1]
      by (auto simp: write_cached_bytes_def on_world_def clients)
  next
    case (Inr rs)
    then obtain rep h where rep: "rs = [rep]" "from_replica rep = Inr h" and w1: "inv w1"
      "contents w1 = contents (gw_world s)" "contents (gw_world s) (t, k) = None" "pending w1 (t, k) rep"
      using start_granted [OF assms(2,3), of ?len rs w1] start by blast
    obtain r2 w2 where put: "sc_write_preallocated_chunk sc (rep_node_id rep) t k h bs w1 = (r2, w2)"
      by fastforce
    note w2 = written [OF w1(1) assms(3) w1(4) rep(2) assms(4) put]
    let ?s1 = "s\<lparr>gw_world := w1\<rparr>" and ?s2 = "s\<lparr>gw_world := w2\<rparr>"
    have reserved: "write_reserved_replicas state t k rs bs ?s1 = (r2, ?s2)"
      using put rep by (cases r2) (simp_all add: on_world_def clients try_bind_cases)
    show ?thesis
    proof (cases r2)
      case (Inl e)
      obtain e' s3 where rev: "revoke_reservation_after_write_failure state t k e ?s2 = (e', s3)" by fastforce
      then show ?thesis
        using assms(5) start Inr Inl reserved w1 w2 revoke_keeps(1) [OF assms(1) _ assms(3) rev]
        by (auto simp: write_cached_bytes_def on_world_def clients)
    next
      case ok: (Inr u)
      obtain r3 w3 where fin: "mc_put_end mc t k w2 = (r3, w3)" by fastforce
      show ?thesis
      proof (cases r3)
        case (Inl e)
        have "inv w2" "filled w2 (t, k) rep bs" using w2 ok by simp_all
        note w3 = not_committed [OF this(1) assms(3) this(2) fin [unfolded Inl]]
        let ?s3 = "s\<lparr>gw_world := w3\<rparr>"
        obtain e' s4 where rev: "revoke_reservation_after_write_failure state t k e ?s3 = (e', s4)" by fastforce
        have out: "r = Inl e'" "s' = s4"
          using assms(5) start Inr ok Inl fin reserved rev by (simp_all add: write_cached_bytes_def on_world_def clients)
        from w3 consider (kept) "inv w3" "contents w3 = contents w2" "pending w3 (t, k) rep"
          | (unsure) "inv w3" "\<not> exact" "contents w3 = (contents w2)((t, k) \<mapsto> bs)" by blast
        then show ?thesis
        proof cases
          case kept
          then show ?thesis using out w1(2) w2 revoke_keeps(1) [OF assms(1) _ assms(3) rev, of rep] by simp
        next
          case unsure
          have "(contents (gw_world s))((t, k) := None) = contents (gw_world s)" using w1(3) by (simp add: fun_upd_idem)
          then show ?thesis
            using unsure out w1(2,3) w2 revoke_keeps(2) [OF assms(1) _ assms(3) rev unsure(2), of bs] by auto
        qed
      next
        case fine: (Inr v)
        then show ?thesis
          using assms(5) start Inr ok fin reserved w1 w2 assms(3) committed [of w2 t k rep bs v w3]
          by (auto simp: write_cached_bytes_def on_world_def clients)
      qed
    qed
  qed
qed

end

section \<open>Reading stored answers back\<close>

text \<open>
  \<^verbatim>\<open>serde_json\<close> without its feature \<^verbatim>\<open>float_roundtrip\<close> reads a float it printed as a float that need
  not have the same bits; everything else comes back as it was. It reads documents nested less
  than 128 deep, and floats of less than \<open>2 ^ 1023\<close> in magnitude, whatever the rounding, do not
  overflow (the exponent field is below 2046).
\<close>

fun erase_floats :: "json \<Rightarrow> json" where
  "erase_floats (JNumber n) = JNumber (case n of Float _ \<Rightarrow> Float 0 | _ \<Rightarrow> n)"
| "erase_floats (JArray vs) = JArray (map erase_floats vs)"
| "erase_floats (JObject m) = JObject (map (\<lambda>(k, v). (k, erase_floats v)) m)"
| "erase_floats v = v"

fun float_free :: "json \<Rightarrow> bool" where
  "float_free (JNumber n) = (case n of Float _ \<Rightarrow> False | _ \<Rightarrow> True)"
| "float_free (JArray vs) = list_all float_free vs"
| "float_free (JObject m) = list_all (\<lambda>(_, v). float_free v) m"
| "float_free v = True"

fun json_readable :: "nat \<Rightarrow> json \<Rightarrow> bool" where
  "json_readable depth (JNumber n) = (case n of Float b \<Rightarrow> unat b div 2 ^ 52 mod 2 ^ 11 < 2046 | _ \<Rightarrow> True)"
| "json_readable depth (JArray vs) = (0 < depth \<and> list_all (json_readable (depth - 1)) vs)"
| "json_readable depth (JObject m) = (0 < depth \<and> list_all (\<lambda>(_, v). json_readable (depth - 1) v) m)"
| "json_readable depth v = True"

definition same_but_floats :: "json \<Rightarrow> json \<Rightarrow> bool" where
  "same_but_floats a b \<longleftrightarrow> erase_floats a = erase_floats b"

text \<open>What the code relies on in the JSON library: it parses what it prints, members sorted.\<close>

definition serde_reads_back :: "serde \<Rightarrow> bool" where
  "serde_reads_back sj \<longleftrightarrow>
     (\<forall>v bs. json_readable 127 v \<longrightarrow> sj_to_vec sj v = Inr bs \<longrightarrow>
        (\<exists>v'. sj_from_slice sj bs = Inr v' \<and> same_but_floats v' (canonicalize v)))"

lemma erase_floats_scalar [simp]:
  "erase_floats v = JNull \<longleftrightarrow> v = JNull" "erase_floats v = JBool b \<longleftrightarrow> v = JBool b"
  "erase_floats v = JString t \<longleftrightarrow> v = JString t"
  by (cases v; simp)+

lemma erase_floats_array: "erase_floats v = JArray ws \<longleftrightarrow> (\<exists>vs. v = JArray vs \<and> map erase_floats vs = ws)"
  by (cases v) simp_all

lemma erase_floats_object:
  "erase_floats v = JObject ms \<longleftrightarrow> (\<exists>m. v = JObject m \<and> map (\<lambda>(k, v). (k, erase_floats v)) m = ms)"
  by (cases v) simp_all

lemma map_eq_pointwise:
  assumes "map f vs' = map f vs" and "\<And>v v'. v \<in> set vs \<Longrightarrow> f v' = f v \<Longrightarrow> v' = v"
  shows "vs' = vs"
proof (rule nth_equalityI)
  show len: "length vs' = length vs" using map_eq_imp_length_eq [OF assms(1)] .
  show "vs' ! i = vs ! i" if "i < length vs'" for i
    using assms that len by (metis nth_map nth_mem)
qed

lemma float_free_same: "float_free v \<Longrightarrow> erase_floats v' = erase_floats v \<Longrightarrow> v' = v"
proof (induction v arbitrary: v' rule: float_free.induct)
  case (1 n)
  then show ?case by (cases v') (auto split: json_number.splits)
next
  case (2 vs)
  then obtain vs' where "v' = JArray vs'" "map erase_floats vs' = map erase_floats vs" by (auto simp: erase_floats_array)
  then show ?case using 2 map_eq_pointwise [of erase_floats vs' vs] by (auto simp: list_all_iff)
next
  case (3 m)
  then obtain m' where m': "v' = JObject m'"
    "map (\<lambda>(k, v). (k, erase_floats v)) m' = map (\<lambda>(k, v). (k, erase_floats v)) m"
    by (auto simp: erase_floats_object)
  have "e' = e" if "e \<in> set m" "(\<lambda>(k, v). (k, erase_floats v)) e' = (\<lambda>(k, v). (k, erase_floats v)) e" for e e'
  proof -
    obtain k v where e: "e = (k, v)" by (cases e)
    obtain k' v'' where e': "e' = (k', v'')" by (cases e')
    have "float_free v" using "3.prems"(1) that(1) e by (auto simp: list_all_iff)
    moreover have "k' = k" "erase_floats v'' = erase_floats v" using that(2) e e' by simp_all
    ultimately show "e' = e" using "3.IH" [OF that(1) e [symmetric]] e e' by simp
  qed
  then show ?case using map_eq_pointwise [OF m'(2)] m'(1) by blast
qed (simp_all add: eq_commute [of "JNull"])

lemma float_free_same_but_floats: "float_free v \<Longrightarrow> same_but_floats v' v \<longleftrightarrow> v' = v"
  using float_free_same by (auto simp: same_but_floats_def)

lemma json_get_erase: "json_get (erase_floats v) k = map_option erase_floats (json_get v k)"
proof (cases v)
  case (JObject m)
  have "map_of (map (\<lambda>(k, v). (k, erase_floats v)) m) k = map_option erase_floats (map_of m k)"
    by (induction m) auto
  then show ?thesis using JObject by (simp add: json_get_def bt_get_def)
qed (simp_all add: json_get_def)

lemma same_but_floats_member:
  assumes "same_but_floats v' v"
  shows "json_get v' k = Some (JString t) \<longleftrightarrow> json_get v k = Some (JString t)"
proof -
  have "map_option erase_floats (json_get v' k) = map_option erase_floats (json_get v k)"
    using assms json_get_erase unfolding same_but_floats_def by metis
  then show ?thesis by (cases "json_get v' k"; cases "json_get v k") (auto, (metis erase_floats_scalar(3))+)
qed

definition is_marked :: "json \<Rightarrow> bool" where
  "is_marked v \<longleftrightarrow> json_get v ''mooncache_object'' = Some (JString streaming_object_type)"

lemma is_streaming_object_marked: "is_streaming_object v \<longleftrightarrow> is_marked v"
  by (auto simp: is_streaming_object_def is_marked_def json_as_str_def split: option.splits json.splits bind_splits)

text \<open>A stored stream, read back up to floats: the events are texts and come back exactly.\<close>

lemma float_free_event: "float_free (canonicalize (sse_event_to_value e))"
  by (simp add: canonical_sse_event split: option.split)

lemma stream_object_up_to_floats:
  assumes "json_ok (cap_final_body captured)" and "same_but_floats v (canonicalize (stream_object_value captured))"
  shows "\<exists>b. same_but_floats b (cap_final_body captured) \<and> is_streaming_object v
    \<and> stream_object_from_value v =
        Some \<lparr>cso_mooncache_object = streaming_object_type, cso_events = cap_events captured, cso_final_body = b\<rparr>"
proof -
  let ?events = "JArray (map (canonicalize \<circ> sse_event_to_value) (cap_events captured))"
  obtain m where v: "v = JObject m" and m: "map (\<lambda>(k, v). (k, erase_floats v)) m =
      [(''events'', erase_floats ?events), (''final_body'', erase_floats (cap_final_body captured)),
       (''mooncache_object'', JString streaming_object_type)]"
    using assms(2) unfolding same_but_floats_def canonical_stream_object [OF assms(1)]
    by (auto simp: erase_floats_object)
  then obtain a b where m': "m = [(''events'', a), (''final_body'', b), (''mooncache_object'', JString streaming_object_type)]"
    and a: "erase_floats a = erase_floats ?events" and b: "erase_floats b = erase_floats (cap_final_body captured)"
    by (auto simp: map_eq_Cons_conv simp del: erase_floats.simps(2))
  have "float_free ?events" using float_free_event by (simp add: list_all_iff)
  from float_free_same [OF this a] have "a = ?events" .
  then show ?thesis
    using b v m' sse_events_from_canonical [of "cap_events captured"]
    by (intro exI [of _ b])
       (simp add: same_but_floats_def is_streaming_object_def stream_object_from_value_def json_get_def bt_get_def
         json_as_str_def json_as_array_def)
qed

lemma readable_stream_object:
  assumes "json_readable 126 (cap_final_body captured)"
  shows "json_readable 127 (stream_object_value captured)"
proof -
  have "json_readable n (sse_event_to_value e)" if "0 < n" for n e
    using that by (simp add: sse_event_to_value_def split: option.split)
  then show ?thesis using assms by (simp add: stream_object_value_def list_all_iff)
qed

lemma payload_read_back:
  assumes "payload sj response = Inr bs" and "serde_reads_back sj" and "json_ok (gr_body response)"
    and "json_readable 126 (gr_body response)"
  shows "gr_stream_events response = None \<Longrightarrow> \<not> is_marked (gr_body response) \<Longrightarrow>
      \<exists>v. cached_body_from_bytes sj bs = Inr v \<and> same_but_floats v (gr_body response)"
    and "gr_stream_events response = Some events \<Longrightarrow>
      \<exists>v. cached_body_from_bytes sj bs = Inr v \<and> same_but_floats v (gr_body response)
        \<and> stream_object_from_bytes sj bs = Inr (Some \<lparr>cso_mooncache_object = streaming_object_type,
            cso_events = events, cso_final_body = v\<rparr>)"
proof -
  assume none: "gr_stream_events response = None" and plain: "\<not> is_marked (gr_body response)"
  have deeper: "json_readable n v \<Longrightarrow> n \<le> n' \<Longrightarrow> json_readable n' v" for n n' v
  proof (induction n v arbitrary: n' rule: json_readable.induct)
    case (2 depth vs)
    then have "list_all (json_readable (n' - 1)) vs" by (auto simp: list_all_iff)
    then show ?case using 2 by simp
  next
    case (3 depth m)
    then have "list_all (\<lambda>(_, v). json_readable (n' - 1) v) m" by (fastforce simp: list_all_iff)
    then show ?case using 3 by simp
  qed simp_all
  have "json_readable 127 (gr_body response)" by (rule deeper [OF assms(4)]) simp
  moreover have "sj_to_vec sj (gr_body response) = Inr bs" using assms(1) none by (simp add: payload_def)
  ultimately obtain v where v: "sj_from_slice sj bs = Inr v" "same_but_floats v (gr_body response)"
    using assms(2) canonicalize_id [OF assms(3)] unfolding serde_reads_back_def by metis
  moreover have "\<not> is_streaming_object v"
    using plain same_but_floats_member [OF v(2)] by (simp add: is_streaming_object_marked is_marked_def)
  ultimately show "\<exists>v. cached_body_from_bytes sj bs = Inr v \<and> same_but_floats v (gr_body response)"
    by (simp add: cached_body_from_bytes_def)
next
  assume some: "gr_stream_events response = Some events"
  let ?c = "\<lparr>cap_events = events, cap_final_body = gr_body response\<rparr>"
  have "json_readable 127 (stream_object_value ?c)" by (rule readable_stream_object) (simp add: assms(4))
  moreover have "sj_to_vec sj (stream_object_value ?c) = Inr bs"
    using assms(1) some by (simp add: payload_def serialize_stream_object_def)
  ultimately obtain v where "sj_from_slice sj bs = Inr v" "same_but_floats v (canonicalize (stream_object_value ?c))"
    using assms(2) unfolding serde_reads_back_def by blast
  then show "\<exists>v. cached_body_from_bytes sj bs = Inr v \<and> same_but_floats v (gr_body response)
      \<and> stream_object_from_bytes sj bs = Inr (Some \<lparr>cso_mooncache_object = streaming_object_type,
          cso_events = events, cso_final_body = v\<rparr>)"
    using stream_object_up_to_floats [of ?c v] assms(3)
    by (simp add: cached_body_from_bytes_def stream_object_from_bytes_def) (elim exE conjE, simp)
qed

section \<open>The handler over such clients\<close>

text \<open>The vendor's calls change the world only within \<open>keeps\<close>, which leaves the cache alone.\<close>

definition vendor_keeps :: "('w \<Rightarrow> 'w \<Rightarrow> bool) \<Rightarrow> 'w vendor_adapter \<Rightarrow> bool" where
  "vendor_keeps keeps v \<longleftrightarrow>
     (\<forall>m w. keeps w (snd (va_resolve_model_version v m w)))
     \<and> (\<forall>r w. keeps w (snd (va_complete v r w))) \<and> (\<forall>r w. keeps w (snd (va_stream v r w)))"

locale cached_gateway = cache_backend mc sc inv contents pending filled usable exact
  for mc :: "'w master_client" and sc :: "'w store_client"
    and inv :: "'w \<Rightarrow> bool" and contents :: "'w \<Rightarrow> object_key \<rightharpoonup> bytes"
    and pending :: "'w \<Rightarrow> object_key \<Rightarrow> replica_descriptor \<Rightarrow> bool"
    and filled :: "'w \<Rightarrow> object_key \<Rightarrow> replica_descriptor \<Rightarrow> bytes \<Rightarrow> bool"
    and usable :: "object_key \<Rightarrow> bool" and exact :: bool +
  fixes keeps :: "'w \<Rightarrow> 'w \<Rightarrow> bool"
  assumes kept: "keeps w w' \<Longrightarrow> inv w \<Longrightarrow> inv w' \<and> contents w' = contents w"
begin

lemma write_or_failed_outcome:
  assumes "backed mc sc state" and "inv (gw_world s)" and "usable (t, k)" and "serde_bounded (env_serde env)"
  shows "write_or_failed (write_cached_body env state t k body) s = (ws, s') \<Longrightarrow>
      inv (gw_world s') \<and> wrote exact ws (t, k) (contents (gw_world s)) (sj_to_vec (env_serde env) body) (contents (gw_world s'))"
    and "write_or_failed (write_cached_stream_object env state t k captured) s = (ws, s') \<Longrightarrow>
      inv (gw_world s')
      \<and> wrote exact ws (t, k) (contents (gw_world s)) (serialize_stream_object (env_serde env) captured) (contents (gw_world s'))"
  using assms(2,4) write_outcome [OF assms(1-3)]
  by (fastforce simp: write_or_failed_def write_cached_body_def write_cached_stream_object_def wrote_def
      serialize_stream_object_def serde_bounded_def split: prod.splits sum.splits)+

lemma vendor_kept:
  assumes "vendor_keeps keeps (gs_vendor state)" and "inv (gw_world s)"
  shows "on_world (va_resolve_model_version (gs_vendor state) m) s = (r, s') \<Longrightarrow>
      inv (gw_world s') \<and> contents (gw_world s') = contents (gw_world s)"
    and "complete_vendor env state request s = (r2, s') \<Longrightarrow>
      inv (gw_world s') \<and> contents (gw_world s') = contents (gw_world s)"
    and "capture_vendor_stream env state request s = (r3, s') \<Longrightarrow>
      inv (gw_world s') \<and> contents (gw_world s') = contents (gw_world s)"
proof -
  have k: "keeps (gw_world s) (snd (va_resolve_model_version (gs_vendor state) m (gw_world s)))"
    "keeps (gw_world s) (snd (va_complete (gs_vendor state) request (gw_world s)))"
    "keeps (gw_world s) (snd (va_stream (gs_vendor state) request (gw_world s)))"
    using assms(1) by (simp_all add: vendor_keeps_def)
  show "on_world (va_resolve_model_version (gs_vendor state) m) s = (r, s') \<Longrightarrow>
      inv (gw_world s') \<and> contents (gw_world s') = contents (gw_world s)"
    using kept [OF k(1) assms(2)] by (auto simp: on_world_def split: prod.splits)
  show "complete_vendor env state request s = (r2, s') \<Longrightarrow>
      inv (gw_world s') \<and> contents (gw_world s') = contents (gw_world s)"
    using kept [OF k(2) assms(2)] by (auto simp: complete_vendor_def on_world_def on_metrics_def split: prod.splits)
  show "capture_vendor_stream env state request s = (r3, s') \<Longrightarrow>
      inv (gw_world s') \<and> contents (gw_world s') = contents (gw_world s)"
    using kept [OF k(3) assms(2)]
    by (auto simp: capture_vendor_stream_def on_world_def on_metrics_def split: prod.splits sum.splits)
qed

lemma record_world [simp]:
  "gw_world (record_gateway_metrics st ws s) = gw_world s"
  "gw_world (record_simple st ws s) = gw_world s"
  "gw_world (on_metrics f s) = gw_world s"
  by (simp_all add: record_gateway_metrics_def record_simple_def on_metrics_def)

text \<open>Each branch of the handler reflects its effect in its answer.\<close>

lemma reflected_ok:
  assumes "wrote exact ws key c (payload sj response) c'"
    and "header ''x-cache-write'' response = Some (write_header_value ws)"
  shows "reflected exact sj key c (Inr response) c'"
  using assms by (cases ws) (auto simp: wrote_def stored_def Let_def)

lemma wrote_nothing: "ws \<noteq> WriteCommitted \<Longrightarrow> wrote exact ws key c result c"
  by (simp add: wrote_def)

lemma miss_reflected:
  assumes "backed mc sc state" and "vendor_keeps keeps (gs_vendor state)" and "serde_bounded (env_serde env)"
    and "inv (gw_world s)" and "usable (t, key)" and "cacheable_non_streaming_miss env state t control request key s = (r, s')"
  shows "inv (gw_world s') \<and> reflected exact (env_serde env) (t, key) (contents (gw_world s)) r (contents (gw_world s'))"
proof -
  obtain r1 s1 where call: "complete_vendor env state request s = (r1, s1)" by fastforce
  note s1 = vendor_kept(2) [OF assms(2,4) call]
  show ?thesis
  proof (cases r1)
    case (Inl e)
    then show ?thesis using assms(6) call s1 by (auto simp: cacheable_non_streaming_miss_def try_bind_cases)
  next
    case (Inr body)
    let ?w = "if control = CcReadOnly then (WriteSkipped, s1)
      else write_or_failed (write_cached_body env state t key body) s1"
    obtain ws s2 where w: "?w = (ws, s2)" by fastforce
    have "inv (gw_world s2)
        \<and> wrote exact ws (t, key) (contents (gw_world s1)) (sj_to_vec (env_serde env) body) (contents (gw_world s2))"
    proof (cases "control = CcReadOnly")
      case True
      then show ?thesis using w s1 by (auto intro: wrote_nothing)
    next
      case False
      then have "write_or_failed (write_cached_body env state t key body) s1 = (ws, s2)" using w by simp
      from write_or_failed_outcome(1) [OF assms(1) conjunct1 [OF s1] assms(5,3) this] show ?thesis .
    qed
    note w2 = this
    have "reflected exact (env_serde env) (t, key) (contents (gw_world s1))
        (Inr (response_ok body Miss (write_header_value ws) ''vendor'' (Some key))) (contents (gw_world s2))"
      by (rule reflected_ok [of ws]) (use w2 in \<open>simp_all add: payload_ok header_labels\<close>)
    moreover have "r = Inr (response_ok body Miss (write_header_value ws) ''vendor'' (Some key))"
      "gw_world s' = gw_world s2"
      using assms(6) call Inr w by (auto simp: cacheable_non_streaming_miss_def try_bind_cases)
    ultimately show ?thesis
      using s1 w2 by (simp del: reflected.simps)
  qed
qed

lemma reflected_coalesced:
  "reflected exact sj key c (Inr response) c' \<Longrightarrow> reflected exact sj key c (Inr (with_cache_coalesced role response)) c'"
  by (simp add: with_cache_coalesced_def)

lemma reflected_unchanged:
  "header ''x-cache-write'' response \<noteq> Some ''committed'' \<Longrightarrow> reflected exact sj key c (Inr response) c"
  by simp

lemma coalesced_reflected:
  assumes "backed mc sc state" and "vendor_keeps keeps (gs_vendor state)" and "serde_bounded (env_serde env)"
    and "inv (gw_world s)" and "usable (t, key)" and "coalesced_miss env state t control request key s = (r, s')"
  shows "inv (gw_world s') \<and> reflected exact (env_serde env) (t, key) (contents (gw_world s)) r (contents (gw_world s'))"
proof -
  obtain start flights where begun: "sf_begin \<lparr>sfk_tenant_id = t, sfk_cache_key = key,
      sfk_write_mode = flight_write_mode control\<rparr> (gw_flights s) = (start, flights)"
    by fastforce
  let ?sr = "\<lambda>role. on_metrics (record_singleflight role) (s\<lparr>gw_flights := flights\<rparr>)"
  have inv: "inv (gw_world (?sr role))" and same: "gw_world (?sr role) = gw_world s" for role
    using assms(4) by simp_all
  note run = assms(6) begun
  show ?thesis
  proof (cases start)
    case (Leader leader)
    obtain r1 s1 where miss: "cacheable_non_streaming_miss env state t control request key (?sr RoleLeader) = (r1, s1)"
      by fastforce
    note m = miss_reflected [OF assms(1-3) inv assms(5) miss, unfolded same]
    show ?thesis
    proof (cases r1)
      case (Inl e)
      then have "r = Inl e" "gw_world s' = gw_world s1"
        using run Leader miss by (auto simp: coalesced_miss_def Let_def)
      then show ?thesis using m Inl by simp
    next
      case (Inr response)
      then have "r = Inr (with_cache_coalesced ''leader'' response)" "gw_world s' = gw_world s1"
        using run Leader miss by (auto simp: coalesced_miss_def Let_def)
      then show ?thesis
        using m Inr reflected_coalesced [of "env_serde env" "(t, key)" _ response] by (simp del: reflected.simps)
    qed
  next
    case (Waiter c)
    then show ?thesis
      using run assms(4) by (cases "env_wait env") (auto simp: coalesced_miss_def with_cache_write_def Let_def)
  next
    case OverCapacity
    then have "cacheable_non_streaming_miss env state t control request key (?sr RoleOverCapacity) = (r, s')"
      using run by (simp add: coalesced_miss_def Let_def)
    from miss_reflected [OF assms(1-3) inv assms(5) this, unfolded same] show ?thesis .
  qed
qed

text \<open>Answers that store nothing.\<close>

lemma vendor_reflected:
  assumes "vendor_keeps keeps (gs_vendor state)" and "inv (gw_world s)" and "ws \<noteq> WriteCommitted"
  shows "vendor_response env state request st ws k s = (r, s') \<Longrightarrow>
      inv (gw_world s') \<and> reflected exact sj key (contents (gw_world s)) r (contents (gw_world s'))"
    and "vendor_stream_response env state request st ws k s = (r, s') \<Longrightarrow>
      inv (gw_world s') \<and> reflected exact sj key (contents (gw_world s)) r (contents (gw_world s'))"
  using assms(3)
  by (cases ws; auto simp: vendor_response_def vendor_stream_response_def try_bind_cases header_labels
      split: prod.splits sum.splits dest: vendor_kept(2,3) [OF assms(1,2)])+

lemma cache_only_reflected:
  "cache_only_miss key s = (r, s') \<Longrightarrow> gw_world s' = gw_world s \<and> reflected exact sj k c r c"
  by (auto simp: cache_only_miss_def with_cache_key_def header_labels)

lemma read_body_keeps:
  assumes "backed mc sc state" and "inv (gw_world s)" and "usable (t, k)"
  shows "read_cached_body env state t k s = (r, s') \<Longrightarrow>
      inv (gw_world s') \<and> contents (gw_world s') = contents (gw_world s)"
    and "read_cached_stream_object env state t k s = (r2, s') \<Longrightarrow>
      inv (gw_world s') \<and> contents (gw_world s') = contents (gw_world s)"
  by (auto simp: read_cached_body_def read_cached_stream_object_def try_bind_cases
      split: prod.splits sum.splits option.splits dest: read_keeps [OF assms])

lemma plain_reflected:
  assumes "backed mc sc state" and "vendor_keeps keeps (gs_vendor state)" and "serde_bounded (env_serde env)"
    and "inv (gw_world s)" and "usable (t, key)" and "plain_response env state t control request e key s = (r, s')"
  shows "inv (gw_world s') \<and> reflected exact (env_serde env) (t, key) (contents (gw_world s)) r (contents (gw_world s'))"
proof -
  let ?read = "if control \<noteq> CcWriteOnly then read_cached_body env state t key else (\<lambda>s. (Inr None, s))"
  obtain r1 s1 where read: "?read s = (r1, s1)" by fastforce
  have s1: "inv (gw_world s1)" "contents (gw_world s1) = contents (gw_world s)"
    using read read_body_keeps(1) [OF assms(1,4,5), of env r1 s1] assms(4) by (auto split: if_splits)
  consider (direct) "control = CcBypass \<or> e \<noteq> Cacheable \<or> \<not> gs_cache_available state"
    | (cached) "control \<noteq> CcBypass" "e = Cacheable" "gs_cache_available state" by blast
  then show ?thesis
  proof cases
    case direct
    then have "(\<exists>st ws k. ws \<noteq> WriteCommitted \<and> vendor_response env state request st ws k s = (r, s'))
        \<or> cache_only_miss key s = (r, s')"
      using assms(6) by (force simp: plain_response_def split: if_splits)
    then show ?thesis
      using vendor_reflected(1) [OF assms(2,4)] cache_only_reflected [of key s r s'] assms(4) by metis
  next
    case cached
    show ?thesis
    proof (cases "\<exists>v. r1 = Inr None \<and> control \<noteq> CcCacheOnly")
      case True
      then have "coalesced_miss env state t control request key s1 = (r, s')"
        using assms(6) cached read by (auto simp: plain_response_def try_bind_cases)
      from coalesced_reflected [OF assms(1-3) s1(1) assms(5) this] show ?thesis by (simp add: s1)
    next
      case False
      have stays: "gw_world s' = gw_world s1" "reflected exact (env_serde env) (t, key) c r c" for c
        using False assms(6) cached read
        by (auto simp: plain_response_def try_bind_cases header_labels
            split: sum.splits option.splits if_splits dest!: cache_only_reflected [where sj = "env_serde env"])
      show ?thesis using stays(2) [of "contents (gw_world s)"] s1 by (simp add: stays(1))
    qed
  qed
qed

lemma streaming_reflected:
  assumes "backed mc sc state" and "vendor_keeps keeps (gs_vendor state)" and "serde_bounded (env_serde env)"
    and "inv (gw_world s)" and "usable (t, key)" and "streaming_response env state t control request e key s = (r, s')"
  shows "inv (gw_world s') \<and> reflected exact (env_serde env) (t, key) (contents (gw_world s)) r (contents (gw_world s'))"
proof (cases "control = CcBypass \<or> e \<noteq> Cacheable")
  case True
  then have "\<exists>st k. vendor_stream_response env state request st WriteSkipped k s = (r, s')"
    using assms(6) by (force simp: streaming_response_def split: if_splits)
  then show ?thesis using vendor_reflected(2) [OF assms(2,4)] by blast
next
  case False
  let ?read = "if control \<noteq> CcWriteOnly then read_cached_stream_object env state t key else (\<lambda>s. (Inr None, s))"
  obtain r1 s1 where read: "?read s = (r1, s1)" by fastforce
  have s1: "inv (gw_world s1)" "contents (gw_world s1) = contents (gw_world s)"
    using read read_body_keeps(2) [OF assms(1,4,5), of env r1 s1] assms(4) by (auto split: if_splits)
  obtain r2 s2 where call: "capture_vendor_stream env state request s1 = (r2, s2)" by fastforce
  note s2 = vendor_kept(3) [OF assms(2) s1(1) call]
  show ?thesis
  proof (cases "r1 = Inr None \<and> control \<noteq> CcCacheOnly \<and> (\<exists>captured. r2 = Inr captured)")
    case True
    then obtain captured where captured: "r2 = Inr captured" by blast
    let ?w = "if control = CcReadOnly then (WriteSkipped, s2)
      else write_or_failed (write_cached_stream_object env state t key captured) s2"
    obtain ws s3 where w: "?w = (ws, s3)" by fastforce
    have w3: "inv (gw_world s3) \<and> wrote exact ws (t, key) (contents (gw_world s2))
        (serialize_stream_object (env_serde env) captured) (contents (gw_world s3))"
    proof (cases "control = CcReadOnly")
      case True
      then show ?thesis using w s2 by (auto intro: wrote_nothing)
    next
      case False
      then have "write_or_failed (write_cached_stream_object env state t key captured) s2 = (ws, s3)" using w by simp
      from write_or_failed_outcome(2) [OF assms(1) conjunct1 [OF s2] assms(5,3) this] show ?thesis .
    qed
    let ?response = "response_ok_stream (cap_final_body captured) (cap_events captured) Miss
      (write_header_value ws) ''vendor'' (Some key)"
    have eta: "\<lparr>cap_events = cap_events captured, cap_final_body = cap_final_body captured\<rparr> = captured" by simp
    have "reflected exact (env_serde env) (t, key) (contents (gw_world s2)) (Inr ?response) (contents (gw_world s3))"
      by (rule reflected_ok [of ws]) (use w3 in \<open>simp_all add: payload_ok header_labels eta\<close>)
    moreover have "r = Inr ?response" "gw_world s' = gw_world s3"
      using assms(6) False True read call captured w by (auto simp: streaming_response_def try_bind_cases)
    ultimately show ?thesis using s1 s2 w3 by (simp del: reflected.simps)
  next
    case no_capture: False
    have stays: "(gw_world s' = gw_world s1 \<or> gw_world s' = gw_world s2) \<and> reflected exact (env_serde env) (t, key) c r c" for c
      using no_capture False assms(6) read call
      by (auto simp: streaming_response_def try_bind_cases header_labels with_cache_key_def
          split: sum.splits option.splits if_splits)
    then show ?thesis using stays [of "contents (gw_world s)"] s1 s2 by auto
  qed
qed

text \<open>The whole handler.\<close>

lemma dispatched_kept:
  assumes "vendor_keeps keeps (gs_vendor state)" and "inv (gw_world s)"
    and "dispatched env state auth cc body s tenant control request key s1"
  shows "inv (gw_world s1)" and "contents (gw_world s1) = contents (gw_world s)"
proof -
  obtain resolved where "on_world (va_resolve_model_version (gs_vendor state) (rr_model request)) s = (Inr resolved, s1)"
    using assms(3) by (auto simp: dispatched_def)
  from vendor_kept(1) [OF assms(1,2) this]
  show "inv (gw_world s1)" and "contents (gw_world s1) = contents (gw_world s)" by simp_all
qed

lemma dispatched_reflected:
  assumes "backed mc sc state" and "vendor_keeps keeps (gs_vendor state)" and "serde_bounded (env_serde env)"
    and "inv (gw_world s)" and "handle_response_request env state auth cc body s = (r, s')"
    and "dispatched env state auth cc body s tenant control request key s1" and "usable (tenant, key)"
  shows "inv (gw_world s') \<and> reflected exact (env_serde env) (tenant, key) (contents (gw_world s)) r (contents (gw_world s'))"
proof -
  note s1 = dispatched_kept [OF assms(2,4,6)]
  have "respond (is_streaming_request body) env state tenant control request
      (request_eligibility state control request body) key s1 = (r, s')"
    using assms(5) handle_dispatched [OF assms(6)] by simp
  then have "inv (gw_world s') \<and> reflected exact (env_serde env) (tenant, key) (contents (gw_world s1)) r (contents (gw_world s'))"
    using plain_reflected [OF assms(1-3) s1(1) assms(7)] streaming_reflected [OF assms(1-3) s1(1) assms(7)]
    by (auto simp: respond_def simp del: reflected.simps split: if_splits)
  then show ?thesis by (simp only: s1(2))
qed

lemma undispatched_kept:
  assumes "vendor_keeps keeps (gs_vendor state)" and "inv (gw_world s)"
    and "handle_response_request env state auth cc body s = (r, s')"
    and "\<nexists>tenant control request key s1. dispatched env state auth cc body s tenant control request key s1"
  shows "inv (gw_world s') \<and> contents (gw_world s') = contents (gw_world s)"
proof (cases rule: handle_cases [of env state auth cc body s])
  case (refused status message)
  then show ?thesis using assms(2,3) by (auto simp: refuse_def)
next
  case (failed err s1)
  from failed(3) have "inv (gw_world s1) \<and> contents (gw_world s1) = contents (gw_world s)"
    using vendor_kept(1) [OF assms(1,2)] assms(2) by (elim disjE exE) simp_all
  then show ?thesis using failed(1) assms(3) by simp
next
  case (dispatched tenant control request key s1)
  then show ?thesis using assms(4) by blast
qed

text \<open>A stored object is a hit.\<close>

lemma plain_hit:
  assumes "backed mc sc state" and "inv (gw_world s)" and "usable (t, key)"
    and "contents (gw_world s) (t, key) = Some bs"
    and "cached_body_from_bytes (env_serde env) bs = Inr body"
    and "control \<notin> {CcBypass, CcWriteOnly}" and "gs_cache_available state" and "exact"
  obtains tier s' where "plain_response env state t control request Cacheable key s =
      (Inr (response_ok body Hit ''skipped'' tier (Some key)), s')"
    and "inv (gw_world s')" and "contents (gw_world s') = contents (gw_world s)"
proof (rule read_present [OF assms(8,1-4)])
  fix tier s'
  assume "read_cached_bytes state t key s = (Inr (Some \<lparr>sch_bytes = bs, sch_tier = tier\<rparr>), s')"
    "inv (gw_world s')" "contents (gw_world s') = contents (gw_world s)"
  then show thesis
    using assms(5-7)
    by (intro that [of tier "record_simple Hit WriteSkipped s'"])
       (simp_all add: plain_response_def read_cached_body_def try_bind_cases)
qed

lemma streaming_hit:
  assumes "backed mc sc state" and "inv (gw_world s)" and "usable (t, key)"
    and "contents (gw_world s) (t, key) = Some bs"
    and "stream_object_from_bytes (env_serde env) bs = Inr (Some obj)"
    and "control \<notin> {CcBypass, CcWriteOnly}" and "exact"
  obtains tier s' where "streaming_response env state t control request Cacheable key s =
      (Inr (response_ok_stream (cso_final_body obj) (cso_events obj) Hit ''skipped'' tier (Some key)), s')"
    and "inv (gw_world s')" and "contents (gw_world s') = contents (gw_world s)"
proof (rule read_present [OF assms(7,1-4)])
  fix tier s'
  assume "read_cached_bytes state t key s = (Inr (Some \<lparr>sch_bytes = bs, sch_tier = tier\<rparr>), s')"
    "inv (gw_world s')" "contents (gw_world s') = contents (gw_world s)"
  then show thesis
    using assms(5,6)
    by (intro that [of tier "record_simple Hit WriteSkipped s'"])
       (simp_all add: streaming_response_def read_cached_stream_object_def try_bind_cases)
qed

text \<open>A committed answer is replayed, in every later state with the same contents.\<close>

lemma committed_replayed:
  assumes "backed mc sc state"
    and "vendor_keeps keeps (gs_vendor state)" and "serde_bounded (env_serde env)"
    and "inv (gw_world s)" and "handle_response_request env state auth cc body s = (Inr response, s')"
    and "dispatched env state auth cc body s tenant control request key s1" and "usable (tenant, key)"
    and "header ''x-cache-write'' response = Some ''committed''"
    and "serde_reads_back (env_serde env)" and "json_ok (gr_body response)" and "json_readable 126 (gr_body response)"
    and "\<not> is_marked (gr_body response)"
    and "inv (gw_world s'')" and "contents (gw_world s'') = contents (gw_world s')"
    and "dispatched env state auth' cc' body' s'' tenant control' request' key s2"
    and "request_eligibility state control' request' body' = Cacheable" and "gs_cache_available state"
    and "control' \<notin> {CcBypass, CcWriteOnly}"
    and "is_streaming_request body' \<Longrightarrow> gr_stream_events response \<noteq> None" and "exact"
  shows "\<exists>hit s3. handle_response_request env state auth' cc' body' s'' = (Inr hit, s3)
    \<and> header ''x-cache-status'' hit = Some ''hit'' \<and> gr_status_code hit = 200
    \<and> same_but_floats (gr_body hit) (gr_body response)
    \<and> (is_streaming_request body' \<longrightarrow> gr_stream_events hit = gr_stream_events response)"
proof -
  let ?sj = "env_serde env" 
  have after: "reflected exact ?sj (tenant, key) (contents (gw_world s)) (Inr response) (contents (gw_world s'))"
    using dispatched_reflected [OF assms(1-7)] by simp
  then obtain bs where bs: "payload ?sj response = Inr bs" "contents (gw_world s') (tenant, key) = Some bs"
    using assms(8) by (auto simp: stored_def)
  note s2 = dispatched_kept [OF assms(2,13,15)]
  have here: "contents (gw_world s2) (tenant, key) = Some bs" using bs s2 assms(14) by simp
  note read = payload_read_back [OF bs(1) assms(9-11)]
  note run = handle_dispatched [OF assms(15)]
  show ?thesis
  proof (cases "is_streaming_request body'")
    case True
    then obtain events where events: "gr_stream_events response = Some events" using assms(19) by blast
    obtain v where v: "same_but_floats v (gr_body response)" "stream_object_from_bytes ?sj bs =
        Inr (Some \<lparr>cso_mooncache_object = streaming_object_type, cso_events = events, cso_final_body = v\<rparr>)"
      using read(2) [OF events] by blast
    obtain tier s3 where "streaming_response env state tenant control' request' Cacheable key s2 =
        (Inr (response_ok_stream v events Hit ''skipped'' tier (Some key)), s3)"
      by (rule streaming_hit [OF assms(1) s2(1) assms(7) here v(2) assms(18,20), of request']) simp
    then show ?thesis
      using run True events assms(16) v(1)
      by (simp add: respond_def header_labels cache_status_header_def response_ok_stream_def Let_def
          with_cache_key_def header_with_cache_headers)
  next
    case False
    obtain v where v: "cached_body_from_bytes ?sj bs = Inr v" "same_but_floats v (gr_body response)"
      using read assms(12) by (cases "gr_stream_events response") blast+
    obtain tier s3 where "plain_response env state tenant control' request' Cacheable key s2 =
        (Inr (response_ok v Hit ''skipped'' tier (Some key)), s3)"
      by (rule plain_hit [OF assms(1) s2(1) assms(7) here v(1) assms(18,17,20), of request'])
    then show ?thesis
      using run False assms(16) v(2)
      by (simp add: respond_def header_labels cache_status_header_def response_ok_def Let_def
          with_cache_key_def header_with_cache_headers)
  qed
qed

end

end
