(* ===== verification/Master_Invariants.thy ===== *)
theory Master_Invariants
imports Master
begin

text \<open>
  The invariants of the master and the states it can reach. The step relation has one rule
  per public operation of \<^verbatim>\<open>MasterState\<close>; a run starts at \<^verbatim>\<open>MasterState::default()\<close>.
  \<^item> \<open>master_inv\<close>: the tables are maps keyed by the objects' own identity, every lease
    belongs to a committed object, every segment stays within its length, and no tenant is
    charged for more than it holds;
  \<^item> \<open>accounting_inv\<close>: live bytes never exceed the bytes handed out, and the charged usage is
    exact as long as the mounted capacity fits in a \<^verbatim>\<open>u64\<close>;
  \<^item> \<open>placement_inv\<close>: every replica ever handed out lies below its segment's watermark,
    and on distinct nodes no two replicas overlap.
\<close>

section \<open>Accounting functions\<close>

definition live_bytes :: "tenant_id \<Rightarrow> (object_key, cache_object_meta) hash_map \<Rightarrow> nat" where
  "live_bytes t objs =
     sum_list (map (\<lambda>(_, obj). if obj_tenant_id obj = t then unat (quota_reserved_bytes obj) else 0) objs)"

definition total_live_bytes :: "(object_key, cache_object_meta) hash_map \<Rightarrow> nat" where
  "total_live_bytes objs = sum_list (map (\<lambda>(_, obj). unat (quota_reserved_bytes obj)) objs)"

definition all_replicas :: "master_state \<Rightarrow> replica_descriptor list" where
  "all_replicas st = concat (map (\<lambda>(_, obj). obj_replicas obj) (objects st))"

definition replica_disjoint :: "replica_descriptor \<Rightarrow> replica_descriptor \<Rightarrow> bool" where
  "replica_disjoint a b \<longleftrightarrow>
     rep_node_id a \<noteq> rep_node_id b
     \<or> unat (rep_offset a) + unat (rep_len a) \<le> unat (rep_offset b)
     \<or> unat (rep_offset b) + unat (rep_len b) \<le> unat (rep_offset a)"

definition placed :: "segment_allocator \<Rightarrow> replica_descriptor \<Rightarrow> bool" where
  "placed segs r \<longleftrightarrow>
     (\<exists>s \<in> set segs. seg_node_id s = rep_node_id r
        \<and> unat (rep_offset r) + unat (rep_len r) \<le> unat (seg_next_offset s))"

text \<open>What \<^verbatim>\<open>put_revoke\<close> and one round of eviction have in common.\<close>

definition retire ::
  "object_status \<Rightarrow> tenant_id \<Rightarrow> cache_key \<Rightarrow> cache_object_meta \<Rightarrow> master_state \<Rightarrow> master_state" where
  "retire s t k obj st =
     (let st1 = st\<lparr>objects := hm_modify (t, k) (\<lambda>obj. obj\<lparr>obj_status := s\<rparr>) (objects st)\<rparr>;
          st2 = release_tenant_quota t (quota_reserved_bytes obj) st1
      in st2\<lparr>leases := lease_remove t k (leases st2)\<rparr>)"

section \<open>Invariants\<close>

definition object_ok :: "object_key \<Rightarrow> cache_object_meta \<Rightarrow> bool" where
  "object_ok k obj \<longleftrightarrow>
     k = (obj_tenant_id obj, obj_cache_key obj) \<and> 0 < unat (obj_len obj) \<and> obj_replicas obj \<noteq> []
     \<and> (\<forall>r \<in> set (obj_replicas obj). rep_len r = obj_len obj)"

definition leases_ok :: "master_state \<Rightarrow> bool" where
  "leases_ok st \<longleftrightarrow>
     (\<forall>k. hm_get (leases st) k \<noteq> None \<longrightarrow>
        (\<exists>obj. hm_get (objects st) k = Some obj \<and> obj_status obj = Committed))"

definition usage_bounded :: "master_state \<Rightarrow> bool" where
  "usage_bounded st \<longleftrightarrow>
     (\<forall>t q. hm_get (quotas st) t = Some q \<longrightarrow> unat (used_dram_bytes q) \<le> live_bytes t (objects st))"

definition usage_exact :: "master_state \<Rightarrow> bool" where
  "usage_exact st \<longleftrightarrow>
     (\<forall>t q. hm_get (quotas st) t = Some q \<longrightarrow> unat (used_dram_bytes q) = live_bytes t (objects st))"

definition master_inv :: "master_state \<Rightarrow> bool" where
  "master_inv st \<longleftrightarrow>
     hm_ok (objects st) \<and> hm_ok (quotas st) \<and> hm_ok (leases st)
     \<and> (\<forall>k obj. hm_get (objects st) k = Some obj \<longrightarrow> object_ok k obj)
     \<and> leases_ok st \<and> segments_ok (allocator st) \<and> usage_bounded st"

definition accounting_inv :: "master_state \<Rightarrow> bool" where
  "accounting_inv st \<longleftrightarrow>
     total_live_bytes (objects st) \<le> allocated_bytes (allocator st)
     \<and> (mounted_bytes (allocator st) \<le> u64_max \<longrightarrow> usage_exact st)"

definition placement_inv :: "master_state \<Rightarrow> bool" where
  "placement_inv st \<longleftrightarrow>
     (\<forall>r \<in> set (all_replicas st). placed (allocator st) r)
     \<and> (distinct (map seg_node_id (allocator st)) \<longrightarrow> sorted_wrt replica_disjoint (all_replicas st))"

section \<open>Steps and reachable states\<close>

inductive master_step :: "master_state \<Rightarrow> master_state \<Rightarrow> bool" where
  step_mount: "master_step st (mount_segment node len st)"
| step_quota: "master_step st (snd (set_tenant_quota tenant dram ssd st))"
| step_put_start: "master_step st (snd (put_start t k len n st))"
| step_put_end: "master_step st (snd (put_end t k st))"
| step_put_revoke: "master_step st (snd (put_revoke t k st))"
| step_get: "master_step st (snd (get_replica_list now t k st))"
| step_remove: "master_step st (snd (remove t k st))"
| step_evict: "mset order = mset (objects st) \<Longrightarrow>
    master_step st (snd (evict_for_tenant order now t target st))"

inductive master_reachable :: "master_state \<Rightarrow> bool" where
  reach_new: "master_reachable master_new"
| reach_step: "master_reachable st \<Longrightarrow> master_step st st' \<Longrightarrow> master_reachable st'"

inductive_cases master_step_cases: "master_step st st'"

section \<open>Accounting lemmas\<close>

declare split_paired_All [simp del] split_paired_Ex [simp del]

lemma quota_reserved_bytes_status [simp]:
  "quota_reserved_bytes (obj\<lparr>obj_status := s\<rparr>) =
     (if s \<in> {Reserving, Writing, Committed} then obj_len obj else 0)"
  by (simp add: quota_reserved_bytes_def)

lemma object_ok_status [simp]: "object_ok k (obj\<lparr>obj_status := s\<rparr>) \<longleftrightarrow> object_ok k obj"
  by (simp add: object_ok_def)

lemma unat_fold_saturating:
  fixes acc :: u64
  shows "unat (fold (\<lambda>(_, obj) used. saturating_add used (quota_reserved_bytes obj)) objs acc) =
     min (unat acc + sum_list (map (\<lambda>(_, obj). unat (quota_reserved_bytes obj)) objs)) u64_max"
proof (induction objs arbitrary: acc)
  case Nil
  then show ?case using unat_less_u64 [of acc] by simp
next
  case (Cons e objs)
  then show ?case by (cases e) (simp add: unat_saturating_add)
qed

text \<open>The usage \<^verbatim>\<open>set_tenant_quota\<close> computes, whatever the order of the iteration.\<close>

lemma unat_tenant_used_bytes: "unat (tenant_used_bytes t objs) = min (live_bytes t objs) u64_max"
proof -
  have "sum_list (map (\<lambda>(_, obj). unat (quota_reserved_bytes obj))
          (filter (\<lambda>(_, obj). obj_tenant_id obj = t) objs)) = live_bytes t objs"
    unfolding live_bytes_def by (induction objs) auto
  then show ?thesis
    by (simp add: tenant_used_bytes_def unat_fold_saturating)
qed

lemma live_bytes_append [simp]: "live_bytes t (xs @ ys) = live_bytes t xs + live_bytes t ys"
  by (simp add: live_bytes_def)

lemma total_live_bytes_append [simp]:
  "total_live_bytes (xs @ ys) = total_live_bytes xs + total_live_bytes ys"
  by (simp add: total_live_bytes_def)

lemma live_bytes_le_total: "live_bytes t objs \<le> total_live_bytes objs"
  unfolding live_bytes_def total_live_bytes_def by (induction objs) auto

lemma live_bytes_member:
  "hm_get objs k = Some obj \<Longrightarrow> unat (quota_reserved_bytes obj) \<le> live_bytes (obj_tenant_id obj) objs"
  unfolding hm_get_def live_bytes_def
  by (induction objs) (auto split: if_splits intro: trans_le_add2)

lemma live_bytes_modify:
  assumes "hm_ok objs" and "hm_get objs k = Some obj" and "obj_tenant_id (f obj) = obj_tenant_id obj"
  shows "live_bytes t (hm_modify k f objs)
           + (if obj_tenant_id obj = t then unat (quota_reserved_bytes obj) else 0)
         = live_bytes t objs
           + (if obj_tenant_id obj = t then unat (quota_reserved_bytes (f obj)) else 0)"
  using sum_list_hm_modify [OF assms(1,2),
      of "\<lambda>(_, obj). if obj_tenant_id obj = t then unat (quota_reserved_bytes obj) else 0" f] assms(3)
  by (simp add: live_bytes_def)

lemma live_bytes_remove:
  assumes "hm_ok objs" and "hm_get objs k = Some obj"
  shows "live_bytes t (hm_remove k objs)
           + (if obj_tenant_id obj = t then unat (quota_reserved_bytes obj) else 0)
         = live_bytes t objs"
  using sum_list_hm_remove [OF assms,
      of "\<lambda>(_, obj). if obj_tenant_id obj = t then unat (quota_reserved_bytes obj) else 0"]
  by (simp add: live_bytes_def)

lemma total_live_bytes_modify:
  assumes "hm_ok objs" and "hm_get objs k = Some obj"
  shows "total_live_bytes (hm_modify k f objs) + unat (quota_reserved_bytes obj)
         = total_live_bytes objs + unat (quota_reserved_bytes (f obj))"
  using sum_list_hm_modify [OF assms, of "\<lambda>(_, obj). unat (quota_reserved_bytes obj)" f]
  by (simp add: total_live_bytes_def)

lemma total_live_bytes_remove:
  assumes "hm_ok objs" and "hm_get objs k = Some obj"
  shows "total_live_bytes (hm_remove k objs) + unat (quota_reserved_bytes obj) = total_live_bytes objs"
  using sum_list_hm_remove [OF assms, of "\<lambda>(_, obj). unat (quota_reserved_bytes obj)"]
  by (simp add: total_live_bytes_def)

section \<open>What each operation does to the tables\<close>

lemma release_tenant_quota_simps [simp]:
  "objects (release_tenant_quota t b st) = objects st"
  "leases (release_tenant_quota t b st) = leases st"
  "allocator (release_tenant_quota t b st) = allocator st"
  "next_lease_sequence (release_tenant_quota t b st) = next_lease_sequence st"
  "evictions_total (release_tenant_quota t b st) = evictions_total st"
  "hm_get (quotas (release_tenant_quota t b st)) t' =
     (if t' = t then map_option (release_dram b) (hm_get (quotas st) t) else hm_get (quotas st) t')"
  "hm_ok (quotas (release_tenant_quota t b st)) = hm_ok (quotas st)"
  by (simp_all add: release_tenant_quota_def)

lemma retire_simps [simp]:
  "objects (retire s t k obj st) = hm_modify (t, k) (\<lambda>obj. obj\<lparr>obj_status := s\<rparr>) (objects st)"
  "quotas (retire s t k obj st) = hm_modify t (release_dram (quota_reserved_bytes obj)) (quotas st)"
  "leases (retire s t k obj st) = lease_remove t k (leases st)"
  "allocator (retire s t k obj st) = allocator st"
  "evictions_total (retire s t k obj st) = evictions_total st"
  by (simp_all add: retire_def Let_def release_tenant_quota_def)

lemma put_revoke_retire:
  "put_revoke t k st =
     (case hm_get (objects st) (t, k) of
        None \<Rightarrow> (Inl NotFound, st) | Some obj \<Rightarrow> (Inr (), retire Revoked t k obj st))"
  by (simp add: put_revoke_def retire_def Let_def split: option.splits)

lemma evict_candidate_keys_retire:
  "evict_candidate_keys t target (k # ks) reclaimed st =
     (if target \<le> reclaimed then (reclaimed, st)
      else case hm_get (objects st) (t, k) of
        None \<Rightarrow> evict_candidate_keys t target ks reclaimed st
      | Some obj \<Rightarrow>
          evict_candidate_keys t target ks (saturating_add reclaimed (quota_reserved_bytes obj))
            ((retire Evicted t k obj st)
               \<lparr>evictions_total := saturating_add (evictions_total st) 1\<rparr>))"
  by (simp add: retire_def Let_def split: option.splits)

lemma reserve_tenant_quota_cases:
  assumes "reserve_tenant_quota t b st = (r, st')"
  obtains (unlimited) "r = Inr ()" "st' = st" "hm_get (quotas st) t = None"
    | (refused) e where "r = Inl e" "st' = st"
    | (reserved) q q' where "r = Inr ()" "hm_get (quotas st) t = Some q" "reserve_dram b q = Inr q'"
        "st' = st\<lparr>quotas := hm_modify t (\<lambda>_. q') (quotas st)\<rparr>"
  using assms by (auto simp: reserve_tenant_quota_def split: option.splits sum.splits)

lemma release_after_reserve_state:
  assumes "reserve_tenant_quota t b st = (Inr u, st')" and "hm_ok (quotas st)"
  shows "release_tenant_quota t b st' = st"
  using assms(1)
proof (cases rule: reserve_tenant_quota_cases)
  case (reserved q q')
  then have "hm_modify t (release_dram b) (quotas st') = quotas st"
    using assms(2) by (auto simp: hm_modify_modify release_after_reserve intro!: hm_modify_same)
  then show ?thesis
    using reserved by (simp add: release_tenant_quota_def)
qed (auto simp: release_tenant_quota_def)

text \<open>A refused \<^verbatim>\<open>put_start\<close> changes nothing: the reservation is given back in full.\<close>

lemma put_start_Inl_unchanged:
  assumes "put_start t k len n st = (Inl e, st')" and "hm_ok (quotas st)"
  shows "st' = st"
proof (cases "hm_get (objects st) (t, k)")
  case (Some obj)
  then show ?thesis using assms(1) by (simp add: put_start_def)
next
  case None
  obtain r st1 where r: "reserve_tenant_quota t len st = (r, st1)"
    by fastforce
  show ?thesis
  proof (cases r)
    case (Inl e')
    from r show ?thesis
      by (cases rule: reserve_tenant_quota_cases)
         (use assms(1) None r Inl in \<open>auto simp: put_start_def\<close>)
  next
    case (Inr u)
    then show ?thesis
      using assms None r release_after_reserve_state [of t len st u st1]
      by (auto simp: put_start_def Let_def split: sum.splits)
  qed
qed

text \<open>A successful \<^verbatim>\<open>put_start\<close>, table by table.\<close>

lemma put_start_Inr:
  assumes "put_start t k len n st = (Inr rs, st')"
  obtains allocs alloc' where
    "hm_get (objects st) (t, k) = None"
    and "allocator_allocate len n (allocator st) = Inr (allocs, alloc')"
    and "rs = map replica_of_allocation allocs"
    and "objects st' = objects st @
           [((t, k), \<lparr>obj_tenant_id = t, obj_cache_key = k, obj_len = len, obj_status = Reserving,
                      obj_replicas = rs, obj_hard_pinned = False, obj_soft_pinned_until_ms = None\<rparr>)]"
    and "allocator st' = alloc'" and "leases st' = leases st"
    and "next_lease_sequence st' = next_lease_sequence st"
    and "evictions_total st' = evictions_total st"
    and "\<And>t'. hm_get (quotas st') t' =
           (if t' = t then (case hm_get (quotas st) t of
                              None \<Rightarrow> None
                            | Some q \<Rightarrow> Some (q\<lparr>used_dram_bytes := used_dram_bytes q + len\<rparr>))
            else hm_get (quotas st) t')"
    and "\<And>q. hm_get (quotas st) t = Some q \<Longrightarrow>
           unat (used_dram_bytes q) + unat len \<le> unat (dram_bytes q)"
    and "hm_ok (quotas st) \<Longrightarrow> hm_ok (quotas st')"
proof -
  have fresh: "hm_get (objects st) (t, k) = None"
    using assms by (auto simp: put_start_def split: if_splits)
  obtain r st1 where r: "reserve_tenant_quota t len st = (r, st1)"
    by fastforce
  obtain u where u: "r = Inr u"
    using assms fresh r by (cases r) (auto simp: put_start_def)
  have same: "objects st1 = objects st" "allocator st1 = allocator st" "leases st1 = leases st"
    "next_lease_sequence st1 = next_lease_sequence st" "evictions_total st1 = evictions_total st"
    using r by (cases rule: reserve_tenant_quota_cases; simp)+
  obtain allocs alloc' where alloc:
    "allocator_allocate len n (allocator st) = Inr (allocs, alloc')"
    "rs = map replica_of_allocation allocs"
    "st' = st1\<lparr>allocator := alloc',
         objects := hm_insert (t, k) \<lparr>obj_tenant_id = t, obj_cache_key = k, obj_len = len,
           obj_status = Reserving, obj_replicas = rs, obj_hard_pinned = False,
           obj_soft_pinned_until_ms = None\<rparr> (objects st1)\<rparr>"
    using assms fresh r u same by (auto simp: put_start_def Let_def split: sum.splits)
  show thesis
    by (rule that [OF fresh alloc(1,2)])
       (use r u fresh same alloc(3) in \<open>cases rule: reserve_tenant_quota_cases;
         auto simp: hm_insert_fresh reserve_dram_eq_Inr\<close>)+
qed

section \<open>Preserved predicates\<close>

text \<open>
  A predicate that the elementary transformations of the state keep is kept by every
  operation, and so holds in every reachable state. Each invariant below is an instance.
\<close>

locale master_preserved =
  fixes P :: "master_state \<Rightarrow> bool"
  assumes tables: "P st \<Longrightarrow> hm_ok (quotas st)"
    and new: "P master_new"
    and mounted: "P st \<Longrightarrow> P (mount_segment node len st)"
    and limited: "P st \<Longrightarrow> P (st\<lparr>quotas := hm_insert t
      (quota_with_usage dram ssd (tenant_used_bytes t (objects st))) (quotas st)\<rparr>)"
    and started: "P st \<Longrightarrow> put_start t k len n st = (Inr rs, st') \<Longrightarrow> P st'"
    and committed: "P st \<Longrightarrow> hm_get (objects st) (t, k) = Some obj \<Longrightarrow>
      obj_status obj \<in> {Reserving, Writing} \<Longrightarrow>
      P (st\<lparr>objects := hm_modify (t, k) (\<lambda>obj. obj\<lparr>obj_status := Committed\<rparr>) (objects st)\<rparr>)"
    and retired: "P st \<Longrightarrow> hm_get (objects st) (t, k) = Some obj \<Longrightarrow> s \<in> {Revoked, Evicted} \<Longrightarrow>
      P (retire s t k obj st)"
    and leased: "P st \<Longrightarrow> get_replica_list now t k st = (Inr rl, st') \<Longrightarrow> P st'"
    and removed: "P st \<Longrightarrow> remove t k st = (Inr u, st') \<Longrightarrow> P st'"
    and counted: "P st \<Longrightarrow> P (st\<lparr>evictions_total := c\<rparr>)"
begin

lemma preserved_quota: "P st \<Longrightarrow> P (snd (set_tenant_quota tenant dram ssd st))"
  by (auto simp: set_tenant_quota_def Let_def limited split: sum.splits)

lemma preserved_put_start: "P st \<Longrightarrow> P (snd (put_start t k len n st))"
  using started put_start_Inl_unchanged [OF _ tables]
  by (cases "put_start t k len n st"; cases "fst (put_start t k len n st)") fastforce+

lemma preserved_put_end: "P st \<Longrightarrow> P (snd (put_end t k st))"
  by (auto simp: put_end_def committed split: option.splits object_status.splits)

lemma preserved_put_revoke: "P st \<Longrightarrow> P (snd (put_revoke t k st))"
  by (auto simp: put_revoke_retire retired split: option.splits)

lemma preserved_get: "P st \<Longrightarrow> P (snd (get_replica_list now t k st))"
proof -
  assume "P st"
  moreover have "fst (get_replica_list now t k st) = Inl e \<Longrightarrow> snd (get_replica_list now t k st) = st" for e
    by (auto simp: get_replica_list_def Let_def split: option.splits if_splits prod.splits)
  ultimately show ?thesis
    using leased [of st now t k] by (cases "fst (get_replica_list now t k st)") (auto simp: prod_eq_iff)
qed

lemma preserved_remove: "P st \<Longrightarrow> P (snd (remove t k st))"
proof -
  assume "P st"
  moreover have "fst (remove t k st) = Inl e \<Longrightarrow> snd (remove t k st) = st" for e
    by (auto simp: remove_def Let_def split: option.splits)
  ultimately show ?thesis
    using removed [of st t k] by (cases "fst (remove t k st)") (auto simp: prod_eq_iff)
qed

lemma preserved_evict_keys: "P st \<Longrightarrow> P (snd (evict_candidate_keys t target ks reclaimed st))"
proof (induction ks arbitrary: reclaimed st)
  case (Cons k ks)
  then show ?case
    by (auto simp: evict_candidate_keys_retire retired counted
        simp del: evict_candidate_keys.simps(2) split: option.splits)
qed simp

lemma preserved_evict: "P st \<Longrightarrow> P (snd (evict_for_tenant order now t target st))"
proof -
  assume "P st"
  moreover obtain normal soft where "collect_candidates t now (leases st) order = (normal, soft)"
    by fastforce
  moreover obtain r1 st1 where "evict_candidate_keys t target normal 0 st = (r1, st1)"
    by fastforce
  moreover obtain r2 st2 where "evict_candidate_keys t (target - r1) soft 0 st1 = (r2, st2)"
    by fastforce
  ultimately show ?thesis
    using preserved_evict_keys [of st t target normal 0]
      preserved_evict_keys [of st1 t "target - r1" soft 0]
    by (simp add: evict_for_tenant_def)
qed

lemma preserved_step: "master_step st st' \<Longrightarrow> P st \<Longrightarrow> P st'"
  by (induction rule: master_step.induct)
     (auto intro: mounted preserved_quota preserved_put_start preserved_put_end
       preserved_put_revoke preserved_get preserved_remove preserved_evict)

lemma reachable_preserved: "master_reachable st \<Longrightarrow> P st"
  by (induction rule: master_reachable.induct) (auto intro: new preserved_step)

end

section \<open>The invariants hold in every reachable state\<close>

lemma master_inv_get:
  "get_replica_list now t k st = (Inr rl, st') \<Longrightarrow>
   \<exists>obj l seq. hm_get (objects st) (t, k) = Some obj \<and> obj_status obj = Committed
     \<and> rl_replicas rl = obj_replicas obj \<and> rl_lease rl = l
     \<and> seq = saturating_add (next_lease_sequence st) 1 \<and> l = lease_new_at seq now
     \<and> st' = st\<lparr>next_lease_sequence := seq, leases := hm_insert (t, k) l (leases st)\<rparr>"
  by (auto simp: get_replica_list_def lease_refresh_def Let_def split: option.splits if_splits)

lemma remove_Inr:
  "remove t k st = (Inr u, st') \<Longrightarrow>
   \<exists>obj. hm_get (objects st) (t, k) = Some obj
     \<and> objects st' = hm_remove (t, k) (objects st)
     \<and> quotas st' = hm_modify t (release_dram (quota_reserved_bytes obj)) (quotas st)
     \<and> leases st' = lease_remove t k (leases st)
     \<and> allocator st' = allocator st \<and> evictions_total st' = evictions_total st"
  by (auto simp: remove_def Let_def release_tenant_quota_def split: option.splits)

text \<open>The effect on the accounting of taking an object off a tenant's bill.\<close>

lemma live_bytes_retire:
  assumes "master_inv st" and "hm_get (objects st) (t, k) = Some obj" and "s \<in> {Revoked, Evicted}"
  shows "live_bytes t' (objects (retire s t k obj st)) =
           live_bytes t' (objects st) - (if t' = t then unat (quota_reserved_bytes obj) else 0)"
proof -
  have "obj_tenant_id obj = t"
    using assms(1,2) by (auto simp: master_inv_def object_ok_def)
  moreover have "hm_ok (objects st)"
    using assms(1) by (simp add: master_inv_def)
  ultimately show ?thesis
    using live_bytes_modify [of "objects st" "(t, k)" obj "\<lambda>obj. obj\<lparr>obj_status := s\<rparr>" t']
      assms(2,3) by auto
qed

lemma live_bytes_removed:
  assumes "master_inv st" and "hm_get (objects st) (t, k) = Some obj"
  shows "live_bytes t' (hm_remove (t, k) (objects st)) =
           live_bytes t' (objects st) - (if t' = t then unat (quota_reserved_bytes obj) else 0)"
proof -
  have "obj_tenant_id obj = t" and "hm_ok (objects st)"
    using assms by (auto simp: master_inv_def object_ok_def)
  then show ?thesis
    using live_bytes_remove [of "objects st" "(t, k)" obj t'] assms(2) by auto
qed

lemma live_bytes_commit:
  assumes "hm_ok (objects st)" and "hm_get (objects st) (t, k) = Some obj"
    and "obj_status obj \<in> {Reserving, Writing}"
  shows "live_bytes t' (hm_modify (t, k) (\<lambda>obj. obj\<lparr>obj_status := Committed\<rparr>) (objects st)) =
           live_bytes t' (objects st)"
proof -
  have "quota_reserved_bytes obj = obj_len obj"
    using assms(3) by (auto simp: quota_reserved_bytes_def)
  then show ?thesis
    using live_bytes_modify [OF assms(1,2), of "\<lambda>obj. obj\<lparr>obj_status := Committed\<rparr>" t']
    by (cases "obj_tenant_id obj = t'") simp_all
qed

lemma live_bytes_started:
  assumes "put_start t k len n st = (Inr rs, st')"
  shows "live_bytes t' (objects st') = live_bytes t' (objects st) + (if t' = t then unat len else 0)"
    and "total_live_bytes (objects st') = total_live_bytes (objects st) + unat len"
  by (rule put_start_Inr [OF assms];
      simp add: live_bytes_def total_live_bytes_def quota_reserved_bytes_def)+

lemma used_bytes_started:
  assumes "put_start t k len n st = (Inr rs, st')" and "hm_get (quotas st') t' = Some q'"
  shows "\<exists>q. hm_get (quotas st) t' = Some q \<and>
     unat (used_dram_bytes q') = unat (used_dram_bytes q) + (if t' = t then unat len else 0)"
proof (rule put_start_Inr [OF assms(1)])
  assume get: "\<And>t'. hm_get (quotas st') t' =
           (if t' = t then (case hm_get (quotas st) t of
                              None \<Rightarrow> None
                            | Some q \<Rightarrow> Some (q\<lparr>used_dram_bytes := used_dram_bytes q + len\<rparr>))
            else hm_get (quotas st) t')"
    and fits: "\<And>q. hm_get (quotas st) t = Some q \<Longrightarrow>
           unat (used_dram_bytes q) + unat len \<le> unat (dram_bytes q)"
  show ?thesis
  proof (cases "t' = t")
    case True
    then obtain q where q: "hm_get (quotas st) t = Some q"
      and q': "q' = q\<lparr>used_dram_bytes := used_dram_bytes q + len\<rparr>"
      using get assms(2) by (auto split: option.splits)
    have "unat (used_dram_bytes q) + unat len < 18446744073709551616"
      using fits [OF q] unat_less_u64 [of "dram_bytes q"] by simp
    then show ?thesis
      using True q q' by (simp add: unat_add_u64)
  next
    case False
    then show ?thesis using get assms(2) by simp
  qed
qed

lemma master_inv_new: "master_inv master_new"
  by (simp add: master_inv_def master_new_def leases_ok_def segments_ok_def usage_bounded_def)

lemma master_inv_started:
  assumes "master_inv st" and "put_start t k len n st = (Inr rs, st')"
  shows "master_inv st'"
proof (rule put_start_Inr [OF assms(2)])
  fix allocs alloc'
  assume fresh: "hm_get (objects st) (t, k) = None"
    and alloc: "allocator_allocate len n (allocator st) = Inr (allocs, alloc')"
    and rs: "rs = map replica_of_allocation allocs"
    and objs: "objects st' = objects st @
           [((t, k), \<lparr>obj_tenant_id = t, obj_cache_key = k, obj_len = len, obj_status = Reserving,
                      obj_replicas = rs, obj_hard_pinned = False, obj_soft_pinned_until_ms = None\<rparr>)]"
    and rest: "allocator st' = alloc'" "leases st' = leases st" "hm_ok (quotas st) \<Longrightarrow> hm_ok (quotas st')"
  note counts = allocate_counts [OF alloc]
  have get: "hm_get (objects st') k' = (if k' = (t, k)
      then Some \<lparr>obj_tenant_id = t, obj_cache_key = k, obj_len = len, obj_status = Reserving,
                 obj_replicas = rs, obj_hard_pinned = False, obj_soft_pinned_until_ms = None\<rparr>
      else hm_get (objects st) k')" for k'
    using hm_insert_fresh [OF fresh] objs by (metis hm_get_insert)
  have "hm_ok (objects st')"
    using assms(1) fresh objs hm_insert_fresh [OF fresh] by (metis hm_ok_insert master_inv_def)
  moreover have "object_ok k' obj" if "hm_get (objects st') k' = Some obj" for k' obj
    using that assms(1) counts
    by (auto simp: get master_inv_def object_ok_def rs replica_of_allocation_def split: if_splits)
  moreover have "leases_ok st'"
    using assms(1) fresh by (fastforce simp: master_inv_def leases_ok_def get rest)
  moreover have "segments_ok (allocator st')"
    using assms(1) allocate_segments_ok [OF alloc] by (simp add: master_inv_def rest)
  moreover have "usage_bounded st'"
    using assms(1) used_bytes_started [OF assms(2)] live_bytes_started [OF assms(2)]
    by (fastforce simp: master_inv_def usage_bounded_def)
  ultimately show ?thesis
    using assms(1) rest by (simp add: master_inv_def)
qed

lemma master_inv_retired:
  assumes "master_inv st" and "hm_get (objects st) (t, k) = Some obj" and "s \<in> {Revoked, Evicted}"
  shows "master_inv (retire s t k obj st)"
proof -
  have "usage_bounded (retire s t k obj st)"
    using assms(1) by (auto simp: usage_bounded_def live_bytes_retire [OF assms, simplified] master_inv_def
        intro!: diff_le_mono)
  moreover have "leases_ok (retire s t k obj st)"
    using assms(1) by (auto simp: leases_ok_def master_inv_def lease_remove_def)
  moreover have "object_ok k' obj'" if "hm_get (objects (retire s t k obj st)) k' = Some obj'" for k' obj'
    using that assms(1,2) by (auto simp: master_inv_def split: if_splits)
  ultimately show ?thesis
    using assms(1) by (simp add: master_inv_def lease_remove_def)
qed

lemma master_inv_committed:
  assumes "master_inv st" and "hm_get (objects st) (t, k) = Some obj"
    and "obj_status obj \<in> {Reserving, Writing}"
  shows "master_inv (st\<lparr>objects := hm_modify (t, k) (\<lambda>obj. obj\<lparr>obj_status := Committed\<rparr>) (objects st)\<rparr>)"
    (is "master_inv ?st")
proof -
  have "usage_bounded ?st"
    using assms(1) live_bytes_commit [OF _ assms(2,3)] by (simp add: usage_bounded_def master_inv_def)
  moreover have "leases_ok ?st"
    using assms(1) by (force simp: leases_ok_def master_inv_def)
  moreover have "object_ok k' obj'" if "hm_get (objects ?st) k' = Some obj'" for k' obj'
    using that assms(1,2) by (auto simp: master_inv_def split: if_splits)
  ultimately show ?thesis
    using assms(1) by (simp add: master_inv_def)
qed

lemma master_inv_removed:
  assumes "master_inv st" and "remove t k st = (Inr u, st')"
  shows "master_inv st'"
proof -
  obtain obj where obj: "hm_get (objects st) (t, k) = Some obj"
    and st': "objects st' = hm_remove (t, k) (objects st)"
      "quotas st' = hm_modify t (release_dram (quota_reserved_bytes obj)) (quotas st)"
      "leases st' = lease_remove t k (leases st)" "allocator st' = allocator st"
    using remove_Inr [OF assms(2)] by blast
  have "usage_bounded st'"
    using assms(1)
    by (auto simp: usage_bounded_def st' live_bytes_removed [OF assms(1) obj, simplified] master_inv_def
        intro!: diff_le_mono)
  moreover have "leases_ok st'"
    using assms(1) by (auto simp: leases_ok_def master_inv_def st' lease_remove_def)
  ultimately show ?thesis
    using assms(1) by (simp add: master_inv_def st' lease_remove_def)
qed

interpretation master_inv: master_preserved master_inv
proof unfold_locales
  show "master_inv st \<Longrightarrow> master_inv (mount_segment node len st)" for st node len
    by (simp add: master_inv_def mount_segment_def leases_ok_def usage_bounded_def)
  show "master_inv st \<Longrightarrow> master_inv (st\<lparr>quotas := hm_insert t
      (quota_with_usage dram ssd (tenant_used_bytes t (objects st))) (quotas st)\<rparr>)" for st t dram ssd
    by (auto simp: master_inv_def leases_ok_def usage_bounded_def quota_with_usage_def unat_tenant_used_bytes)
  show "master_inv st \<Longrightarrow> get_replica_list now t k st = (Inr rl, st') \<Longrightarrow> master_inv st'" for st now t k rl st'
    by (auto simp: master_inv_def leases_ok_def usage_bounded_def dest!: master_inv_get split: if_splits)
  show "master_inv st \<Longrightarrow> master_inv (st\<lparr>evictions_total := c\<rparr>)" for st c
    by (simp add: master_inv_def leases_ok_def usage_bounded_def)
qed (rule master_inv_new | erule (1) master_inv_started | erule (2) master_inv_committed
    | erule (2) master_inv_retired | erule (1) master_inv_removed | simp add: master_inv_def)+

subsection \<open>Accounting\<close>

lemma mounted_bytes_alloc:
  "allocator_allocate len n segs = Inr (allocs, segs') \<Longrightarrow> mounted_bytes segs' = mounted_bytes segs"
  by (drule allocate_frame(3)) (simp add: mounted_bytes_def flip: map_map)

lemma accounting_inv_started:
  assumes "accounting_inv st" and "put_start t k len n st = (Inr rs, st')"
  shows "accounting_inv st'"
proof (rule put_start_Inr [OF assms(2)])
  fix allocs alloc'
  assume alloc: "allocator_allocate len n (allocator st) = Inr (allocs, alloc')"
    and st': "allocator st' = alloc'"
  have "1 * unat len \<le> unat n * unat len"
    using allocate_counts(2) [OF alloc] by (intro mult_le_mono1) simp
  then have "total_live_bytes (objects st') \<le> allocated_bytes (allocator st')"
    using assms(1) live_bytes_started(2) [OF assms(2)] allocate_allocated_bytes [OF alloc]
    unfolding accounting_inv_def st' by linarith
  moreover have "usage_exact st'" if "usage_exact st"
    using that used_bytes_started [OF assms(2)] live_bytes_started(1) [OF assms(2)]
    by (fastforce simp: usage_exact_def)
  ultimately show ?thesis
    using assms(1) mounted_bytes_alloc [OF alloc] by (simp add: accounting_inv_def st')
qed

lemma accounting_inv_limited:
  assumes "master_inv st" and "accounting_inv st"
  shows "accounting_inv (st\<lparr>quotas := hm_insert t
      (quota_with_usage dram ssd (tenant_used_bytes t (objects st))) (quotas st)\<rparr>)"
proof -
  have "live_bytes t (objects st) \<le> u64_max" if "mounted_bytes (allocator st) \<le> u64_max"
    using that assms live_bytes_le_total [of t "objects st"] allocated_le_mounted [of "allocator st"]
    by (simp add: master_inv_def accounting_inv_def)
  then show ?thesis
    using assms(2)
    by (auto simp: accounting_inv_def usage_exact_def quota_with_usage_def unat_tenant_used_bytes)
qed

lemma total_live_bytes_retire:
  assumes "master_inv st" and "hm_get (objects st) (t, k) = Some obj" and "s \<in> {Revoked, Evicted}"
  shows "total_live_bytes (objects (retire s t k obj st)) \<le> total_live_bytes (objects st)"
  using total_live_bytes_modify [OF _ assms(2), of "\<lambda>obj. obj\<lparr>obj_status := s\<rparr>"] assms(1,3)
  by (auto simp: master_inv_def)

lemma accounting_inv_retired:
  assumes "master_inv st" and "accounting_inv st"
    and "hm_get (objects st) (t, k) = Some obj" and "s \<in> {Revoked, Evicted}"
  shows "accounting_inv (retire s t k obj st)"
proof -
  have "usage_exact (retire s t k obj st)" if "usage_exact st"
    using that live_bytes_retire [OF assms(1,3,4)] by (auto simp: usage_exact_def)
  then show ?thesis
    using assms(2) total_live_bytes_retire [OF assms(1,3,4)] by (simp add: accounting_inv_def)
qed

lemma accounting_inv_committed:
  assumes "master_inv st" and "accounting_inv st" and "hm_get (objects st) (t, k) = Some obj"
    and "obj_status obj \<in> {Reserving, Writing}"
  shows "accounting_inv (st\<lparr>objects := hm_modify (t, k) (\<lambda>obj. obj\<lparr>obj_status := Committed\<rparr>) (objects st)\<rparr>)"
proof -
  have "quota_reserved_bytes obj = obj_len obj"
    using assms(4) by (auto simp: quota_reserved_bytes_def)
  then have "total_live_bytes (hm_modify (t, k) (\<lambda>obj. obj\<lparr>obj_status := Committed\<rparr>) (objects st))
      = total_live_bytes (objects st)"
    using total_live_bytes_modify [OF _ assms(3), of "\<lambda>obj. obj\<lparr>obj_status := Committed\<rparr>"] assms(1)
    by (simp add: master_inv_def)
  then show ?thesis
    using assms(1,2) live_bytes_commit [OF _ assms(3,4)]
    by (simp add: accounting_inv_def usage_exact_def master_inv_def)
qed

lemma accounting_inv_removed:
  assumes "master_inv st" and "accounting_inv st" and "remove t k st = (Inr u, st')"
  shows "accounting_inv st'"
proof -
  obtain obj where obj: "hm_get (objects st) (t, k) = Some obj"
    and st': "objects st' = hm_remove (t, k) (objects st)"
      "quotas st' = hm_modify t (release_dram (quota_reserved_bytes obj)) (quotas st)"
      "allocator st' = allocator st"
    using remove_Inr [OF assms(3)] by blast
  have "total_live_bytes (objects st') \<le> total_live_bytes (objects st)"
    using total_live_bytes_remove [OF _ obj] assms(1) by (simp add: st' master_inv_def)
  moreover have "usage_exact st'" if "usage_exact st"
    using that live_bytes_removed [OF assms(1) obj] by (auto simp: usage_exact_def st')
  ultimately show ?thesis
    using assms(2) by (simp add: accounting_inv_def st')
qed

lemma accounting_inv_leased:
  "accounting_inv st \<Longrightarrow> get_replica_list now t k st = (Inr rl, st') \<Longrightarrow> accounting_inv st'"
  by (auto simp: accounting_inv_def usage_exact_def dest!: master_inv_get)

interpretation accounting: master_preserved "\<lambda>st. master_inv st \<and> accounting_inv st"
proof (unfold_locales, goal_cases)
  case 1 then show ?case by (blast intro: master_inv.tables)
next
  case 2 then show ?case
    using master_inv_new by (simp add: accounting_inv_def usage_exact_def master_new_def
        total_live_bytes_def)
next
  case 3 then show ?case
    using master_inv.mounted by (auto simp: accounting_inv_def usage_exact_def mount_segment_def)
next
  case 4 then show ?case by (blast intro: master_inv.limited accounting_inv_limited)
next
  case 5 then show ?case by (blast intro: master_inv.started accounting_inv_started)
next
  case 6 then show ?case by (blast intro: master_inv.committed accounting_inv_committed)
next
  case 7 then show ?case by (blast intro: master_inv.retired accounting_inv_retired)
next
  case 8 then show ?case by (blast intro: master_inv.leased accounting_inv_leased)
next
  case 9 then show ?case by (blast intro: master_inv.removed accounting_inv_removed)
next
  case 10 then show ?case
    using master_inv.counted by (auto simp: accounting_inv_def usage_exact_def)
qed

subsection \<open>Placement\<close>

lemma all_replicas_modify:
  assumes "\<And>obj. obj_replicas (f obj) = obj_replicas obj"
  shows "concat (map (\<lambda>(_, obj). obj_replicas obj) (hm_modify k f objs)) =
         concat (map (\<lambda>(_, obj). obj_replicas obj) objs)"
  using assms by (induction objs) (auto simp: hm_modify_def)

lemma sorted_wrt_concat_filter:
  "sorted_wrt R (concat (map f xs)) \<Longrightarrow> sorted_wrt R (concat (map f (filter P xs)))"
  by (induction xs) (auto simp: sorted_wrt_append)

lemma placed_nth:
  "placed segs r \<longleftrightarrow>
     (\<exists>i < length segs. seg_node_id (segs ! i) = rep_node_id r
        \<and> unat (rep_offset r) + unat (rep_len r) \<le> unat (seg_next_offset (segs ! i)))"
  by (auto simp: placed_def set_conv_nth)

lemma placement_inv_started:
  assumes "placement_inv st" and "put_start t k len n st = (Inr rs, st')"
  shows "placement_inv st'"
proof (rule put_start_Inr [OF assms(2)])
  fix allocs alloc'
  assume alloc: "allocator_allocate len n (allocator st) = Inr (allocs, alloc')"
    and rs: "rs = map replica_of_allocation allocs"
    and objs: "objects st' = objects st @
           [((t, k), \<lparr>obj_tenant_id = t, obj_cache_key = k, obj_len = len, obj_status = Reserving,
                      obj_replicas = rs, obj_hard_pinned = False, obj_soft_pinned_until_ms = None\<rparr>)]"
    and st': "allocator st' = alloc'"
  let ?segs = "allocator st"
  have nodes: "map seg_node_id alloc' = map seg_node_id ?segs" and len: "length alloc' = length ?segs"
    using allocate_frame [OF alloc] by simp_all
  have node_nth: "seg_node_id (alloc' ! i) = seg_node_id (?segs ! i)" if "i < length ?segs" for i
    using nodes len that by (metis nth_map)
  have all: "all_replicas st' = all_replicas st @ rs"
    by (simp add: all_replicas_def objs)
  have old: "placed alloc' r" if pr: "placed ?segs r" for r
  proof -
    obtain i where "i < length ?segs" "seg_node_id (?segs ! i) = rep_node_id r"
      "unat (rep_offset r) + unat (rep_len r) \<le> unat (seg_next_offset (?segs ! i))"
      using pr by (auto simp: placed_nth)
    then show ?thesis
      using allocate_mono [OF alloc, of i] node_nth [of i] len unfolding placed_nth
      by (intro exI [of _ i]) simp
  qed
  have new: "placed alloc' r" if "r \<in> set rs" for r
    using that allocate_placement [OF alloc] node_nth len
    by (fastforce simp: rs replica_of_allocation_def placed_nth)
  have "sorted_wrt replica_disjoint (all_replicas st @ rs)"
    if dist: "distinct (map seg_node_id ?segs)"
  proof -
    have "sorted_wrt replica_disjoint rs"
      using allocate_distinct_nodes [OF alloc dist]
      by (auto simp: rs sorted_wrt_map distinct_map replica_disjoint_def replica_of_allocation_def
          sorted_wrt_iff_nth_less distinct_conv_nth)
    moreover have "replica_disjoint r r'" if mem: "r \<in> set (all_replicas st)" "r' \<in> set rs" for r r'
    proof -
      obtain i where i: "i < length ?segs" "seg_node_id (?segs ! i) = rep_node_id r"
        "unat (rep_offset r) + unat (rep_len r) \<le> unat (seg_next_offset (?segs ! i))"
        using assms(1) mem(1) by (auto simp: placement_inv_def placed_nth)
      obtain j where j: "j < length ?segs" "rep_node_id r' = seg_node_id (?segs ! j)"
        "rep_offset r' = seg_next_offset (?segs ! j)"
        using mem(2) by (auto simp: rs replica_of_allocation_def dest!: allocate_placement [OF alloc])
      show ?thesis
      proof (cases "rep_node_id r = rep_node_id r'")
        case True
        then have "i = j" using dist i j by (simp add: distinct_conv_nth) metis
        then show ?thesis using i j by (simp add: replica_disjoint_def)
      qed (simp add: replica_disjoint_def)
    qed
    ultimately show ?thesis
      using assms(1) dist by (simp add: placement_inv_def sorted_wrt_append)
  qed
  then show ?thesis
    using assms(1) old new nodes by (auto simp: placement_inv_def all st')
qed

interpretation placement: master_preserved "\<lambda>st. master_inv st \<and> placement_inv st"
proof (unfold_locales, goal_cases)
  case 1 then show ?case by (blast intro: master_inv.tables)
next
  case 2 then show ?case
    using master_inv_new by (simp add: placement_inv_def all_replicas_def master_new_def)
next
  case (3 st node len) then show ?case
    using master_inv.mounted [of st node len]
    by (auto simp: placement_inv_def all_replicas_def mount_segment_def placed_def allocator_mount_def)
next
  case 4 then show ?case using master_inv.limited by (auto simp: placement_inv_def all_replicas_def)
next
  case 5 then show ?case by (blast intro: master_inv.started placement_inv_started)
next
  case (6 st t k obj) then show ?case
    using master_inv.committed [of st t k obj]
    by (auto simp: placement_inv_def all_replicas_def all_replicas_modify)
next
  case (7 st t k obj s) then show ?case
    using master_inv.retired [of st t k obj s]
    by (auto simp: placement_inv_def all_replicas_def all_replicas_modify)
next
  case (8 st now t k rl st') then show ?case
    using master_inv.leased [of st now t k rl st']
    by (auto simp: placement_inv_def all_replicas_def dest!: master_inv_get)
next
  case (9 st t k u st')
  then have "objects st' = filter (\<lambda>(k', _). k' \<noteq> (t, k)) (objects st)" "allocator st' = allocator st"
    by (auto simp: hm_remove_filter dest!: remove_Inr)
  then show ?case
    using 9 master_inv.removed [of st t k u st']
    by (auto simp: placement_inv_def all_replicas_def intro!: sorted_wrt_concat_filter)
next
  case 10 then show ?case
    using master_inv.counted by (auto simp: placement_inv_def all_replicas_def)
qed

lemma replicas_in_all:
  "hm_get (objects st) k = Some obj \<Longrightarrow> r \<in> set (obj_replicas obj) \<Longrightarrow> r \<in> set (all_replicas st)"
  by (force simp: all_replicas_def hm_get_def dest: map_of_SomeD)

lemma sorted_wrt_concat_two:
  assumes "sorted_wrt R (concat xss)" and "i < j" and "j < length xss"
    and "x \<in> set (xss ! i)" and "y \<in> set (xss ! j)"
  shows "R x y"
proof -
  have eq: "xss = take j xss @ xss ! j # drop (Suc j) xss"
    using assms(3) by (simp add: id_take_nth_drop)
  have "xss ! i \<in> set (take j xss)"
    using assms(2,3) by (auto simp: in_set_conv_nth intro!: exI [of _ i])
  then have "x \<in> set (concat (take j xss))"
    using assms(4) by auto
  then show ?thesis
    using assms(1,5) eq by (metis UnI1 concat.simps(2) concat_append set_append sorted_wrt_append)
qed

lemma replica_disjoint_sym: "replica_disjoint a b \<Longrightarrow> replica_disjoint b a"
  by (auto simp: replica_disjoint_def)

text \<open>Replicas of different objects are disjoint.\<close>

lemma placement_disjoint:
  assumes "placement_inv st" and "distinct (map seg_node_id (allocator st))"
    and "hm_get (objects st) k1 = Some obj1" and "hm_get (objects st) k2 = Some obj2" and "k1 \<noteq> k2"
    and "r1 \<in> set (obj_replicas obj1)" and "r2 \<in> set (obj_replicas obj2)"
  shows "replica_disjoint r1 r2"
proof -
  let ?xss = "map (\<lambda>(_, obj). obj_replicas obj) (objects st)"
  have sorted: "sorted_wrt replica_disjoint (concat ?xss)"
    using assms(1) assms(2) by (simp add: placement_inv_def all_replicas_def)
  obtain i where i: "i < length (objects st)" "objects st ! i = (k1, obj1)"
    using assms(3) by (auto simp: hm_get_def in_set_conv_nth dest!: map_of_SomeD)
  obtain j where j: "j < length (objects st)" "objects st ! j = (k2, obj2)"
    using assms(4) by (auto simp: hm_get_def in_set_conv_nth dest!: map_of_SomeD)
  have "i \<noteq> j" using i j assms(5) by auto
  then consider "i < j" | "j < i" by linarith
  then show ?thesis
  proof cases
    case 1
    then show ?thesis
      using sorted_wrt_concat_two [OF sorted, of i j r1 r2] i j assms(6,7) by simp
  next
    case 2
    then show ?thesis
      using sorted_wrt_concat_two [OF sorted, of j i r2 r1] i j assms(6,7)
      by (simp add: replica_disjoint_sym)
  qed
qed

end
