(* ===== verification/Master_Properties.thy ===== *)
theory Master_Properties
imports Master_Invariants "HOL-Library.Sublist"
begin

text \<open>
  What the master promises its clients, stated over its operations: the visibility of
  objects through their life cycle, quota enforcement, the eviction policy, what survives
  a failover and what does not.
\<close>

declare split_paired_All [simp del] split_paired_Ex [simp del]

section \<open>Eviction, one list of candidates at a time\<close>

definition reserved_at :: "master_state \<Rightarrow> object_key \<Rightarrow> nat" where
  "reserved_at st k =
     (case hm_get (objects st) k of None \<Rightarrow> 0 | Some obj \<Rightarrow> unat (quota_reserved_bytes obj))"

definition eviction_class ::
  "master_state \<Rightarrow> u64 \<Rightarrow> tenant_id \<Rightarrow> cache_key \<Rightarrow> eviction_candidate_class option" where
  "eviction_class st now t k =
     (case hm_get (objects st) (t, k) of
        None \<Rightarrow> None
      | Some obj \<Rightarrow> candidate_class obj (has_active_lease t k now (leases st)) now)"

definition evicted :: "cache_object_meta \<Rightarrow> cache_object_meta" where
  "evicted obj = obj\<lparr>obj_status := Evicted\<rparr>"

text \<open>
  The loop evicts a prefix of the candidates: it stops at the first candidate it reaches
  with the target met, and returns the bytes of the prefix.
\<close>

lemma evict_candidate_keys_prefix:
  assumes "evict_candidate_keys t target ks r st = (r', st')" and "distinct ks"
  shows "\<exists>gone rest. ks = gone @ rest \<and> (rest \<noteq> [] \<longrightarrow> target \<le> r')
    \<and> (gone \<noteq> [] \<longrightarrow>
         unat r + sum_list (butlast (map (\<lambda>k. reserved_at st (t, k)) gone)) < unat target)
    \<and> unat r' = min (unat r + sum_list (map (\<lambda>k. reserved_at st (t, k)) gone)) u64_max
    \<and> (\<forall>k'. hm_get (objects st') k' =
          (if k' \<in> Pair t ` set gone then map_option evicted (hm_get (objects st) k')
           else hm_get (objects st) k'))"
  using assms
proof (induction ks arbitrary: r st)
  case Nil
  then show ?case using unat_less_u64 [of r] by simp
next
  case (Cons k ks)
  note eq = Cons.prems(1) [unfolded evict_candidate_keys_retire]
  show ?case
  proof (cases "target \<le> r")
    case True
    then show ?thesis
      using eq unat_less_u64 [of r] by (intro exI [of _ "[]"] exI [of _ "k # ks"]) simp
  next
    case False
    show ?thesis
    proof (cases "hm_get (objects st) (t, k)")
      case None
      with False eq have run: "evict_candidate_keys t target ks r st = (r', st')" by simp
      have "distinct ks" using Cons.prems(2) by simp
      from Cons.IH [OF run this] obtain gone rest where IH: "ks = gone @ rest" "rest \<noteq> [] \<longrightarrow> target \<le> r'"
        "gone \<noteq> [] \<longrightarrow>
           unat r + sum_list (butlast (map (\<lambda>k. reserved_at st (t, k)) gone)) < unat target"
        "unat r' = min (unat r + sum_list (map (\<lambda>k. reserved_at st (t, k)) gone)) u64_max"
        "\<forall>k'. hm_get (objects st') k' =
          (if k' \<in> Pair t ` set gone then map_option evicted (hm_get (objects st) k')
           else hm_get (objects st) k')"
        by blast
      moreover have "reserved_at st (t, k) = 0" using None by (simp add: reserved_at_def)
      ultimately show ?thesis
        using None False by (intro exI [of _ "k # gone"] exI [of _ rest])
          (auto simp: word_less_nat_alt word_le_nat_alt)
    next
      case (Some obj)
      let ?st1 = "(retire Evicted t k obj st)\<lparr>evictions_total := saturating_add (evictions_total st) 1\<rparr>"
      let ?r1 = "saturating_add r (quota_reserved_bytes obj)"
      have run: "evict_candidate_keys t target ks ?r1 ?st1 = (r', st')"
        using False Some eq by simp
      have "distinct ks" using Cons.prems(2) by simp
      from Cons.IH [OF run this] obtain gone rest where IH: "ks = gone @ rest" "rest \<noteq> [] \<longrightarrow> target \<le> r'"
        "gone \<noteq> [] \<longrightarrow>
           unat ?r1 + sum_list (butlast (map (\<lambda>k. reserved_at ?st1 (t, k)) gone)) < unat target"
        "unat r' = min (unat ?r1 + sum_list (map (\<lambda>k. reserved_at ?st1 (t, k)) gone)) u64_max"
        "\<forall>k'. hm_get (objects st') k' =
          (if k' \<in> Pair t ` set gone then map_option evicted (hm_get (objects ?st1) k')
           else hm_get (objects ?st1) k')"
        by blast
      have notin: "k \<notin> set gone" using Cons.prems(2) IH(1) by auto
      then have same: "map (\<lambda>k. reserved_at ?st1 (t, k)) gone = map (\<lambda>k. reserved_at st (t, k)) gone"
        by (auto simp: reserved_at_def)
      have "reserved_at st (t, k) = unat (quota_reserved_bytes obj)"
        using Some by (simp add: reserved_at_def)
      then have "unat r' =
            min (unat r + sum_list (map (\<lambda>k. reserved_at st (t, k)) (k # gone))) u64_max"
          and "unat r + sum_list (butlast (map (\<lambda>k. reserved_at st (t, k)) (k # gone))) < unat target"
        using IH(3,4) False unat_less_u64 [of target] unfolding same
        by (auto simp: unat_saturating_add word_le_nat_alt min_def split: if_splits)
      moreover have "hm_get (objects st') k' =
          (if k' \<in> Pair t ` set (k # gone) then map_option evicted (hm_get (objects st) k')
           else hm_get (objects st) k')" for k'
        using IH(5) notin by (auto simp: evicted_def [abs_def])
      ultimately show ?thesis
        using IH(1,2) by (intro exI [of _ "k # gone"] exI [of _ rest]) simp
    qed
  qed
qed

lemma collect_candidates_sets:
  assumes "collect_candidates t now tracker order = (normal, soft)"
  shows "set normal = {k. \<exists>obj. ((t, k), obj) \<in> set order
           \<and> candidate_class obj (has_active_lease t k now tracker) now = Some Normal}"
    and "set soft = {k. \<exists>obj. ((t, k), obj) \<in> set order
           \<and> candidate_class obj (has_active_lease t k now tracker) now = Some SoftPinned}"
  using assms
  by (induction order arbitrary: normal soft rule: collect_candidates.induct)
     (auto simp: Let_def split: prod.splits if_splits option.splits eviction_candidate_class.splits)

lemma collect_candidates_distinct:
  assumes "collect_candidates t now tracker order = (normal, soft)" and "distinct (map fst order)"
  shows "distinct normal" and "distinct soft" and "set normal \<inter> set soft = {}"
proof -
  have "distinct normal \<and> distinct soft \<and> set normal \<inter> set soft = {}
      \<and> Pair t ` (set normal \<union> set soft) \<subseteq> fst ` set order"
    using assms
    by (induction order arbitrary: normal soft rule: collect_candidates.induct)
       (force simp: Let_def split: prod.splits if_splits option.splits eviction_candidate_class.splits)+
  then show "distinct normal" and "distinct soft" and "set normal \<inter> set soft = {}"
    by blast+
qed

text \<open>The two passes of \<^verbatim>\<open>evict_for_tenant\<close> as one list of evicted keys.\<close>

lemma collected_class:
  assumes "hm_ok (objects st)" and "mset order = mset (objects st)"
    and "collect_candidates t now (leases st) order = (normal, soft)"
  shows "set normal = {k. eviction_class st now t k = Some Normal}"
    and "set soft = {k. eviction_class st now t k = Some SoftPinned}"
    and "distinct normal" and "distinct soft"
proof -
  have set: "((t, k), obj) \<in> set order \<longleftrightarrow> hm_get (objects st) (t, k) = Some obj" for k obj
    using assms(1) mset_eq_setD [OF assms(2)] by (simp add: hm_get_iff)
  show "set normal = {k. eviction_class st now t k = Some Normal}"
    and "set soft = {k. eviction_class st now t k = Some SoftPinned}"
    using collect_candidates_sets [OF assms(3)]
    by (auto simp: set eviction_class_def split: option.splits)
  have "mset (map fst order) = mset (map fst (objects st))"
    using assms(2) by (metis mset_map)
  then have "distinct (map fst order)"
    using assms(1) by (metis hm_ok_def mset_eq_imp_distinct_iff)
  then show "distinct normal" and "distinct soft"
    using collect_candidates_distinct [OF assms(3)] by simp_all
qed

lemma evict_for_tenant_keys:
  assumes ok: "hm_ok (objects st)" and order: "mset order = mset (objects st)"
    and run: "evict_for_tenant order now t target st = (r, st')"
  obtains n gone where "r = Inr n" and "distinct gone"
    and "\<forall>k \<in> set gone. eviction_class st now t k \<noteq> None"
    and "\<forall>k'. hm_get (objects st') k' =
          (if k' \<in> Pair t ` set gone then map_option evicted (hm_get (objects st) k')
           else hm_get (objects st) k')"
    and "unat n = min (sum_list (map (\<lambda>k. reserved_at st (t, k)) gone)) u64_max"
    and "gone \<noteq> [] \<longrightarrow> sum_list (butlast (map (\<lambda>k. reserved_at st (t, k)) gone)) < unat target"
    and "n < target \<longrightarrow> (\<forall>k. eviction_class st now t k \<noteq> None \<longrightarrow> k \<in> set gone)"
    and "(\<exists>k \<in> set gone. eviction_class st now t k = Some SoftPinned) \<longrightarrow>
           (\<forall>k. eviction_class st now t k = Some Normal \<longrightarrow> k \<in> set gone)"
proof -
  obtain normal soft where coll: "collect_candidates t now (leases st) order = (normal, soft)"
    by fastforce
  note cls = collected_class [OF ok order coll]
  obtain r1 st1 where run1: "evict_candidate_keys t target normal 0 st = (r1, st1)"
    by fastforce
  obtain g1 rest1 where g1: "normal = g1 @ rest1" "rest1 \<noteq> [] \<longrightarrow> target \<le> r1"
    "g1 \<noteq> [] \<longrightarrow> sum_list (butlast (map (\<lambda>k. reserved_at st (t, k)) g1)) < unat target"
    "unat r1 = min (sum_list (map (\<lambda>k. reserved_at st (t, k)) g1)) u64_max"
    "\<forall>k'. hm_get (objects st1) k' =
          (if k' \<in> Pair t ` set g1 then map_option evicted (hm_get (objects st) k')
           else hm_get (objects st) k')"
    using evict_candidate_keys_prefix [OF run1 cls(3)] by auto
  have g1cls: "\<forall>k \<in> set g1. eviction_class st now t k = Some Normal" using g1(1) cls(1) by auto
  show thesis
  proof (cases "r1 < target")
    case False
    then have "r = Inr r1" "st' = st1"
      using run by (simp_all add: evict_for_tenant_def coll run1)
    then show thesis
      by (rule_tac n = r1 and gone = g1 in that)
         (use g1 g1cls cls(3) False in \<open>auto\<close>)
  next
    case True
    obtain r2 st2 where run2: "evict_candidate_keys t (target - r1) soft 0 st1 = (r2, st2)"
      by fastforce
    have res: "r = Inr (saturating_add r1 r2)" "st' = st2"
      using run True by (simp_all add: evict_for_tenant_def coll run1 run2)
    obtain g2 rest2 where g2: "soft = g2 @ rest2" "rest2 \<noteq> [] \<longrightarrow> target - r1 \<le> r2"
      "g2 \<noteq> [] \<longrightarrow> sum_list (butlast (map (\<lambda>k. reserved_at st1 (t, k)) g2)) < unat (target - r1)"
      "unat r2 = min (sum_list (map (\<lambda>k. reserved_at st1 (t, k)) g2)) u64_max"
      "\<forall>k'. hm_get (objects st2) k' =
            (if k' \<in> Pair t ` set g2 then map_option evicted (hm_get (objects st1) k')
             else hm_get (objects st1) k')"
      using evict_candidate_keys_prefix [OF run2 cls(4)] by auto
    have g2cls: "\<forall>k \<in> set g2. eviction_class st now t k = Some SoftPinned" using g2(1) cls(2) by auto
    have disj: "set g1 \<inter> set g2 = {}" using g1cls g2cls by force
    have same: "map (\<lambda>k. reserved_at st1 (t, k)) g2 = map (\<lambda>k. reserved_at st (t, k)) g2"
      using g1(5) disj by (auto simp: reserved_at_def)
    have rest1: "normal = g1" using g1(1,2) True by auto
    have small: "unat r1 = sum_list (map (\<lambda>k. reserved_at st (t, k)) g1)"
      using g1(4) True unat_less_u64 [of target] by (auto simp: word_less_nat_alt min_def split: if_splits)
    have diff: "unat (target - r1) = unat target - unat r1"
      using True by (simp add: unat_sub word_less_nat_alt word_le_nat_alt)
    show thesis
    proof (rule that [OF res(1)])
      show "unat (saturating_add r1 r2) =
          min (sum_list (map (\<lambda>k. reserved_at st (t, k)) (g1 @ g2))) u64_max"
        using g2(4) small unfolding same by (simp add: unat_saturating_add)
      show "g1 @ g2 \<noteq> [] \<longrightarrow>
          sum_list (butlast (map (\<lambda>k. reserved_at st (t, k)) (g1 @ g2))) < unat target"
        using g1(3) g2(3) small diff unfolding same by (cases "g2 = []") (auto simp: butlast_append)
      show "saturating_add r1 r2 < target \<longrightarrow>
          (\<forall>k. eviction_class st now t k \<noteq> None \<longrightarrow> k \<in> set (g1 @ g2))"
      proof (intro impI allI)
        fix k
        assume "saturating_add r1 r2 < target" and k: "eviction_class st now t k \<noteq> None"
        then have "unat r1 + unat r2 < unat target"
          using unat_less_u64 [of target]
          by (auto simp: word_less_nat_alt unat_saturating_add min_def split: if_splits)
        then have "rest2 = []" using g2(2) diff by (auto simp: word_le_nat_alt)
        moreover have "eviction_class st now t k = Some Normal \<or> eviction_class st now t k = Some SoftPinned"
          using k by (cases "eviction_class st now t k"; cases "the (eviction_class st now t k)") auto
        ultimately show "k \<in> set (g1 @ g2)" using cls(1,2) rest1 g2(1) by auto
      qed
      show "\<forall>k'. hm_get (objects st') k' =
          (if k' \<in> Pair t ` set (g1 @ g2) then map_option evicted (hm_get (objects st) k')
           else hm_get (objects st) k')"
        using g1(5) g2(5) disj by (auto simp: res(2))
      show "distinct (g1 @ g2)" using cls(3,4) g2(1) disj unfolding rest1 by simp
      show "\<forall>k \<in> set (g1 @ g2). eviction_class st now t k \<noteq> None"
        using g1cls g2cls by auto
      show "(\<exists>k \<in> set (g1 @ g2). eviction_class st now t k = Some SoftPinned) \<longrightarrow>
          (\<forall>k. eviction_class st now t k = Some Normal \<longrightarrow> k \<in> set (g1 @ g2))"
        using cls(1) unfolding rest1 by simp
    qed
  qed
qed

end
