(* ===== verification/Master_Contract.thy ===== *)
theory Master_Contract
imports Master_Properties
begin

text \<open>
  The contract of the control plane, as the properties its clients rely on, with a small
  run of the master on which each of them is exercised.
\<close>

declare split_paired_All [simp del] split_paired_Ex [simp del]

section \<open>A small run\<close>

text \<open>
  Two nodes, one limited tenant, one object of 100 bytes on both nodes that is written,
  committed and read at time 0.
\<close>

definition run_tenant :: tenant_id where "run_tenant = TenantId ''acme''"
definition run_key :: cache_key where "run_key = CacheKey ''k1''"
definition run_key2 :: cache_key where "run_key2 = CacheKey ''k2''"

definition run_mounted :: master_state where
  "run_mounted =
     snd (set_tenant_quota ''acme'' 1000 0
       (mount_segment ''b'' 1000 (mount_segment ''a'' 1000 master_new)))"

definition run_started :: master_state where
  "run_started = snd (put_start run_tenant run_key 100 2 run_mounted)"

definition run_committed :: master_state where
  "run_committed = snd (put_end run_tenant run_key run_started)"

definition run_read :: master_state where
  "run_read = snd (get_replica_list 0 run_tenant run_key run_committed)"

definition run_two :: master_state where
  "run_two = snd (put_start run_tenant run_key2 50 1 run_read)"

definition run_replicas :: "replica_descriptor list" where
  "run_replicas =
     [\<lparr>rep_node_id = ''a'', rep_offset = 0, rep_len = 100\<rparr>,
      \<lparr>rep_node_id = ''b'', rep_offset = 0, rep_len = 100\<rparr>]"

definition run_object :: "object_status \<Rightarrow> cache_object_meta" where
  "run_object s =
     \<lparr>obj_tenant_id = run_tenant, obj_cache_key = run_key, obj_len = 100, obj_status = s,
      obj_replicas = run_replicas, obj_hard_pinned = False, obj_soft_pinned_until_ms = None\<rparr>"

lemmas run_eval =
  run_tenant_def run_key_def run_key2_def run_replicas_def run_object_def hm_get_def hm_insert_def
  hm_modify_def hm_remove_def put_start_def put_end_def put_revoke_def get_replica_list_def
  reserve_tenant_quota_def reserve_dram_def release_tenant_quota_def release_dram_def
  allocator_allocate_def segment_indexes_def can_fit_def checked_add_def saturating_add_def
  replica_of_allocation_def lease_refresh_def lease_new_at_def default_lease_ttl_ms_def
  Let_def
lemma run_tenant_name: "trim_end (trim_start ''acme'') \<noteq> []"
  by code_simp

lemma run_mounted_eq:
  "run_mounted =
     \<lparr>objects = [],
      quotas = [(run_tenant, \<lparr>dram_bytes = 1000, ssd_bytes = 0, used_dram_bytes = 0, used_ssd_bytes = 0\<rparr>)],
      leases = [],
      allocator = [\<lparr>seg_node_id = ''a'', seg_len = 1000, seg_next_offset = 0\<rparr>,
                   \<lparr>seg_node_id = ''b'', seg_len = 1000, seg_next_offset = 0\<rparr>],
      next_lease_sequence = 0, evictions_total = 0\<rparr>"
  by (simp add: run_mounted_def set_tenant_quota_def parse_tenant_id_def mount_segment_def
      allocator_mount_def master_new_def tenant_used_bytes_def quota_with_usage_def
      run_eval trim_def run_tenant_name)

lemma run_put_start:
  "put_start run_tenant run_key 100 2 run_mounted = (Inr run_replicas, run_started)"
  unfolding run_started_def run_mounted_eq by (simp add: run_eval)

lemma run_started_eq:
  "run_started =
     \<lparr>objects = [((run_tenant, run_key), run_object Reserving)],
      quotas = [(run_tenant, \<lparr>dram_bytes = 1000, ssd_bytes = 0, used_dram_bytes = 100, used_ssd_bytes = 0\<rparr>)],
      leases = [],
      allocator = [\<lparr>seg_node_id = ''a'', seg_len = 1000, seg_next_offset = 100\<rparr>,
                   \<lparr>seg_node_id = ''b'', seg_len = 1000, seg_next_offset = 100\<rparr>],
      next_lease_sequence = 0, evictions_total = 0\<rparr>"
  unfolding run_started_def run_mounted_eq by (simp add: run_eval)

lemma run_put_end: "put_end run_tenant run_key run_started = (Inr (), run_committed)"
  unfolding run_committed_def run_started_eq by (simp add: run_eval)

lemma run_committed_eq:
  "run_committed = run_started\<lparr>objects := [((run_tenant, run_key), run_object Committed)]\<rparr>"
  unfolding run_committed_def run_started_eq by (simp add: run_eval)

lemma run_get:
  "get_replica_list 0 run_tenant run_key run_committed =
     (Inr \<lparr>rl_replicas = run_replicas, rl_lease = lease_new_at 1 0\<rparr>, run_read)"
  unfolding run_read_def run_committed_eq run_started_eq by (simp add: run_eval)

lemma run_read_eq:
  "run_read = run_committed\<lparr>leases := [((run_tenant, run_key), lease_new_at 1 0)], next_lease_sequence := 1\<rparr>"
  unfolding run_read_def run_committed_eq run_started_eq by (simp add: run_eval)

lemma run_reachable:
  "master_reachable run_mounted" "master_reachable run_started"
  "master_reachable run_committed" "master_reachable run_read"
proof -
  show 1: "master_reachable run_mounted"
    unfolding run_mounted_def by (intro reach_new reach_step [OF _ step_mount] reach_step [OF _ step_quota])
  show 2: "master_reachable run_started"
    unfolding run_started_def by (intro 1 reach_step [OF _ step_put_start])
  show 3: "master_reachable run_committed"
    unfolding run_committed_def by (intro 2 reach_step [OF _ step_put_end])
  show "master_reachable run_read"
    unfolding run_read_def by (intro 3 reach_step [OF _ step_get])
qed

section \<open>Placement\<close>

text \<open>
  C9: the bytes of two different objects never overlap. In every reachable state whose
  segments belong to distinct nodes, a replica of one object and a replica of another lie
  on different nodes or occupy disjoint byte ranges; this includes objects that were
  revoked or evicted, since the allocator never reuses their space. Every replica lies
  below the watermark of a mounted segment, which is at most the length of that segment.
\<close>

theorem replicas_never_overlap:
  assumes "master_reachable st" and "distinct (map seg_node_id (allocator st))"
    and "hm_get (objects st) k1 = Some obj1" and "hm_get (objects st) k2 = Some obj2" and "k1 \<noteq> k2"
    and "r1 \<in> set (obj_replicas obj1)" and "r2 \<in> set (obj_replicas obj2)"
  shows "replica_disjoint r1 r2
    \<and> (\<exists>s \<in> set (allocator st). seg_node_id s = rep_node_id r1
           \<and> unat (rep_offset r1) + unat (rep_len r1) \<le> unat (seg_next_offset s)
           \<and> seg_next_offset s \<le> seg_len s)"
proof
  have inv: "master_inv st" "placement_inv st"
    using placement.reachable_preserved [OF assms(1)] by simp_all
  show "replica_disjoint r1 r2"
    by (rule placement_disjoint [OF inv(2) assms(2-7)])
  show "\<exists>s \<in> set (allocator st). seg_node_id s = rep_node_id r1
           \<and> unat (rep_offset r1) + unat (rep_len r1) \<le> unat (seg_next_offset s)
           \<and> seg_next_offset s \<le> seg_len s"
    using inv replicas_in_all [OF assms(3,6)]
    by (fastforce simp: placement_inv_def placed_def master_inv_def segments_ok_def)
qed

lemma run_two_eq:
  "run_two = run_read\<lparr>objects := objects run_read @
        [((run_tenant, run_key2), \<lparr>obj_tenant_id = run_tenant, obj_cache_key = run_key2, obj_len = 50,
           obj_status = Reserving, obj_replicas = [\<lparr>rep_node_id = ''a'', rep_offset = 100, rep_len = 50\<rparr>],
           obj_hard_pinned = False, obj_soft_pinned_until_ms = None\<rparr>)],
      quotas := [(run_tenant, \<lparr>dram_bytes = 1000, ssd_bytes = 0, used_dram_bytes = 150, used_ssd_bytes = 0\<rparr>)],
      allocator := [\<lparr>seg_node_id = ''a'', seg_len = 1000, seg_next_offset = 150\<rparr>,
                    \<lparr>seg_node_id = ''b'', seg_len = 1000, seg_next_offset = 100\<rparr>]\<rparr>"
  unfolding run_two_def run_read_eq run_committed_eq run_started_eq by (simp add: run_eval)

lemma run_two_reachable: "master_reachable run_two"
  unfolding run_two_def by (intro run_reachable reach_step [OF _ step_put_start])

lemmas run_states = run_two_eq run_read_eq run_committed_eq run_started_eq

theorem replicas_never_overlap_witness:
  "replica_disjoint \<lparr>rep_node_id = ''a'', rep_offset = 0, rep_len = 100\<rparr>
                    \<lparr>rep_node_id = ''a'', rep_offset = 100, rep_len = 50\<rparr>"
proof -
  have "hm_get (objects run_two) (run_tenant, run_key) = Some (run_object Committed)"
    "hm_get (objects run_two) (run_tenant, run_key2) = Some \<lparr>obj_tenant_id = run_tenant,
       obj_cache_key = run_key2, obj_len = 50, obj_status = Reserving,
       obj_replicas = [\<lparr>rep_node_id = ''a'', rep_offset = 100, rep_len = 50\<rparr>],
       obj_hard_pinned = False, obj_soft_pinned_until_ms = None\<rparr>"
    "distinct (map seg_node_id (allocator run_two))"
    by (simp_all add: run_states run_eval)
  note facts = replicas_never_overlap [OF run_two_reachable this(3,1,2)]
  then show ?thesis by (simp add: run_eval)
qed

section \<open>Quotas\<close>

text \<open>
  C10: usage accounting is exact. As long as the mounted segments amount to less than
  \<^verbatim>\<open>2^64\<close> bytes in total, in every reachable state the bytes charged to a tenant with a
  quota are the lengths of its objects that are being written or committed, summed; no
  operation leaks or double-counts a reservation.
\<close>

theorem charged_usage_is_exact:
  assumes "master_reachable st" and "mounted_bytes (allocator st) \<le> u64_max"
    and "hm_get (quotas st) t = Some q"
  shows "unat (used_dram_bytes q) = live_bytes t (objects st)"
  using accounting.reachable_preserved [OF assms(1)] assms(2,3)
  by (simp add: accounting_inv_def usage_exact_def)

theorem charged_usage_is_exact_witness:
  "unat (used_dram_bytes \<lparr>dram_bytes = 1000, ssd_bytes = 0, used_dram_bytes = 150, used_ssd_bytes = 0\<rparr>)
     = live_bytes run_tenant (objects run_two)"
  by (rule charged_usage_is_exact [OF run_two_reachable]) (simp_all add: run_states run_eval mounted_bytes_def)

lemma reserve_dram_exceeded:
  "reserve_dram b q = Inl e \<Longrightarrow> unat (dram_bytes q) < unat (used_dram_bytes q) + unat b"
  using reserve_dram_eq_Inr [of b q "q\<lparr>used_dram_bytes := used_dram_bytes q + b\<rparr>"]
  by (cases "unat (used_dram_bytes q) + unat b \<le> unat (dram_bytes q)") auto

lemma put_start_refusal:
  assumes "put_start t k len n st = (Inl e, st')" and "hm_get (objects st) (t, k) = None"
  shows "(\<exists>q m. hm_get (quotas st) t = Some q \<and> e = QuotaExceeded m
            \<and> unat (dram_bytes q) < unat (used_dram_bytes q) + unat len)
         \<or> allocator_allocate len n (allocator st) = Inl e"
proof (cases "hm_get (quotas st) t")
  case None
  then show ?thesis
    using assms by (auto simp: put_start_def reserve_tenant_quota_def Let_def split: sum.splits)
next
  case (Some q)
  show ?thesis
  proof (cases "reserve_dram len q")
    case (Inl e')
    then show ?thesis
      using assms Some reserve_dram_error [OF Inl] reserve_dram_exceeded [OF Inl]
      by (auto simp: put_start_def reserve_tenant_quota_def)
  next
    case (Inr q')
    then show ?thesis
      using assms Some by (auto simp: put_start_def reserve_tenant_quota_def Let_def split: sum.splits)
  qed
qed

text \<open>
  C22: a write that is admitted stays within the quota, and a write that is refused leaves
  no trace. When \<^verbatim>\<open>put_start\<close> succeeds for a tenant with a quota, the charge grows by exactly
  the object's length and ends within the limit; when it fails, the state is unchanged,
  and the error says why: the key is taken, the quota would be exceeded, or the request
  cannot be placed.
\<close>

theorem put_start_within_quota:
  assumes "master_reachable st"
  shows "case put_start t k len n st of
      (Inr rs, st') \<Rightarrow>
        (\<forall>q. hm_get (quotas st) t = Some q \<longrightarrow>
           (\<exists>q'. hm_get (quotas st') t = Some q' \<and> dram_bytes q' = dram_bytes q
              \<and> unat (used_dram_bytes q') = unat (used_dram_bytes q) + unat len
              \<and> used_dram_bytes q' \<le> dram_bytes q'))
        \<and> length rs = unat n \<and> 0 < unat n \<and> (\<forall>r \<in> set rs. rep_len r = len) \<and> 0 < unat len
    | (Inl e, st') \<Rightarrow> st' = st
        \<and> (hm_get (objects st) (t, k) \<noteq> None \<longrightarrow> e = Conflict ''object already exists'')
        \<and> (hm_get (objects st) (t, k) = None \<longrightarrow>
             (\<exists>q m. hm_get (quotas st) t = Some q \<and> e = QuotaExceeded m
                \<and> unat (dram_bytes q) < unat (used_dram_bytes q) + unat len)
             \<or> allocator_allocate len n (allocator st) = Inl e)"
proof (cases "put_start t k len n st")
  case (Pair r st')
  have ok: "hm_ok (quotas st)"
    using master_inv.reachable_preserved [OF assms] by (simp add: master_inv_def)
  show ?thesis
  proof (cases r)
    case (Inl e)
    have "st' = st" using put_start_Inl_unchanged [OF Pair [unfolded Inl] ok] .
    moreover have "e = Conflict ''object already exists''" if "hm_get (objects st) (t, k) \<noteq> None"
      using Pair that by (simp add: put_start_def Inl)
    ultimately show ?thesis
      using put_start_refusal [OF Pair [unfolded Inl]] by (simp add: Pair Inl)
  next
    case (Inr rs)
    note run = Pair [unfolded Inr]
    show ?thesis
    proof (rule put_start_Inr [OF run])
      fix allocs alloc'
      assume alloc: "allocator_allocate len n (allocator st) = Inr (allocs, alloc')"
        and rs: "rs = map replica_of_allocation allocs"
        and get: "\<And>t'. hm_get (quotas st') t' =
           (if t' = t then (case hm_get (quotas st) t of
                              None \<Rightarrow> None
                            | Some q \<Rightarrow> Some (q\<lparr>used_dram_bytes := used_dram_bytes q + len\<rparr>))
            else hm_get (quotas st) t')"
        and fits: "\<And>q. hm_get (quotas st) t = Some q \<Longrightarrow>
           unat (used_dram_bytes q) + unat len \<le> unat (dram_bytes q)"
      have "unat (used_dram_bytes q + len) = unat (used_dram_bytes q) + unat len"
        if "hm_get (quotas st) t = Some q" for q
        using fits [OF that] unat_less_u64 [of "dram_bytes q"] by (simp add: unat_add_u64)
      then show ?thesis
        using allocate_counts [OF alloc] fits get
        by (auto simp: Pair Inr rs replica_of_allocation_def word_le_nat_alt)
    qed
  qed
qed

theorem put_start_within_quota_witness:
  "\<exists>q'. hm_get (quotas run_started) run_tenant = Some q' \<and> unat (used_dram_bytes q') = 100
      \<and> used_dram_bytes q' \<le> dram_bytes q'"
  using put_start_within_quota [OF run_reachable(1), of run_tenant run_key 100 2]
  by (simp add: run_put_start) (auto simp: run_mounted_eq hm_get_def)

section \<open>Visibility\<close>

lemma get_replica_list_iff:
  "(\<exists>rl. fst (get_replica_list now t k st) = Inr rl) \<longleftrightarrow>
     (\<exists>obj. hm_get (objects st) (t, k) = Some obj \<and> obj_status obj = Committed)"
  by (auto simp: get_replica_list_def lease_refresh_def Let_def split: option.splits)

lemma get_replica_list_Committed:
  "hm_get (objects st) (t, k) = Some obj \<Longrightarrow> obj_status obj = Committed \<Longrightarrow>
   fst (get_replica_list now t k st) =
     Inr \<lparr>rl_replicas = obj_replicas obj,
          rl_lease = lease_new_at (saturating_add (next_lease_sequence st) 1) now\<rparr>"
  by (simp add: get_replica_list_def lease_refresh_def Let_def)

text \<open>
  C23: the write protocol. A key that \<^verbatim>\<open>put_start\<close> has accepted is not readable until
  \<^verbatim>\<open>put_end\<close>, a second \<^verbatim>\<open>put_start\<close> of the same key conflicts, and after \<^verbatim>\<open>put_end\<close>, which
  succeeds exactly once, a lookup returns the very replicas \<^verbatim>\<open>put_start\<close> handed to the
  writer.
\<close>

theorem write_protocol:
  assumes "put_start t k len n st = (Inr rs, st1)"
  shows "fst (get_replica_list now t k st1) = Inl NotFound
    \<and> fst (put_start t k len' n' st1) = Inl (Conflict ''object already exists'')
    \<and> (\<exists>st2 l. put_end t k st1 = (Inr (), st2)
        \<and> fst (put_end t k st2) = Inl (Conflict ''object already committed'')
        \<and> fst (get_replica_list now t k st2) = Inr \<lparr>rl_replicas = rs, rl_lease = l\<rparr>)"
proof (rule put_start_Inr [OF assms])
  let ?obj = "\<lparr>obj_tenant_id = t, obj_cache_key = k, obj_len = len, obj_status = Reserving,
      obj_replicas = rs, obj_hard_pinned = False, obj_soft_pinned_until_ms = None\<rparr>"
  assume fresh: "hm_get (objects st) (t, k) = None"
    and objs: "objects st1 = objects st @ [((t, k), ?obj)]"
  then have get: "hm_get (objects st1) (t, k) = Some ?obj"
    by (metis hm_get_insert hm_insert_fresh)
  let ?st2 = "st1\<lparr>objects := hm_modify (t, k) (\<lambda>obj. obj\<lparr>obj_status := Committed\<rparr>) (objects st1)\<rparr>"
  have "put_end t k st1 = (Inr (), ?st2)"
    using get by (simp add: put_end_def)
  moreover have "fst (put_end t k ?st2) = Inl (Conflict ''object already committed'')"
    using get by (simp add: put_end_def)
  moreover have "fst (get_replica_list now t k ?st2) = Inr \<lparr>rl_replicas = rs,
      rl_lease = lease_new_at (saturating_add (next_lease_sequence st1) 1) now\<rparr>"
    using get get_replica_list_Committed [of ?st2 t k "?obj\<lparr>obj_status := Committed\<rparr>" now] by simp
  ultimately show ?thesis
    using get by (auto simp: get_replica_list_def put_start_def)
qed

theorem write_protocol_witness:
  "\<exists>st2 l. put_end run_tenant run_key run_started = (Inr (), st2)
     \<and> fst (get_replica_list 7 run_tenant run_key st2) = Inr \<lparr>rl_replicas = run_replicas, rl_lease = l\<rparr>"
  using write_protocol [OF run_put_start, of 7] by blast

text \<open>The account of the tenant after a release.\<close>

lemma released_account:
  assumes "hm_ok (quotas st)" and "hm_get (quotas st) t = Some q"
    and "quotas st' = hm_modify t (release_dram b) (quotas st)"
  shows "\<exists>q'. hm_get (quotas st') t = Some q' \<and> dram_bytes q' = dram_bytes q
    \<and> unat (used_dram_bytes q') = unat (used_dram_bytes q) - unat b"
  using assms(2) by (simp add: assms(3) release_dram_def unat_saturating_sub)

lemma withdrawn_quotas:
  assumes "put_revoke t k st = (Inr (), st1) \<or> remove t k st = (Inr (), st1)"
    and "hm_get (objects st) (t, k) = Some obj"
  shows "quotas st1 = hm_modify t (release_dram (quota_reserved_bytes obj)) (quotas st)
    \<and> leases st1 = lease_remove t k (leases st)"
  using assms by (auto simp: put_revoke_def remove_def Let_def release_tenant_quota_def)

text \<open>
  C31: withdrawn objects are never served and no longer charged. After \<^verbatim>\<open>put_revoke\<close> or
  \<^verbatim>\<open>remove\<close> of a key, also of an object that a reader has a lease on, a lookup fails and the
  lease is gone; the account of the tenant is lower by exactly the bytes the object was charged
  (none for a tombstone) and other tenants' accounts and all other keys are as before. After
  \<^verbatim>\<open>remove\<close> the key can be written again; after \<^verbatim>\<open>put_revoke\<close> its tombstone makes every later
  \<^verbatim>\<open>put_start\<close> of the key conflict and every \<^verbatim>\<open>put_end\<close> fail. The design says that remove skips
  active leases; it does not.
\<close>

theorem withdrawn_objects_hidden:
  assumes "master_inv st" and "hm_get (objects st) (t, k) = Some obj"
  shows "\<exists>st1 st2. put_revoke t k st = (Inr (), st1) \<and> remove t k st = (Inr (), st2)
    \<and> (\<forall>st' \<in> {st1, st2}.
          fst (get_replica_list now t k st') = Inl NotFound \<and> hm_get (leases st') (t, k) = None
        \<and> live_bytes t (objects st') = live_bytes t (objects st) - unat (quota_reserved_bytes obj)
        \<and> (\<forall>q. hm_get (quotas st) t = Some q \<longrightarrow>
             (\<exists>q'. hm_get (quotas st') t = Some q' \<and> dram_bytes q' = dram_bytes q
                \<and> unat (used_dram_bytes q') = unat (used_dram_bytes q) - unat (quota_reserved_bytes obj)))
        \<and> (\<forall>t'. t' \<noteq> t \<longrightarrow> hm_get (quotas st') t' = hm_get (quotas st) t')
        \<and> (\<forall>k'. k' \<noteq> (t, k) \<longrightarrow> hm_get (objects st') k' = hm_get (objects st) k'))
    \<and> hm_get (objects st2) (t, k) = None
    \<and> fst (put_start t k len n st1) = Inl (Conflict ''object already exists'')
    \<and> fst (put_end t k st1) = Inl (Conflict ''object is not writable'')"
proof -
  let ?st1 = "retire Revoked t k obj st"
  have rev: "put_revoke t k st = (Inr (), ?st1)"
    using assms(2) by (simp add: put_revoke_retire)
  obtain u st2 where rem: "remove t k st = (Inr u, st2)"
    using assms(2) by (simp add: remove_def Let_def)
  have objs2: "objects st2 = hm_remove (t, k) (objects st)"
    using remove_Inr [OF rem] by auto
  have ok: "hm_ok (objects st)" "hm_ok (quotas st)" "hm_ok (leases st)" using assms(1) by (simp_all add: master_inv_def)
  have get1: "hm_get (objects ?st1) (t, k) = Some (obj\<lparr>obj_status := Revoked\<rparr>)"
    using assms(2) by simp
  have account: "hm_get (leases st') (t, k) = None
      \<and> (\<forall>q. hm_get (quotas st) t = Some q \<longrightarrow>
             (\<exists>q'. hm_get (quotas st') t = Some q' \<and> dram_bytes q' = dram_bytes q
                \<and> unat (used_dram_bytes q') = unat (used_dram_bytes q) - unat (quota_reserved_bytes obj)))
      \<and> (\<forall>t'. t' \<noteq> t \<longrightarrow> hm_get (quotas st') t' = hm_get (quotas st) t')"
    if "put_revoke t k st = (Inr (), st') \<or> remove t k st = (Inr (), st')" for st'
    using withdrawn_quotas [OF that assms(2)] released_account [OF ok(2)] ok(3) by (simp add: lease_remove_def)
  have "fst (get_replica_list now t k ?st1) = Inl NotFound"
    "fst (put_start t k len n ?st1) = Inl (Conflict ''object already exists'')"
    "fst (put_end t k ?st1) = Inl (Conflict ''object is not writable'')"
    using get1 by (simp_all add: get_replica_list_def put_start_def put_end_def del: retire_simps)
  moreover have "hm_get (objects st2) (t, k) = None" "fst (get_replica_list now t k st2) = Inl NotFound"
    using ok by (simp_all add: objs2 get_replica_list_def)
  moreover have "live_bytes t (objects ?st1) = live_bytes t (objects st) - unat (quota_reserved_bytes obj)"
    using live_bytes_retire [OF assms, of Revoked t] by simp
  moreover have "live_bytes t (objects st2) = live_bytes t (objects st) - unat (quota_reserved_bytes obj)"
    using live_bytes_removed [OF assms, of t] by (simp add: objs2)
  ultimately show ?thesis
    using rev rem ok account [OF disjI1, OF rev] account [OF disjI2, of st2]
    by (intro exI [of _ ?st1] exI [of _ st2]) (simp add: objs2)
qed

theorem withdrawn_objects_hidden_witness:
  "\<exists>st1. put_revoke run_tenant run_key run_read = (Inr (), st1)
     \<and> fst (get_replica_list 9 run_tenant run_key st1) = Inl NotFound
     \<and> (\<exists>q'. hm_get (quotas st1) run_tenant = Some q' \<and> unat (used_dram_bytes q') = 0)"
proof -
  have run: "hm_get (objects run_read) (run_tenant, run_key) = Some (run_object Committed)"
    "hm_get (quotas run_read) run_tenant =
      Some \<lparr>dram_bytes = 1000, ssd_bytes = 0, used_dram_bytes = 100, used_ssd_bytes = 0\<rparr>"
    by (simp_all add: run_states run_eval)
  have "unat (quota_reserved_bytes (run_object Committed)) = 100" by (simp add: quota_reserved_bytes_def run_object_def)
  with withdrawn_objects_hidden [OF master_inv.reachable_preserved [OF run_reachable(4)] run(1), of 9] run(2)
  show ?thesis by fastforce
qed

section \<open>Eviction\<close>

lemma order_of_reachable: "master_reachable st \<Longrightarrow> hm_ok (objects st)"
  using master_inv.reachable_preserved by (simp add: master_inv_def)

lemma eviction_class_leased:
  "has_active_lease t k now (leases st) \<Longrightarrow> eviction_class st now t k = None"
  by (simp add: eviction_class_def candidate_class_def split: option.splits)

text \<open>
  C20: the eviction policy, whatever the iteration order of the object table. Only keys of
  the tenant that are committed, not leased and not hard-pinned are evicted; nothing else
  about any object changes; soft-pinned objects go only once every normal candidate has
  gone; the call reports the bytes of what it evicted, it stops as soon as the target is
  met (all but the last victim stay below the target), and it falls short of the target
  only when no candidate is left.
\<close>

theorem eviction_policy:
  assumes "master_reachable st" and "mset order = mset (objects st)"
    and "evict_for_tenant order now t target st = (r, st')"
  shows "\<exists>n gone. r = Inr n \<and> distinct gone
    \<and> (\<forall>k \<in> set gone. \<exists>obj. hm_get (objects st) (t, k) = Some obj \<and> obj_status obj = Committed
          \<and> \<not> obj_hard_pinned obj \<and> \<not> has_active_lease t k now (leases st))
    \<and> (\<forall>k'. hm_get (objects st') k' =
          (if k' \<in> Pair t ` set gone then map_option evicted (hm_get (objects st) k')
           else hm_get (objects st) k'))
    \<and> unat n = min (sum_list (map (\<lambda>k. reserved_at st (t, k)) gone)) u64_max
    \<and> (gone \<noteq> [] \<longrightarrow> sum_list (butlast (map (\<lambda>k. reserved_at st (t, k)) gone)) < unat target)
    \<and> (n < target \<longrightarrow> (\<forall>k. eviction_class st now t k \<noteq> None \<longrightarrow> k \<in> set gone))
    \<and> ((\<exists>k \<in> set gone. eviction_class st now t k = Some SoftPinned) \<longrightarrow>
         (\<forall>k. eviction_class st now t k = Some Normal \<longrightarrow> k \<in> set gone))"
proof (rule evict_for_tenant_keys [OF order_of_reachable [OF assms(1)] assms(2,3)])
  fix n gone
  assume gone: "\<forall>k \<in> set gone. eviction_class st now t k \<noteq> None"
    and rest: "r = Inr n" "distinct gone" "\<forall>k'. hm_get (objects st') k' =
          (if k' \<in> Pair t ` set gone then map_option evicted (hm_get (objects st) k')
           else hm_get (objects st) k')"
      "unat n = min (sum_list (map (\<lambda>k. reserved_at st (t, k)) gone)) u64_max"
      "gone \<noteq> [] \<longrightarrow> sum_list (butlast (map (\<lambda>k. reserved_at st (t, k)) gone)) < unat target"
      "n < target \<longrightarrow> (\<forall>k. eviction_class st now t k \<noteq> None \<longrightarrow> k \<in> set gone)"
      "(\<exists>k \<in> set gone. eviction_class st now t k = Some SoftPinned) \<longrightarrow>
           (\<forall>k. eviction_class st now t k = Some Normal \<longrightarrow> k \<in> set gone)"
  have "\<forall>k \<in> set gone. \<exists>obj. hm_get (objects st) (t, k) = Some obj \<and> obj_status obj = Committed
          \<and> \<not> obj_hard_pinned obj \<and> \<not> has_active_lease t k now (leases st)"
    using gone by (fastforce simp: eviction_class_def candidate_class_def split: option.splits if_splits)
  with rest show ?thesis
    by (intro exI [of _ n] exI [of _ gone] conjI) assumption+
qed

lemma run_evict:
  "fst (evict_for_tenant (objects run_two) 6000 run_tenant 200 run_two) = Inr 100"
  by (simp add: evict_for_tenant_def run_states run_eval has_active_lease_def candidate_class_def
      quota_reserved_bytes_def lease_remove_def)

theorem eviction_policy_witness:
  "\<exists>st'. evict_for_tenant (objects run_two) 6000 run_tenant 200 run_two = (Inr 100, st')
     \<and> hm_get (objects st') (run_tenant, run_key) = Some (evicted (run_object Committed))"
proof -
  obtain st' where run: "evict_for_tenant (objects run_two) 6000 run_tenant 200 run_two = (Inr 100, st')"
    using run_evict by (metis prod.collapse)
  have "eviction_class run_two 6000 run_tenant run_key = Some Normal"
    "hm_get (objects run_two) (run_tenant, run_key) = Some (run_object Committed)"
    by (simp_all add: eviction_class_def has_active_lease_def candidate_class_def run_states run_eval)
  then show ?thesis
    using eviction_policy [OF run_two_reachable refl run] run by fastforce
qed

text \<open>What others may do while a reader uses what it found: everything but withdrawing the object.\<close>

inductive step_under_lease :: "u64 \<Rightarrow> object_key \<Rightarrow> master_state \<Rightarrow> master_state \<Rightarrow> bool"
  for now :: u64 and key :: object_key where
  lease_mount: "step_under_lease now key st (mount_segment node len st)"
| lease_quota: "step_under_lease now key st (snd (set_tenant_quota tenant dram ssd st))"
| lease_put_start: "step_under_lease now key st (snd (put_start t k len n st))"
| lease_put_end: "step_under_lease now key st (snd (put_end t k st))"
| lease_put_revoke: "(t, k) \<noteq> key \<Longrightarrow> step_under_lease now key st (snd (put_revoke t k st))"
| lease_remove_other: "(t, k) \<noteq> key \<Longrightarrow> step_under_lease now key st (snd (remove t k st))"
| lease_get: "now \<le> clock \<Longrightarrow> step_under_lease now key st (snd (get_replica_list clock t k st))"
| lease_evict: "mset order = mset (objects st) \<Longrightarrow> unat clock < unat now + 5000 \<Longrightarrow>
    step_under_lease now key st (snd (evict_for_tenant order clock t target st))"

definition held_until :: "nat \<Rightarrow> object_key \<Rightarrow> replica_descriptor list \<Rightarrow> master_state \<Rightarrow> bool" where
  "held_until until key replicas st \<longleftrightarrow>
     (\<exists>obj. hm_get (objects st) key = Some obj \<and> obj_status obj = Committed \<and> obj_replicas obj = replicas)
     \<and> (\<exists>l. hm_get (leases st) key = Some l \<and> until \<le> unat (expires_at_ms l))"

lemma evict_candidate_keys_leases:
  "key \<notin> Pair t ` set ks \<Longrightarrow>
   hm_get (leases (snd (evict_candidate_keys t target ks r st))) key = hm_get (leases st) key"
  by (induction ks arbitrary: r st)
     (auto simp: lease_remove_def Let_def release_tenant_quota_def image_iff split: option.splits)

lemma evict_for_tenant_leases:
  assumes "hm_ok (objects st)" and "mset order = mset (objects st)" and "has_active_lease t k now (leases st)"
  shows "hm_get (leases (snd (evict_for_tenant order now t' target st))) (t, k) = hm_get (leases st) (t, k)"
proof -
  obtain normal soft where coll: "collect_candidates t' now (leases st) order = (normal, soft)" by fastforce
  have notin: "(t, k) \<notin> Pair t' ` set normal" "(t, k) \<notin> Pair t' ` set soft"
    using collected_class [OF assms(1,2) coll] eviction_class_leased [OF assms(3)] by fastforce+
  show ?thesis
    using evict_candidate_keys_leases [OF notin(1)] evict_candidate_keys_leases [OF notin(2)]
    by (auto simp: evict_for_tenant_def coll split: prod.splits) (metis snd_conv)+
qed

lemma held_until_evict:
  assumes "hm_ok (objects st)" and "held_until until (t, k) replicas st"
    and "mset order = mset (objects st)" and "unat clock < until"
  shows "held_until until (t, k) replicas (snd (evict_for_tenant order clock t' target st))"
proof -
  obtain l where l: "hm_get (leases st) (t, k) = Some l" "until \<le> unat (expires_at_ms l)"
    using assms(2) by (auto simp: held_until_def)
  then have leased: "has_active_lease t k clock (leases st)"
    using assms(4) by (simp add: has_active_lease_def word_less_nat_alt)
  obtain r st2 where run: "evict_for_tenant order clock t' target st = (r, st2)" by fastforce
  show ?thesis
  proof (rule evict_for_tenant_keys [OF assms(1,3) run])
    fix n gone
    assume cls: "\<forall>k \<in> set gone. eviction_class st clock t' k \<noteq> None"
      and get: "\<forall>k'. hm_get (objects st2) k' =
          (if k' \<in> Pair t' ` set gone then map_option evicted (hm_get (objects st) k')
           else hm_get (objects st) k')"
    have "(t, k) \<notin> Pair t' ` set gone" using cls eviction_class_leased [OF leased] by auto
    then have "hm_get (objects st2) (t, k) = hm_get (objects st) (t, k)" using get by simp
    moreover have "hm_get (leases st2) (t, k) = Some l"
      using evict_for_tenant_leases [OF assms(1,3) leased, of t' target] run l(1) by simp
    ultimately show ?thesis using assms(2) l(2) run by (auto simp: held_until_def)
  qed
qed

lemma lease_expiry: "unat now + 5000 \<le> u64_max \<Longrightarrow> now \<le> clock \<Longrightarrow>
    unat now + 5000 \<le> unat (expires_at_ms (lease_new_at seq clock))"
  using unat_less_u64 [of clock]
  by (simp add: lease_new_at_def default_lease_ttl_ms_def unat_saturating_add word_le_nat_alt)

lemma held_until_get:
  assumes "held_until (unat now + 5000) (t, k) replicas st" and "now \<le> clock" and "unat now + 5000 \<le> u64_max"
  shows "held_until (unat now + 5000) (t, k) replicas (snd (get_replica_list clock t' k' st))"
  using assms(1) lease_expiry [OF assms(3,2)]
  by (auto simp: held_until_def get_replica_list_def lease_refresh_def Let_def hm_get_insert split: option.splits)

lemma held_until_step:
  assumes "step_under_lease now (t, k) st st'" and "master_reachable st"
    and "held_until (unat now + 5000) (t, k) replicas st" and "unat now + 5000 \<le> u64_max"
  shows "held_until (unat now + 5000) (t, k) replicas st'"
proof -
  have ok: "hm_ok (objects st)" by (rule order_of_reachable [OF assms(2)])
  from assms(1) show ?thesis
  proof cases
    case (lease_mount node len)
    then show ?thesis using assms(3) by (simp add: held_until_def mount_segment_def)
  next
    case (lease_quota tenant dram ssd)
    then show ?thesis
      using assms(3) by (auto simp: held_until_def set_tenant_quota_def Let_def split: sum.splits)
  next
    case (lease_put_start t' k' len n)
    then show ?thesis
      using assms(3)
      by (auto simp: held_until_def put_start_def reserve_tenant_quota_def release_tenant_quota_def Let_def hm_get_insert
          split: sum.splits option.splits)
  next
    case (lease_put_end t' k')
    then show ?thesis
      using assms(3) by (auto simp: held_until_def put_end_def hm_get_modify split: option.splits object_status.splits)
  next
    case (lease_put_revoke t' k')
    then show ?thesis
      using assms(3) by (auto simp: held_until_def put_revoke_retire hm_get_modify lease_remove_def split: option.splits)
  next
    case (lease_remove_other t' k')
    then show ?thesis
      using assms(3)
      by (auto simp: held_until_def remove_def release_tenant_quota_def lease_remove_def Let_def split: option.splits)
  next
    case (lease_get clock t' k')
    then show ?thesis using held_until_get [OF assms(3) _ assms(4)] by simp
  next
    case (lease_evict order clock t' target)
    then show ?thesis using held_until_evict [OF ok assms(3)] by simp
  qed
qed

lemma held_until_steps:
  assumes "(step_under_lease now (t, k))\<^sup>*\<^sup>* st st'" and "master_reachable st"
    and "held_until (unat now + 5000) (t, k) replicas st" and "unat now + 5000 \<le> u64_max"
  shows "held_until (unat now + 5000) (t, k) replicas st'"
proof -
  have "master_reachable st' \<and> held_until (unat now + 5000) (t, k) replicas st'"
    using assms(1)
  proof (induction rule: rtranclp_induct)
    case (step st1 st2)
    have "master_step st1 st2" using step.hyps(2) by cases (simp_all add: master_step.intros)
    then show ?case using step.IH reach_step held_until_step [OF step.hyps(2) _ _ assms(4)] by blast
  qed (use assms(2,3) in simp)
  then show ?thesis by simp
qed

text \<open>
  C21: a reader's lease protects what it read. An object returned by a lookup at time \<open>now\<close>
  stays committed, with the same replicas, through everything that happens in the following
  five seconds: any number of evictions of any tenant at times before \<open>now + 5000\<close>, further
  lookups at times not before \<open>now\<close>, writes, quotas and mounts, in any order, as long as nobody
  revokes or removes this object itself.
\<close>

theorem lease_protects_from_eviction:
  assumes "master_reachable st" and "get_replica_list now t k st = (Inr rl, st1)"
    and "(step_under_lease now (t, k))\<^sup>*\<^sup>* st1 st2" and "unat now + 5000 \<le> u64_max"
  shows "\<exists>obj. hm_get (objects st2) (t, k) = Some obj \<and> obj_status obj = Committed
           \<and> obj_replicas obj = rl_replicas rl"
proof -
  obtain obj l seq where obj: "hm_get (objects st) (t, k) = Some obj" "obj_status obj = Committed"
    "rl_replicas rl = obj_replicas obj" "l = lease_new_at seq now"
    and st1: "st1 = st\<lparr>next_lease_sequence := seq, leases := hm_insert (t, k) l (leases st)\<rparr>"
    using master_inv_get [OF assms(2)] by blast
  have "held_until (unat now + 5000) (t, k) (rl_replicas rl) st1"
    using obj lease_expiry [OF assms(4) order_refl] by (simp add: held_until_def st1)
  moreover have "master_reachable st1"
    using reach_step [OF assms(1) step_get, of now t k] assms(2) by simp
  ultimately have "held_until (unat now + 5000) (t, k) (rl_replicas rl) st2"
    using held_until_steps [OF assms(3) _ _ assms(4)] by blast
  then show ?thesis by (auto simp: held_until_def)
qed

text \<open>Two evictions of everything, with a write of another object in between.\<close>

theorem lease_protects_from_eviction_witness:
  "let st1 = snd (evict_for_tenant (objects run_read) 1 run_tenant 200 run_read);
       st2 = snd (put_start run_tenant run_key2 50 1 st1)
   in \<exists>obj. hm_get (objects (snd (evict_for_tenant (objects st2) 4999 run_tenant 200 st2)))
        (run_tenant, run_key) = Some obj
     \<and> obj_status obj = Committed \<and> obj_replicas obj = run_replicas"
proof -
  let ?step = "step_under_lease 0 (run_tenant, run_key)"
  let ?st1 = "snd (evict_for_tenant (objects run_read) 1 run_tenant 200 run_read)"
  let ?st2 = "snd (put_start run_tenant run_key2 50 1 ?st1)"
  let ?st3 = "snd (evict_for_tenant (objects ?st2) 4999 run_tenant 200 ?st2)"
  have "?step run_read ?st1" by (rule lease_evict) simp_all
  moreover have "?step ?st1 ?st2" by (rule lease_put_start)
  moreover have "?step ?st2 ?st3" by (rule lease_evict) simp_all
  ultimately have steps: "?step\<^sup>*\<^sup>* run_read ?st3" by (meson converse_rtranclp_into_rtranclp rtranclp.rtrancl_refl)
  show ?thesis
    using lease_protects_from_eviction [OF run_reachable(3) run_get steps] by (simp add: Let_def)
qed

section \<open>Failover\<close>

lemma hm_rebuild:
  assumes "hm_ok m"
  shows "hm_get (fold (\<lambda>(k, v). hm_insert k v) m []) = hm_get m"
    and "hm_ok (fold (\<lambda>(k, v). hm_insert k v) m [])"
  using assms hm.lookup_collect [of m] hm.invar_fold_insert [of "[]" m]
  by (auto simp: hm_ok_def hm_get_def)

lemma restored_tables:
  assumes "master_reachable st"
  shows "hm_get (objects (from_metadata_snapshot (metadata_snapshot st))) = hm_get (objects st)"
    and "hm_ok (objects (from_metadata_snapshot (metadata_snapshot st)))"
proof -
  have inv: "master_inv st" using master_inv.reachable_preserved [OF assms] .
  have "((obj_tenant_id (snd e), obj_cache_key (snd e)), snd e) = e" if "e \<in> set (objects st)" for e
    using that inv hm_get_iff [of "objects st" "fst e" "snd e"]
    by (cases e) (auto simp: master_inv_def object_ok_def)
  then have "map (\<lambda>obj. ((obj_tenant_id obj, obj_cache_key obj), obj)) (map snd (objects st)) = objects st"
    unfolding map_map comp_def by (rule map_idI)
  then show "hm_get (objects (from_metadata_snapshot (metadata_snapshot st))) = hm_get (objects st)"
    and "hm_ok (objects (from_metadata_snapshot (metadata_snapshot st)))"
    using inv by (simp_all add: from_metadata_snapshot_def metadata_snapshot_def master_inv_def hm_rebuild)
qed

text \<open>
  C32: what a failover keeps. Restoring the snapshot of a reachable state gives a master with
  the same objects, the same quotas and the same eviction count, in which every committed
  object is still readable with its replicas; leases, the lease counter and the mounted
  segments are not part of the snapshot.
\<close>

theorem snapshot_round_trip:
  assumes "master_reachable st"
  shows "\<exists>st'. from_metadata_snapshot (metadata_snapshot st) = st'
    \<and> hm_get (objects st') = hm_get (objects st) \<and> hm_get (quotas st') = hm_get (quotas st)
    \<and> evictions_total st' = evictions_total st
    \<and> hm_ok (objects st') \<and> hm_ok (quotas st')
    \<and> leases st' = [] \<and> allocator st' = [] \<and> next_lease_sequence st' = 0"
proof -
  have "hm_ok (quotas st)"
    using master_inv.reachable_preserved [OF assms] by (simp add: master_inv_def)
  then show ?thesis
    using restored_tables [OF assms]
    by (simp add: from_metadata_snapshot_def metadata_snapshot_def hm_rebuild)
qed

theorem snapshot_round_trip_witness:
  "hm_get (objects (from_metadata_snapshot (metadata_snapshot run_two))) (run_tenant, run_key)
     = Some (run_object Committed)"
proof -
  have "hm_get (objects run_two) (run_tenant, run_key) = Some (run_object Committed)"
    by (simp add: run_states run_eval)
  with snapshot_round_trip [OF run_two_reachable] show ?thesis by simp
qed

text \<open>
  C34: what a failover loses. The offsets in use are not restored: on the first node
  mounted after a restore, the first \<^verbatim>\<open>put_start\<close> is given offset 0, where an object of the
  restored table that is still readable already has its bytes.
\<close>

theorem failover_reuses_space:
  assumes "master_reachable st"
    and "hm_get (objects st) k0 = Some obj" and "obj_status obj = Committed"
    and "r0 \<in> set (obj_replicas obj)" and "rep_offset r0 = 0"
    and "put_start t k len n
           (mount_segment (rep_node_id r0) cap (from_metadata_snapshot (metadata_snapshot st))) = (Inr rs, st')"
  shows "\<exists>r \<in> set rs. \<not> replica_disjoint r0 r \<and> hm_get (objects st') k0 = Some obj"
proof -
  let ?st = "mount_segment (rep_node_id r0) cap (from_metadata_snapshot (metadata_snapshot st))"
  have objs: "hm_get (objects ?st) k0 = Some obj"
    using restored_tables(1) [OF assms(1)] assms(2) by (simp add: mount_segment_def)
  have segs: "allocator ?st = [\<lparr>seg_node_id = rep_node_id r0, seg_len = cap, seg_next_offset = 0\<rparr>]"
    by (simp add: mount_segment_def allocator_mount_def from_metadata_snapshot_def)
  have len0: "0 < unat (rep_len r0)"
    using master_inv.reachable_preserved [OF assms(1)] assms(2,4)
    by (auto simp: master_inv_def object_ok_def)
  show ?thesis
  proof (rule put_start_Inr [OF assms(6)])
    fix allocs alloc'
    assume alloc: "allocator_allocate len n (allocator ?st) = Inr (allocs, alloc')"
      and rs: "rs = map replica_of_allocation allocs"
      and fresh: "hm_get (objects ?st) (t, k) = None"
      and objs': "objects st' = objects ?st @ [((t, k), \<lparr>obj_tenant_id = t, obj_cache_key = k,
           obj_len = len, obj_status = Reserving, obj_replicas = rs, obj_hard_pinned = False,
           obj_soft_pinned_until_ms = None\<rparr>)]"
    note counts = allocate_counts [OF alloc]
    obtain a where a: "a \<in> set allocs"
      using counts(2,3) by (cases allocs) auto
    then have "alloc_node_id a = rep_node_id r0" "alloc_offset a = 0" "alloc_len a = len"
      using allocate_placement [OF alloc a] counts(4) by (auto simp: segs)
    then have "\<not> replica_disjoint r0 (replica_of_allocation a)"
      using len0 counts(1) assms(5) by (simp add: replica_disjoint_def replica_of_allocation_def)
    moreover have "hm_get (objects st') k0 = Some obj"
      using objs unfolding objs' by (simp add: hm_get_def)
    ultimately show ?thesis
      using a rs by auto
  qed
qed

lemma run_failover:
  "fst (put_start run_tenant run_key2 10 1
     (mount_segment ''a'' 1000 (from_metadata_snapshot (metadata_snapshot run_read))))
   = Inr [\<lparr>rep_node_id = ''a'', rep_offset = 0, rep_len = 10\<rparr>]"
  by (simp add: from_metadata_snapshot_def metadata_snapshot_def mount_segment_def
      allocator_mount_def run_states run_eval)

theorem failover_reuses_space_witness:
  "\<not> replica_disjoint \<lparr>rep_node_id = ''a'', rep_offset = 0, rep_len = 100\<rparr>
                      \<lparr>rep_node_id = ''a'', rep_offset = 0, rep_len = 10\<rparr>"
proof -
  let ?r0 = "\<lparr>rep_node_id = ''a'', rep_offset = 0, rep_len = 100\<rparr>"
  let ?st = "mount_segment ''a'' 1000 (from_metadata_snapshot (metadata_snapshot run_read))"
  obtain st' where run: "put_start run_tenant run_key2 10 1 ?st
      = (Inr [\<lparr>rep_node_id = ''a'', rep_offset = 0, rep_len = 10\<rparr>], st')"
    using run_failover by (metis prod.collapse)
  have "hm_get (objects run_read) (run_tenant, run_key) = Some (run_object Committed)"
    "obj_status (run_object Committed) = Committed" "?r0 \<in> set (obj_replicas (run_object Committed))"
    by (simp_all add: run_states run_eval)
  from failover_reuses_space [OF run_reachable(4) this, of run_tenant run_key2 10 1 1000] run
  show ?thesis by auto
qed

end
