(* ===== verification/Local_Cache.thy ===== *)
theory Local_Cache
imports Cache_Backend Master_Contract
begin

text \<open>
  The local clients, a master and a memory store in one process, are a cache in the sense of
  \<open>cache_backend\<close>. The local store client ignores the node of a replica, so the master may
  have at most one segment mounted.
\<close>

section \<open>The map behind the local clients\<close>

definition replica_handle :: "replica_descriptor \<Rightarrow> chunk_handle" where
  "replica_handle r = \<lparr>ch_offset = rep_offset r, ch_len = rep_len r\<rparr>"

definition stored_bytes :: "(bytes \<Rightarrow> bytes) \<Rightarrow> cache_object_meta \<Rightarrow> memory_store \<Rightarrow> bytes option" where
  "stored_bytes sha256 obj st =
     (case obj_replicas obj of
        [] \<Rightarrow> None
      | r # _ \<Rightarrow> (case read_chunk sha256 (replica_handle r) st of Inl _ \<Rightarrow> None | Inr bs \<Rightarrow> Some bs))"

definition local_contents :: "(bytes \<Rightarrow> bytes) \<Rightarrow> ('x local_world_scheme) \<Rightarrow> object_key \<rightharpoonup> bytes" where
  "local_contents sha256 w key =
     (case hm_get (objects (lw_master w)) key of
        None \<Rightarrow> None
      | Some obj \<Rightarrow> if obj_status obj = Committed then stored_bytes sha256 obj (lw_store w) else None)"

text \<open>A master that serves a cache: its invariants hold, and at most one segment is mounted.\<close>

definition cache_master :: "master_state \<Rightarrow> bool" where
  "cache_master m \<longleftrightarrow> master_inv m \<and> placement_inv m \<and> length (allocator m) \<le> 1"

definition local_inv :: "(bytes \<Rightarrow> bytes) \<Rightarrow> ('x local_world_scheme) \<Rightarrow> bool" where
  "local_inv sha256 w \<longleftrightarrow>
     cache_master (lw_master w) \<and> memory_inv (lw_store w)
     \<and> (\<forall>key obj. hm_get (objects (lw_master w)) key = Some obj \<longrightarrow> obj_status obj = Committed \<longrightarrow>
          stored_bytes sha256 obj (lw_store w) \<noteq> None)"

definition local_pending :: "('x local_world_scheme) \<Rightarrow> object_key \<Rightarrow> replica_descriptor \<Rightarrow> bool" where
  "local_pending w key r \<longleftrightarrow>
     (\<exists>obj. hm_get (objects (lw_master w)) key = Some obj \<and> obj_status obj = Reserving \<and> obj_replicas obj = [r])"

definition local_filled ::
  "(bytes \<Rightarrow> bytes) \<Rightarrow> ('x local_world_scheme) \<Rightarrow> object_key \<Rightarrow> replica_descriptor \<Rightarrow> bytes \<Rightarrow> bool" where
  "local_filled sha256 w key r bs \<longleftrightarrow>
     local_pending w key r \<and> read_chunk sha256 (replica_handle r) (lw_store w) = Inr bs"

definition local_keeps :: "('x local_world_scheme) \<Rightarrow> ('x local_world_scheme) \<Rightarrow> bool" where
  "local_keeps w w' \<longleftrightarrow> lw_master w' = lw_master w \<and> lw_store w' = lw_store w"

section \<open>Lemmas\<close>

declare split_paired_All [simp del] split_paired_Ex [simp del]

lemma from_replica_handle: "from_replica r = Inr h \<longleftrightarrow> h = replica_handle r"
  by (auto simp: from_replica_def replica_handle_def)

text \<open>With one segment, replicas of different objects are different chunks of the store.\<close>

lemma cache_chunks_disjoint:
  assumes "cache_master m"
    and "hm_get (objects m) k1 = Some obj1" and "hm_get (objects m) k2 = Some obj2"
    and "k1 \<noteq> k2" and "r1 \<in> set (obj_replicas obj1)" and "r2 \<in> set (obj_replicas obj2)"
  shows "chunk_disjoint (replica_handle r1) (replica_handle r2)"
proof -
  have inv: "placement_inv m" and one: "length (allocator m) \<le> 1" using assms(1) by (simp_all add: cache_master_def)
  have "distinct (map seg_node_id (allocator m))"
    using one by (cases "allocator m" rule: list.exhaust) auto
  from placement_disjoint [OF inv this assms(2-6)] have dis: "replica_disjoint r1 r2" .
  have "placed (allocator m) r1" "placed (allocator m) r2"
    using inv replicas_in_all assms(2-6) by (auto simp: placement_inv_def)
  then have "rep_node_id r1 = rep_node_id r2"
    using one by (cases "allocator m") (auto simp: placed_def)
  with dis show ?thesis
    by (auto simp: replica_disjoint_def chunk_disjoint_def replica_handle_def)
qed

section \<open>Steps of the master behind a cache\<close>

lemma put_end_Inr:
  assumes "put_end t k st = (Inr u, st')"
  shows "\<exists>obj. hm_get (objects st) (t, k) = Some obj \<and> obj_status obj \<in> {Reserving, Writing}
    \<and> st' = st\<lparr>objects := hm_modify (t, k) (\<lambda>obj. obj\<lparr>obj_status := Committed\<rparr>) (objects st)\<rparr>"
  using assms by (auto simp: put_end_def split: option.splits object_status.splits)

lemma put_end_Inl: "put_end t k st = (Inl e, st') \<Longrightarrow> st' = st"
  by (auto simp: put_end_def split: option.splits object_status.splits)

lemma cache_get_absent:
  assumes "\<And>obj. hm_get (objects m) (t, k) = Some obj \<Longrightarrow> obj_status obj \<noteq> Committed"
  shows "get_replica_list now t k m = (Inl NotFound, m)"
  using assms by (auto simp: get_replica_list_def split: option.splits)

lemma cache_get_present:
  assumes "cache_master m" and "hm_get (objects m) (t, k) = Some obj" and "obj_status obj = Committed"
  obtains rl m' where "get_replica_list now t k m = (Inr rl, m')" and "rl_replicas rl = obj_replicas obj"
    and "objects m' = objects m" and "cache_master m'"
proof -
  obtain rl m' where get: "get_replica_list now t k m = (Inr rl, m')"
    using assms by (auto simp: get_replica_list_def lease_refresh_def Let_def)
  note g = master_inv_get [OF get]
  have "master_inv m' \<and> placement_inv m'"
    using placement.leased [OF _ get] assms(1) by (simp add: cache_master_def)
  then show thesis
    using g assms by (intro that [OF get]) (auto simp: cache_master_def)
qed

lemma cache_start_refused:
  "cache_master m \<Longrightarrow> put_start t k len n m = (Inl e, m') \<Longrightarrow> m' = m"
  using put_start_Inl_unchanged by (auto simp: cache_master_def master_inv_def)

lemma cache_start_granted:
  assumes "cache_master m" and "put_start t k len replica_count m = (Inr rs, m')"
  obtains r obj where "rs = [r]" and "hm_get (objects m) (t, k) = None" and "cache_master m'"
    and "obj_status obj = Reserving" and "obj_replicas obj = [r]"
    and "\<And>key. hm_get (objects m') key = (if key = (t, k) then Some obj else hm_get (objects m) key)"
proof (rule put_start_Inr [OF assms(2)])
  fix allocs alloc'
  let ?obj = "\<lparr>obj_tenant_id = t, obj_cache_key = k, obj_len = len,
          obj_status = Reserving, obj_replicas = rs, obj_hard_pinned = False, obj_soft_pinned_until_ms = None\<rparr>"
  assume fresh: "hm_get (objects m) (t, k) = None"
    and alloc: "allocator_allocate len replica_count (allocator m) = Inr (allocs, alloc')"
    and rs: "rs = map replica_of_allocation allocs"
    and objs: "objects m' = objects m @ [((t, k), ?obj)]"
    and alloc': "allocator m' = alloc'"
  have "length rs = 1" using allocate_counts(3) [OF alloc] by (simp add: rs replica_count_def)
  then obtain r where r: "rs = [r]" by (cases rs) auto
  have "master_inv m' \<and> placement_inv m'"
    using placement.started [OF _ assms(2)] assms(1) by (simp add: cache_master_def)
  then have "cache_master m'"
    using assms(1) allocate_frame(1) [OF alloc] by (simp add: cache_master_def alloc')
  then show thesis
    using fresh r by (intro that [of r ?obj]) (auto simp: objs hm_get_def map_add_def split: option.splits)
qed

lemma cache_committed:
  assumes "cache_master m" and "hm_get (objects m) (t, k) = Some obj" and "put_end t k m = (Inr u, m')"
  shows "cache_master m'"
    and "hm_get (objects m') key = (if key = (t, k) then Some (obj\<lparr>obj_status := Committed\<rparr>) else hm_get (objects m) key)"
proof -
  have m': "m' = m\<lparr>objects := hm_modify (t, k) (\<lambda>obj. obj\<lparr>obj_status := Committed\<rparr>) (objects m)\<rparr>"
    and "obj_status obj \<in> {Reserving, Writing}"
    using put_end_Inr [OF assms(3)] assms(2) by auto
  then show "cache_master m'"
    using placement.committed [of m t k obj] assms(1,2) by (auto simp: cache_master_def)
  show "hm_get (objects m') key = (if key = (t, k) then Some (obj\<lparr>obj_status := Committed\<rparr>) else hm_get (objects m) key)"
    using assms(2) by (simp add: m')
qed

lemma cache_revoked:
  assumes "cache_master m" and "hm_get (objects m) (t, k) = Some obj"
    and "put_revoke t k m = (res, m')"
  shows "cache_master m'"
    and "hm_get (objects m') key = (if key = (t, k) then Some (obj\<lparr>obj_status := Revoked\<rparr>) else hm_get (objects m) key)"
proof -
  have m': "m' = retire Revoked t k obj m" using assms by (simp add: put_revoke_retire)
  then show "cache_master m'"
    using placement.retired [of m t k obj Revoked] assms by (simp add: cache_master_def)
  show "hm_get (objects m') key = (if key = (t, k) then Some (obj\<lparr>obj_status := Revoked\<rparr>) else hm_get (objects m) key)"
    using assms(2) by (simp add: m')
qed

section \<open>Lemmas on the map\<close>

lemma stored_bytes_beside:
  assumes "memory_inv st" and "length bs \<le> u64_max"
    and "write_preallocated_chunk sha256 h bs st = (res, st')"
    and "object_ok key obj" and "\<And>r. r \<in> set (obj_replicas obj) \<Longrightarrow> chunk_disjoint h (replica_handle r)"
  shows "stored_bytes sha256 obj st' = stored_bytes sha256 obj st"
proof (cases "obj_replicas obj")
  case (Cons r rs)
  have "0 < unat (ch_len (replica_handle r))"
    using assms(4) Cons by (auto simp: object_ok_def replica_handle_def)
  moreover have "chunk_disjoint h (replica_handle r)" using assms(5) Cons by simp
  ultimately have "read_chunk sha256 (replica_handle r) (snd (write_preallocated_chunk sha256 h bs st))
      = read_chunk sha256 (replica_handle r) st"
    using pre.read_beside [OF assms(1,2)] by blast
  then show ?thesis using Cons assms(3) by (simp add: stored_bytes_def)
qed (simp add: stored_bytes_def)

lemma local_contents_same:
  assumes "lw_master w' = lw_master w" and "lw_store w' = lw_store w"
  shows "local_contents sha256 w' = local_contents sha256 w" and "local_inv sha256 w' = local_inv sha256 w"
  unfolding fun_eq_iff local_contents_def local_inv_def assms by simp_all

text \<open>The map and the invariant depend only on the status and the replicas of committed objects.\<close>

lemma local_contents_master:
  assumes "\<And>key. hm_get (objects m') key = hm_get (objects (lw_master w)) key
      \<or> (\<forall>obj. hm_get (objects (lw_master w)) key = Some obj \<longrightarrow> obj_status obj \<noteq> Committed)
        \<and> (\<forall>obj. hm_get (objects m') key = Some obj \<longrightarrow> obj_status obj \<noteq> Committed)"
  shows "local_contents sha256 (w\<lparr>lw_master := m'\<rparr>) = local_contents sha256 w"
proof
  fix key
  show "local_contents sha256 (w\<lparr>lw_master := m'\<rparr>) key = local_contents sha256 w key"
    using assms [of key] by (auto simp: local_contents_def split: option.splits)
qed

lemma local_inv_master:
  assumes "local_inv sha256 w" and "cache_master m'"
    and "\<And>key obj. hm_get (objects m') key = Some obj \<Longrightarrow> obj_status obj = Committed \<Longrightarrow>
      stored_bytes sha256 obj (lw_store w) \<noteq> None"
  shows "local_inv sha256 (w\<lparr>lw_master := m'\<rparr>)"
  using assms by (auto simp: local_inv_def)

section \<open>The laws\<close>

lemma local_lookup_present:
  assumes "local_inv sha256 w" and "local_contents sha256 w (t, k) = Some bs"
  obtains rl r rs w' where
    "mc_get_replica_list local_master_client t k w = (Inr rl, w')" and "rl_replicas rl = r # rs"
    and "local_read_chunk sha256 t k (replica_handle r) w' = (Inr \<lparr>sch_bytes = bs, sch_tier = ''dram''\<rparr>, w')"
    and "local_inv sha256 w'" and "local_contents sha256 w' = local_contents sha256 w"
proof -
  let ?m = "lw_master w"
  have ok: "cache_master ?m" using assms(1) by (simp add: local_inv_def)
  obtain obj r rs where obj: "hm_get (objects ?m) (t, k) = Some obj" "obj_status obj = Committed"
    and rep: "obj_replicas obj = r # rs" "read_chunk sha256 (replica_handle r) (lw_store w) = Inr bs"
    using assms(2) by (auto simp: local_contents_def stored_bytes_def split: option.splits if_splits list.splits sum.splits)
  obtain rl m' where get: "get_replica_list (lw_now w) t k ?m = (Inr rl, m')" "rl_replicas rl = obj_replicas obj"
    and m': "objects m' = objects ?m" "cache_master m'"
    by (rule cache_get_present [OF ok obj])
  have "local_inv sha256 (w\<lparr>lw_master := m'\<rparr>)"
    using assms(1) m' by (intro local_inv_master) (auto simp: local_inv_def)
  moreover have "local_contents sha256 (w\<lparr>lw_master := m'\<rparr>) = local_contents sha256 w"
    by (rule local_contents_master) (simp add: m')
  ultimately show thesis
    using get rep
    by (intro that [of rl "w\<lparr>lw_master := m'\<rparr>" r rs])
       (simp_all add: local_master_client_def local_master_def local_read_chunk_def)
qed

lemma local_lookup_absent:
  assumes "local_inv sha256 w" and "local_contents sha256 w (t, k) = None"
  shows "mc_get_replica_list local_master_client t k w = (Inl (GeCache NotFound), w)"
proof -
  have "obj_status obj \<noteq> Committed" if "hm_get (objects (lw_master w)) (t, k) = Some obj" for obj
    using assms that by (fastforce simp: local_inv_def local_contents_def)
  then show ?thesis
    using cache_get_absent [of "lw_master w"] by (simp add: local_master_client_def local_master_def)
qed

text \<open>A lookup, whatever it finds, with the read of what it found.\<close>

lemma local_lookup:
  assumes "local_inv sha256 w" and "mc_get_replica_list local_master_client t k w = (found, w')"
  shows "local_inv sha256 w' \<and> local_contents sha256 w' = local_contents sha256 w
    \<and> (\<forall>rl r rs. found = Inr rl \<longrightarrow> rl_replicas rl = r # rs \<longrightarrow>
        (\<exists>bs. local_contents sha256 w (t, k) = Some bs
          \<and> local_read_chunk sha256 t k (replica_handle r) w' = (Inr \<lparr>sch_bytes = bs, sch_tier = ''dram''\<rparr>, w')))"
proof (cases "local_contents sha256 w (t, k)")
  case None
  then show ?thesis using local_lookup_absent [OF assms(1) None] assms by auto
next
  case (Some bs)
  show ?thesis by (rule local_lookup_present [OF assms(1) Some]) (use assms(2) Some in auto)
qed

lemma local_start_granted:
  assumes "local_inv sha256 w" and "put_start t k len replica_count (lw_master w) = (Inr rs, m')"
  shows "\<exists>r. rs = [r] \<and> local_inv sha256 (w\<lparr>lw_master := m'\<rparr>)
    \<and> local_contents sha256 (w\<lparr>lw_master := m'\<rparr>) = local_contents sha256 w
    \<and> local_contents sha256 w (t, k) = None \<and> local_pending (w\<lparr>lw_master := m'\<rparr>) (t, k) r"
proof -
  have "cache_master (lw_master w)" using assms(1) by (simp add: local_inv_def)
  from this assms(2) obtain r obj where r: "rs = [r]" "hm_get (objects (lw_master w)) (t, k) = None" "cache_master m'"
    "obj_status obj = Reserving" "obj_replicas obj = [r]"
    and get: "\<And>key. hm_get (objects m') key = (if key = (t, k) then Some obj else hm_get (objects (lw_master w)) key)"
    by (rule cache_start_granted) blast
  have "local_inv sha256 (w\<lparr>lw_master := m'\<rparr>)"
    using assms(1) r by (intro local_inv_master) (auto simp: get local_inv_def split: if_splits)
  moreover have "local_contents sha256 (w\<lparr>lw_master := m'\<rparr>) = local_contents sha256 w"
    by (rule local_contents_master) (auto simp: get r)
  ultimately show ?thesis
    using r by (auto simp: get local_pending_def local_contents_def)
qed

lemma local_written:
  assumes "local_inv sha256 w" and "local_pending w (t, k) r" and "length bs \<le> u64_max"
    and "write_preallocated_chunk sha256 (replica_handle r) bs (lw_store w) = (res, st')"
  shows "local_inv sha256 (w\<lparr>lw_store := st'\<rparr>) \<and> local_contents sha256 (w\<lparr>lw_store := st'\<rparr>) = local_contents sha256 w"
    and "res = Inr u \<Longrightarrow> read_chunk sha256 (replica_handle r) st' = Inr bs"
proof -
  let ?objs = "objects (lw_master w)"
  have mem: "memory_inv (lw_store w)" and ok: "cache_master (lw_master w)" using assms(1) by (simp_all add: local_inv_def)
  obtain obj where obj: "hm_get ?objs (t, k) = Some obj" "obj_status obj = Reserving" "obj_replicas obj = [r]"
    using assms(2) by (auto simp: local_pending_def)
  have same: "stored_bytes sha256 obj' st' = stored_bytes sha256 obj' (lw_store w)"
    if "hm_get ?objs key = Some obj'" "obj_status obj' = Committed" for key obj'
  proof (rule stored_bytes_beside [OF mem assms(3,4)])
    show "object_ok key obj'" using assms(1) that by (auto simp: local_inv_def cache_master_def master_inv_def)
    have "key \<noteq> (t, k)" using obj that by auto
    then show "chunk_disjoint (replica_handle r) (replica_handle r')" if "r' \<in> set (obj_replicas obj')" for r'
      using cache_chunks_disjoint [OF ok obj(1) \<open>hm_get ?objs key = Some obj'\<close>, of r r'] obj(3) that by auto
  qed
  have "memory_inv st'" using pre.inv_written [OF mem assms(3,4)] .
  then have "local_inv sha256 (w\<lparr>lw_store := st'\<rparr>)"
    using assms(1) same by (auto simp: local_inv_def)
  moreover have "local_contents sha256 (w\<lparr>lw_store := st'\<rparr>) key = local_contents sha256 w key" for key
    using same [of key] by (auto simp: local_contents_def split: option.splits)
  ultimately show "local_inv sha256 (w\<lparr>lw_store := st'\<rparr>) \<and> local_contents sha256 (w\<lparr>lw_store := st'\<rparr>) = local_contents sha256 w"
    by blast
  show "res = Inr u \<Longrightarrow> read_chunk sha256 (replica_handle r) st' = Inr bs"
    using pre.read_written [OF mem] assms(4) by blast
qed

lemma local_committed:
  assumes "local_inv sha256 w" and "local_filled sha256 w (t, k) r bs" and "put_end t k (lw_master w) = (Inr u, m')"
  shows "local_inv sha256 (w\<lparr>lw_master := m'\<rparr>)
    \<and> local_contents sha256 (w\<lparr>lw_master := m'\<rparr>) = (local_contents sha256 w)((t, k) \<mapsto> bs)"
proof -
  let ?m = "lw_master w"
  obtain obj where obj: "hm_get (objects ?m) (t, k) = Some obj" "obj_replicas obj = [r]"
    and read: "read_chunk sha256 (replica_handle r) (lw_store w) = Inr bs"
    using assms(2) by (auto simp: local_filled_def local_pending_def)
  have "cache_master ?m" using assms(1) by (simp add: local_inv_def)
  note m' = cache_committed [OF this obj(1) assms(3)]
  have "local_inv sha256 (w\<lparr>lw_master := m'\<rparr>)"
    using assms(1) obj read m'(1)
    by (intro local_inv_master) (auto simp: m'(2) local_inv_def stored_bytes_def split: if_splits)
  moreover have "local_contents sha256 (w\<lparr>lw_master := m'\<rparr>) key = ((local_contents sha256 w)((t, k) \<mapsto> bs)) key" for key
    using obj read by (auto simp: local_contents_def m'(2) stored_bytes_def split: option.splits)
  ultimately show ?thesis by blast
qed

lemma local_revoked:
  assumes "local_inv sha256 w" and "local_pending w (t, k) r" and "put_revoke t k (lw_master w) = (res, m')"
  shows "local_inv sha256 (w\<lparr>lw_master := m'\<rparr>)
    \<and> local_contents sha256 (w\<lparr>lw_master := m'\<rparr>) = local_contents sha256 w"
proof -
  obtain obj where obj: "hm_get (objects (lw_master w)) (t, k) = Some obj" "obj_status obj = Reserving"
    using assms(2) by (auto simp: local_pending_def)
  have "cache_master (lw_master w)" using assms(1) by (simp add: local_inv_def)
  note m' = cache_revoked [OF this obj(1) assms(3)]
  have "local_inv sha256 (w\<lparr>lw_master := m'\<rparr>)"
    using m'(1) assms(1) by (intro local_inv_master) (auto simp: m'(2) local_inv_def split: if_splits)
  moreover have "local_contents sha256 (w\<lparr>lw_master := m'\<rparr>) = local_contents sha256 w"
    using obj by (intro local_contents_master) (auto simp: m'(2))
  ultimately show ?thesis by blast
qed

section \<open>The local clients are a cache\<close>

lemma local_master_run:
  assumes "local_master f w = (r, w')"
  obtains x m' where "f (lw_master w) = (x, m')" and "map_err GeCache x = r" and "w' = w\<lparr>lw_master := m'\<rparr>"
  using assms that by (auto simp: local_master_def split: prod.splits)

lemma map_err_eq_Inl: "map_err f r = Inl e \<longleftrightarrow> (\<exists>x. r = Inl x \<and> e = f x)"
  by (cases r) auto

lemmas local_client_defs = local_master_client_def local_store_client_def

interpretation local: cached_gateway local_master_client "local_store_client sha256" "local_inv sha256"
  "local_contents sha256" local_pending "local_filled sha256" "\<lambda>_. True" True local_keeps for sha256
proof (unfold_locales, goal_cases)
  case (1 w t k found w')
  then show ?case using local_lookup [of sha256 w t k found w'] by blast
next
  case (2 w t k rl w' r rs h got w'')
  then show ?case
    using local_lookup [of sha256 w t k "Inr rl" w'] by (auto simp: local_store_client_def from_replica_handle)
next
  case (3 w t k bs)
  show ?case
    by (rule local_lookup_present [OF 3(2,4)])
       (auto simp: local_store_client_def from_replica_handle)
next
  case (4 w t k len e w')
  then obtain x m' where "put_start t k len replica_count (lw_master w) = (Inl x, m')" "w' = w\<lparr>lw_master := m'\<rparr>"
    by (auto simp: local_client_defs map_err_eq_Inl elim!: local_master_run)
  moreover from this(1) have "m' = lw_master w"
    using cache_start_refused 4(1) by (auto simp: local_inv_def)
  ultimately show ?case using 4(1) by simp
next
  case (5 w t k len rs w')
  then obtain m' where "put_start t k len replica_count (lw_master w) = (Inr rs, m')" "w' = w\<lparr>lw_master := m'\<rparr>"
    by (auto simp: local_client_defs elim!: local_master_run)
  then show ?case using local_start_granted [OF 5(1)] by (auto simp: from_replica_handle)
next
  case (6 w t k r h bs res w')
  then obtain x st' where put: "write_preallocated_chunk sha256 (replica_handle r) bs (lw_store w) = (x, st')"
    and w': "w' = w\<lparr>lw_store := st'\<rparr>" "res = map_err GeStore x"
    by (auto simp: local_client_defs local_write_preallocated_chunk_def from_replica_handle split: prod.splits)
  note l = local_written [OF 6(1,3,5) put]
  have "local_pending w' (t, k) r" using 6(3) by (simp add: local_pending_def w')
  then show ?case using l w' by (auto simp: local_filled_def)
next
  case (7 w t k r bs u w')
  then obtain m' where "put_end t k (lw_master w) = (Inr u, m')" "w' = w\<lparr>lw_master := m'\<rparr>"
    by (auto simp: local_client_defs elim!: local_master_run)
  then show ?case using local_committed [OF 7(1,3)] by auto
next
  case (8 w t k r bs e w')
  then obtain x m' where "put_end t k (lw_master w) = (Inl x, m')" "w' = w\<lparr>lw_master := m'\<rparr>"
    by (auto simp: local_client_defs map_err_eq_Inl elim!: local_master_run)
  then show ?case using 8(1,3) put_end_Inl by (fastforce simp: local_filled_def)
next
  case (9 w t k r res w')
  then obtain x m' where "put_revoke t k (lw_master w) = (x, m')" "w' = w\<lparr>lw_master := m'\<rparr>"
    by (auto simp: local_client_defs elim!: local_master_run)
  then show ?case using local_revoked [OF 9(1,3)] by auto
next
  case 10
  then show ?case by simp
next
  case (11 w w')
  then show ?case using local_contents_same [of w' w sha256] by (simp add: local_keeps_def)
qed

section \<open>Contract\<close>

lemma dispatched_unique:
  assumes "dispatched env state auth cc body s t c r k s1" and "dispatched env state auth cc body s t' c' r' k' s1'"
  shows "t' = t \<and> c' = c \<and> r' = r \<and> k' = k \<and> s1' = s1"
  using assms by (auto simp: dispatched_def)

text \<open>
  C1: the gateway over its local clients refines a map from tenant and cache key to bytes. A
  request changes the map in at most one place, its own tenant and key, only when its answer
  says that the write was committed, only when nothing was stored there before, and then to
  the serialized answer; it never disturbs what other keys or other tenants have stored. The
  vendor is assumed not to touch the master and the store of the process.
\<close>

theorem gateway_refines_cache_map:
  assumes "backed local_master_client (local_store_client sha256) state"
    and "vendor_keeps local_keeps (gs_vendor state)" and "serde_bounded (env_serde env)"
    and "local_inv sha256 (gw_world s)" and "handle_response_request env state auth cc body s = (r, s')"
  shows "local_inv sha256 (gw_world s') \<and>
    (if \<exists>tenant control request key s1. dispatched env state auth cc body s tenant control request key s1
     then \<exists>tenant control request key s1. dispatched env state auth cc body s tenant control request key s1
       \<and> reflected True (env_serde env) (tenant, key) (local_contents sha256 (gw_world s)) r
           (local_contents sha256 (gw_world s'))
     else local_contents sha256 (gw_world s') = local_contents sha256 (gw_world s))"
  using local.dispatched_reflected [OF assms _ TrueI] local.undispatched_kept [OF assms(2,4,5)] by metis


end
