(* ===== verification/Master_App.thy ===== *)
theory Master_App
imports Master_Contract Clients
begin

text \<open>
  \<^verbatim>\<open>apps/master/src/main.rs\<close>: the control plane as a service. A leader applies a request to the
  master, takes a snapshot and saves it before it answers; a standby refuses every change. The
  handlers here run these steps in a row, \<^verbatim>\<open>Master_Tasks\<close> interleaves them. The
  metadata store is an interface, implemented by a cell in memory and by etcd over HTTP; the
  HTTP client, base64 and the JSON form of a snapshot are arguments of the latter. Requests
  arrive deserialized.
\<close>

section \<open>Leadership and metadata store\<close>

record leadership_state =
  ls_local_id :: string
  ls_leader_id :: string

definition leadership_leader :: "string \<Rightarrow> leadership_state" where
  "leadership_leader local_id = \<lparr>ls_local_id = local_id, ls_leader_id = local_id\<rparr>"

definition leadership_standby :: "string \<Rightarrow> string \<Rightarrow> leadership_state" where
  "leadership_standby local_id leader_id = \<lparr>ls_local_id = local_id, ls_leader_id = leader_id\<rparr>"

definition is_leader :: "leadership_state \<Rightarrow> bool" where
  "is_leader l \<longleftrightarrow> ls_local_id l = ls_leader_id l"

record 'w metadata_ops =
  md_load :: "'w \<Rightarrow> (string + master_metadata_snapshot option) \<times> 'w"
  md_save :: "master_metadata_snapshot \<Rightarrow> 'w \<Rightarrow> (string + unit) \<times> 'w"

text \<open>The store in memory: its world is the cell.\<close>

definition memory_load ::
  "master_metadata_snapshot option \<Rightarrow> (string + master_metadata_snapshot option) \<times> master_metadata_snapshot option"
where
  "memory_load cell = (Inr cell, cell)"

definition memory_save ::
  "master_metadata_snapshot \<Rightarrow> master_metadata_snapshot option \<Rightarrow> (string + unit) \<times> master_metadata_snapshot option"
where
  "memory_save snap cell = (Inr (), Some snap)"

definition memory_metadata :: "master_metadata_snapshot option metadata_ops" where
  "memory_metadata = \<lparr>md_load = memory_load, md_save = memory_save\<rparr>"

section \<open>Etcd\<close>

record etcd_metadata_store =
  es_base_url :: string
  es_metadata_key :: string
  es_leader_key :: string

definition etcd_new :: "string \<Rightarrow> etcd_metadata_store" where
  "etcd_new base_url =
     \<lparr>es_base_url = trim_end_matches (CHR ''/'') base_url,
      es_metadata_key = ''/mooncache/master/metadata'', es_leader_key = ''/mooncache/master/leader''\<rparr>"

text \<open>The functions of the crates: base64, UTF-8, the JSON form of a snapshot, error texts.\<close>

record etcd_codec =
  b64_encode :: "bytes \<Rightarrow> string"
  b64_decode :: "string \<Rightarrow> string + bytes"
  utf8_decode :: "bytes \<Rightarrow> string + string"
  snapshot_to_vec :: "master_metadata_snapshot \<Rightarrow> string + bytes"
  snapshot_from_slice :: "bytes \<Rightarrow> string + master_metadata_snapshot"
  status_error :: "http_response \<Rightarrow> string"
  body_type_error :: "json \<Rightarrow> string"

record etcd_txn_response =
  txn_succeeded :: bool
  txn_responses :: "string list option list"

definition etcd_kv_from_value :: "json \<Rightarrow> string option" where
  "etcd_kv_from_value = member_from_value ''value'' json_as_str"

text \<open>A range answer is the list of its values; \<^verbatim>\<open>kvs\<close> may be missing.\<close>

definition etcd_range_from_value :: "json \<Rightarrow> string list option" where
  "etcd_range_from_value v =
     (case v of
        JObject m \<Rightarrow>
          (case bt_get m ''kvs'' of None \<Rightarrow> Some [] | Some kvs \<Rightarrow> list_from_value etcd_kv_from_value kvs)
      | JArray [] \<Rightarrow> Some []
      | JArray [kvs] \<Rightarrow> list_from_value etcd_kv_from_value kvs
      | _ \<Rightarrow> None)"

definition optional_from :: "(json \<Rightarrow> 'a option) \<Rightarrow> json \<Rightarrow> 'a option option" where
  "optional_from decode v = (if v = JNull then Some None else map_option Some (decode v))"

definition etcd_op_from_value :: "json \<Rightarrow> string list option option" where
  "etcd_op_from_value v =
     (case v of
        JObject m \<Rightarrow>
          (case bt_get m ''response_range'' of
             None \<Rightarrow> Some None | Some r \<Rightarrow> optional_from etcd_range_from_value r)
      | JArray [r] \<Rightarrow> optional_from etcd_range_from_value r
      | _ \<Rightarrow> None)"

definition etcd_txn_of :: "json option \<Rightarrow> json option \<Rightarrow> etcd_txn_response option" where
  "etcd_txn_of succeeded responses =
     (case (Option.bind succeeded json_as_bool,
            case responses of None \<Rightarrow> Some [] | Some rs \<Rightarrow> list_from_value etcd_op_from_value rs) of
        (Some b, Some rs) \<Rightarrow> Some \<lparr>txn_succeeded = b, txn_responses = rs\<rparr>
      | _ \<Rightarrow> None)"

definition etcd_txn_from_value :: "json \<Rightarrow> etcd_txn_response option" where
  "etcd_txn_from_value v =
     (case v of
        JObject m \<Rightarrow> etcd_txn_of (bt_get m ''succeeded'') (bt_get m ''responses'')
      | JArray [b] \<Rightarrow> etcd_txn_of (Some b) None
      | JArray [b, rs] \<Rightarrow> etcd_txn_of (Some b) (Some rs)
      | _ \<Rightarrow> None)"

definition etcd_decode :: "etcd_codec \<Rightarrow> string \<Rightarrow> string + bytes" where
  "etcd_decode c val = map_err (\<lambda>e. ''invalid base64 from etcd: '' @ e) (b64_decode c val)"

definition etcd_decode_utf8 :: "etcd_codec \<Rightarrow> string \<Rightarrow> string + string" where
  "etcd_decode_utf8 c val =
     try_result (etcd_decode c val) (\<lambda>bs.
       map_err (\<lambda>e. ''invalid utf8 from etcd: '' @ e) (utf8_decode c bs))"

text \<open>
  One call: send, \<^verbatim>\<open>error_for_status\<close> (an error for 4xx and 5xx), and what the answer gives;
  the two texts say what was being done.
\<close>

definition etcd_call ::
  "'w http \<Rightarrow> etcd_codec \<Rightarrow> string \<Rightarrow> json \<Rightarrow> string \<Rightarrow> string \<Rightarrow> (http_response \<Rightarrow> string + 'a)
   \<Rightarrow> 'w \<Rightarrow> (string + 'a) \<times> 'w" where
  "etcd_call http c url body send_text status_text answer w =
     (case http (HttpPost url body) w of
        (Inl e, w') \<Rightarrow> (Inl (send_text @ e), w')
      | (Inr response, w') \<Rightarrow>
          if 400 \<le> hres_status response \<and> hres_status response < 600
          then (Inl (status_text @ status_error c response), w')
          else (answer response, w'))"

definition etcd_load ::
  "'w http \<Rightarrow> etcd_codec \<Rightarrow> etcd_metadata_store \<Rightarrow> 'w \<Rightarrow> (string + master_metadata_snapshot option) \<times> 'w" where
  "etcd_load http c store =
     etcd_call http c (es_base_url store @ ''/v3/kv/range'')
       (json_obj [(''key'', JString (b64_encode c (es_metadata_key store)))])
       ''etcd metadata load request failed: '' ''etcd metadata load failed: ''
       (\<lambda>response.
         try_result (map_err (\<lambda>e. ''invalid etcd metadata response: '' @ e)
                       (typed_json (body_type_error c) etcd_range_from_value response))
           (\<lambda>kvs. case kvs of
              [] \<Rightarrow> Inr None
            | val # _ \<Rightarrow>
                try_result (etcd_decode c val) (\<lambda>bs.
                  try_result (map_err (\<lambda>e. ''invalid persisted master metadata: '' @ e)
                                (snapshot_from_slice c bs))
                    (\<lambda>snap. Inr (Some snap)))))"

definition etcd_save ::
  "'w http \<Rightarrow> etcd_codec \<Rightarrow> etcd_metadata_store \<Rightarrow> master_metadata_snapshot \<Rightarrow> 'w \<Rightarrow> (string + unit) \<times> 'w" where
  "etcd_save http c store snap w =
     (case snapshot_to_vec c snap of
        Inl e \<Rightarrow> (Inl (''failed to encode master metadata: '' @ e), w)
      | Inr bs \<Rightarrow>
          etcd_call http c (es_base_url store @ ''/v3/kv/put'')
            (json_obj [(''key'', JString (b64_encode c (es_metadata_key store))),
                       (''value'', JString (b64_encode c bs))])
            ''etcd metadata save request failed: '' ''etcd metadata save failed: ''
            (\<lambda>_. Inr ()) w)"

definition etcd_metadata ::
  "'w http \<Rightarrow> etcd_codec \<Rightarrow> etcd_metadata_store \<Rightarrow> 'w metadata_ops" where
  "etcd_metadata http c store =
     \<lparr>md_load = etcd_load http c store, md_save = etcd_save http c store\<rparr>"

text \<open>The transaction that takes the leader key when nobody has it, and reads it otherwise.\<close>

definition election_txn :: "etcd_codec \<Rightarrow> etcd_metadata_store \<Rightarrow> string \<Rightarrow> json" where
  "election_txn c store local_id =
     (let key = JString (b64_encode c (es_leader_key store))
      in json_obj
           [(''compare'', JArray [json_obj
               [(''key'', key), (''target'', JString ''CREATE''),
                (''create_revision'', JString ''0''), (''result'', JString ''EQUAL'')]]),
            (''success'', JArray [json_obj [(''request_put'', json_obj
               [(''key'', key), (''value'', JString (b64_encode c local_id))])]]),
            (''failure'', JArray [json_obj [(''request_range'', json_obj [(''key'', key)])]])])"

definition elected :: "etcd_codec \<Rightarrow> string \<Rightarrow> etcd_txn_response \<Rightarrow> string + leadership_state" where
  "elected c local_id txn =
     (if txn_succeeded txn then Inr (leadership_leader local_id)
      else case List.find (\<lambda>r. r \<noteq> None) (txn_responses txn) of
          Some (Some (val # _)) \<Rightarrow>
            try_result (etcd_decode_utf8 c val) (\<lambda>leader_id. Inr (leadership_standby local_id leader_id))
        | _ \<Rightarrow> Inr (leadership_standby local_id local_id))"

definition elect_leader ::
  "'w http \<Rightarrow> etcd_codec \<Rightarrow> etcd_metadata_store \<Rightarrow> string \<Rightarrow> 'w \<Rightarrow> (string + leadership_state) \<times> 'w" where
  "elect_leader http c store local_id =
     etcd_call http c (es_base_url store @ ''/v3/kv/txn'') (election_txn c store local_id)
       ''etcd leader election request failed: '' ''etcd leader election failed: ''
       (\<lambda>response.
         try_result (map_err (\<lambda>e. ''invalid etcd leader response: '' @ e)
                       (typed_json (body_type_error c) etcd_txn_from_value response))
           (elected c local_id))"

section \<open>The service\<close>

record 'w master_app_state =
  ma_metadata :: "'w metadata_ops"
  ma_leadership :: leadership_state

text \<open>What changes while the service runs: the master, and the world of the metadata store.\<close>

record 'w master_run =
  mr_master :: master_state
  mr_world :: 'w

type_synonym reply = "nat \<times> json"

definition error_json :: "string \<Rightarrow> json" where
  "error_json message = json_obj [(''error'', JString message)]"

fun cache_error_status :: "cache_error \<Rightarrow> nat" where
  "cache_error_status NotFound = 404"
| "cache_error_status (Conflict m) = 409"
| "cache_error_status (QuotaExceeded m) = 413"
| "cache_error_status EmptyTenantId = 400"
| "cache_error_status InvalidCacheKey = 400"
| "cache_error_status (InvalidId m) = 400"
| "cache_error_status (UpstreamUnavailable m) = 503"

definition error_response :: "cache_error \<Rightarrow> reply" where
  "error_response err = (cache_error_status err, error_json (cache_error_to_string err))"

definition require_leader :: "'w master_app_state \<Rightarrow> reply + unit" where
  "require_leader app =
     (if is_leader (ma_leadership app) then Inr () else Inl (503, error_json ''master is not leader''))"

text \<open>
  \<^verbatim>\<open>persist_metadata\<close> is two steps: the snapshot is taken under the lock of the master, and after
  the lock is released the save of that snapshot is awaited.
\<close>

definition save_snapshot ::
  "'w master_app_state \<Rightarrow> master_metadata_snapshot \<Rightarrow> 'w \<Rightarrow> (reply + unit) \<times> 'w" where
  "save_snapshot app snap w =
     (case md_save (ma_metadata app) snap w of
        (r, w') \<Rightarrow> (map_err (\<lambda>error. (503, error_json (''metadata persistence failed: '' @ error))) r, w'))"

definition ok_json :: json where
  "ok_json = json_obj [(''ok'', JBool True)]"

definition replica_to_value :: "replica_descriptor \<Rightarrow> json" where
  "replica_to_value r =
     json_obj [(''node_id'', JString (rep_node_id r)), (''offset'', JNumber (PosInt (rep_offset r))),
               (''len'', JNumber (PosInt (rep_len r)))]"

definition replica_list_to_value :: "replica_list \<Rightarrow> json" where
  "replica_list_to_value rl =
     json_obj [(''replicas'', JArray (map replica_to_value (rl_replicas rl))),
               (''lease'', json_obj
                  [(''lease_id'', JString (lease_id (rl_lease rl))),
                   (''expires_at_ms'', JNumber (PosInt (expires_at_ms (rl_lease rl))))])]"

text \<open>The end of every handler that changes the master.\<close>

definition saved_reply :: "json \<Rightarrow> reply + unit \<Rightarrow> reply" where
  "saved_reply body r = (case r of Inr _ \<Rightarrow> (200, body) | Inl response \<Rightarrow> response)"

text \<open>
  A handler that changes the master up to its first release of the lock: leader, tenant, key,
  operation. It ends with an answer, or with the body of the answer to give when the snapshot,
  which is still to be taken, has been saved.
\<close>

definition change_object ::
  "'w master_app_state \<Rightarrow> string \<Rightarrow> string
   \<Rightarrow> (tenant_id \<Rightarrow> cache_key \<Rightarrow> master_state \<Rightarrow> 'a cache_result \<times> master_state) \<Rightarrow> ('a \<Rightarrow> json)
   \<Rightarrow> master_state \<Rightarrow> (reply + json) \<times> master_state" where
  "change_object app tenant key operation body st =
     (case require_leader app of
        Inl response \<Rightarrow> (Inl response, st)
      | Inr _ \<Rightarrow>
          (case parse_tenant_id tenant of
             Inl err \<Rightarrow> (Inl (error_response err), st)
           | Inr tenant_id \<Rightarrow>
               (case cache_key_from_hex key of
                  Inl err \<Rightarrow> (Inl (error_response err), st)
                | Inr cache_key \<Rightarrow>
                    (case operation tenant_id cache_key st of
                       (r, st') \<Rightarrow> (map_sum error_response body r, st')))))"

record put_start_request =
  psr_tenant_id :: string
  psr_cache_key :: string
  psr_len :: u64
  psr_replica_count :: usize

record put_end_request =
  per_tenant_id :: string
  per_cache_key :: string

record set_quota_request =
  sqr_tenant_id :: string
  sqr_dram_bytes :: u64
  sqr_ssd_bytes :: u64

record mount_segment_request =
  msr_node_id :: string
  msr_len :: u64

record replica_list_query =
  rlq_tenant_id :: string
  rlq_cache_key :: string

definition change_put_start ::
  "'w master_app_state \<Rightarrow> put_start_request \<Rightarrow> master_state \<Rightarrow> (reply + json) \<times> master_state" where
  "change_put_start app body =
     change_object app (psr_tenant_id body) (psr_cache_key body)
       (\<lambda>tenant_id cache_key. put_start tenant_id cache_key (psr_len body) (psr_replica_count body))
       (\<lambda>replicas. json_obj [(''replicas'', JArray (map replica_to_value replicas))])"

definition change_put_end ::
  "'w master_app_state \<Rightarrow> put_end_request \<Rightarrow> master_state \<Rightarrow> (reply + json) \<times> master_state" where
  "change_put_end app body =
     change_object app (per_tenant_id body) (per_cache_key body) put_end (\<lambda>_. ok_json)"

definition change_put_revoke ::
  "'w master_app_state \<Rightarrow> put_end_request \<Rightarrow> master_state \<Rightarrow> (reply + json) \<times> master_state" where
  "change_put_revoke app body =
     change_object app (per_tenant_id body) (per_cache_key body) put_revoke (\<lambda>_. ok_json)"

definition change_remove_object ::
  "'w master_app_state \<Rightarrow> replica_list_query \<Rightarrow> master_state \<Rightarrow> (reply + json) \<times> master_state" where
  "change_remove_object app query =
     change_object app (rlq_tenant_id query) (rlq_cache_key query) remove (\<lambda>_. ok_json)"

definition change_tenant_quota ::
  "'w master_app_state \<Rightarrow> set_quota_request \<Rightarrow> master_state \<Rightarrow> (reply + json) \<times> master_state" where
  "change_tenant_quota app body st =
     (case require_leader app of
        Inl response \<Rightarrow> (Inl response, st)
      | Inr _ \<Rightarrow>
          (case set_tenant_quota (sqr_tenant_id body) (sqr_dram_bytes body) (sqr_ssd_bytes body) st of
             (r, st') \<Rightarrow> (map_sum error_response (\<lambda>_. ok_json) r, st')))"

definition change_segment ::
  "'w master_app_state \<Rightarrow> mount_segment_request \<Rightarrow> master_state \<Rightarrow> (reply + json) \<times> master_state" where
  "change_segment app body st =
     (case require_leader app of
        Inl response \<Rightarrow> (Inl response, st)
      | Inr _ \<Rightarrow> (Inr ok_json, mount_segment (msr_node_id body) (msr_len body) st))"

text \<open>
  A handler that is not disturbed: change, snapshot and save, with no step of another request
  in between. \<^verbatim>\<open>Master_Tasks\<close> has the handlers as tasks that take these steps one at a time, in
  any interleaving.
\<close>

definition uninterrupted ::
  "'w master_app_state \<Rightarrow> (master_state \<Rightarrow> (reply + json) \<times> master_state) \<Rightarrow> 'w master_run
   \<Rightarrow> reply \<times> 'w master_run" where
  "uninterrupted app change s =
     (case change (mr_master s) of
        (Inl response, st) \<Rightarrow> (response, s\<lparr>mr_master := st\<rparr>)
      | (Inr body, st) \<Rightarrow>
          (case save_snapshot app (metadata_snapshot st) (mr_world s) of
             (r, w) \<Rightarrow> (saved_reply body r, s\<lparr>mr_master := st, mr_world := w\<rparr>)))"

definition handle_put_start ::
  "'w master_app_state \<Rightarrow> put_start_request \<Rightarrow> 'w master_run \<Rightarrow> reply \<times> 'w master_run" where
  "handle_put_start app body = uninterrupted app (change_put_start app body)"

definition handle_put_end ::
  "'w master_app_state \<Rightarrow> put_end_request \<Rightarrow> 'w master_run \<Rightarrow> reply \<times> 'w master_run" where
  "handle_put_end app body = uninterrupted app (change_put_end app body)"

definition handle_put_revoke ::
  "'w master_app_state \<Rightarrow> put_end_request \<Rightarrow> 'w master_run \<Rightarrow> reply \<times> 'w master_run" where
  "handle_put_revoke app body = uninterrupted app (change_put_revoke app body)"

definition handle_remove_object ::
  "'w master_app_state \<Rightarrow> replica_list_query \<Rightarrow> 'w master_run \<Rightarrow> reply \<times> 'w master_run" where
  "handle_remove_object app query = uninterrupted app (change_remove_object app query)"

definition handle_set_tenant_quota ::
  "'w master_app_state \<Rightarrow> set_quota_request \<Rightarrow> 'w master_run \<Rightarrow> reply \<times> 'w master_run" where
  "handle_set_tenant_quota app body = uninterrupted app (change_tenant_quota app body)"

definition handle_mount_segment ::
  "'w master_app_state \<Rightarrow> mount_segment_request \<Rightarrow> 'w master_run \<Rightarrow> reply \<times> 'w master_run" where
  "handle_mount_segment app body = uninterrupted app (change_segment app body)"

text \<open>Lookups are served by standbys too; a lookup takes a lease but saves nothing.\<close>

definition handle_get_replica_list ::
  "u64 \<Rightarrow> replica_list_query \<Rightarrow> 'w master_run \<Rightarrow> reply \<times> 'w master_run" where
  "handle_get_replica_list now query s =
     (case parse_tenant_id (rlq_tenant_id query) of
        Inl err \<Rightarrow> (error_response err, s)
      | Inr tenant_id \<Rightarrow>
          (case cache_key_from_hex (rlq_cache_key query) of
             Inl err \<Rightarrow> (error_response err, s)
           | Inr cache_key \<Rightarrow>
               (case get_replica_list now tenant_id cache_key (mr_master s) of
                  (Inl err, st) \<Rightarrow> (error_response err, s\<lparr>mr_master := st\<rparr>)
                | (Inr rl, st) \<Rightarrow> ((200, replica_list_to_value rl), s\<lparr>mr_master := st\<rparr>))))"

definition master_healthz :: json where
  "master_healthz = json_obj [(''ok'', JBool True), (''service'', JString ''mooncache-master'')]"

definition handle_metrics_snapshot :: "'w master_run \<Rightarrow> json" where
  "handle_metrics_snapshot s =
     (let snap = observability_snapshot (mr_master s)
      in json_obj [(''objects_total'', JNumber (PosInt (objects_total snap))),
                   (''evictions_total'', JNumber (PosInt (snap_evictions_total snap)))])"

definition ha_status :: "'w master_app_state \<Rightarrow> json" where
  "ha_status app =
     json_obj [(''local_id'', JString (ls_local_id (ma_leadership app))),
               (''leader_id'', JString (ls_leader_id (ma_leadership app))),
               (''is_leader'', JBool (is_leader (ma_leadership app)))]"

text \<open>Start-up: elect, load, restore, mount the default segment.\<close>

definition build_from_config ::
  "'w http \<Rightarrow> etcd_codec \<Rightarrow> string \<Rightarrow> string \<Rightarrow> 'w \<Rightarrow> (string + 'w master_app_state \<times> 'w master_run) \<times> 'w" where
  "build_from_config http c etcd_url bind_addr =
     (let store = etcd_new etcd_url
      in try_bind (elect_leader http c store bind_addr) (\<lambda>leadership.
           try_bind (etcd_load http c store) (\<lambda>loaded w.
             let st = (case loaded of None \<Rightarrow> master_new | Some snap \<Rightarrow> from_metadata_snapshot snap);
                 st = mount_segment ''default'' 1048576 st
             in (Inr (\<lparr>ma_metadata = etcd_metadata http c store, ma_leadership = leadership\<rparr>,
                      \<lparr>mr_master = st, mr_world = w\<rparr>), w))))"

text \<open>How an undisturbed handler ends.\<close>

lemma uninterrupted_cases:
  assumes "uninterrupted app change s = (reply, s')"
  obtains (answered) "change (mr_master s) = (Inl reply, mr_master s')" "mr_world s' = mr_world s"
    | (saved) body where "change (mr_master s) = (Inr body, mr_master s')" "reply = (200, body)"
        "md_save (ma_metadata app) (metadata_snapshot (mr_master s')) (mr_world s) = (Inr (), mr_world s')"
    | (unsaved) body e where "change (mr_master s) = (Inr body, mr_master s')" "fst reply = 503"
        "md_save (ma_metadata app) (metadata_snapshot (mr_master s')) (mr_world s) = (Inl e, mr_world s')"
proof -
  obtain r st where change: "change (mr_master s) = (r, st)" by fastforce
  show thesis
  proof (cases r)
    case (Inl response)
    then show thesis using assms change answered by (auto simp: uninterrupted_def)
  next
    case (Inr body)
    obtain sv w where "md_save (ma_metadata app) (metadata_snapshot st) (mr_world s) = (sv, w)" by fastforce
    then show thesis
      using assms change Inr saved unsaved
      by (cases sv) (auto simp: uninterrupted_def save_snapshot_def saved_reply_def)
  qed
qed

section \<open>The interface of the metadata store\<close>

text \<open>
  What the service relies on, relative to the snapshot \<open>stored\<close> in the store's world: a load
  returns it and changes nothing, an acknowledged save replaces it. A save that reports an
  error may or may not have happened.
\<close>

locale metadata_store =
  fixes ops :: "'w metadata_ops"
    and stored :: "'w \<Rightarrow> master_metadata_snapshot option"
  assumes load_stored: "md_load ops w = (Inr x, w') \<Longrightarrow> x = stored w \<and> stored w' = stored w"
    and load_failed: "md_load ops w = (Inl e, w') \<Longrightarrow> stored w' = stored w"
    and save_stored: "md_save ops snap w = (Inr u, w') \<Longrightarrow> stored w' = Some snap"
begin

lemma saved_is_loaded: "md_save ops snap w = (Inr u, w1) \<Longrightarrow> md_load ops w1 = (Inr x, w2) \<Longrightarrow> x = Some snap"
  using save_stored load_stored by metis

end

text \<open>Where a save that reports an error has either stored the whole snapshot or nothing.\<close>

locale atomic_metadata_store = metadata_store +
  assumes save_failed: "md_save ops snap w = (Inl e, w') \<Longrightarrow> stored w' = stored w \<or> stored w' = Some snap"
begin

lemma save_stores: "md_save ops snap w = (r, w') \<Longrightarrow> stored w' = stored w \<or> stored w' = Some snap"
  using save_stored save_failed by (cases r) metis+

end

interpretation cell: atomic_metadata_store memory_metadata id
  by unfold_locales (auto simp: memory_metadata_def memory_load_def memory_save_def)

section \<open>Changes\<close>

datatype change_request =
    ReqPutStart put_start_request
  | ReqPutEnd put_end_request
  | ReqPutRevoke put_end_request
  | ReqRemove replica_list_query
  | ReqSetQuota set_quota_request
  | ReqMount mount_segment_request

fun make_change ::
  "'w master_app_state \<Rightarrow> change_request \<Rightarrow> master_state \<Rightarrow> (reply + json) \<times> master_state" where
  "make_change app (ReqPutStart body) = change_put_start app body"
| "make_change app (ReqPutEnd body) = change_put_end app body"
| "make_change app (ReqPutRevoke body) = change_put_revoke app body"
| "make_change app (ReqRemove query) = change_remove_object app query"
| "make_change app (ReqSetQuota body) = change_tenant_quota app body"
| "make_change app (ReqMount body) = change_segment app body"

fun handle_change :: "'w master_app_state \<Rightarrow> change_request \<Rightarrow> 'w master_run \<Rightarrow> reply \<times> 'w master_run" where
  "handle_change app (ReqPutStart body) = handle_put_start app body"
| "handle_change app (ReqPutEnd body) = handle_put_end app body"
| "handle_change app (ReqPutRevoke body) = handle_put_revoke app body"
| "handle_change app (ReqRemove query) = handle_remove_object app query"
| "handle_change app (ReqSetQuota body) = handle_set_tenant_quota app body"
| "handle_change app (ReqMount body) = handle_mount_segment app body"

text \<open>The same requests on the master alone: what a service without persistence would do.\<close>

definition parsed_object ::
  "string \<Rightarrow> string \<Rightarrow> (tenant_id \<Rightarrow> cache_key \<Rightarrow> master_state \<Rightarrow> 'a cache_result \<times> master_state)
   \<Rightarrow> master_state \<Rightarrow> 'a cache_result \<times> master_state" where
  "parsed_object tenant key operation st =
     (case parse_tenant_id tenant of
        Inl e \<Rightarrow> (Inl e, st)
      | Inr t \<Rightarrow> (case cache_key_from_hex key of Inl e \<Rightarrow> (Inl e, st) | Inr k \<Rightarrow> operation t k st))"

fun apply_change :: "change_request \<Rightarrow> master_state \<Rightarrow> unit cache_result \<times> master_state" where
  "apply_change (ReqPutStart b) st =
     apfst (map_sum id (\<lambda>_. ())) (parsed_object (psr_tenant_id b) (psr_cache_key b)
       (\<lambda>t k. put_start t k (psr_len b) (psr_replica_count b)) st)"
| "apply_change (ReqPutEnd b) st = parsed_object (per_tenant_id b) (per_cache_key b) put_end st"
| "apply_change (ReqPutRevoke b) st = parsed_object (per_tenant_id b) (per_cache_key b) put_revoke st"
| "apply_change (ReqRemove q) st = parsed_object (rlq_tenant_id q) (rlq_cache_key q) remove st"
| "apply_change (ReqSetQuota b) st = set_tenant_quota (sqr_tenant_id b) (sqr_dram_bytes b) (sqr_ssd_bytes b) st"
| "apply_change (ReqMount b) st = (Inr (), mount_segment (msr_node_id b) (msr_len b) st)"

lemma apply_change_reachable:
  assumes "master_reachable st"
  shows "master_reachable (snd (apply_change req st))"
  using reach_step [OF assms] assms
  by (cases req) (auto simp: parsed_object_def intro: master_step.intros split: sum.splits)

lemma apfst_map_sum_Inl [simp]: "apfst (map_sum id f) p = (Inl e, st) \<longleftrightarrow> p = (Inl e, st)"
  by (cases p; cases "fst p") auto

lemma apply_change_Inl:
  assumes "master_reachable st" and "apply_change req st = (Inl e, st')"
  shows "st' = st"
proof -
  have "hm_ok (quotas st)" using master_inv.reachable_preserved [OF assms(1)] by (simp add: master_inv_def)
  then have start: "put_start t k len n st = (Inl e, st') \<Longrightarrow> st' = st" for t k len n
    using put_start_Inl_unchanged by blast
  show ?thesis
    using assms(2) start
    by (cases req) (auto simp: parsed_object_def put_end_def put_revoke_def remove_def set_tenant_quota_def Let_def
        split: sum.splits option.splits object_status.splits)
qed

lemma change_object_leader:
  assumes "is_leader (ma_leadership app)"
  shows "change_object app tenant key operation body st =
    apfst (map_sum error_response body) (parsed_object tenant key operation st)"
  using assms
  by (auto simp: change_object_def parsed_object_def require_leader_def
      simp del: parse_tenant_id_eq_Inl parse_tenant_id_eq_Inr cache_key_from_hex_eq_Inl cache_key_from_hex_eq_Inr
      split: prod.splits sum.splits)

lemmas change_defs = change_put_start_def change_put_end_def change_put_revoke_def change_remove_object_def
  change_tenant_quota_def change_segment_def

lemmas handle_defs = handle_put_start_def handle_put_end_def handle_put_revoke_def handle_remove_object_def
  handle_set_tenant_quota_def handle_mount_segment_def

lemma handle_change_uninterrupted: "handle_change app req = uninterrupted app (make_change app req)"
  by (cases req) (simp_all add: handle_defs)

lemma make_change_standby:
  "\<not> is_leader (ma_leadership app) \<Longrightarrow> make_change app req st = (Inl (503, error_json ''master is not leader''), st)"
  by (cases req) (simp_all add: require_leader_def change_defs change_object_def)

lemma handle_change_standby:
  "\<not> is_leader (ma_leadership app) \<Longrightarrow> handle_change app req s = ((503, error_json ''master is not leader''), s)"
  by (simp add: handle_change_uninterrupted uninterrupted_def make_change_standby)

text \<open>A leader's change is the operation on the master.\<close>

lemma apfst_map_sum_unit:
  "\<exists>b. apfst (map_sum f g) p = apfst (map_sum f (\<lambda>_. b)) (apfst (map_sum id (\<lambda>_. ())) p)"
  by (cases p; cases "fst p") auto

lemma make_change_leader:
  assumes "is_leader (ma_leadership app)"
  shows "\<exists>body. make_change app req st = apfst (map_sum error_response (\<lambda>_. body)) (apply_change req st)"
proof (cases req)
  case (ReqPutStart b)
  then show ?thesis by (simp add: change_defs change_object_leader [OF assms] apfst_map_sum_unit)
qed (use assms in \<open>auto simp: change_defs change_object_leader require_leader_def split: prod.splits\<close>)

lemma apply_change_not_upstream: "apply_change req st = (Inl e, st') \<Longrightarrow> cache_error_status e \<notin> {200, 503}"
  by (cases req; cases e)
     (auto simp: parsed_object_def put_start_def put_end_def put_revoke_def remove_def set_tenant_quota_def Let_def
       reserve_tenant_quota_def reserve_dram_def allocator_allocate_def
       split: sum.splits option.splits object_status.splits if_splits prod.splits)

lemma persisted_tables:
  assumes "metadata_store ops stored" and "master_reachable st" and "stored w = Some (metadata_snapshot st)"
    and "md_load ops w = (Inr x, w')"
  shows "\<exists>snap. x = Some snap \<and> hm_get (objects (from_metadata_snapshot snap)) = hm_get (objects st)
    \<and> hm_get (quotas (from_metadata_snapshot snap)) = hm_get (quotas st)"
proof -
  have "hm_ok (quotas st)" using master_inv.reachable_preserved [OF assms(2)] by (simp add: master_inv_def)
  then have "hm_get (quotas (from_metadata_snapshot (metadata_snapshot st))) = hm_get (quotas st)"
    by (simp add: from_metadata_snapshot_def metadata_snapshot_def hm_rebuild)
  then show ?thesis
    using metadata_store.load_stored [OF assms(1,4)] assms(3) restored_tables(1) [OF assms(2)] by simp
qed

text \<open>What a change may do: a standby and a refusal leave the master alone.\<close>

lemma make_change_cases:
  assumes "master_reachable st" and "make_change app req st = (r, st')"
  obtains (standby) "\<not> is_leader (ma_leadership app)" "r = Inl (503, error_json ''master is not leader'')" "st' = st"
    | (refused) e where "is_leader (ma_leadership app)" "r = Inl (error_response e)" "st' = st"
        "cache_error_status e \<notin> {200, 503}"
    | (changed) body where "is_leader (ma_leadership app)" "r = Inr body" "apply_change req st = (Inr (), st')"
proof (cases "is_leader (ma_leadership app)")
  case True
  obtain res st1 where change: "apply_change req st = (res, st1)" by fastforce
  with make_change_leader [OF True, of req st] assms(2)
  have r: "\<exists>body. r = map_sum error_response (\<lambda>_. body) res" "st' = st1" by auto
  show thesis
  proof (cases res)
    case (Inl e)
    then show thesis
      using refused [of e] True r apply_change_Inl [OF assms(1)] apply_change_not_upstream change by fastforce
  next
    case (Inr u)
    then show thesis using changed True r change by auto
  qed
qed (use assms(2) make_change_standby standby in force)

lemma make_change_reachable:
  assumes "master_reachable st" and "make_change app req st = (r, st')"
  shows "master_reachable st'"
  using assms
proof (cases rule: make_change_cases)
  case (changed body)
  then show ?thesis using apply_change_reachable [OF assms(1), of req] by simp
qed (use assms(1) in simp_all)

lemma handle_change_reachable:
  assumes "master_reachable (mr_master s)"
  shows "master_reachable (mr_master (snd (handle_change app req s)))"
proof -
  obtain reply s' where "uninterrupted app (make_change app req) s = (reply, s')" by fastforce
  then show ?thesis
    using make_change_reachable [OF assms] handle_change_uninterrupted [of app req]
    by (elim uninterrupted_cases; simp)
qed

section \<open>Etcd as the metadata store\<close>

text \<open>
  The documented behaviour of etcd's key-value interface, relative to the values \<open>kv\<close> of its
  keys (both as base64 text): an acknowledged put sets the key, a range request returns the
  value of its key and changes nothing.
\<close>

definition call_ok :: "http_response \<Rightarrow> bool" where
  "call_ok r \<longleftrightarrow> \<not> (400 \<le> hres_status r \<and> hres_status r < 600)"

definition etcd_serves :: "'w http \<Rightarrow> string \<Rightarrow> ('w \<Rightarrow> string \<rightharpoonup> string) \<Rightarrow> bool" where
  "etcd_serves http base kv \<longleftrightarrow>
     (\<forall>k v w r w'. http (HttpPost (base @ ''/v3/kv/put'') (json_obj [(''key'', JString k), (''value'', JString v)])) w
        = (Inr r, w') \<longrightarrow> call_ok r \<longrightarrow> kv w' k = Some v)
     \<and> (\<forall>k w a w'. http (HttpPost (base @ ''/v3/kv/range'') (json_obj [(''key'', JString k)])) w = (a, w') \<longrightarrow>
          kv w' = kv w
          \<and> (\<forall>r j. a = Inr r \<longrightarrow> call_ok r \<longrightarrow> hres_json r = Inr j \<longrightarrow>
               etcd_range_from_value j = Some (case kv w k of None \<Rightarrow> [] | Some v \<Rightarrow> [v])))"

text \<open>A put is one transaction of etcd: when it fails or its answer is lost, it is done or not.\<close>

definition etcd_puts_atomic :: "'w http \<Rightarrow> string \<Rightarrow> ('w \<Rightarrow> string \<rightharpoonup> string) \<Rightarrow> bool" where
  "etcd_puts_atomic http base kv \<longleftrightarrow>
     (\<forall>k v w a w'. http (HttpPost (base @ ''/v3/kv/put'') (json_obj [(''key'', JString k), (''value'', JString v)])) w
        = (a, w') \<longrightarrow> kv w' = kv w \<or> kv w' = (kv w)(k \<mapsto> v))"

definition codec_round_trips :: "etcd_codec \<Rightarrow> bool" where
  "codec_round_trips c \<longleftrightarrow>
     (\<forall>bs. b64_decode c (b64_encode c bs) = Inr bs)
     \<and> (\<forall>snap bs. snapshot_to_vec c snap = Inr bs \<longrightarrow> snapshot_from_slice c bs = Inr snap)"

definition etcd_stored ::
  "etcd_codec \<Rightarrow> etcd_metadata_store \<Rightarrow> ('w \<Rightarrow> string \<rightharpoonup> string) \<Rightarrow> 'w \<Rightarrow> master_metadata_snapshot option" where
  "etcd_stored c store kv w =
     Option.bind (kv w (b64_encode c (es_metadata_key store))) (\<lambda>val.
       case try_result (etcd_decode c val) (snapshot_from_slice c) of Inl _ \<Rightarrow> None | Inr snap \<Rightarrow> Some snap)"

lemma etcd_call_Inr:
  "etcd_call http c url body t1 t2 answer w = (Inr x, w') \<longleftrightarrow>
     (\<exists>r. http (HttpPost url body) w = (Inr r, w') \<and> call_ok r \<and> answer r = Inr x)"
  by (auto simp: etcd_call_def call_ok_def split: prod.splits sum.splits if_splits)

lemma etcd_call_sent:
  "etcd_call http c url body t1 t2 answer w = (a, w') \<Longrightarrow> \<exists>r. http (HttpPost url body) w = (r, w')"
  by (auto simp: etcd_call_def split: prod.splits sum.splits if_splits)

lemma etcd_load_keeps:
  assumes "etcd_serves http (es_base_url store) kv" and "etcd_load http c store w = (a, w')"
  shows "kv w' = kv w"
proof -
  obtain r where "http (HttpPost (es_base_url store @ ''/v3/kv/range'')
      (json_obj [(''key'', JString (b64_encode c (es_metadata_key store)))])) w = (r, w')"
    using etcd_call_sent [OF assms(2) [unfolded etcd_load_def]] by blast
  then show ?thesis using assms(1) unfolding etcd_serves_def by blast
qed

lemma etcd_load_Inr:
  assumes "etcd_serves http (es_base_url store) kv" and "etcd_load http c store w = (Inr x, w')"
  shows "x = etcd_stored c store kv w"
proof -
  let ?key = "b64_encode c (es_metadata_key store)"
  obtain r where r: "http (HttpPost (es_base_url store @ ''/v3/kv/range'') (json_obj [(''key'', JString ?key)])) w = (Inr r, w')"
    and ok: "call_ok r" and answer: "try_result (map_err (\<lambda>e. ''invalid etcd metadata response: '' @ e)
        (typed_json (body_type_error c) etcd_range_from_value r))
      (\<lambda>kvs. case kvs of [] \<Rightarrow> Inr None | val # _ \<Rightarrow> try_result (etcd_decode c val) (\<lambda>bs.
         try_result (map_err (\<lambda>e. ''invalid persisted master metadata: '' @ e) (snapshot_from_slice c bs))
           (\<lambda>snap. Inr (Some snap)))) = Inr x"
    using assms(2) unfolding etcd_load_def etcd_call_Inr by blast
  obtain j where "hres_json r = Inr j" using answer by (auto simp: try_result_eq_Inr typed_json_def split: sum.splits)
  moreover from this have "etcd_range_from_value j = Some (case kv w ?key of None \<Rightarrow> [] | Some v \<Rightarrow> [v])"
    using assms(1) r ok unfolding etcd_serves_def by blast
  ultimately show ?thesis
    using answer
    by (auto simp: typed_json_def etcd_stored_def try_result_eq_Inr split: option.splits)
qed

lemma etcd_save_Inr:
  assumes "etcd_serves http (es_base_url store) kv" and "codec_round_trips c"
    and "etcd_save http c store snap w = (Inr u, w')"
  shows "etcd_stored c store kv w' = Some snap"
proof -
  let ?key = "b64_encode c (es_metadata_key store)"
  obtain bs r where bs: "snapshot_to_vec c snap = Inr bs" and "call_ok r"
    and "http (HttpPost (es_base_url store @ ''/v3/kv/put'')
      (json_obj [(''key'', JString ?key), (''value'', JString (b64_encode c bs))])) w = (Inr r, w')"
    using assms(3) by (auto simp: etcd_save_def etcd_call_Inr split: sum.splits)
  then have "kv w' ?key = Some (b64_encode c bs)" using assms(1) unfolding etcd_serves_def by blast
  then show ?thesis
    using bs assms(2) by (simp add: etcd_stored_def etcd_decode_def codec_round_trips_def)
qed

lemma etcd_implements_metadata_store:
  assumes "etcd_serves http (es_base_url store) kv" and "codec_round_trips c"
  shows "metadata_store (etcd_metadata http c store) (etcd_stored c store kv)"
proof
  fix w w' x e snap u
  show "x = etcd_stored c store kv w \<and> etcd_stored c store kv w' = etcd_stored c store kv w"
    if "md_load (etcd_metadata http c store) w = (Inr x, w')"
    using that etcd_load_Inr [OF assms(1)] etcd_load_keeps [OF assms(1)]
    by (simp add: etcd_metadata_def etcd_stored_def)
  show "etcd_stored c store kv w' = etcd_stored c store kv w"
    if "md_load (etcd_metadata http c store) w = (Inl e, w')"
    using that etcd_load_keeps [OF assms(1)] by (simp add: etcd_metadata_def etcd_stored_def)
  show "etcd_stored c store kv w' = Some snap"
    if "md_save (etcd_metadata http c store) snap w = (Inr u, w')"
    using that etcd_save_Inr [OF assms] by (simp add: etcd_metadata_def)
qed

lemma etcd_save_atomic:
  assumes "etcd_puts_atomic http (es_base_url store) kv" and "codec_round_trips c"
    and "etcd_save http c store snap w = (r, w')"
  shows "etcd_stored c store kv w' = etcd_stored c store kv w \<or> etcd_stored c store kv w' = Some snap"
proof (cases "snapshot_to_vec c snap")
  case (Inl e)
  then show ?thesis using assms(3) by (simp add: etcd_save_def)
next
  case (Inr bs)
  let ?key = "b64_encode c (es_metadata_key store)"
  obtain a where "http (HttpPost (es_base_url store @ ''/v3/kv/put'')
      (json_obj [(''key'', JString ?key), (''value'', JString (b64_encode c bs))])) w = (a, w')"
    using assms(3) Inr etcd_call_sent by (fastforce simp: etcd_save_def)
  then have "kv w' = kv w \<or> kv w' = (kv w)(?key \<mapsto> b64_encode c bs)"
    using assms(1) unfolding etcd_puts_atomic_def by blast
  then show ?thesis
    using Inr assms(2) by (auto simp: etcd_stored_def etcd_decode_def codec_round_trips_def)
qed

lemma etcd_implements_atomic_metadata_store:
  assumes "etcd_serves http (es_base_url store) kv" and "etcd_puts_atomic http (es_base_url store) kv"
    and "codec_round_trips c"
  shows "atomic_metadata_store (etcd_metadata http c store) (etcd_stored c store kv)"
  using etcd_implements_metadata_store [OF assms(1,3)] etcd_save_atomic [OF assms(2,3)]
  by (auto simp: atomic_metadata_store_def atomic_metadata_store_axioms_def etcd_metadata_def)

section \<open>Election\<close>

text \<open>
  The transaction of \<^verbatim>\<open>elect_leader\<close>, as etcd runs it: it takes the leader key if and only if
  nobody has it, and otherwise returns the value the key has.
\<close>

definition etcd_elects :: "'w http \<Rightarrow> etcd_codec \<Rightarrow> etcd_metadata_store \<Rightarrow> ('w \<Rightarrow> string option) \<Rightarrow> bool" where
  "etcd_elects http c store holder \<longleftrightarrow>
     (\<forall>me w r w' j. http (HttpPost (es_base_url store @ ''/v3/kv/txn'') (election_txn c store me)) w = (Inr r, w') \<longrightarrow>
        call_ok r \<longrightarrow> hres_json r = Inr j \<longrightarrow>
        (case holder w of
           None \<Rightarrow> holder w' = Some (b64_encode c me)
             \<and> (\<exists>txn. etcd_txn_from_value j = Some txn \<and> txn_succeeded txn)
         | Some v \<Rightarrow> holder w' = Some v
             \<and> etcd_txn_from_value j = Some \<lparr>txn_succeeded = False, txn_responses = [Some [v]]\<rparr>))"

lemma elect_leader_Inr:
  assumes "etcd_elects http c store holder" and "elect_leader http c store me w = (Inr l, w')"
  shows "case holder w of
      None \<Rightarrow> holder w' = Some (b64_encode c me) \<and> l = leadership_leader me
    | Some v \<Rightarrow> holder w' = Some v \<and> (\<exists>leader. etcd_decode_utf8 c v = Inr leader \<and> l = leadership_standby me leader)"
proof -
  obtain r where r: "http (HttpPost (es_base_url store @ ''/v3/kv/txn'') (election_txn c store me)) w = (Inr r, w')"
    "call_ok r" and answer: "try_result (map_err (\<lambda>e. ''invalid etcd leader response: '' @ e)
      (typed_json (body_type_error c) etcd_txn_from_value r)) (elected c me) = Inr l"
    using assms(2) unfolding elect_leader_def etcd_call_Inr by blast
  obtain j txn where j: "hres_json r = Inr j" "etcd_txn_from_value j = Some txn" "elected c me txn = Inr l"
    using answer by (auto simp: try_result_eq_Inr typed_json_def split: sum.splits option.splits)
  note law = assms(1) [unfolded etcd_elects_def, rule_format, OF r j(1)]
  show ?thesis
    using law j by (cases "holder w") (auto simp: elected_def try_result_eq_Inr)
qed

text \<open>
  C27: Leadership follows the name a master gives itself, which is its bind address. While the
  leader key stays as the elected master \<open>a\<close> left it, every further election names \<open>a\<close> the
  leader; the master that asked takes itself for the leader if and only if its own name is
  also \<open>a\<close>. So masters with different addresses never lead together, and masters with the
  same address (the default) all lead.
\<close>

theorem leadership_follows_the_name:
  assumes "etcd_elects http c store holder"
    and "b64_decode c (b64_encode c a) = Inr a" and "utf8_decode c a = Inr a"
    and "elect_leader http c store a w = (Inr l, w1)" and "is_leader l"
    and "holder w2 = holder w1" and "elect_leader http c store b w2 = (Inr l', w3)"
  shows "ls_local_id l' = b \<and> ls_leader_id l' = a \<and> (is_leader l' \<longleftrightarrow> b = a) \<and> holder w3 = holder w1"
proof -
  have "\<exists>v. holder w1 = Some v \<and> etcd_decode_utf8 c v = Inr a"
    using elect_leader_Inr [OF assms(1,4)] assms(2,3,5)
    by (cases "holder w")
       (auto simp: etcd_decode_utf8_def etcd_decode_def is_leader_def leadership_standby_def)
  then show ?thesis
    using elect_leader_Inr [OF assms(1,7)] assms(6)
    by (auto simp: leadership_standby_def is_leader_def)
qed

section \<open>The gateway's view\<close>

lemma json_struct_obj:
  assumes "distinct (map fst kvs)"
  shows "json_struct names (json_obj kvs) = Some (map (map_of kvs) names)"
proof -
  have "bt_get (fold (\<lambda>(k, v). bt_insert k v) kvs []) k = map_of kvs k" for k
    using bt.lookup_collect [OF assms] by metis
  then show ?thesis by (simp add: json_struct_def json_obj_def)
qed

lemma replica_round_trip [simp]: "replica_from_value (replica_to_value r) = Some r"
  by (simp add: replica_from_value_def replica_to_value_def json_struct_obj json_as_str_def json_as_u64_def)

lemma replica_list_round_trip: "replica_list_from_value (replica_list_to_value rl) = Some rl"
  by (simp add: replica_list_from_value_def replica_list_to_value_def lease_from_value_def json_struct_obj
      list_from_value_def list_all_iff comp_def json_as_str_def json_as_u64_def)

text \<open>
  A lookup over the network is a lookup: when the gateway's remote client gets, for the
  request it sends, the answer of the master service's handler, it returns exactly what the
  control plane's own lookup returns, the same replicas and lease, or not found.
\<close>

lemma remote_lookup:
  assumes "trim (tenant_as_str t) \<noteq> []" and "valid_key_text (key_as_str k)"
    and "handle_get_replica_list now \<lparr>rlq_tenant_id = tenant_as_str t, rlq_cache_key = key_as_str k\<rparr> s
      = ((status, body), s')"
    and "http (HttpGet (rm_base_url c @ ''/objects/replicas?tenant_id='' @ tenant_as_str t
        @ ''&cache_key='' @ key_as_str k)) w = (Inr response, w')"
    and "hres_status response = word_of_nat status" and "hres_json response = Inr body"
  shows "remote_get_replica_list http type_error c t k w =
      (map_err GeCache (fst (get_replica_list now t k (mr_master s))), w')
    \<and> s' = s\<lparr>mr_master := snd (get_replica_list now t k (mr_master s))\<rparr>"
proof (cases "get_replica_list now t k (mr_master s)")
  case (Pair r st)
  have parse: "parse_tenant_id (tenant_as_str t) = Inr t" "cache_key_from_hex (key_as_str k) = Inr k"
    using assms(1,2) by simp_all
  show ?thesis
  proof (cases r)
    case (Inl e)
    then have "e = NotFound"
      using Pair by (auto simp: get_replica_list_def Let_def split: option.splits if_splits prod.splits)
    then show ?thesis
      using assms(3-) Pair Inl parse
      by (simp add: handle_get_replica_list_def remote_get_replica_list_def error_response_def)
  next
    case (Inr rl)
    then have reply: "status = 200" "body = replica_list_to_value rl" "s' = s\<lparr>mr_master := st\<rparr>"
      using assms(3) Pair parse by (auto simp: handle_get_replica_list_def)
    then show ?thesis
      using assms(4-) Pair Inr replica_list_round_trip
      by (simp add: remote_get_replica_list_def is_success_def typed_json_def)
  qed
qed

section \<open>Examples\<close>

definition example_app :: "master_metadata_snapshot option master_app_state" where
  "example_app = \<lparr>ma_metadata = memory_metadata, ma_leadership = leadership_leader ''local''\<rparr>"

definition example_mount :: change_request where
  "example_mount = ReqMount \<lparr>msr_node_id = ''n1'', msr_len = 64\<rparr>"

text \<open>An etcd with one key, the leader's, and a codec that leaves texts as they are.\<close>

definition plain_codec :: etcd_codec where
  "plain_codec =
     \<lparr>b64_encode = id, b64_decode = Inr, utf8_decode = Inr, snapshot_to_vec = (\<lambda>_. Inl []),
      snapshot_from_slice = (\<lambda>_. Inl []), status_error = (\<lambda>_. []), body_type_error = (\<lambda>_. [])\<rparr>"

definition txn_put_value :: "json \<Rightarrow> string option" where
  "txn_put_value txn =
     (case json_get txn ''success'' of
        Some (JArray [put]) \<Rightarrow>
          Option.bind (Option.bind (json_get put ''request_put'') (\<lambda>p. json_get p ''value'')) json_as_str
      | _ \<Rightarrow> None)"

definition json_answer :: "json \<Rightarrow> http_response" where
  "json_answer v = \<lparr>hres_status = 200, hres_text = Inl [], hres_json = Inr v\<rparr>"

definition example_etcd :: "string option http" where
  "example_etcd call holder =
     (case call of
        HttpPost url txn \<Rightarrow>
          (case holder of
             None \<Rightarrow> (Inr (json_answer (JArray [JBool True])), txn_put_value txn)
           | Some v \<Rightarrow> (Inr (json_answer (JArray [JBool False, JArray [JArray [JArray [JArray [JArray [JString v]]]]]])),
                        holder))
      | HttpGet url \<Rightarrow> (Inl [], holder))"

lemma plain_codec_b64: "b64_encode plain_codec v = v"
  by (simp add: plain_codec_def)

lemma election_txn_value: "txn_put_value (election_txn plain_codec store me) = Some me"
  by (simp add: txn_put_value_def election_txn_def Let_def plain_codec_def json_obj_def json_get_def
      bt_get_def json_as_str_def)

lemma example_etcd_elects: "etcd_elects example_etcd plain_codec store id"
  by (auto simp: etcd_elects_def example_etcd_def json_answer_def election_txn_value plain_codec_b64
      etcd_txn_from_value_def etcd_txn_of_def json_as_bool_def list_from_value_def etcd_op_from_value_def
      optional_from_def etcd_range_from_value_def etcd_kv_from_value_def member_from_value_def json_struct_def
      json_as_str_def split: option.splits)

lemma example_elections:
  "elect_leader example_etcd plain_codec store ''a'' None = (Inr (leadership_leader ''a''), Some ''a'')"
  "elect_leader example_etcd plain_codec store ''b'' (Some ''a'') = (Inr (leadership_standby ''b'' ''a''), Some ''a'')"
proof -
  have "txn_put_value (election_txn plain_codec store ''a'') = Some ''a''" by (rule election_txn_value)
  then show "elect_leader example_etcd plain_codec store ''a'' None = (Inr (leadership_leader ''a''), Some ''a'')"
    by (simp add: elect_leader_def etcd_call_def example_etcd_def json_answer_def typed_json_def
        etcd_txn_from_value_def etcd_txn_of_def json_as_bool_def elected_def)
  show "elect_leader example_etcd plain_codec store ''b'' (Some ''a'') = (Inr (leadership_standby ''b'' ''a''), Some ''a'')"
    by (simp add: elect_leader_def etcd_call_def example_etcd_def json_answer_def typed_json_def
        etcd_txn_from_value_def etcd_txn_of_def json_as_bool_def elected_def list_from_value_def etcd_op_from_value_def
        optional_from_def etcd_range_from_value_def etcd_kv_from_value_def member_from_value_def json_struct_def
        json_as_str_def etcd_decode_utf8_def etcd_decode_def plain_codec_def)
qed

theorem leadership_follows_the_name_witness:
  "\<exists>l'. elect_leader example_etcd plain_codec (etcd_new ''e'') ''b'' (Some ''a'') = (Inr l', Some ''a'')
     \<and> ls_leader_id l' = ''a'' \<and> \<not> is_leader l'"
proof -
  have "b64_decode plain_codec (b64_encode plain_codec ''a'') = Inr ''a''" "utf8_decode plain_codec ''a'' = Inr ''a''"
    "is_leader (leadership_leader ''a'')"
    by (simp_all add: plain_codec_def is_leader_def leadership_leader_def)
  from leadership_follows_the_name
    [OF example_etcd_elects this(1,2) example_elections(1) this(3) refl example_elections(2) [of "etcd_new ''e''"]]
  show ?thesis using example_elections(2) by auto
qed

end
