(* ===== verification/Ssd_Store.thy ===== *)
theory Ssd_Store
imports Memory_Store
begin

text \<open>
  \<^verbatim>\<open>crates/store/src/ssd.rs\<close>: the encrypted file tier. The disk is a map from paths (lists of
  components) to file contents. The authenticated cipher of the \<^verbatim>\<open>chacha20poly1305\<close> crate is the
  record \<open>aead\<close> of its two functions; the random nonce, the random suffix of the temporary
  file and the outcome of every file system call come from the environment \<open>io_env\<close>, so the
  theorems cover every failure the operating system may report.
\<close>

section \<open>Errors, cipher and environment\<close>

datatype io_error = IoNotFound | IoAlreadyExists | IoOther string

type_synonym path = "string list"
type_synonym disk = "path \<rightharpoonup> bytes"

datatype ssd_error =
    InvalidPathSegment (ips_kind: string) (ips_value: string)
  | SsdNotFound (snf_tenant_id: string) (snf_cache_key: string)
  | CorruptObject (co_reason: string)
  | SsdEncryption
  | SsdDecryption
  | SsdIo (sio_op: string) (sio_path: path) (sio_source: io_error)

type_synonym 'a ssd_result = "ssd_error + 'a"

record aead =
  aead_encrypt :: "bytes \<Rightarrow> bytes \<Rightarrow> string \<Rightarrow> bytes \<Rightarrow> bytes option"
  aead_decrypt :: "bytes \<Rightarrow> bytes \<Rightarrow> string \<Rightarrow> bytes \<Rightarrow> bytes option"

text \<open>
  The outcomes of the calls, in the order of the code: \<open>None\<close> is success. A failing
  \<^verbatim>\<open>write_all\<close> leaves some content of its own in the temporary file.
\<close>

record io_env =
  env_nonce :: bytes
  env_suffix :: bytes
  env_create_dir :: "io_error option"
  env_create :: "io_error option"
  env_write :: "(io_error \<times> bytes) option"
  env_flush :: "io_error option"
  env_sync :: "io_error option"
  env_rename :: "io_error option"
  env_remove :: "io_error option"

definition file_magic :: bytes where
  "file_magic = ''MCSSD1'' @ [CHR 0x00]"

definition nonce_len :: nat where
  "nonce_len = 12"

definition object_extension :: string where
  "object_extension = ''mcobj''"

record ssd_store =
  ssd_root :: path
  ssd_key :: bytes

section \<open>Paths\<close>

definition segment_byte :: "char \<Rightarrow> bool" where
  "segment_byte b \<longleftrightarrow> is_ascii_alphanumeric b \<or> b \<in> {CHR ''-'', CHR ''_'', CHR ''.''}"

definition validate_path_segment :: "string \<Rightarrow> string \<Rightarrow> string ssd_result" where
  "validate_path_segment kind val =
     (if val \<noteq> [] \<and> val \<noteq> ''.'' \<and> val \<noteq> ''..'' \<and> list_all segment_byte val
      then Inr val else Inl (InvalidPathSegment kind val))"

definition object_path :: "string \<Rightarrow> string \<Rightarrow> ssd_store \<Rightarrow> path ssd_result" where
  "object_path tenant_id cache_key store =
     (case validate_path_segment ''tenant_id'' tenant_id of
        Inl e \<Rightarrow> Inl e
      | Inr tenant \<Rightarrow>
          (case validate_path_segment ''cache_key'' cache_key of
             Inl e \<Rightarrow> Inl e
           | Inr key \<Rightarrow> Inr (ssd_root store @ [tenant, key @ ''.'' @ object_extension])))"

definition temp_path :: "bytes \<Rightarrow> path \<Rightarrow> string \<Rightarrow> path" where
  "temp_path suffix tenant_dir cache_key =
     tenant_dir @ [''.'' @ cache_key @ ''.'' @ hex_lower suffix @ ''.tmp'']"

definition ssd_aad :: "string \<Rightarrow> string \<Rightarrow> string" where
  "ssd_aad tenant_id cache_key = tenant_id @ [CHR 0x00] @ cache_key"

section \<open>Operations\<close>

definition ssd_new_with_key :: "io_env \<Rightarrow> path \<Rightarrow> bytes \<Rightarrow> ssd_store ssd_result" where
  "ssd_new_with_key env root key =
     (case env_create_dir env of
        Some e \<Rightarrow> Inl (SsdIo ''creating SSD root'' root e)
      | None \<Rightarrow> if length key \<noteq> 32 then Inl SsdEncryption
                else Inr \<lparr>ssd_root = root, ssd_key = key\<rparr>)"

text \<open>The \<^verbatim>\<open>async\<close> block of \<^verbatim>\<open>persist_object\<close>: create, write, flush, sync, rename.\<close>

definition write_and_rename :: "io_env \<Rightarrow> path \<Rightarrow> path \<Rightarrow> bytes \<Rightarrow> disk \<Rightarrow> unit ssd_result \<times> disk" where
  "write_and_rename env tmp_path obj_path file_bytes d =
     (case (if d tmp_path \<noteq> None then Some IoAlreadyExists else env_create env) of
        Some e \<Rightarrow> (Inl (SsdIo ''creating SSD temp object'' tmp_path e), d)
      | None \<Rightarrow>
         (case env_write env of
            Some (e, partial) \<Rightarrow> (Inl (SsdIo ''writing SSD temp object'' tmp_path e), d(tmp_path \<mapsto> partial))
          | None \<Rightarrow>
             let d1 = d(tmp_path \<mapsto> file_bytes)
             in case env_flush env of
                  Some e \<Rightarrow> (Inl (SsdIo ''flushing SSD temp object'' tmp_path e), d1)
                | None \<Rightarrow>
                   (case env_sync env of
                      Some e \<Rightarrow> (Inl (SsdIo ''syncing SSD temp object'' tmp_path e), d1)
                    | None \<Rightarrow>
                       (case env_rename env of
                          Some e \<Rightarrow> (Inl (SsdIo ''renaming SSD object into place'' obj_path e), d1)
                        | None \<Rightarrow> (Inr (), (d1(obj_path \<mapsto> file_bytes))(tmp_path := None))))))"

definition persist_object ::
  "aead \<Rightarrow> io_env \<Rightarrow> string \<Rightarrow> string \<Rightarrow> bytes \<Rightarrow> ssd_store \<Rightarrow> disk \<Rightarrow> unit ssd_result \<times> disk" where
  "persist_object cipher env tenant_id cache_key bs store d =
     (case object_path tenant_id cache_key store of
        Inl e \<Rightarrow> (Inl e, d)
      | Inr obj_path \<Rightarrow>
         let tenant_dir = butlast obj_path
         in case env_create_dir env of
              Some e \<Rightarrow> (Inl (SsdIo ''creating tenant SSD directory'' tenant_dir e), d)
            | None \<Rightarrow>
               (case aead_encrypt cipher (ssd_key store) (env_nonce env) (ssd_aad tenant_id cache_key) bs of
                  None \<Rightarrow> (Inl SsdEncryption, d)
                | Some ciphertext \<Rightarrow>
                   let file_bytes = file_magic @ env_nonce env @ ciphertext;
                       tmp_path = temp_path (env_suffix env) tenant_dir cache_key;
                       (write_result, d1) = write_and_rename env tmp_path obj_path file_bytes d
                   in if \<not> is_ok write_result \<and> env_remove env = None
                      then (write_result, d1(tmp_path := None))
                      else (write_result, d1)))"

text \<open>\<^verbatim>\<open>read_error\<close> is what \<^verbatim>\<open>fs::read\<close> reports when it fails although the file exists.\<close>

definition read_object ::
  "aead \<Rightarrow> io_error option \<Rightarrow> string \<Rightarrow> string \<Rightarrow> ssd_store \<Rightarrow> disk \<Rightarrow> bytes ssd_result" where
  "read_object cipher read_error tenant_id cache_key store d =
     (case object_path tenant_id cache_key store of
        Inl e \<Rightarrow> Inl e
      | Inr obj_path \<Rightarrow>
         (case (case read_error of Some e \<Rightarrow> Inl e | None \<Rightarrow> ok_or (d obj_path) IoNotFound) of
            Inl e \<Rightarrow> if e = IoNotFound then Inl (SsdNotFound tenant_id cache_key)
                     else Inl (SsdIo ''reading SSD object'' obj_path e)
          | Inr file_bytes \<Rightarrow>
             (case strip_prefix file_magic file_bytes of
                None \<Rightarrow> Inl (CorruptObject ''missing SSD file magic'')
              | Some encrypted \<Rightarrow>
                 if length encrypted < nonce_len
                 then Inl (CorruptObject ''missing SSD object nonce'')
                 else ok_or (aead_decrypt cipher (ssd_key store) (take nonce_len encrypted)
                               (ssd_aad tenant_id cache_key) (drop nonce_len encrypted))
                        SsdDecryption)))"

definition promote_to_dram ::
  "aead \<Rightarrow> io_error option \<Rightarrow> string \<Rightarrow> string \<Rightarrow> ssd_store \<Rightarrow> disk \<Rightarrow> bytes ssd_result" where
  "promote_to_dram cipher read_error tenant_id cache_key store d =
     read_object cipher read_error tenant_id cache_key store d"

section \<open>Lemmas on paths\<close>

lemma validate_path_segment_eq_Inr:
  "validate_path_segment kind v = Inr w \<longleftrightarrow>
     w = v \<and> v \<noteq> [] \<and> v \<noteq> ''.'' \<and> v \<noteq> ''..'' \<and> list_all segment_byte v"
  by (auto simp: validate_path_segment_def)

lemma segment_byte_not:
  "\<not> segment_byte (CHR ''/'')" "\<not> segment_byte (CHR 0x00)"
  by (simp_all add: segment_byte_def is_ascii_alphanumeric_def)

lemma object_path_eq_Inr:
  "object_path t k store = Inr p \<longleftrightarrow>
     validate_path_segment ''tenant_id'' t = Inr t \<and> validate_path_segment ''cache_key'' k = Inr k
     \<and> p = ssd_root store @ [t, k @ ''.mcobj'']"
  by (auto simp: object_path_def object_extension_def validate_path_segment_def split: sum.splits)

lemma temp_path_not_object:
  assumes "object_path t k store = Inr p"
  shows "p \<noteq> temp_path suffix dir k'"
proof
  assume "p = temp_path suffix dir k'"
  then have "last p = last (temp_path suffix dir k')" by simp
  then have "rev (k @ ''.mcobj'') = rev (''.'' @ k' @ ''.'' @ hex_lower suffix @ ''.tmp'')"
    using assms by (auto simp: object_path_eq_Inr temp_path_def)
  then show False by simp
qed

text \<open>Objects of different tenants or keys have different files and different associated data.\<close>

lemma object_path_inject:
  "object_path t k store = Inr p \<Longrightarrow> object_path t' k' store = Inr p \<Longrightarrow> t' = t \<and> k' = k"
  by (auto simp: object_path_eq_Inr)

lemma ssd_aad_inject:
  assumes "object_path t k store = Inr p" and "ssd_aad t k = ssd_aad t' k'"
  shows "t' = t \<and> k' = k"
proof -
  have "CHR 0x00 \<notin> set t" "CHR 0x00 \<notin> set k"
    using assms(1) segment_byte_not
    by (auto simp: object_path_eq_Inr validate_path_segment_eq_Inr list_all_iff)
  then show ?thesis
    using assms(2) append_Cons_eq_iff [of "CHR 0x00" t k t' k'] by (simp add: ssd_aad_def)
qed

section \<open>Lemmas on the operations\<close>

lemma write_and_rename_Inr:
  "write_and_rename env tmp p bs d = (Inr u, d') \<Longrightarrow> p \<noteq> tmp \<Longrightarrow> d' = d(p \<mapsto> bs, tmp := None) \<and> d tmp = None"
  by (auto simp: write_and_rename_def Let_def fun_upd_twist split: option.splits if_splits prod.splits)

lemma write_and_rename_Inl:
  "write_and_rename env tmp p bs d = (Inl e, d') \<Longrightarrow> q \<noteq> tmp \<Longrightarrow> d' q = d q"
  by (auto simp: write_and_rename_def Let_def split: option.splits if_splits prod.splits)

lemma persist_object_Inr:
  assumes "persist_object cipher env t k bs store d = (Inr u, d')"
  obtains p c where "object_path t k store = Inr p"
    and "aead_encrypt cipher (ssd_key store) (env_nonce env) (ssd_aad t k) bs = Some c"
    and "d' p = Some (file_magic @ env_nonce env @ c)"
    and "\<And>q t' k'. object_path t' k' store = Inr q \<Longrightarrow> q \<noteq> p \<Longrightarrow> d' q = d q"
proof -
  obtain p where p: "object_path t k store = Inr p"
    using assms by (auto simp: persist_object_def split: sum.splits)
  obtain c where c: "aead_encrypt cipher (ssd_key store) (env_nonce env) (ssd_aad t k) bs = Some c"
    using assms p by (auto simp: persist_object_def Let_def split: option.splits)
  let ?tmp = "temp_path (env_suffix env) (butlast p) k" and ?bs = "file_magic @ env_nonce env @ c"
  have "write_and_rename env ?tmp p ?bs d = (Inr u, d')"
    using assms p c
    by (auto simp: persist_object_def Let_def is_ok_def split: option.splits prod.splits if_splits sum.splits)
  then have "d' = d(p \<mapsto> ?bs, ?tmp := None)"
    using write_and_rename_Inr temp_path_not_object [OF p] by blast
  then show thesis
    using temp_path_not_object [of _ _ store] p by (intro that [OF p c]) simp_all
qed

lemma persist_object_Inl:
  assumes "persist_object cipher env t k bs store d = (Inl e, d')" and "object_path t' k' store = Inr q"
  shows "d' q = d q"
proof -
  have "\<And>tmp bs' r d1. write_and_rename env tmp q' bs' d = (r, d1) \<Longrightarrow> r = Inl e' \<Longrightarrow> q \<noteq> tmp \<Longrightarrow> d1 q = d q" for q' e'
    using write_and_rename_Inl by blast
  then show ?thesis
    using assms(1) temp_path_not_object [OF assms(2)]
    by (auto simp: persist_object_def Let_def is_ok_def
        split: option.splits prod.splits if_splits sum.splits)
qed

lemma read_object_cong:
  assumes "object_path t k store = Inr q" and "d' q = d q"
  shows "read_object cipher err t k store d' = read_object cipher err t k store d"
  using assms by (cases err) (simp_all add: read_object_def)

text \<open>What the code relies on in the cipher.\<close>

definition aead_decrypts :: "aead \<Rightarrow> bool" where
  "aead_decrypts cipher \<longleftrightarrow> (\<forall>key nonce aad m c.
     aead_encrypt cipher key nonce aad m = Some c \<longrightarrow> aead_decrypt cipher key nonce aad c = Some m)"

lemma persist_object_read:
  assumes "aead_decrypts cipher" and "length (env_nonce env) = 12"
    and "persist_object cipher env t k bs store d = (Inr u, d')"
  shows "read_object cipher None t k store d' = Inr bs"
proof (rule persist_object_Inr [OF assms(3)])
  fix p c
  assume "object_path t k store = Inr p" "d' p = Some (file_magic @ env_nonce env @ c)"
    and c: "aead_encrypt cipher (ssd_key store) (env_nonce env) (ssd_aad t k) bs = Some c"
  then show ?thesis
    using assms(1,2) by (simp add: read_object_def ok_or_def nonce_len_def aead_decrypts_def)
qed

lemma persist_object_other:
  assumes "persist_object cipher env t k bs store d = (r, d')" and "(t', k') \<noteq> (t, k)"
  shows "read_object cipher err t' k' store d' = read_object cipher err t' k' store d"
proof (cases "object_path t' k' store")
  case (Inr q)
  have "d' q = d q"
  proof (cases r)
    case (Inl e)
    then show ?thesis using persist_object_Inl [OF _ Inr] assms(1) by blast
  next
    case (Inr u)
    then show ?thesis
      using assms object_path_inject \<open>object_path t' k' store = Inr q\<close> by (blast elim: persist_object_Inr)
  qed
  with Inr show ?thesis by (rule read_object_cong)
qed (simp add: read_object_def)

section \<open>Contract\<close>

text \<open>
  C28: a persisted object reads back and disturbs no other. When \<^verbatim>\<open>persist_object\<close> succeeds, a
  later \<^verbatim>\<open>read_object\<close> of the same tenant and key returns exactly the bytes, and every other
  object reads as before. The cipher is assumed to decrypt what it encrypted, and the nonce
  to have its twelve bytes.
\<close>

theorem persisted_object_reads_back:
  assumes "aead_decrypts cipher" and "length (env_nonce env) = 12"
    and "persist_object cipher env t k bs store d = (Inr u, d')"
  shows "read_object cipher None t k store d' = Inr bs
    \<and> (\<forall>t' k' err. (t', k') \<noteq> (t, k) \<longrightarrow>
         read_object cipher err t' k' store d' = read_object cipher err t' k' store d)"
  using persist_object_read [OF assms] persist_object_other [OF assms(3)] by simp

text \<open>
  C29: persisting is atomic. Whatever file system call of \<^verbatim>\<open>persist_object\<close> fails, every object
  on the disk, the one being replaced included, reads exactly as before.
\<close>

theorem failed_persist_changes_no_object:
  assumes "persist_object cipher env t k bs store d = (Inl e, d')"
  shows "read_object cipher err t' k' store d' = read_object cipher err t' k' store d"
proof (cases "object_path t' k' store")
  case (Inr q)
  then show ?thesis using persist_object_Inl [OF assms Inr] by (rule read_object_cong)
qed (simp add: read_object_def)

text \<open>
  C36: object files stay inside the store's root, one directory per tenant. Accepted names
  contain no separator and no parent reference, every object lies in its tenant's directory
  directly under the root, and different objects have different files and different
  associated data for the cipher, so a file moved to another tenant or key does not
  authenticate there.
\<close>

theorem object_paths_confined:
  assumes "object_path t k store = Inr p"
  shows "p = ssd_root store @ [t, k @ ''.mcobj''] \<and> CHR ''/'' \<notin> set t \<and> CHR ''/'' \<notin> set (k @ ''.mcobj'')
    \<and> t \<notin> {[], ''.'', ''..''} \<and> k @ ''.mcobj'' \<notin> {[], ''.'', ''..''}
    \<and> (\<forall>t' k'. object_path t' k' store = Inr p \<or> ssd_aad t' k' = ssd_aad t k \<longrightarrow> t' = t \<and> k' = k)"
proof -
  have "CHR ''/'' \<notin> set t" "CHR ''/'' \<notin> set k" "t \<notin> {[], ''.'', ''..''}"
    using assms segment_byte_not by (auto simp: object_path_eq_Inr validate_path_segment_eq_Inr list_all_iff)
  moreover have "length (k @ ''.mcobj'') > 2" by simp
  then have "k @ ''.mcobj'' \<notin> {[], ''.'', ''..''}" by force
  moreover have "t' = t \<and> k' = k" if "object_path t' k' store = Inr p \<or> ssd_aad t' k' = ssd_aad t k" for t' k'
    using that object_path_inject [OF assms] ssd_aad_inject [OF assms] by (metis (no_types))
  ultimately show ?thesis
    using assms by (auto simp: object_path_eq_Inr)
qed

section \<open>Examples\<close>

text \<open>A cipher that appends key, nonce and associated data, and checks them.\<close>

definition tagging_aead :: aead where
  "tagging_aead =
     \<lparr>aead_encrypt = (\<lambda>key nonce aad m. Some (m @ key @ nonce @ aad)),
      aead_decrypt = (\<lambda>key nonce aad c.
        let tag = key @ nonce @ aad; n = length c - length tag
        in if drop n c = tag then Some (take n c) else None)\<rparr>"

definition quiet_env :: io_env where
  "quiet_env = \<lparr>env_nonce = ''0123456789ab'', env_suffix = ''x'', env_create_dir = None, env_create = None,
     env_write = None, env_flush = None, env_sync = None, env_rename = None, env_remove = None\<rparr>"

definition example_ssd :: ssd_store where
  "example_ssd = \<lparr>ssd_root = [''data''], ssd_key = ''key''\<rparr>"

lemma tagging_decrypts: "aead_decrypts tagging_aead"
  by (auto simp: aead_decrypts_def tagging_aead_def Let_def)

lemma example_object_path: "object_path ''t1'' ''k1'' example_ssd = Inr [''data'', ''t1'', ''k1.mcobj'']"
  by code_simp

lemma example_persist:
  "\<exists>d'. persist_object tagging_aead quiet_env ''t1'' ''k1'' ''hello'' example_ssd Map.empty = (Inr (), d')"
  by (simp add: persist_object_def example_object_path quiet_env_def tagging_aead_def
      write_and_rename_def is_ok_def Let_def)

theorem persisted_object_reads_back_witness:
  "\<exists>d'. read_object tagging_aead None ''t1'' ''k1'' example_ssd d' = Inr ''hello''"
proof -
  obtain d' where run:
    "persist_object tagging_aead quiet_env ''t1'' ''k1'' ''hello'' example_ssd Map.empty = (Inr (), d')"
    using example_persist by blast
  have "read_object tagging_aead None ''t1'' ''k1'' example_ssd d' = Inr ''hello''"
    by (rule persisted_object_reads_back [OF tagging_decrypts _ run, THEN conjunct1])
       (simp_all add: quiet_env_def)
  then show ?thesis by blast
qed

theorem failed_persist_changes_no_object_witness:
  "\<exists>d'. persist_object tagging_aead (quiet_env\<lparr>env_rename := Some (IoOther ''full'')\<rparr>) ''t1'' ''k1'' ''hello''
        example_ssd Map.empty = (Inl (SsdIo ''renaming SSD object into place'' [''data'', ''t1'', ''k1.mcobj'']
          (IoOther ''full'')), d')
     \<and> read_object tagging_aead None ''t1'' ''k1'' example_ssd d'
       = read_object tagging_aead None ''t1'' ''k1'' example_ssd Map.empty"
proof -
  obtain d' where run: "persist_object tagging_aead (quiet_env\<lparr>env_rename := Some (IoOther ''full'')\<rparr>)
      ''t1'' ''k1'' ''hello'' example_ssd Map.empty = (Inl (SsdIo ''renaming SSD object into place''
        [''data'', ''t1'', ''k1.mcobj''] (IoOther ''full'')), d')"
    by (simp add: persist_object_def example_object_path quiet_env_def tagging_aead_def
        write_and_rename_def is_ok_def Let_def)
  from failed_persist_changes_no_object [OF run] run show ?thesis by blast
qed

theorem object_paths_confined_witness:
  "[''data'', ''t1'', ''k1.mcobj''] = ssd_root example_ssd @ [''t1'', ''k1'' @ ''.mcobj'']"
  by (rule object_paths_confined [OF example_object_path, THEN conjunct1])

end
