(* ===== verification/Store_Node.thy ===== *)
theory Store_Node
imports Ssd_Store Clients
begin

text \<open>
  \<^verbatim>\<open>apps/store-node/src/main.rs\<close>: a node keeps chunks in memory and, for writes that name a
  tenant and a key, also as encrypted objects on its SSD; a read that memory cannot answer is
  promoted from the SSD. Requests arrive deserialized and answers leave before they are
  serialized. The texts of \<^verbatim>\<open>std\<close>'s \<^verbatim>\<open>Debug\<close> for strings, of paths and of operating system
  errors are an argument.
\<close>

section \<open>The key of the SSD tier\<close>

definition ssd_key_message :: string where
  "ssd_key_message = ''SSD key must be 64 lowercase hex characters''"

definition hex_nibble :: "char \<Rightarrow> string + nat" where
  "hex_nibble b =
     (let n = of_char b
      in if 48 \<le> n \<and> n \<le> 57 then Inr (n - 48)
         else if 97 \<le> n \<and> n \<le> 102 then Inr (n - 97 + 10)
         else Inl ssd_key_message)"

fun decode_hex_pairs :: "string \<Rightarrow> string + bytes" where
  "decode_hex_pairs (a # b # rest) =
     try_result (hex_nibble a) (\<lambda>high.
       try_result (hex_nibble b) (\<lambda>low.
         try_result (decode_hex_pairs rest) (\<lambda>slots.
           Inr (char_of (or (push_bit 4 high) low) # slots))))"
| "decode_hex_pairs _ = Inr []"

definition parse_32_byte_hex :: "string \<Rightarrow> string + bytes" where
  "parse_32_byte_hex val =
     (if length val \<noteq> 64 then Inl ssd_key_message else decode_hex_pairs val)"

text \<open>The environment of the process, as far as it is valid text.\<close>

definition ssd_key_from_env :: "(string \<Rightarrow> string option) \<Rightarrow> string + bytes" where
  "ssd_key_from_env getenv =
     (case getenv ''MOONCACHE_STORE_NODE_SSD_KEY'' of
        Some val \<Rightarrow> parse_32_byte_hex val
      | None \<Rightarrow>
          (case getenv ''MOONCACHE_SSD_KEY'' of
             Some val \<Rightarrow> parse_32_byte_hex val
           | None \<Rightarrow> Inl (''MOONCACHE_STORE_NODE_SSD_KEY or MOONCACHE_SSD_KEY ''
               @ ''must be set to 64 lowercase hex characters'')))"

section \<open>State\<close>

text \<open>The node's tiers, and the disk of the machine it runs on.\<close>

record store_node_state =
  sn_dram :: memory_store
  sn_ssd :: "ssd_store option"
  sn_ssd_objects :: "(string \<times> string, usize) hash_map"
  sn_ssd_bytes_capacity :: u64

record store_machine =
  sm_node :: store_node_state
  sm_disk :: disk

datatype store_node_error = SneStore store_error | SneSsd ssd_error

record write_chunk_request =
  wcr_len :: usize
  wcr_data :: bytes

record preallocated_write_request =
  pwr_tenant_id :: "string option"
  pwr_cache_key :: "string option"
  pwr_offset :: usize
  pwr_len :: usize
  pwr_data :: bytes

record read_chunk_query =
  rcq_tenant_id :: "string option"
  rcq_cache_key :: "string option"

record write_chunk_response =
  wrs_ok :: bool
  wrs_offset :: usize
  wrs_len :: usize

record read_chunk_response =
  rrs_offset :: usize
  rrs_len :: usize
  rrs_tier :: string
  rrs_data :: bytes

definition node_memory_only :: "usize \<Rightarrow> store_node_state" where
  "node_memory_only dram_capacity =
     \<lparr>sn_dram = memory_with_capacity dram_capacity, sn_ssd = None, sn_ssd_objects = [],
      sn_ssd_bytes_capacity = 0\<rparr>"

definition node_with_ssd ::
  "io_env \<Rightarrow> usize \<Rightarrow> path \<Rightarrow> u64 \<Rightarrow> bytes \<Rightarrow> store_node_state ssd_result" where
  "node_with_ssd env dram_capacity root ssd_capacity key =
     try_result (ssd_new_with_key env root key) (\<lambda>ssd.
       Inr \<lparr>sn_dram = memory_with_capacity dram_capacity, sn_ssd = Some ssd, sn_ssd_objects = [],
            sn_ssd_bytes_capacity = ssd_capacity\<rparr>)"

definition record_ssd_object :: "string \<Rightarrow> string \<Rightarrow> usize \<Rightarrow> store_node_state \<Rightarrow> store_node_state" where
  "record_ssd_object tenant_id cache_key len n =
     n\<lparr>sn_ssd_objects := hm_insert (tenant_id, cache_key) len (sn_ssd_objects n)\<rparr>"

definition node_ssd_bytes_used :: "store_node_state \<Rightarrow> u64" where
  "node_ssd_bytes_used n = fold (\<lambda>(_, len) total. saturating_add total len) (sn_ssd_objects n) 0"

definition node_capacity_snapshot :: "store_node_state \<Rightarrow> store_capacity_snapshot" where
  "node_capacity_snapshot n =
     (let dram = capacity_snapshot (sn_dram n)
      in \<lparr>dram_bytes_used = dram_bytes_used dram, dram_bytes_capacity = dram_bytes_capacity dram,
          ssd_bytes_used = node_ssd_bytes_used n, ssd_bytes_capacity = sn_ssd_bytes_capacity n\<rparr>)"

section \<open>Operations\<close>

definition allocate_and_write ::
  "(bytes \<Rightarrow> chunk_checksum) \<Rightarrow> usize \<Rightarrow> bytes \<Rightarrow> store_machine \<Rightarrow> chunk_handle store_result \<times> store_machine"
where
  "allocate_and_write sha256 len data w =
     (case memory_allocate len (sn_dram (sm_node w)) of
        (Inl e, dram) \<Rightarrow> (Inl e, w\<lparr>sm_node := (sm_node w)\<lparr>sn_dram := dram\<rparr>\<rparr>)
      | (Inr handle, dram) \<Rightarrow>
          (case write_chunk sha256 handle data dram of
             (Inl e, dram') \<Rightarrow> (Inl e, w\<lparr>sm_node := (sm_node w)\<lparr>sn_dram := dram'\<rparr>\<rparr>)
           | (Inr _, dram') \<Rightarrow> (Inr handle, w\<lparr>sm_node := (sm_node w)\<lparr>sn_dram := dram'\<rparr>\<rparr>)))"

definition node_write_preallocated ::
  "(bytes \<Rightarrow> chunk_checksum) \<Rightarrow> aead \<Rightarrow> io_env \<Rightarrow> chunk_handle \<Rightarrow> bytes \<Rightarrow> string option \<Rightarrow> string option
   \<Rightarrow> store_machine \<Rightarrow> (store_node_error + unit) \<times> store_machine" where
  "node_write_preallocated sha256 cipher env handle bs tenant_id cache_key w =
     (case write_preallocated_chunk sha256 handle bs (sn_dram (sm_node w)) of
        (Inl e, dram) \<Rightarrow> (Inl (SneStore e), w\<lparr>sm_node := (sm_node w)\<lparr>sn_dram := dram\<rparr>\<rparr>)
      | (Inr _, dram) \<Rightarrow>
          let w1 = w\<lparr>sm_node := (sm_node w)\<lparr>sn_dram := dram\<rparr>\<rparr>
          in case (sn_ssd (sm_node w), tenant_id, cache_key) of
               (Some ssd, Some tenant_id, Some cache_key) \<Rightarrow>
                 (case persist_object cipher env tenant_id cache_key bs ssd (sm_disk w1) of
                    (Inl e, d) \<Rightarrow> (Inl (SneSsd e), w1\<lparr>sm_disk := d\<rparr>)
                  | (Inr _, d) \<Rightarrow>
                      (Inr (), \<lparr>sm_node = record_ssd_object tenant_id cache_key (word_of_nat (length bs))
                                  (sm_node w1), sm_disk = d\<rparr>))
             | _ \<Rightarrow> (Inr (), w1))"

definition can_promote_from_ssd :: "string option \<Rightarrow> string option \<Rightarrow> store_node_state \<Rightarrow> bool" where
  "can_promote_from_ssd tenant_id cache_key n \<longleftrightarrow>
     sn_ssd n \<noteq> None \<and> tenant_id \<noteq> None \<and> cache_key \<noteq> None"

fun absent_from_dram :: "store_error \<Rightarrow> bool" where
  "absent_from_dram (InvalidHandle off len) = True"
| "absent_from_dram UnwrittenChunk = True"
| "absent_from_dram _ = False"

definition node_read_chunk ::
  "(bytes \<Rightarrow> chunk_checksum) \<Rightarrow> aead \<Rightarrow> io_error option \<Rightarrow> chunk_handle \<Rightarrow> string option \<Rightarrow> string option
   \<Rightarrow> store_machine \<Rightarrow> (store_node_error + read_chunk_response) \<times> store_machine" where
  "node_read_chunk sha256 cipher read_error handle tenant_id cache_key w =
     (case read_chunk sha256 handle (sn_dram (sm_node w)) of
        Inr data \<Rightarrow>
          (Inr \<lparr>rrs_offset = ch_offset handle, rrs_len = ch_len handle, rrs_tier = ''dram'', rrs_data = data\<rparr>, w)
      | Inl err \<Rightarrow>
          if absent_from_dram err \<and> can_promote_from_ssd tenant_id cache_key (sm_node w)
          then (case (sn_ssd (sm_node w), tenant_id, cache_key) of
                  (Some ssd, Some tenant_id, Some cache_key) \<Rightarrow>
                    (case promote_to_dram cipher read_error tenant_id cache_key ssd (sm_disk w) of
                       Inl e \<Rightarrow> (Inl (SneSsd e), w)
                     | Inr data \<Rightarrow>
                         (case write_preallocated_chunk sha256 handle data (sn_dram (sm_node w)) of
                            (Inl e, dram) \<Rightarrow> (Inl (SneStore e), w\<lparr>sm_node := (sm_node w)\<lparr>sn_dram := dram\<rparr>\<rparr>)
                          | (Inr _, dram) \<Rightarrow>
                              (Inr \<lparr>rrs_offset = ch_offset handle, rrs_len = ch_len handle,
                                    rrs_tier = ''ssd'', rrs_data = data\<rparr>,
                               w\<lparr>sm_node := (sm_node w)\<lparr>sn_dram := dram\<rparr>\<rparr>)))
                | _ \<Rightarrow> (Inl (SneStore err), w))
          else (Inl (SneStore err), w))"

section \<open>Handlers\<close>

record std_format =
  fmt_debug :: "string \<Rightarrow> string"
  fmt_path :: "path \<Rightarrow> string"
  fmt_io_error :: "io_error \<Rightarrow> string"

fun ssd_error_to_string :: "std_format \<Rightarrow> ssd_error \<Rightarrow> string" where
  "ssd_error_to_string f (InvalidPathSegment kind val) =
     ''invalid '' @ kind @ '' path segment: '' @ fmt_debug f val"
| "ssd_error_to_string f (SsdNotFound t k) =
     ''SSD object not found for tenant '' @ fmt_debug f t @ '' and cache key '' @ fmt_debug f k"
| "ssd_error_to_string f (CorruptObject reason) = ''SSD object is corrupt: '' @ reason"
| "ssd_error_to_string f SsdEncryption = ''failed to encrypt SSD object''"
| "ssd_error_to_string f SsdDecryption = ''failed to decrypt SSD object''"
| "ssd_error_to_string f (SsdIo op p e) =
     ''SSD io error while '' @ op @ '' '' @ fmt_path f p @ '': '' @ fmt_io_error f e"

type_synonym error_reply = "nat \<times> json"

definition error_body :: "string \<Rightarrow> json" where
  "error_body message = json_obj [(''error'', JString message)]"

fun store_error_status :: "store_error \<Rightarrow> nat" where
  "store_error_status EmptyChunk = 400"
| "store_error_status (LengthMismatch e a) = 400"
| "store_error_status (InsufficientCapacity r a) = 507"
| "store_error_status (InvalidHandle off len) = 404"
| "store_error_status UnwrittenChunk = 404"
| "store_error_status (ChecksumMismatch off) = 500"

definition store_error_to_response :: "store_error \<Rightarrow> error_reply" where
  "store_error_to_response e = (store_error_status e, error_body (store_error_to_string e))"

fun ssd_error_status :: "ssd_error \<Rightarrow> nat" where
  "ssd_error_status (InvalidPathSegment kind val) = 400"
| "ssd_error_status (SsdNotFound t k) = 404"
| "ssd_error_status (CorruptObject reason) = 500"
| "ssd_error_status SsdEncryption = 500"
| "ssd_error_status SsdDecryption = 500"
| "ssd_error_status (SsdIo op p e) = 500"

definition ssd_error_to_response :: "std_format \<Rightarrow> ssd_error \<Rightarrow> error_reply" where
  "ssd_error_to_response f e = (ssd_error_status e, error_body (ssd_error_to_string f e))"

fun store_node_error_to_response :: "std_format \<Rightarrow> store_node_error \<Rightarrow> error_reply" where
  "store_node_error_to_response f (SneStore e) = store_error_to_response e"
| "store_node_error_to_response f (SneSsd e) = ssd_error_to_response f e"

definition node_healthz :: json where
  "node_healthz = json_obj [(''ok'', JBool True), (''service'', JString ''mooncache-store-node'')]"

definition node_metrics_snapshot :: "store_machine \<Rightarrow> json" where
  "node_metrics_snapshot w =
     (let s = node_capacity_snapshot (sm_node w)
      in json_obj
           [(''dram_bytes_used'', JNumber (PosInt (dram_bytes_used s))),
            (''dram_bytes_capacity'', JNumber (PosInt (dram_bytes_capacity s))),
            (''ssd_bytes_used'', JNumber (PosInt (ssd_bytes_used s))),
            (''ssd_bytes_capacity'', JNumber (PosInt (ssd_bytes_capacity s)))])"

definition post_chunk ::
  "(bytes \<Rightarrow> chunk_checksum) \<Rightarrow> write_chunk_request \<Rightarrow> store_machine
   \<Rightarrow> (error_reply + write_chunk_response) \<times> store_machine" where
  "post_chunk sha256 req w =
     (case allocate_and_write sha256 (wcr_len req) (wcr_data req) w of
        (Inl e, w1) \<Rightarrow> (Inl (store_error_to_response e), w1)
      | (Inr handle, w1) \<Rightarrow>
          (Inr \<lparr>wrs_ok = True, wrs_offset = ch_offset handle, wrs_len = ch_len handle\<rparr>, w1))"

definition post_chunk_preallocated ::
  "(bytes \<Rightarrow> chunk_checksum) \<Rightarrow> aead \<Rightarrow> io_env \<Rightarrow> std_format \<Rightarrow> preallocated_write_request \<Rightarrow> store_machine
   \<Rightarrow> (error_reply + write_chunk_response) \<times> store_machine" where
  "post_chunk_preallocated sha256 cipher env f req w =
     (let handle = chunk_handle_new (pwr_offset req) (pwr_len req)
      in case node_write_preallocated sha256 cipher env handle (pwr_data req)
                (pwr_tenant_id req) (pwr_cache_key req) w of
           (Inl e, w1) \<Rightarrow> (Inl (store_node_error_to_response f e), w1)
         | (Inr _, w1) \<Rightarrow>
             (Inr \<lparr>wrs_ok = True, wrs_offset = ch_offset handle, wrs_len = ch_len handle\<rparr>, w1))"

definition get_chunk ::
  "(bytes \<Rightarrow> chunk_checksum) \<Rightarrow> aead \<Rightarrow> io_error option \<Rightarrow> std_format \<Rightarrow> usize \<Rightarrow> usize \<Rightarrow> read_chunk_query
   \<Rightarrow> store_machine \<Rightarrow> (error_reply + read_chunk_response) \<times> store_machine" where
  "get_chunk sha256 cipher read_error f offset len query w =
     (case node_read_chunk sha256 cipher read_error (chunk_handle_new offset len)
             (rcq_tenant_id query) (rcq_cache_key query) w of
        (Inl e, w1) \<Rightarrow> (Inl (store_node_error_to_response f e), w1)
      | (Inr response, w1) \<Rightarrow> (Inr response, w1))"

section \<open>Lemmas on the key\<close>

lemma hex_nibble_digit: "n < 16 \<Longrightarrow> hex_nibble (hex_digit n) = Inr n"
  by (auto simp: hex_nibble_def hex_digit_def Let_def)

lemma hex_nibble_Inr:
  assumes "hex_nibble c = Inr n"
  shows "n < 16 \<and> c = hex_digit n"
proof -
  have "char_of (of_char c :: nat) = c" by simp
  then show ?thesis
    using assms by (auto simp: hex_nibble_def hex_digit_def Let_def split: if_splits)
qed

lemma nibbles_or: "low < 16 \<Longrightarrow> or (push_bit 4 high) low = high * 16 + (low :: nat)"
proof -
  assume "low < 16"
  then have low: "take_bit 4 low = low" by (simp add: take_bit_nat_eq_self)
  have "and (push_bit 4 high) (take_bit 4 low) = 0"
    by (rule bit_eqI) (auto simp: bit_and_iff bit_push_bit_iff bit_take_bit_iff)
  then show ?thesis by (simp add: low disjunctive_add_eq_or [symmetric] push_bit_eq_mult)
qed

lemma decode_hex_lower: "decode_hex_pairs (hex_lower bs) = Inr bs"
proof (induction bs)
  case (Cons b bs)
  have "of_char b div 16 < (16 :: nat)" by (rule of_char_less)
  then show ?case
    using Cons by (simp add: hex_lower_def hex_byte_def hex_nibble_digit nibbles_or)
qed (simp add: hex_lower_def)

lemma decode_hex_pairs_Inr:
  "decode_hex_pairs v = Inr bs \<Longrightarrow> even (length v) \<Longrightarrow> v = hex_lower bs"
proof (induction v arbitrary: bs rule: decode_hex_pairs.induct)
  case (1 a b rest)
  then obtain high low slots where "hex_nibble a = Inr high" "hex_nibble b = Inr low"
    "decode_hex_pairs rest = Inr slots" "bs = char_of (or (push_bit 4 high) low) # slots"
    by (auto simp: try_result_eq_Inr)
  moreover from this have "rest = hex_lower slots" using 1 by simp
  moreover have "(of_char (char_of (high * 16 + low) :: char) :: nat) = high * 16 + low" if "high < 16" "low < 16"
    using that by (simp add: take_bit_nat_eq_self)
  ultimately show ?case
    using hex_nibble_Inr [of a high] hex_nibble_Inr [of b low]
    by (simp add: hex_lower_def hex_byte_def nibbles_or)
qed (simp_all add: hex_lower_def)

text \<open>
  The key of the SSD tier is exactly what its 64 lower-case hexadecimal digits spell. A
  text is accepted if and only if it is the lower-case hexadecimal form of some 32 bytes, and
  the key is those bytes.
\<close>

lemma ssd_key_spelled_exactly:
  "parse_32_byte_hex v = Inr key \<longleftrightarrow> length key = 32 \<and> v = hex_lower key"
  using decode_hex_pairs_Inr [of v key] decode_hex_lower [of key] by (auto simp: parse_32_byte_hex_def)

section \<open>Runs of a machine\<close>

text \<open>
  Everything a machine may go through without a write to the object of tenant \<open>t\<close> and key
  \<open>k\<close>: requests of every kind, failing or not, and restarts of the node's process, which lose
  its memory and keep the disk.
\<close>

inductive node_life ::
  "(bytes \<Rightarrow> chunk_checksum) \<Rightarrow> aead \<Rightarrow> std_format \<Rightarrow> ssd_store \<Rightarrow> string \<Rightarrow> string
   \<Rightarrow> store_machine \<Rightarrow> store_machine \<Rightarrow> bool"
  for sha256 cipher f ssd t k w where
  life_start: "node_life sha256 cipher f ssd t k w w"
| life_post: "node_life sha256 cipher f ssd t k w w1 \<Longrightarrow> post_chunk sha256 req w1 = (r, w2)
    \<Longrightarrow> node_life sha256 cipher f ssd t k w w2"
| life_write: "node_life sha256 cipher f ssd t k w w1
    \<Longrightarrow> (pwr_tenant_id wreq, pwr_cache_key wreq) \<noteq> (Some t, Some k)
    \<Longrightarrow> post_chunk_preallocated sha256 cipher env f wreq w1 = (r, w2)
    \<Longrightarrow> node_life sha256 cipher f ssd t k w w2"
| life_read: "node_life sha256 cipher f ssd t k w w1
    \<Longrightarrow> get_chunk sha256 cipher err f offset len query w1 = (q, w2)
    \<Longrightarrow> node_life sha256 cipher f ssd t k w w2"
| life_restart: "node_life sha256 cipher f ssd t k w w1
    \<Longrightarrow> node_with_ssd env dram_capacity (ssd_root ssd) ssd_capacity (ssd_key ssd) = Inr n
    \<Longrightarrow> node_life sha256 cipher f ssd t k w (w1\<lparr>sm_node := n\<rparr>)"

definition on_disk :: "aead \<Rightarrow> ssd_store \<Rightarrow> string \<Rightarrow> string \<Rightarrow> bytes \<Rightarrow> store_machine \<Rightarrow> bool" where
  "on_disk cipher ssd t k bs w \<longleftrightarrow>
     sn_ssd (sm_node w) = Some ssd \<and> read_object cipher None t k ssd (sm_disk w) = Inr bs"

lemma node_with_ssd_Inr:
  "node_with_ssd env dram_capacity (ssd_root ssd) ssd_capacity (ssd_key ssd) = Inr n \<Longrightarrow>
     sn_ssd n = Some ssd \<and> sn_dram n = memory_with_capacity dram_capacity"
  by (auto simp: node_with_ssd_def ssd_new_with_key_def try_result_eq_Inr split: option.splits if_splits)

lemma post_chunk_disk:
  "post_chunk sha256 req w = (r, w') \<Longrightarrow> sm_disk w' = sm_disk w \<and> sn_ssd (sm_node w') = sn_ssd (sm_node w)"
  by (auto simp: post_chunk_def allocate_and_write_def split: prod.splits sum.splits)

lemma get_chunk_disk:
  "get_chunk sha256 cipher err f offset len query w = (r, w') \<Longrightarrow>
     sm_disk w' = sm_disk w \<and> sn_ssd (sm_node w') = sn_ssd (sm_node w)"
  by (auto simp: get_chunk_def node_read_chunk_def split: prod.splits sum.splits option.splits if_splits)

lemma node_write_ssd:
  "node_write_preallocated sha256 cipher env h bs tenant key w = (r, w') \<Longrightarrow> sn_ssd (sm_node w') = sn_ssd (sm_node w)"
  by (auto simp: node_write_preallocated_def record_ssd_object_def Let_def
      split: prod.splits sum.splits option.splits)

lemma node_write_disk:
  assumes "node_write_preallocated sha256 cipher env h bs tenant key w = (r, w')"
  shows "sm_disk w' = sm_disk w \<or> (\<exists>ssd t k r' d'. sn_ssd (sm_node w) = Some ssd \<and> tenant = Some t \<and> key = Some k
    \<and> persist_object cipher env t k bs ssd (sm_disk w) = (r', d') \<and> sm_disk w' = d')"
  using assms by (auto simp: node_write_preallocated_def Let_def split: prod.splits sum.splits option.splits)

lemma node_life_keeps:
  assumes "node_life sha256 cipher f ssd t k w w'" and "on_disk cipher ssd t k bs w"
  shows "on_disk cipher ssd t k bs w'"
  using assms
proof (induction rule: node_life.induct)
  case (life_write w1 wreq env r w2)
  obtain r' where run: "node_write_preallocated sha256 cipher env (chunk_handle_new (pwr_offset wreq) (pwr_len wreq))
      (pwr_data wreq) (pwr_tenant_id wreq) (pwr_cache_key wreq) w1 = (r', w2)"
    using life_write.hyps(3) by (auto simp: post_chunk_preallocated_def Let_def split: prod.splits sum.splits)
  have "read_object cipher None t k ssd (sm_disk w2) = read_object cipher None t k ssd (sm_disk w1)"
    using node_write_disk [OF run] life_write persist_object_other
    by (auto simp: on_disk_def)
  then show ?case
    using life_write node_write_ssd [OF run] by (simp add: on_disk_def)
qed (auto simp: on_disk_def dest: post_chunk_disk get_chunk_disk node_with_ssd_Inr)

lemma acknowledged_write_on_disk:
  assumes "aead_decrypts cipher" and "length (env_nonce env) = 12"
    and "sn_ssd (sm_node w) = Some ssd" and "memory_inv (sn_dram (sm_node w))"
    and "pwr_tenant_id req = Some t" and "pwr_cache_key req = Some k"
    and "post_chunk_preallocated sha256 cipher env f req w = (Inr resp, w')"
  shows "on_disk cipher ssd t k (pwr_data req) w'" and "length (pwr_data req) = unat (pwr_len req)"
    and "0 < unat (pwr_len req)"
proof -
  let ?h = "chunk_handle_new (pwr_offset req) (pwr_len req)"
  obtain u dram where dram: "write_preallocated_chunk sha256 ?h (pwr_data req) (sn_dram (sm_node w)) = (Inr u, dram)"
    and "\<exists>u. persist_object cipher env t k (pwr_data req) ssd (sm_disk w) = (Inr u, sm_disk w')"
    "sn_ssd (sm_node w') = Some ssd"
    using assms(3,5-7)
    by (auto simp: post_chunk_preallocated_def node_write_preallocated_def record_ssd_object_def Let_def
        split: prod.splits sum.splits)
  then show "on_disk cipher ssd t k (pwr_data req) w'"
    using persist_object_read [OF assms(1,2)] by (auto simp: on_disk_def)
  show "length (pwr_data req) = unat (pwr_len req)" "0 < unat (pwr_len req)"
    using dram by (simp_all add: write_preallocated_Inr [OF assms(4)] chunk_fits_def chunk_handle_new_def)
qed

lemma read_promotes:
  assumes "on_disk cipher ssd t k bs w" and "sn_dram (sm_node w) = memory_with_capacity c"
    and "chunk_fits h (memory_with_capacity c)" and "length bs = unat (ch_len h)"
  obtains w' where "node_read_chunk sha256 cipher None h (Some t) (Some k) w =
      (Inr \<lparr>rrs_offset = ch_offset h, rrs_len = ch_len h, rrs_tier = ''ssd'', rrs_data = bs\<rparr>, w')"
    and "read_chunk sha256 h (sn_dram (sm_node w')) = Inr bs"
proof -
  let ?dram = "memory_with_capacity c"
  have inv: "memory_inv ?dram" by (rule memory_inv_with_capacity)
  obtain dram where run: "write_preallocated_chunk sha256 h bs ?dram = (Inr (), dram)"
    using assms(3,4) write_preallocated_Inr [OF inv, of sha256 h bs "()"] by blast
  have miss: "read_chunk sha256 h ?dram = Inl (invalid_handle h)"
    by (simp add: read_chunk_def validate_allocated_handle_def memory_with_capacity_def)
  have read: "node_read_chunk sha256 cipher None h (Some t) (Some k) w =
      (Inr \<lparr>rrs_offset = ch_offset h, rrs_len = ch_len h, rrs_tier = ''ssd'', rrs_data = bs\<rparr>,
       w\<lparr>sm_node := (sm_node w)\<lparr>sn_dram := dram\<rparr>\<rparr>)"
    using assms(1,2) miss run
    by (simp add: node_read_chunk_def on_disk_def can_promote_from_ssd_def promote_to_dram_def invalid_handle_def)
  show thesis
    by (rule that [OF read]) (simp add: pre.read_written [OF inv run])
qed

text \<open>An answer from the SSD tier is what the disk holds.\<close>

lemma ssd_tier_reads_disk:
  assumes "on_disk cipher ssd t k bs w"
    and "get_chunk sha256 cipher err f offset len \<lparr>rcq_tenant_id = Some t, rcq_cache_key = Some k\<rparr> w = (Inr got, w')"
    and "rrs_tier got \<noteq> ''dram''"
  shows "rrs_data got = bs"
proof -
  have "read_object cipher err t k ssd (sm_disk w) = Inr data \<Longrightarrow> data = bs" for data
    using assms(1) by (cases err) (auto simp: on_disk_def read_object_def split: sum.splits option.splits if_splits)
  then show ?thesis
    using assms
    by (auto simp: get_chunk_def node_read_chunk_def promote_to_dram_def on_disk_def
        split: prod.splits sum.splits option.splits if_splits)
qed

text \<open>
  C12: An acknowledged write is on the disk, and comes back after a restart. After a write that
  names a tenant and a key succeeded on a node with an SSD, the machine may serve any requests
  that do not write that object again and may restart any number of times. From then on
  whatever a read of the object answers from the SSD tier is exactly the written bytes. Right
  after one more restart, with all of the memory lost and the chunk within the memory of the
  restarted node, such a read succeeds, and brings the bytes back into memory, from where every
  further read of the chunk answers. Without that restart the memory may answer first, by the
  position of the chunk alone and possibly with bytes that another object has there. The cipher
  is assumed to decrypt what it encrypted.
\<close>

theorem acknowledged_writes_survive_restarts:
  assumes "aead_decrypts cipher" and "length (env_nonce env) = 12"
    and "sn_ssd (sm_node w) = Some ssd" and "memory_inv (sn_dram (sm_node w))"
    and "pwr_tenant_id req = Some t" and "pwr_cache_key req = Some k"
    and "post_chunk_preallocated sha256 cipher env f req w = (Inr resp, w1)"
    and "node_life sha256 cipher f ssd t k w1 w2"
    and "node_with_ssd env' dram_capacity (ssd_root ssd) ssd_capacity (ssd_key ssd) = Inr n"
    and "unat (pwr_offset req) + unat (pwr_len req) \<le> unat dram_capacity"
  shows "(\<forall>err offset len got w3.
      get_chunk sha256 cipher err f offset len \<lparr>rcq_tenant_id = Some t, rcq_cache_key = Some k\<rparr> w2 = (Inr got, w3)
      \<longrightarrow> rrs_tier got \<noteq> ''dram'' \<longrightarrow> rrs_data got = pwr_data req)
    \<and> (\<exists>w3. get_chunk sha256 cipher None f (pwr_offset req) (pwr_len req)
        \<lparr>rcq_tenant_id = Some t, rcq_cache_key = Some k\<rparr> (w2\<lparr>sm_node := n\<rparr>) =
      (Inr \<lparr>rrs_offset = pwr_offset req, rrs_len = pwr_len req, rrs_tier = ''ssd'', rrs_data = pwr_data req\<rparr>, w3)
    \<and> (\<forall>err query. get_chunk sha256 cipher err f (pwr_offset req) (pwr_len req) query w3 =
      (Inr \<lparr>rrs_offset = pwr_offset req, rrs_len = pwr_len req, rrs_tier = ''dram'', rrs_data = pwr_data req\<rparr>, w3)))"
  (is "?any \<and> ?restarted")
proof -
  let ?h = "chunk_handle_new (pwr_offset req) (pwr_len req)"
  note written = acknowledged_write_on_disk [OF assms(1-7)]
  note n = node_with_ssd_Inr [OF assms(9)]
  note kept = node_life_keeps [OF assms(8) written(1)]
  have disk: "on_disk cipher ssd t k (pwr_data req) (w2\<lparr>sm_node := n\<rparr>)"
    using kept n by (simp add: on_disk_def)
  have fits: "chunk_fits ?h (memory_with_capacity dram_capacity)"
    using assms(10) written(3) by (simp add: chunk_fits_def chunk_handle_new_def memory_with_capacity_def)
  have dram: "sn_dram (sm_node (w2\<lparr>sm_node := n\<rparr>)) = memory_with_capacity dram_capacity" using n by simp
  have len: "length (pwr_data req) = unat (ch_len ?h)" using written(2) by (simp add: chunk_handle_new_def)
  obtain w3 where "node_read_chunk sha256 cipher None ?h (Some t) (Some k) (w2\<lparr>sm_node := n\<rparr>) =
      (Inr \<lparr>rrs_offset = ch_offset ?h, rrs_len = ch_len ?h, rrs_tier = ''ssd'', rrs_data = pwr_data req\<rparr>, w3)"
    "read_chunk sha256 ?h (sn_dram (sm_node w3)) = Inr (pwr_data req)"
    by (rule read_promotes [OF disk dram fits len])
  then have ?restarted
    by (intro exI [of _ w3]) (simp add: get_chunk_def node_read_chunk_def chunk_handle_new_def)
  moreover have ?any using ssd_tier_reads_disk [OF kept] by blast
  ultimately show ?thesis by blast
qed

section \<open>Examples\<close>

definition example_node_ssd :: ssd_store where
  "example_node_ssd = \<lparr>ssd_root = [''data''], ssd_key = replicate 32 (CHR ''k'')\<rparr>"

definition example_machine :: store_machine where
  "example_machine =
     \<lparr>sm_node = \<lparr>sn_dram = memory_with_capacity 8, sn_ssd = Some example_node_ssd, sn_ssd_objects = [],
                 sn_ssd_bytes_capacity = 64\<rparr>,
      sm_disk = Map.empty\<rparr>"

definition example_write :: preallocated_write_request where
  "example_write =
     \<lparr>pwr_tenant_id = Some ''t1'', pwr_cache_key = Some ''k1'', pwr_offset = 4, pwr_len = 2, pwr_data = ''hi''\<rparr>"

definition plain_format :: std_format where
  "plain_format = \<lparr>fmt_debug = id, fmt_path = concat, fmt_io_error = (\<lambda>_. ''error'')\<rparr>"

lemma example_write_acknowledged:
  "\<exists>resp w'. post_chunk_preallocated id tagging_aead quiet_env plain_format example_write example_machine = (Inr resp, w')"
proof -
  have "chunk_fits (chunk_handle_new 4 2) (memory_with_capacity 8)"
    by (simp add: chunk_fits_def chunk_handle_new_def memory_with_capacity_def)
  then obtain dram where "write_preallocated_chunk id (chunk_handle_new 4 2) ''hi'' (memory_with_capacity 8) = (Inr (), dram)"
    using write_preallocated_Inr [OF memory_inv_with_capacity] by (auto simp: chunk_handle_new_def)
  moreover have "object_path ''t1'' ''k1'' example_node_ssd = Inr [''data'', ''t1'', ''k1.mcobj'']"
    by code_simp
  then have "\<exists>d'. persist_object tagging_aead quiet_env ''t1'' ''k1'' ''hi'' example_node_ssd Map.empty = (Inr (), d')"
    by (simp add: persist_object_def quiet_env_def tagging_aead_def write_and_rename_def is_ok_def Let_def)
  ultimately show ?thesis
    by (auto simp: post_chunk_preallocated_def node_write_preallocated_def example_write_def example_machine_def
        Let_def)
qed

lemma example_restart:
  "\<exists>n. node_with_ssd quiet_env 8 (ssd_root example_node_ssd) 64 (ssd_key example_node_ssd) = Inr n"
  by (simp add: node_with_ssd_def ssd_new_with_key_def quiet_env_def example_node_ssd_def)

theorem acknowledged_writes_survive_restarts_witness:
  "\<exists>n w1 w3. get_chunk id tagging_aead None plain_format 4 2 \<lparr>rcq_tenant_id = Some ''t1'', rcq_cache_key = Some ''k1''\<rparr>
      (w1\<lparr>sm_node := n\<rparr>) = (Inr \<lparr>rrs_offset = 4, rrs_len = 2, rrs_tier = ''ssd'', rrs_data = ''hi''\<rparr>, w3)"
proof -
  obtain resp w1 where run:
    "post_chunk_preallocated id tagging_aead quiet_env plain_format example_write example_machine = (Inr resp, w1)"
    using example_write_acknowledged by blast
  obtain n where n: "node_with_ssd quiet_env 8 (ssd_root example_node_ssd) 64 (ssd_key example_node_ssd) = Inr n"
    using example_restart by blast
  have "sn_ssd (sm_node example_machine) = Some example_node_ssd"
    "memory_inv (sn_dram (sm_node example_machine))" "length (env_nonce quiet_env) = 12"
    by (simp_all add: example_machine_def memory_inv_with_capacity quiet_env_def)
  from acknowledged_writes_survive_restarts 
      [OF tagging_decrypts this(3,1,2) _ _ run life_start n, where t = "''t1''" and k = "''k1''"]
  show ?thesis by (auto simp: example_write_def)
qed

end
