(* ===== verification/Service_Http.thy ===== *)
theory Service_Http
imports Master_App Store_Node
begin

text \<open>
  The HTTP interfaces of the master and of a store node: the route tables of the two
  \<^verbatim>\<open>main.rs\<close>, the request types their handlers extract from bodies, queries and paths, and the
  JSON of their answers. What the web framework sends for a request that no handler gets is
  left open: such a request is a \<open>rejection\<close>. Percent-decoding is an argument. Bodies arrive
  and leave as JSON values.
\<close>

section \<open>Requests\<close>

datatype http_method = MethodGet | MethodPost | MethodDelete

record service_request =
  sq_method :: http_method
  sq_path :: string
  sq_query :: string
  sq_body :: json

datatype rejection = NoRoute | NoMethod | BadPath | BadQuery | BadBody

type_synonym service_answer = "rejection + reply"

definition target_request :: "http_method \<Rightarrow> json \<Rightarrow> string \<Rightarrow> service_request" where
  "target_request m body target =
     (case split_once (CHR ''?'') target of
        None \<Rightarrow> \<lparr>sq_method = m, sq_path = target, sq_query = [], sq_body = body\<rparr>
      | Some (path, query) \<Rightarrow> \<lparr>sq_method = m, sq_path = path, sq_query = query, sq_body = body\<rparr>)"

text \<open>A form-encoded query; an empty piece is skipped, a piece without \<^verbatim>\<open>=\<close> has the empty value.\<close>

definition query_pairs :: "(string \<Rightarrow> string) \<Rightarrow> string \<Rightarrow> (string \<times> string) list" where
  "query_pairs decode query =
     map (\<lambda>piece. case split_once (CHR ''='') piece of
            None \<Rightarrow> (decode piece, []) | Some (name, val) \<Rightarrow> (decode name, decode val))
       (filter (\<lambda>piece. piece \<noteq> []) (split_on (CHR ''&'') query))"

text \<open>A member of a derived struct: \<open>None\<close> when it is given twice, \<open>Some None\<close> when it is missing.\<close>

definition query_member :: "(string \<times> string) list \<Rightarrow> string \<Rightarrow> string option option" where
  "query_member pairs name =
     (case filter (\<lambda>(n, _). n = name) pairs of
        [] \<Rightarrow> Some None | [(_, v)] \<Rightarrow> Some (Some v) | _ \<Rightarrow> None)"

definition replica_list_query_from :: "(string \<times> string) list \<Rightarrow> replica_list_query option" where
  "replica_list_query_from pairs =
     (case (query_member pairs ''tenant_id'', query_member pairs ''cache_key'') of
        (Some (Some t), Some (Some k)) \<Rightarrow> Some \<lparr>rlq_tenant_id = t, rlq_cache_key = k\<rparr>
      | _ \<Rightarrow> None)"

definition read_chunk_query_from :: "(string \<times> string) list \<Rightarrow> read_chunk_query option" where
  "read_chunk_query_from pairs =
     (case (query_member pairs ''tenant_id'', query_member pairs ''cache_key'') of
        (Some t, Some k) \<Rightarrow> Some \<lparr>rcq_tenant_id = t, rcq_cache_key = k\<rparr>
      | _ \<Rightarrow> None)"

text \<open>\<^verbatim>\<open>str::parse::<usize>\<close>, for the segments of a path.\<close>

fun decimal_from :: "nat \<Rightarrow> string \<Rightarrow> nat option" where
  "decimal_from acc [] = Some acc"
| "decimal_from acc (c # cs) =
     (let n = (of_char c :: nat)
      in if 48 \<le> n \<and> n \<le> 57 then decimal_from (acc * 10 + (n - 48)) cs else None)"

definition parse_usize :: "string \<Rightarrow> usize option" where
  "parse_usize s =
     (let digits = (if s \<noteq> [] \<and> hd s = CHR ''+'' then tl s else s)
      in if digits = [] then None
         else case decimal_from 0 digits of
             None \<Rightarrow> None
           | Some n \<Rightarrow> if n \<le> u64_max then Some (word_of_nat n) else None)"

section \<open>Bodies\<close>

definition put_start_request_from_value :: "json \<Rightarrow> put_start_request option" where
  "put_start_request_from_value v =
     (case json_struct [''tenant_id'', ''cache_key'', ''len'', ''replica_count''] v of
        Some [t, k, len, n] \<Rightarrow>
          (case (Option.bind t json_as_str, Option.bind k json_as_str, Option.bind len json_as_u64,
                 Option.bind n json_as_u64) of
             (Some t, Some k, Some len, Some n) \<Rightarrow>
               Some \<lparr>psr_tenant_id = t, psr_cache_key = k, psr_len = len, psr_replica_count = n\<rparr>
           | _ \<Rightarrow> None)
      | _ \<Rightarrow> None)"

definition put_end_request_from_value :: "json \<Rightarrow> put_end_request option" where
  "put_end_request_from_value v =
     (case json_struct [''tenant_id'', ''cache_key''] v of
        Some [t, k] \<Rightarrow>
          (case (Option.bind t json_as_str, Option.bind k json_as_str) of
             (Some t, Some k) \<Rightarrow> Some \<lparr>per_tenant_id = t, per_cache_key = k\<rparr>
           | _ \<Rightarrow> None)
      | _ \<Rightarrow> None)"

definition set_quota_request_from_value :: "json \<Rightarrow> set_quota_request option" where
  "set_quota_request_from_value v =
     (case json_struct [''tenant_id'', ''dram_bytes'', ''ssd_bytes''] v of
        Some [t, dram, ssd] \<Rightarrow>
          (case (Option.bind t json_as_str, Option.bind dram json_as_u64, Option.bind ssd json_as_u64) of
             (Some t, Some dram, Some ssd) \<Rightarrow>
               Some \<lparr>sqr_tenant_id = t, sqr_dram_bytes = dram, sqr_ssd_bytes = ssd\<rparr>
           | _ \<Rightarrow> None)
      | _ \<Rightarrow> None)"

definition mount_segment_request_from_value :: "json \<Rightarrow> mount_segment_request option" where
  "mount_segment_request_from_value v =
     (case json_struct [''node_id'', ''len''] v of
        Some [n, len] \<Rightarrow>
          (case (Option.bind n json_as_str, Option.bind len json_as_u64) of
             (Some n, Some len) \<Rightarrow> Some \<lparr>msr_node_id = n, msr_len = len\<rparr>
           | _ \<Rightarrow> None)
      | _ \<Rightarrow> None)"

definition write_chunk_request_from_value :: "json \<Rightarrow> write_chunk_request option" where
  "write_chunk_request_from_value v =
     (case json_struct [''len'', ''data''] v of
        Some [len, dat] \<Rightarrow>
          (case (Option.bind len json_as_u64, Option.bind dat (list_from_value byte_from_value)) of
             (Some len, Some bs) \<Rightarrow> Some \<lparr>wcr_len = len, wcr_data = bs\<rparr>
           | _ \<Rightarrow> None)
      | _ \<Rightarrow> None)"

definition preallocated_write_request_from_value :: "json \<Rightarrow> preallocated_write_request option" where
  "preallocated_write_request_from_value v =
     (case json_struct [''tenant_id'', ''cache_key'', ''offset'', ''len'', ''data''] v of
        Some [t, k, off, len, dat] \<Rightarrow>
          (case (optional_string t, optional_string k, Option.bind off json_as_u64, Option.bind len json_as_u64,
                 Option.bind dat (list_from_value byte_from_value)) of
             (Some t, Some k, Some off, Some len, Some bs) \<Rightarrow>
               Some \<lparr>pwr_tenant_id = t, pwr_cache_key = k, pwr_offset = off, pwr_len = len, pwr_data = bs\<rparr>
           | _ \<Rightarrow> None)
      | _ \<Rightarrow> None)"

definition write_chunk_response_to_value :: "write_chunk_response \<Rightarrow> json" where
  "write_chunk_response_to_value r =
     json_obj [(''ok'', JBool (wrs_ok r)), (''offset'', JNumber (PosInt (wrs_offset r))),
               (''len'', JNumber (PosInt (wrs_len r)))]"

definition bytes_to_value :: "bytes \<Rightarrow> json" where
  "bytes_to_value bs = JArray (map (\<lambda>b. JNumber (PosInt (of_char b))) bs)"

definition read_chunk_response_to_value :: "read_chunk_response \<Rightarrow> json" where
  "read_chunk_response_to_value r =
     json_obj [(''offset'', JNumber (PosInt (rrs_offset r))), (''len'', JNumber (PosInt (rrs_len r))),
               (''tier'', JString (rrs_tier r)), (''data'', bytes_to_value (rrs_data r))]"

section \<open>Route tables\<close>

text \<open>The shape of a route: one method, an extractor that may reject, the handler.\<close>

definition on_route ::
  "http_method \<Rightarrow> 'q service_request_scheme \<Rightarrow> rejection + 'a \<Rightarrow> ('a \<Rightarrow> 's \<Rightarrow> 'r \<times> 's) \<Rightarrow> 's
   \<Rightarrow> (rejection + 'r) \<times> 's" where
  "on_route m req extracted handler s =
     (if sq_method req \<noteq> m then (Inl NoMethod, s)
      else case extracted of
          Inl e \<Rightarrow> (Inl e, s)
        | Inr x \<Rightarrow> (case handler x s of (r, s') \<Rightarrow> (Inr r, s')))"

definition master_router ::
  "'w master_app_state \<Rightarrow> u64 \<Rightarrow> (string \<Rightarrow> string) \<Rightarrow> service_request \<Rightarrow> 'w master_run
   \<Rightarrow> service_answer \<times> 'w master_run" where
  "master_router app now decode req =
     (let query = ok_or (replica_list_query_from (query_pairs decode (sq_query req))) BadQuery
      in if sq_path req = ''/healthz'' then on_route MethodGet req (Inr ()) (\<lambda>_ s. ((200, master_healthz), s))
         else if sq_path req = ''/metrics/snapshot''
         then on_route MethodGet req (Inr ()) (\<lambda>_ s. ((200, handle_metrics_snapshot s), s))
         else if sq_path req = ''/ha/status''
         then on_route MethodGet req (Inr ()) (\<lambda>_ s. ((200, ha_status app), s))
         else if sq_path req = ''/objects/start''
         then on_route MethodPost req (ok_or (put_start_request_from_value (sq_body req)) BadBody) (handle_put_start app)
         else if sq_path req = ''/objects/end''
         then on_route MethodPost req (ok_or (put_end_request_from_value (sq_body req)) BadBody) (handle_put_end app)
         else if sq_path req = ''/objects/revoke''
         then on_route MethodPost req (ok_or (put_end_request_from_value (sq_body req)) BadBody) (handle_put_revoke app)
         else if sq_path req = ''/objects/replicas'' then on_route MethodGet req query (handle_get_replica_list now)
         else if sq_path req = ''/objects'' then on_route MethodDelete req query (handle_remove_object app)
         else if sq_path req = ''/tenants/quota''
         then on_route MethodPost req (ok_or (set_quota_request_from_value (sq_body req)) BadBody)
                (handle_set_tenant_quota app)
         else if sq_path req = ''/segments/mount''
         then on_route MethodPost req (ok_or (mount_segment_request_from_value (sq_body req)) BadBody)
                (handle_mount_segment app)
         else (\<lambda>s. (Inl NoRoute, s)))"

text \<open>\<^verbatim>\<open>/chunks/{offset}/{len}\<close>: the two segments, neither of them empty.\<close>

definition chunk_segments :: "string \<Rightarrow> (string \<times> string) option" where
  "chunk_segments path =
     (case strip_prefix ''/chunks/'' path of
        None \<Rightarrow> None
      | Some rest \<Rightarrow>
          (case split_on (CHR ''/'') rest of
             [offset, len] \<Rightarrow> if offset \<noteq> [] \<and> len \<noteq> [] then Some (offset, len) else None
           | _ \<Rightarrow> None))"

definition chunk_arguments ::
  "(string \<Rightarrow> string) \<Rightarrow> string \<times> string \<Rightarrow> string \<Rightarrow> rejection + usize \<times> usize \<times> read_chunk_query" where
  "chunk_arguments decode segments query =
     (case (parse_usize (decode (fst segments)), parse_usize (decode (snd segments))) of
        (Some offset, Some len) \<Rightarrow>
          (case read_chunk_query_from (query_pairs decode query) of
             None \<Rightarrow> Inl BadQuery | Some q \<Rightarrow> Inr (offset, len, q))
      | _ \<Rightarrow> Inl BadPath)"

definition chunk_reply :: "('a \<Rightarrow> json) \<Rightarrow> (error_reply + 'a) \<times> 's \<Rightarrow> reply \<times> 's" where
  "chunk_reply to_value r = (case r of (Inl e, s) \<Rightarrow> (e, s) | (Inr x, s) \<Rightarrow> ((200, to_value x), s))"

definition store_router ::
  "(bytes \<Rightarrow> chunk_checksum) \<Rightarrow> aead \<Rightarrow> io_env \<Rightarrow> io_error option \<Rightarrow> std_format \<Rightarrow> (string \<Rightarrow> string)
   \<Rightarrow> service_request \<Rightarrow> store_machine \<Rightarrow> service_answer \<times> store_machine" where
  "store_router sha256 cipher env read_error f decode req =
     (if sq_path req = ''/healthz'' then on_route MethodGet req (Inr ()) (\<lambda>_ s. ((200, node_healthz), s))
      else if sq_path req = ''/metrics/snapshot''
      then on_route MethodGet req (Inr ()) (\<lambda>_ s. ((200, node_metrics_snapshot s), s))
      else if sq_path req = ''/chunks''
      then on_route MethodPost req (ok_or (write_chunk_request_from_value (sq_body req)) BadBody)
             (\<lambda>body s. chunk_reply write_chunk_response_to_value (post_chunk sha256 body s))
      else if sq_path req = ''/chunks/preallocated''
      then on_route MethodPost req (ok_or (preallocated_write_request_from_value (sq_body req)) BadBody)
             (\<lambda>body s. chunk_reply write_chunk_response_to_value (post_chunk_preallocated sha256 cipher env f body s))
      else case chunk_segments (sq_path req) of
          Some segments \<Rightarrow>
            on_route MethodGet req (chunk_arguments decode segments (sq_query req))
              (\<lambda>(offset, len, query) s.
                 chunk_reply read_chunk_response_to_value (get_chunk sha256 cipher read_error f offset len query s))
        | None \<Rightarrow> (\<lambda>s. (Inl NoRoute, s)))"

section \<open>Lemmas on texts\<close>

text \<open>The unreserved characters of a URL; percent-decoding leaves them alone.\<close>

definition url_safe :: "string \<Rightarrow> bool" where
  "url_safe s \<longleftrightarrow> list_all (\<lambda>c. is_ascii_alphanumeric c \<or> c \<in> {CHR ''-'', CHR ''_'', CHR ''.'', CHR ''~''}) s"

definition decodes_plain :: "(string \<Rightarrow> string) \<Rightarrow> bool" where
  "decodes_plain decode \<longleftrightarrow> (\<forall>s. url_safe s \<longrightarrow> decode s = s)"

lemma url_safe_append [simp]: "url_safe (a @ b) \<longleftrightarrow> url_safe a \<and> url_safe b"
  by (simp add: url_safe_def)

lemma url_safe_free:
  assumes "url_safe s"
  shows "CHR ''&'' \<notin> set s" and "CHR ''='' \<notin> set s" and "CHR ''?'' \<notin> set s" and "CHR ''/'' \<notin> set s"
    and "CHR ''+'' \<notin> set s"
  using assms by (auto simp: url_safe_def list_all_iff is_ascii_alphanumeric_def Let_def)

lemma split_once_first: "c \<notin> set a \<Longrightarrow> split_once c (a @ c # b) = Some (a, b)"
  by (induction a) auto

lemma split_once_none: "c \<notin> set a \<Longrightarrow> split_once c a = None"
  by (induction a) auto

lemma split_on_none: "c \<notin> set a \<Longrightarrow> split_on c a = [a]"
  by (induction a) auto

lemma split_on_first: "c \<notin> set a \<Longrightarrow> split_on c (a @ c # b) = a # split_on c b"
  by (induction a) auto

text \<open>Decimal numbers are read back.\<close>

lemma decimal_from_append:
  "decimal_from acc (a @ b) = Option.bind (decimal_from acc a) (\<lambda>n. decimal_from n b)"
  by (induction a arbitrary: acc) (auto simp: Let_def)

lemma decimal_from_digit: "d < 10 \<Longrightarrow> decimal_from acc [char_of (48 + d)] = Some (acc * 10 + d)"
  by (simp add: take_bit_nat_eq_self)

lemma decimal_from_show: "decimal_from 0 (show_nat n) = Some n"
proof (induction n rule: show_nat.induct)
  case (1 n)
  then show ?case
    using decimal_from_digit [of n 0] decimal_from_digit [of "n mod 10" "n div 10"]
    by (subst show_nat.simps) (simp add: decimal_from_append del: decimal_from.simps)
qed

lemma show_nat_safe: "url_safe (show_nat n)"
proof (induction n rule: show_nat.induct)
  case (1 n)
  have digit: "url_safe [char_of (48 + d)]" if "d < 10" for d :: nat
    using that by (simp add: url_safe_def is_ascii_alphanumeric_def Let_def take_bit_nat_eq_self)
  show ?case using 1 digit [of n] digit [of "n mod 10"] by (subst show_nat.simps) simp
qed

lemma parse_usize_show: "parse_usize (show_nat (unat n)) = Some n"
proof -
  let ?s = "show_nat (unat n)"
  have "?s \<noteq> []" by (rule show_nat_nonempty)
  moreover from this have "hd ?s \<noteq> CHR ''+''"
    using url_safe_free(5) [OF show_nat_safe, of "unat n"] hd_in_set [of ?s] by metis
  ultimately show ?thesis
    using unat_less_u64 [of n] by (simp add: parse_usize_def decimal_from_show)
qed

text \<open>The query the remote clients build, and the path of a chunk.\<close>

definition object_query :: "string \<Rightarrow> string \<Rightarrow> string" where
  "object_query t k = ''tenant_id='' @ t @ ''&cache_key='' @ k"

lemma query_pairs_object:
  assumes "decodes_plain decode" and "url_safe t" and "url_safe k"
  shows "query_pairs decode (object_query t k) = [(''tenant_id'', t), (''cache_key'', k)]"
proof -
  have names: "decode ''tenant_id'' = ''tenant_id''" "decode ''cache_key'' = ''cache_key''"
    using assms(1) by (simp_all add: decodes_plain_def url_safe_def is_ascii_alphanumeric_def)
  have "split_on (CHR ''&'') ((''tenant_id='' @ t) @ CHR ''&'' # (''cache_key='' @ k)) =
      [''tenant_id='' @ t, ''cache_key='' @ k]"
    using url_safe_free(1) [OF assms(2)] url_safe_free(1) [OF assms(3)]
    by (subst split_on_first; simp add: split_on_none)
  moreover have "split_once (CHR ''='') (''tenant_id'' @ CHR ''='' # t) = Some (''tenant_id'', t)"
    "split_once (CHR ''='') (''cache_key'' @ CHR ''='' # k) = Some (''cache_key'', k)"
    by (rule split_once_first; simp)+
  ultimately show ?thesis
    using assms names by (simp add: query_pairs_def object_query_def decodes_plain_def)
qed

lemma object_query_read:
  assumes "decodes_plain decode" and "url_safe t" and "url_safe k"
  shows "replica_list_query_from (query_pairs decode (object_query t k)) = Some \<lparr>rlq_tenant_id = t, rlq_cache_key = k\<rparr>"
    and "read_chunk_query_from (query_pairs decode (object_query t k)) = Some \<lparr>rcq_tenant_id = Some t, rcq_cache_key = Some k\<rparr>"
  by (simp_all add: query_pairs_object [OF assms] replica_list_query_from_def read_chunk_query_from_def query_member_def)

lemma chunk_path_read:
  assumes "decodes_plain decode" and "url_safe t" and "url_safe k"
  shows "chunk_segments (''/chunks/'' @ show_nat (unat off) @ ''/'' @ show_nat (unat len)) =
      Some (show_nat (unat off), show_nat (unat len))"
    and "chunk_arguments decode (show_nat (unat off), show_nat (unat len)) (object_query t k) =
      Inr (off, len, \<lparr>rcq_tenant_id = Some t, rcq_cache_key = Some k\<rparr>)"
proof -
  have free: "CHR ''/'' \<notin> set (show_nat n)" for n using url_safe_free(4) [OF show_nat_safe] .
  have "split_on (CHR ''/'') (show_nat (unat off) @ CHR ''/'' # show_nat (unat len)) =
      [show_nat (unat off), show_nat (unat len)]"
    using free by (simp add: split_on_first split_on_none)
  moreover have "strip_prefix ''/chunks/'' (''/chunks/'' @ show_nat (unat off) @ ''/'' @ show_nat (unat len)) =
      Some (show_nat (unat off) @ ''/'' @ show_nat (unat len))"
    by (rule strip_prefix_append)
  ultimately show "chunk_segments (''/chunks/'' @ show_nat (unat off) @ ''/'' @ show_nat (unat len)) =
      Some (show_nat (unat off), show_nat (unat len))"
    using show_nat_nonempty by (simp add: chunk_segments_def)
  have "decode (show_nat n) = show_nat n" for n using assms(1) show_nat_safe by (simp add: decodes_plain_def)
  then show "chunk_arguments decode (show_nat (unat off), show_nat (unat len)) (object_query t k) =
      Inr (off, len, \<lparr>rcq_tenant_id = Some t, rcq_cache_key = Some k\<rparr>)"
    by (simp add: chunk_arguments_def parse_usize_show object_query_read [OF assms])
qed

section \<open>Lemmas on bodies\<close>

lemma byte_round_trip [simp]: "byte_from_value (JNumber (PosInt (of_char b))) = Some b"
proof -
  have small: "(of_char b :: nat) < 256"
    using of_char_of [of "of_char b :: nat"] by (metis char_of_char mod_less_divisor zero_less_numeral)
  have "unat (word_of_nat n :: u64) = n" if "n < 256" for n
    using that by (simp add: unsigned_of_nat take_bit_nat_eq_self)
  from this [OF small] have "unat (word_of_nat (of_char b) :: u64) = of_char b" .
  then have "unat (of_char b :: u64) = of_char b" by (simp only: of_nat_of_char)
  then show ?thesis using small by (simp add: byte_from_value_def json_as_u64_def)
qed

lemma bytes_round_trip [simp]: "list_from_value byte_from_value (bytes_to_value bs) = Some bs"
  by (simp add: list_from_value_def bytes_to_value_def list_all_iff comp_def)

text \<open>What a remote client sends is what the handler gets, and what a node answers is what the client gets.\<close>

lemma object_body_read:
  "put_start_request_from_value (object_body t k
      [(''len'', JNumber (PosInt len)), (''replica_count'', JNumber (PosInt n))]) =
    Some \<lparr>psr_tenant_id = tenant_as_str t, psr_cache_key = key_as_str k, psr_len = len, psr_replica_count = n\<rparr>"
  "put_end_request_from_value (object_body t k []) =
    Some \<lparr>per_tenant_id = tenant_as_str t, per_cache_key = key_as_str k\<rparr>"
  "preallocated_write_request_from_value (object_body t k
      [(''offset'', JNumber (PosInt off)), (''len'', JNumber (PosInt len)),
       (''data'', JArray (map (\<lambda>b. JNumber (PosInt (of_char b))) bs))]) =
    Some \<lparr>pwr_tenant_id = Some (tenant_as_str t), pwr_cache_key = Some (key_as_str k), pwr_offset = off,
          pwr_len = len, pwr_data = bs\<rparr>"
  by (simp_all add: object_body_def json_struct_obj json_as_str_def json_as_u64_def optional_string_def
      put_start_request_from_value_def put_end_request_from_value_def preallocated_write_request_from_value_def
      flip: bytes_to_value_def)

lemma mount_and_quota_read:
  "mount_segment_request_from_value (json_obj [(''node_id'', JString node_id), (''len'', JNumber (PosInt len))]) =
    Some \<lparr>msr_node_id = node_id, msr_len = len\<rparr>"
  "set_quota_request_from_value (json_obj [(''tenant_id'', JString tenant_id), (''dram_bytes'', JNumber (PosInt dram)),
      (''ssd_bytes'', JNumber (PosInt ssd))]) =
    Some \<lparr>sqr_tenant_id = tenant_id, sqr_dram_bytes = dram, sqr_ssd_bytes = ssd\<rparr>"
  by (simp_all add: json_struct_obj json_as_str_def json_as_u64_def
      mount_segment_request_from_value_def set_quota_request_from_value_def)

lemma read_answer_read:
  "store_read_from_value (read_chunk_response_to_value r) = Some \<lparr>sch_bytes = rrs_data r, sch_tier = rrs_tier r\<rparr>"
  by (simp add: store_read_from_value_def read_chunk_response_to_value_def json_struct_obj json_as_u64_def optional_string_def)

section \<open>Whatever is requested\<close>

text \<open>Every request to the master is a change, a lookup, or leaves everything as it is.\<close>

lemma on_route_keeps:
  "Q s \<Longrightarrow> (\<And>x. Q (snd (handler x s))) \<Longrightarrow> Q (snd (on_route m req extracted handler s))"
  by (cases extracted) (auto simp: on_route_def split: prod.splits, metis snd_conv)

lemma if_keeps: "Q (snd (f s)) \<Longrightarrow> Q (snd (g s)) \<Longrightarrow> Q (snd ((if b then f else g) s))"
  by simp

lemma master_router_keeps:
  assumes "Q s" and "\<And>c. Q (snd (handle_change app c s))" and "\<And>q. Q (snd (handle_get_replica_list now q s))"
  shows "Q (snd (master_router app now decode req s))"
proof -
  note change = assms(2) [of "ReqPutStart _", simplified] assms(2) [of "ReqPutEnd _", simplified]
    assms(2) [of "ReqPutRevoke _", simplified] assms(2) [of "ReqRemove _", simplified]
    assms(2) [of "ReqSetQuota _", simplified] assms(2) [of "ReqMount _", simplified]
  note route = on_route_keeps [where Q = Q, OF assms(1)]
  show ?thesis
    unfolding master_router_def Let_def
    by (intro if_keeps [where Q = Q] route) (simp_all only: change assms(1,3) snd_conv)
qed

lemma lookup_state:
  assumes "Q s" and "\<And>t k. Q (s\<lparr>mr_master := snd (get_replica_list now t k (mr_master s))\<rparr>)"
  shows "Q (snd (handle_get_replica_list now q s))"
proof (cases "\<exists>t k. parse_tenant_id (rlq_tenant_id q) = Inr t \<and> cache_key_from_hex (rlq_cache_key q) = Inr k")
  case True
  then obtain t k where "parse_tenant_id (rlq_tenant_id q) = Inr t" "cache_key_from_hex (rlq_cache_key q) = Inr k"
    by blast
  then have "snd (handle_get_replica_list now q s) = s\<lparr>mr_master := snd (get_replica_list now t k (mr_master s))\<rparr>"
    by (simp add: handle_get_replica_list_def split: prod.splits sum.splits)
  then show ?thesis using assms(2) by simp
next
  case False
  then have "snd (handle_get_replica_list now q s) = s"
    by (simp only: handle_get_replica_list_def split: sum.splits) (auto simp del: parse_tenant_id_eq_Inr cache_key_from_hex_eq_Inr)
  then show ?thesis using assms(1) by simp
qed

lemma get_replica_list_tables:
  "objects (snd (get_replica_list now t k st)) = objects st \<and> quotas (snd (get_replica_list now t k st)) = quotas st
   \<and> allocator (snd (get_replica_list now t k st)) = allocator st"
  by (auto simp: get_replica_list_def lease_refresh_def Let_def split: option.splits)

lemma master_router_reachable:
  assumes "master_reachable (mr_master s)"
  shows "master_reachable (mr_master (snd (master_router app now decode req s)))"
  using assms handle_change_reachable reach_step [OF assms step_get]
  by (intro master_router_keeps [where Q = "\<lambda>s. master_reachable (mr_master s)"] lookup_state
      [where Q = "\<lambda>s. master_reachable (mr_master s)"]) simp_all

text \<open>A service at work: the requests in the order in which it handles them, with the times.\<close>

fun serve_requests ::
  "'w master_app_state \<Rightarrow> (string \<Rightarrow> string) \<Rightarrow> (u64 \<times> service_request) list \<Rightarrow> 'w master_run \<Rightarrow> 'w master_run" where
  "serve_requests app decode [] s = s"
| "serve_requests app decode ((now, req) # reqs) s =
     serve_requests app decode reqs (snd (master_router app now decode req s))"

lemma serve_requests_reachable:
  "master_reachable (mr_master s) \<Longrightarrow> master_reachable (mr_master (serve_requests app decode reqs s))"
  by (induction app decode reqs s rule: serve_requests.induct) (simp_all add: master_router_reachable)

lemma serve_requests_standby:
  "\<not> is_leader (ma_leadership app) \<Longrightarrow>
   objects (mr_master (serve_requests app decode reqs s)) = objects (mr_master s)
   \<and> quotas (mr_master (serve_requests app decode reqs s)) = quotas (mr_master s)
   \<and> allocator (mr_master (serve_requests app decode reqs s)) = allocator (mr_master s)
   \<and> mr_world (serve_requests app decode reqs s) = mr_world s"
proof (induction app decode reqs s rule: serve_requests.induct)
  case (2 app decode now req reqs s)
  let ?Q = "\<lambda>s1. objects (mr_master s1) = objects (mr_master s) \<and> quotas (mr_master s1) = quotas (mr_master s)
    \<and> allocator (mr_master s1) = allocator (mr_master s) \<and> mr_world s1 = mr_world s"
  have "?Q (snd (master_router app now decode req s))"
    by (intro master_router_keeps [where Q = ?Q] lookup_state [where Q = ?Q])
       (simp_all add: handle_change_standby [OF "2.prems"] get_replica_list_tables)
  then show ?case using 2 by simp
qed simp


text \<open>
  A master with two objects on one node serves a mount and a request with the wrong method.
\<close>

definition example_requests :: "(u64 \<times> service_request) list" where
  "example_requests =
     [(1, \<lparr>sq_method = MethodPost, sq_path = ''/segments/mount'', sq_query = [],
           sq_body = json_obj [(''node_id'', JString ''c''), (''len'', JNumber (PosInt 64))]\<rparr>),
      (2, \<lparr>sq_method = MethodGet, sq_path = ''/objects/start'', sq_query = [], sq_body = JNull\<rparr>)]"

lemma example_requests_served:
  "mr_master (serve_requests example_app id example_requests \<lparr>mr_master = run_two, mr_world = None\<rparr>)
     = mount_segment ''c'' 64 run_two"
  by (simp add: example_requests_def master_router_def on_route_def mount_and_quota_read handle_mount_segment_def
      change_segment_def uninterrupted_def example_app_def require_leader_def is_leader_def leadership_leader_def
      save_snapshot_def memory_metadata_def memory_save_def ok_or_def)


end
