(* ===== verification/Network.thy ===== *)
theory Network
imports Local_Cache Service_Http
begin

text \<open>
  The gateway's remote clients against the routes of a master service and of a store node, over a
  network. The network and the machines are explicit: a call is lost, or it is delivered and its
  answer is lost, file system calls of the node fail as an oracle says, the master's clock shows
  any time, and its saves may fail. The lemmas say what a client may conclude from each answer.
\<close>

declare split_paired_All [simp del] split_paired_Ex [simp del]

section \<open>The network\<close>

text \<open>
  What the environment decides about one call: what the caller sees when the call is lost
  (\<open>ce_fault\<close>), or when it is delivered and the answer is lost (\<open>ce_lost\<close>), the time at the
  master, and the outcomes of the file system calls of the node.
\<close>

record call_env =
  ce_fault :: "http_call \<Rightarrow> (string + http_response) option"
  ce_lost :: "http_call \<Rightarrow> (string + http_response) option"
  ce_now :: u64
  ce_io :: io_env
  ce_read_error :: "io_error option"

text \<open>
  The services at their addresses, and the functions of the crates they use. \<open>cs_reject\<close> is
  the framework's answer to a request that no handler gets, \<open>cs_text\<close> prints JSON, and
  \<open>cs_no_route\<close> and \<open>cs_type_error\<close> are the HTTP client's error texts.
\<close>

record 'm site =
  cs_master_url :: string
  cs_node_url :: string
  cs_app :: "'m master_app_state"
  cs_sha256 :: "bytes \<Rightarrow> chunk_checksum"
  cs_cipher :: aead
  cs_format :: std_format
  cs_decode :: "string \<Rightarrow> string"
  cs_reject :: "rejection \<Rightarrow> http_response"
  cs_text :: "json \<Rightarrow> string"
  cs_no_route :: "http_call \<Rightarrow> string"
  cs_type_error :: "json \<Rightarrow> string"
  cs_oracle :: "nat \<Rightarrow> call_env"

record 'm cluster =
  cl_run :: "'m master_run"
  cl_machine :: store_machine
  cl_tick :: nat

definition request_at :: "string \<Rightarrow> http_call \<Rightarrow> service_request option" where
  "request_at base call =
     (case call of
        HttpGet url \<Rightarrow> map_option (target_request MethodGet JNull) (strip_prefix base url)
      | HttpPost url body \<Rightarrow> map_option (target_request MethodPost body) (strip_prefix base url))"

definition service_response :: "'m site \<Rightarrow> service_answer \<Rightarrow> http_response" where
  "service_response site answer =
     (case answer of
        Inl r \<Rightarrow> cs_reject site r
      | Inr (status, body) \<Rightarrow>
          \<lparr>hres_status = word_of_nat status, hres_text = Inr (cs_text site body), hres_json = Inr body\<rparr>)"

definition seen :: "call_env \<Rightarrow> http_call \<Rightarrow> http_response \<Rightarrow> string + http_response" where
  "seen env call response = (case ce_lost env call of None \<Rightarrow> Inr response | Some r \<Rightarrow> r)"

definition cluster_http :: "'m site \<Rightarrow> ('m, 'x) cluster_scheme http" where
  "cluster_http site call w =
     (let env = cs_oracle site (cl_tick w); w0 = w\<lparr>cl_tick := Suc (cl_tick w)\<rparr>
      in case ce_fault env call of
           Some r \<Rightarrow> (r, w0)
         | None \<Rightarrow>
             (case request_at (cs_master_url site) call of
                Some req \<Rightarrow>
                  (case master_router (cs_app site) (ce_now env) (cs_decode site) req (cl_run w) of
                     (answer, run) \<Rightarrow> (seen env call (service_response site answer), w0\<lparr>cl_run := run\<rparr>))
              | None \<Rightarrow>
                  (case request_at (cs_node_url site) call of
                     Some req \<Rightarrow>
                       (case store_router (cs_sha256 site) (cs_cipher site) (ce_io env) (ce_read_error env)
                               (cs_format site) (cs_decode site) req (cl_machine w) of
                          (answer, m) \<Rightarrow> (seen env call (service_response site answer), w0\<lparr>cl_machine := m\<rparr>))
                   | None \<Rightarrow> (Inl (cs_no_route site call), w0))))"

section \<open>What is assumed of the site\<close>

text \<open>
  A call or an answer that was lost is not seen as a success; the addresses are different; the
  cipher decrypts what it encrypted, and nonces have twelve bytes. Everything else may go wrong.
  An exact site is one on which less does: saves of the master's metadata succeed, answers are
  not lost, lookups and reads are delivered, and reading a file that exists succeeds; calls that
  change something may still be lost, and writes of files may fail in every way.
\<close>

definition saves_succeed :: "'m master_app_state \<Rightarrow> bool" where
  "saves_succeed app \<longleftrightarrow> (\<forall>snap w. \<exists>w'. md_save (ma_metadata app) snap w = (Inr (), w'))"

definition honest :: "call_env \<Rightarrow> bool" where
  "honest env \<longleftrightarrow>
     (\<forall>call r. ce_fault env call = Some (Inr r) \<or> ce_lost env call = Some (Inr r) \<longrightarrow> \<not> is_success (hres_status r))"

definition reliable :: "call_env \<Rightarrow> bool" where
  "reliable env \<longleftrightarrow>
     (\<forall>url. ce_fault env (HttpGet url) = None) \<and> ce_lost env = (\<lambda>_. None) \<and> ce_read_error env = None"

definition site_ok :: "bool \<Rightarrow> 'm site \<Rightarrow> bool" where
  "site_ok exact site \<longleftrightarrow>
     strip_prefix (cs_master_url site) (cs_node_url site) = None
     \<and> strip_prefix (cs_node_url site) (cs_master_url site) = None
     \<and> decodes_plain (cs_decode site) \<and> aead_decrypts (cs_cipher site)
     \<and> (\<forall>n. honest (cs_oracle site n) \<and> length (env_nonce (ce_io (cs_oracle site n))) = 12)
     \<and> (exact \<longrightarrow> saves_succeed (cs_app site) \<and> (\<forall>n. reliable (cs_oracle site n)))"

text \<open>A call on which nothing goes wrong outside of the services.\<close>

definition calm :: "'m site \<Rightarrow> nat \<Rightarrow> bool" where
  "calm site n \<longleftrightarrow>
     is_leader (ma_leadership (cs_app site)) \<and> saves_succeed (cs_app site)
     \<and> ce_fault (cs_oracle site n) = (\<lambda>_. None) \<and> ce_lost (cs_oracle site n) = (\<lambda>_. None)"

text \<open>Keys whose texts the clients can put into a URL and the services accept.\<close>

fun url_key :: "object_key \<Rightarrow> bool" where
  "url_key (t, k) \<longleftrightarrow> url_safe (tenant_as_str t) \<and> trim (tenant_as_str t) \<noteq> [] \<and> valid_key_text (key_as_str k)"

definition cluster_master :: "'m site \<Rightarrow> ('m, 'x) cluster_scheme master_client" where
  "cluster_master site = remote_master_ops (cluster_http site) (cs_type_error site) \<lparr>rm_base_url = cs_master_url site\<rparr>"

definition cluster_store :: "'m site \<Rightarrow> string \<Rightarrow> ('m, 'x) cluster_scheme store_client" where
  "cluster_store site node_id =
     remote_store_ops (cluster_http site) (cs_type_error site) \<lparr>rs_node_urls = [(node_id, cs_node_url site)]\<rparr>"

section \<open>The calls of the clients\<close>

lemma key_text_safe: "valid_key_text k \<Longrightarrow> url_safe k"
  by (auto simp: valid_key_text_def url_safe_def list_all_iff is_lower_hex_def is_ascii_alphanumeric_def Let_def)

lemma strip_prefix_other:
  assumes "strip_prefix a b = None" and "strip_prefix b a = None"
  shows "strip_prefix a (b @ x) = None"
proof (cases "strip_prefix a (b @ x)")
  case (Some y)
  then have "b @ x = a @ y" by (simp add: strip_prefix_Some)
  then obtain z where "b = a @ z \<or> a = b @ z" by (auto simp: append_eq_append_conv2)
  then show ?thesis using assms by auto
qed

lemma is_success_status [simp]:
  "is_success 200" "\<not> is_success (word_of_nat (cache_error_status e))"
  by (simp add: is_success_def) (cases e; simp add: is_success_def)

lemma master_request:
  assumes "CHR ''?'' \<notin> set path"
  shows "request_at base (HttpPost (base @ path) body) =
      Some \<lparr>sq_method = MethodPost, sq_path = path, sq_query = [], sq_body = body\<rparr>"
    and "request_at base (HttpGet (base @ path @ CHR ''?'' # query)) =
      Some \<lparr>sq_method = MethodGet, sq_path = path, sq_query = query, sq_body = JNull\<rparr>"
  using assms by (simp_all add: request_at_def target_request_def split_once_none split_once_first)

lemma node_request:
  assumes "site_ok exact site"
  shows "request_at (cs_master_url site) (HttpPost (cs_node_url site @ path) body) = None"
    and "request_at (cs_master_url site) (HttpGet (cs_node_url site @ path)) = None"
  using assms strip_prefix_other by (simp_all add: request_at_def site_ok_def)

lemma cluster_http_master:
  assumes "ce_fault (cs_oracle site (cl_tick w)) call = None" and "request_at (cs_master_url site) call = Some req"
    and "master_router (cs_app site) (ce_now (cs_oracle site (cl_tick w))) (cs_decode site) req (cl_run w) = (answer, run)"
  shows "cluster_http site call w = (seen (cs_oracle site (cl_tick w)) call (service_response site answer),
    w\<lparr>cl_tick := Suc (cl_tick w), cl_run := run\<rparr>)"
  using assms by (simp add: cluster_http_def Let_def)

lemma cluster_http_node:
  assumes "ce_fault (cs_oracle site (cl_tick w)) call = None" and "request_at (cs_master_url site) call = None"
    and "request_at (cs_node_url site) call = Some req"
    and "store_router (cs_sha256 site) (cs_cipher site) (ce_io (cs_oracle site (cl_tick w)))
      (ce_read_error (cs_oracle site (cl_tick w))) (cs_format site) (cs_decode site) req (cl_machine w) = (answer, m)"
  shows "cluster_http site call w = (seen (cs_oracle site (cl_tick w)) call (service_response site answer),
    w\<lparr>cl_tick := Suc (cl_tick w), cl_machine := m\<rparr>)"
  using assms by (simp add: cluster_http_def Let_def)

lemma cluster_http_fault:
  "ce_fault (cs_oracle site (cl_tick w)) call = Some r \<Longrightarrow> cluster_http site call w = (r, w\<lparr>cl_tick := Suc (cl_tick w)\<rparr>)"
  by (simp add: cluster_http_def)

lemma seen_exact: "site_ok True site \<Longrightarrow> seen (cs_oracle site n) call response = Inr response"
  by (simp add: seen_def site_ok_def reliable_def)

text \<open>A success that the caller sees is the answer of the service.\<close>

lemma seen_success:
  assumes "site_ok exact site" and "seen (cs_oracle site n) call response = Inr r" and "is_success (hres_status r)"
  shows "r = response"
proof -
  have "honest (cs_oracle site n)" using assms(1) by (simp add: site_ok_def)
  then show ?thesis
    using assms(2,3) unfolding honest_def seen_def by (auto split: option.splits)
qed

lemma fault_no_success:
  assumes "site_ok exact site" and "ce_fault (cs_oracle site n) call = Some (Inr r)"
  shows "\<not> is_success (hres_status r)"
proof -
  have "honest (cs_oracle site n)" using assms(1) by (simp add: site_ok_def)
  then show ?thesis using assms(2) unfolding honest_def by blast
qed

lemma url_key_parses:
  "url_key (t, k) \<Longrightarrow> parse_tenant_id (tenant_as_str t) = Inr t \<and> cache_key_from_hex (key_as_str k) = Inr k"
  by simp

text \<open>A lookup that succeeds is the lookup of the control plane; on an exact site every lookup is.\<close>

lemma remote_get_fails:
  assumes "cluster_http site (HttpGet (cs_master_url site @ ''/objects/replicas?tenant_id='' @ tenant_as_str t
      @ ''&cache_key='' @ key_as_str k)) w = (x, w1)" and "\<And>response. x = Inr response \<Longrightarrow> \<not> is_success (hres_status response)"
    and "mc_get_replica_list (cluster_master site) t k w = (found, w')"
  shows "w' = w1" and "found \<noteq> Inr rl"
  using assms
  by (auto simp: cluster_master_def remote_master_ops_def remote_get_replica_list_def split: sum.splits if_splits)

lemma cluster_looked_up:
  assumes "site_ok exact site" and "url_key (t, k)" and "mc_get_replica_list (cluster_master site) t k w = (found, w')"
    and "get_replica_list (ce_now (cs_oracle site (cl_tick w))) t k (mr_master (cl_run w)) = (r, m')"
  shows "cl_machine w' = cl_machine w \<and> mr_master (cl_run w') \<in> {mr_master (cl_run w), m'}"
    and "found = Inr rl \<Longrightarrow> r = Inr rl \<and> mr_master (cl_run w') = m'"
    and "exact \<Longrightarrow> found = map_err GeCache r \<and> mr_master (cl_run w') = m'"
proof -
  let ?env = "cs_oracle site (cl_tick w)" and ?q = "object_query (tenant_as_str t) (key_as_str k)"
  let ?url = "cs_master_url site @ ''/objects/replicas?tenant_id='' @ tenant_as_str t @ ''&cache_key='' @ key_as_str k"
  let ?w1 = "w\<lparr>cl_tick := Suc (cl_tick w), cl_run := (cl_run w)\<lparr>mr_master := m'\<rparr>\<rparr>"
  have "cl_machine w' = cl_machine w \<and> mr_master (cl_run w') \<in> {mr_master (cl_run w), m'}
    \<and> (found = Inr rl \<longrightarrow> r = Inr rl \<and> mr_master (cl_run w') = m')
    \<and> (exact \<longrightarrow> found = map_err GeCache r \<and> mr_master (cl_run w') = m')"
  proof (cases "ce_fault ?env (HttpGet ?url)")
    case (Some x)
    have "\<not> exact" using assms(1) Some by (auto simp: site_ok_def reliable_def)
    moreover have "\<not> is_success (hres_status response)" if "x = Inr response" for response
      using fault_no_success [OF assms(1) Some [unfolded that]] .
    note remote_get_fails [OF cluster_http_fault [OF Some] this assms(3)]
    ultimately show ?thesis by simp
  next
    case None
    let ?req = "\<lparr>sq_method = MethodGet, sq_path = ''/objects/replicas'', sq_query = ?q, sq_body = JNull\<rparr>"
    have url: "?url = cs_master_url site @ ''/objects/replicas'' @ CHR ''?'' # ?q" by (simp add: object_query_def)
    have request: "request_at (cs_master_url site) (HttpGet ?url) = Some ?req"
      unfolding url by (rule master_request) simp
    have safe: "decodes_plain (cs_decode site)" "url_safe (tenant_as_str t)" "url_safe (key_as_str k)"
      using assms(1,2) key_text_safe by (auto simp: site_ok_def)
    obtain status body where handled: "handle_get_replica_list (ce_now ?env)
        \<lparr>rlq_tenant_id = tenant_as_str t, rlq_cache_key = key_as_str k\<rparr> (cl_run w) =
        ((status, body), (cl_run w)\<lparr>mr_master := m'\<rparr>)"
      using assms(4) url_key_parses [OF assms(2)]
      by (cases r) (auto simp: handle_get_replica_list_def error_response_def)
    let ?response = "service_response site (Inr (status, body))"
    have http: "cluster_http site (HttpGet ?url) w = (seen ?env (HttpGet ?url) ?response, ?w1)"
      by (rule cluster_http_master [OF None request])
         (use handled in \<open>simp add: master_router_def on_route_def object_query_read(1) [OF safe]\<close>)
    have genuine: "found = map_err GeCache r \<and> w' = ?w1" if "seen ?env (HttpGet ?url) ?response = Inr ?response"
      using remote_lookup [where http = "cluster_http site" and c = "\<lparr>rm_base_url = cs_master_url site\<rparr>",
          OF _ _ handled, of w ?response ?w1 "cs_type_error site"] http that assms(2-4)
      by (simp add: cluster_master_def remote_master_ops_def service_response_def)
    show ?thesis
    proof (cases "seen ?env (HttpGet ?url) ?response = Inr ?response")
      case True
      then show ?thesis using genuine by (cases r) auto
    next
      case False
      then have "\<not> exact" using seen_exact assms(1) by (cases exact) auto
      moreover have "\<not> is_success (hres_status response)" if "seen ?env (HttpGet ?url) ?response = Inr response" for response
        using seen_success [OF assms(1) that] that False by metis
      note remote_get_fails [OF http this assms(3)]
      ultimately show ?thesis by simp
    qed
  qed
  then show "cl_machine w' = cl_machine w \<and> mr_master (cl_run w') \<in> {mr_master (cl_run w), m'}"
    and "found = Inr rl \<Longrightarrow> r = Inr rl \<and> mr_master (cl_run w') = m'"
    and "exact \<Longrightarrow> found = map_err GeCache r \<and> mr_master (cl_run w') = m'" by blast+
qed

lemma cluster_get:
  assumes "site_ok True site" and "url_key (t, k)"
    and "get_replica_list (ce_now (cs_oracle site (cl_tick w))) t k (mr_master (cl_run w)) = (r, m')"
  obtains w' where "mc_get_replica_list (cluster_master site) t k w = (map_err GeCache r, w')"
    and "mr_master (cl_run w') = m'" and "cl_machine w' = cl_machine w"
proof -
  obtain found w' where get: "mc_get_replica_list (cluster_master site) t k w = (found, w')" by fastforce
  show thesis using that get cluster_looked_up(1,3) [OF assms(1,2) get assms(3)] by simp
qed

text \<open>
  The calls that change one object: lost or refused before anything happened, refused by the
  control plane, done although the caller sees an error, or done.
\<close>

lemma post_outcome:
  assumes "http (HttpPost (rm_base_url c @ path) body) w = (x, w1)"
    and "master_post_json http type_error decode c path body w = (res, w')"
  shows "w' = w1" and "res = Inr y \<Longrightarrow>
    \<exists>response. x = Inr response \<and> is_success (hres_status response) \<and> typed_json type_error decode response = Inr y"
    and "x = Inr response \<Longrightarrow> is_success (hres_status response) \<Longrightarrow> res = map_err GeMasterUpstream (typed_json type_error decode response)"
  using assms by (auto simp: master_post_json_def split: sum.splits if_splits)

text \<open>The handler on one object, undisturbed.\<close>

abbreviation object_handler ::
  "'w master_app_state \<Rightarrow> string \<Rightarrow> string
   \<Rightarrow> (tenant_id \<Rightarrow> cache_key \<Rightarrow> master_state \<Rightarrow> 'a cache_result \<times> master_state) \<Rightarrow> ('a \<Rightarrow> json)
   \<Rightarrow> 'w master_run \<Rightarrow> reply \<times> 'w master_run" where
  "object_handler app tenant key operation body \<equiv> uninterrupted app (change_object app tenant key operation body)"

lemma object_handler_outcome:
  assumes "url_key (t, k)"
    and "object_handler app (tenant_as_str t) (key_as_str k) operation to_value run = (reply, run')"
  obtains (standby) "\<not> is_leader (ma_leadership app)" "run' = run" "fst reply = 503"
    | (refused) e where "operation t k (mr_master run) = (Inl e, mr_master run')" "reply = error_response e"
    | (unsaved) x where "operation t k (mr_master run) = (Inr x, mr_master run')" "fst reply = 503" "\<not> saves_succeed app"
    | (changed) x where "operation t k (mr_master run) = (Inr x, mr_master run')" "reply = (200, to_value x)"
proof (cases "is_leader (ma_leadership app)")
  case False
  then show thesis using standby assms(2) by (auto simp: uninterrupted_def change_object_def require_leader_def)
next
  case True
  obtain r m where op: "operation t k (mr_master run) = (r, m)" by fastforce
  have change: "change_object app (tenant_as_str t) (key_as_str k) operation to_value (mr_master run) =
      (map_sum error_response to_value r, m)"
    using op by (simp add: change_object_leader [OF True] parsed_object_def url_key_parses [OF assms(1)])
  from assms(2) show thesis
  proof (cases rule: uninterrupted_cases)
    case answered
    then show thesis using change op refused by (cases r) auto
  next
    case (saved body)
    then show thesis using change op changed by (cases r) auto
  next
    case (unsaved body e)
    then have "\<not> saves_succeed app" unfolding saves_succeed_def by (metis prod.inject sum.distinct(1))
    then show thesis using unsaved change op that(3) by (cases r) auto
  qed
qed

lemma object_call:
  assumes "site_ok exact site" and "url_key (t, k)" and "CHR ''?'' \<notin> set path"
    and routed: "\<And>now run. master_router (cs_app site) now (cs_decode site)
        \<lparr>sq_method = MethodPost, sq_path = path, sq_query = [], sq_body = body\<rparr> run =
      apfst Inr (object_handler (cs_app site) (tenant_as_str t) (key_as_str k) operation to_value run)"
    and dec: "\<And>x. decode (to_value x) = Some (g x)"
    and run: "master_post_json (cluster_http site) type_error decode \<lparr>rm_base_url = cs_master_url site\<rparr> path body w = (res, w')"
  obtains (lost) e where "res = Inl e" "mr_master (cl_run w') = mr_master (cl_run w)" "cl_machine w' = cl_machine w"
        "\<not> calm site (cl_tick w)"
    | (refused) e e' where "res = Inl e" "operation t k (mr_master (cl_run w)) = (Inl e', mr_master (cl_run w'))"
        "cl_machine w' = cl_machine w"
    | (unsure) e x where "res = Inl e" "operation t k (mr_master (cl_run w)) = (Inr x, mr_master (cl_run w'))"
        "cl_machine w' = cl_machine w" "\<not> exact" "\<not> calm site (cl_tick w)"
    | (changed) x where "res = Inr (g x)" "operation t k (mr_master (cl_run w)) = (Inr x, mr_master (cl_run w'))"
        "cl_machine w' = cl_machine w"
proof -
  let ?env = "cs_oracle site (cl_tick w)" and ?call = "HttpPost (cs_master_url site @ path) body"
  show thesis
  proof (cases "ce_fault ?env ?call")
    case (Some x)
    have http: "cluster_http site (HttpPost (rm_base_url \<lparr>rm_base_url = cs_master_url site\<rparr> @ path) body) w =
        (x, w\<lparr>cl_tick := Suc (cl_tick w)\<rparr>)" using cluster_http_fault [OF Some] by simp
    have "\<exists>e. res = Inl e"
      using post_outcome(2) [OF http run] fault_no_success [OF assms(1), of "cl_tick w" ?call] Some by (cases res) auto
    moreover have "\<not> calm site (cl_tick w)" using Some by (auto simp: calm_def)
    ultimately show thesis using lost post_outcome(1) [OF http run] by auto
  next
    case None
    obtain reply run' where handled: "object_handler (cs_app site) (tenant_as_str t) (key_as_str k) operation to_value (cl_run w)
        = (reply, run')" by fastforce
    let ?response = "service_response site (Inr reply)"
    have http: "cluster_http site (HttpPost (rm_base_url \<lparr>rm_base_url = cs_master_url site\<rparr> @ path) body) w =
        (seen ?env ?call ?response, w\<lparr>cl_tick := Suc (cl_tick w), cl_run := run'\<rparr>)"
      using cluster_http_master [OF None master_request(1) [OF assms(3)]] routed handled by simp
    note post = post_outcome [OF http run]
    have bad: "\<exists>e. res = Inl e" if "\<not> is_success (word_of_nat (fst reply))"
    proof (cases res)
      case (Inr y)
      then obtain response where "seen ?env ?call ?response = Inr response" "is_success (hres_status response)"
        using post(2) by blast
      moreover from this have "response = ?response" by (rule seen_success [OF assms(1)])
      ultimately show ?thesis using that by (cases reply) (simp add: service_response_def)
    qed simp
    have w': "cl_machine w' = cl_machine w" "cl_run w' = run'" using post(1) by simp_all
    from assms(2) handled show thesis
    proof (cases rule: object_handler_outcome)
      case standby
      then have "\<exists>e. res = Inl e" "\<not> calm site (cl_tick w)" using bad by (simp_all add: is_success_def calm_def)
      then show thesis using lost w' standby by auto
    next
      case (refused e)
      then have "\<exists>e. res = Inl e" using bad by (simp add: error_response_def)
      then show thesis using that(2) w' refused by auto
    next
      case (unsaved x)
      then have "\<exists>e. res = Inl e" "\<not> exact" "\<not> calm site (cl_tick w)"
        using bad assms(1) by (auto simp: is_success_def calm_def site_ok_def)
      then show thesis using unsure w' unsaved by auto
    next
      case (changed x)
      have good: "res = Inr (g x)" if "seen ?env ?call ?response = Inr ?response"
        using post(3) [OF that] changed dec by (simp add: service_response_def typed_json_def)
      show thesis
      proof (cases res)
        case (Inr y)
        then obtain response where "seen ?env ?call ?response = Inr response" "is_success (hres_status response)"
          using post(2) by blast
        then have "seen ?env ?call ?response = Inr ?response" using seen_success [OF assms(1)] by metis
        then show thesis using that(4) good w' changed by simp
      next
        case (Inl e)
        then have "seen ?env ?call ?response \<noteq> Inr ?response" using good by auto
        then have "\<not> exact" "\<not> calm site (cl_tick w)"
          using seen_exact assms(1) by (cases exact; auto simp: calm_def seen_def)+
        then show thesis using unsure Inl w' changed by simp
      qed
    qed
  qed
qed

lemma object_routes:
  "master_router app now decode \<lparr>sq_method = MethodPost, sq_path = ''/objects/start'', sq_query = [],
      sq_body = object_body t k [(''len'', JNumber (PosInt len)), (''replica_count'', JNumber (PosInt n))]\<rparr> run =
    apfst Inr (object_handler app (tenant_as_str t) (key_as_str k) (\<lambda>t k. put_start t k len n)
      (\<lambda>replicas. json_obj [(''replicas'', JArray (map replica_to_value replicas))]) run)"
  "master_router app now decode \<lparr>sq_method = MethodPost, sq_path = ''/objects/end'', sq_query = [],
      sq_body = object_body t k []\<rparr> run =
    apfst Inr (object_handler app (tenant_as_str t) (key_as_str k) put_end (\<lambda>_. ok_json) run)"
  "master_router app now decode \<lparr>sq_method = MethodPost, sq_path = ''/objects/revoke'', sq_query = [],
      sq_body = object_body t k []\<rparr> run =
    apfst Inr (object_handler app (tenant_as_str t) (key_as_str k) put_revoke (\<lambda>_. ok_json) run)"
  by (simp_all add: master_router_def on_route_def object_body_read handle_put_start_def handle_put_end_def
      handle_put_revoke_def change_defs apfst_def map_prod_def split: prod.splits)

lemma object_answers:
  "member_from_value ''replicas'' (list_from_value replica_from_value)
     (json_obj [(''replicas'', JArray (map replica_to_value rs))]) = Some rs"
  "master_ok ok_json = Some True"
  by (simp_all add: member_from_value_def json_struct_obj ok_json_def json_as_bool_def list_from_value_def
      list_all_iff comp_def)

lemma unit_result_eq: "unit_result p = (r, w) \<Longrightarrow> \<exists>r'. p = (r', w) \<and> (r = map_sum id (\<lambda>_. ()) r')"
  by (auto simp: unit_result_def split: prod.splits sum.splits)

lemma cluster_start:
  assumes "site_ok exact site" and "url_key (t, k)" and "mc_put_start (cluster_master site) t k len n w = (res, w')"
  obtains (lost) e where "res = Inl e" "mr_master (cl_run w') = mr_master (cl_run w)" "cl_machine w' = cl_machine w"
        "\<not> calm site (cl_tick w)"
    | (refused) e e' where "res = Inl e" "put_start t k len n (mr_master (cl_run w)) = (Inl e', mr_master (cl_run w'))"
        "cl_machine w' = cl_machine w"
    | (unsure) e rs where "res = Inl e" "put_start t k len n (mr_master (cl_run w)) = (Inr rs, mr_master (cl_run w'))"
        "cl_machine w' = cl_machine w" "\<not> exact" "\<not> calm site (cl_tick w)"
    | (changed) rs where "res = Inr rs" "put_start t k len n (mr_master (cl_run w)) = (Inr rs, mr_master (cl_run w'))"
        "cl_machine w' = cl_machine w"
proof -
  have "CHR ''?'' \<notin> set ''/objects/start''" by simp
  from object_call [OF assms(1,2) this object_routes(1) object_answers(1)
      assms(3) [unfolded cluster_master_def remote_master_ops_def master_client.select_convs remote_put_start_def]]
  show thesis using lost refused unsure changed by blast
qed

text \<open>The same for the two calls without a result.\<close>

lemma unit_call:
  assumes "site_ok exact site" and "url_key (t, k)" and "CHR ''?'' \<notin> set path"
    and "\<And>now run. master_router (cs_app site) now (cs_decode site)
        \<lparr>sq_method = MethodPost, sq_path = path, sq_query = [], sq_body = object_body t k []\<rparr> run =
      apfst Inr (object_handler (cs_app site) (tenant_as_str t) (key_as_str k) operation (\<lambda>_. ok_json) run)"
    and "unit_result (master_post_json (cluster_http site) (cs_type_error site) master_ok
      \<lparr>rm_base_url = cs_master_url site\<rparr> path (object_body t k []) w) = (res, w')"
  obtains (lost) e where "res = Inl e" "mr_master (cl_run w') = mr_master (cl_run w)" "cl_machine w' = cl_machine w"
        "\<not> calm site (cl_tick w)"
    | (refused) e e' where "res = Inl e" "operation t k (mr_master (cl_run w)) = (Inl e', mr_master (cl_run w'))"
        "cl_machine w' = cl_machine w"
    | (unsure) e u where "res = Inl e" "operation t k (mr_master (cl_run w)) = (Inr u, mr_master (cl_run w'))"
        "cl_machine w' = cl_machine w" "\<not> exact" "\<not> calm site (cl_tick w)"
    | (changed) u where "res = Inr ()" "operation t k (mr_master (cl_run w)) = (Inr u, mr_master (cl_run w'))"
        "cl_machine w' = cl_machine w"
proof -
  obtain r' where run: "master_post_json (cluster_http site) (cs_type_error site) master_ok
      \<lparr>rm_base_url = cs_master_url site\<rparr> path (object_body t k []) w = (r', w')"
    and res: "res = map_sum id (\<lambda>_. ()) r'"
    using unit_result_eq [OF assms(5)] by blast
  from assms(1-4) object_answers(2) run show thesis
  proof (cases rule: object_call)
    case (lost e)
    then show thesis using that(1) res by simp
  next
    case (refused e e')
    then show thesis using that(2) res by simp
  next
    case (unsure e x)
    then show thesis using that(3) res by simp
  next
    case (changed x)
    then show thesis using that(4) res by simp
  qed
qed

lemma end_call:
  "mc_put_end (cluster_master site) t k w = unit_result (master_post_json (cluster_http site) (cs_type_error site) master_ok
     \<lparr>rm_base_url = cs_master_url site\<rparr> ''/objects/end'' (object_body t k []) w)"
  "mc_put_revoke (cluster_master site) t k w = unit_result (master_post_json (cluster_http site) (cs_type_error site) master_ok
     \<lparr>rm_base_url = cs_master_url site\<rparr> ''/objects/revoke'' (object_body t k []) w)"
  "CHR ''?'' \<notin> set ''/objects/end''" "CHR ''?'' \<notin> set ''/objects/revoke''"
  by (simp_all add: cluster_master_def remote_master_ops_def remote_put_end_def remote_put_revoke_def)

lemmas cluster_end = unit_call [OF _ _ end_call(3) object_routes(2), folded end_call(1),
    consumes 3, case_names lost refused unsure changed]

lemma cluster_revoke:
  assumes "site_ok exact site" and "url_key (t, k)" and "mc_put_revoke (cluster_master site) t k w = (res, w')"
  shows "cl_machine w' = cl_machine w" and "mr_master (cl_run w') = mr_master (cl_run w)
    \<or> mr_master (cl_run w') = snd (put_revoke t k (mr_master (cl_run w)))"
proof -
  note call = unit_call [OF assms(1,2) end_call(4) object_routes(3) assms(3) [unfolded end_call(2)]]
  show "cl_machine w' = cl_machine w" by (rule call)
  show "mr_master (cl_run w') = mr_master (cl_run w)
    \<or> mr_master (cl_run w') = snd (put_revoke t k (mr_master (cl_run w)))" by (rule call) simp_all
qed

text \<open>The calls to the node.\<close>

lemma chunk_handle_new_id [simp]: "chunk_handle_new (ch_offset h) (ch_len h) = h"
  by (simp add: chunk_handle_new_def)

lemma store_error_not_success:
  "\<not> is_success (word_of_nat (fst (store_node_error_to_response f e)))"
proof (cases e)
  case (SneStore e')
  then show ?thesis by (cases e') (simp_all add: store_error_to_response_def is_success_def)
next
  case (SneSsd e')
  then show ?thesis by (cases e') (simp_all add: ssd_error_to_response_def is_success_def)
qed

lemma chunk_url:
  "base @ ''/chunks/'' @ show_nat (unat (ch_offset h)) @ ''/'' @ show_nat (unat (ch_len h))
     @ ''?tenant_id='' @ tenant_as_str t @ ''&cache_key='' @ key_as_str k =
   base @ (''/chunks/'' @ show_nat (unat (ch_offset h)) @ ''/'' @ show_nat (unat (ch_len h)))
     @ CHR ''?'' # object_query (tenant_as_str t) (key_as_str k)"
  by (simp add: object_query_def)

lemma chunk_routed:
  assumes "site_ok exact site" and "url_key (t, k)"
    and "node_read_chunk (cs_sha256 site) (cs_cipher site) err h (Some (tenant_as_str t)) (Some (key_as_str k)) m = (r, m')"
  shows "store_router (cs_sha256 site) (cs_cipher site) env err (cs_format site) (cs_decode site)
      \<lparr>sq_method = MethodGet,
       sq_path = ''/chunks/'' @ show_nat (unat (ch_offset h)) @ ''/'' @ show_nat (unat (ch_len h)),
       sq_query = object_query (tenant_as_str t) (key_as_str k), sq_body = JNull\<rparr> m =
    (Inr (case r of Inl e \<Rightarrow> store_node_error_to_response (cs_format site) e
          | Inr resp \<Rightarrow> (200, read_chunk_response_to_value resp)), m')"
proof -
  let ?path = "''/chunks/'' @ show_nat (unat (ch_offset h)) @ ''/'' @ show_nat (unat (ch_len h))"
  have safe: "decodes_plain (cs_decode site)" "url_safe (tenant_as_str t)" "url_safe (key_as_str k)"
    using assms(1,2) key_text_safe by (auto simp: site_ok_def)
  note path = chunk_path_read [OF safe, of "ch_offset h" "ch_len h"]
  have "?path \<noteq> ''/healthz'' \<and> ?path \<noteq> ''/metrics/snapshot'' \<and> ?path \<noteq> ''/chunks'' \<and> ?path \<noteq> ''/chunks/preallocated''"
    using path(1) by (auto simp: chunk_segments_def)
  then show ?thesis
    unfolding store_router_def service_request.select_convs path(1) path(2)
    using assms(3) by (cases r) (simp_all add: on_route_def path(2) get_chunk_def chunk_reply_def)
qed

text \<open>A read that succeeds is the read of the node; on an exact site every successful read arrives.\<close>

lemma cluster_read:
  assumes "site_ok exact site" and "url_key (t, k)"
    and "node_read_chunk (cs_sha256 site) (cs_cipher site) (ce_read_error (cs_oracle site (cl_tick w))) h
      (Some (tenant_as_str t)) (Some (key_as_str k)) (cl_machine w) = (r, m)"
    and "sc_read_chunk (cluster_store site node_id) t k h w = (got, w')"
  shows "cl_run w' = cl_run w \<and> cl_machine w' \<in> {cl_machine w, m}"
    and "got = Inr chunk \<Longrightarrow> (\<exists>resp. r = Inr resp \<and> chunk = \<lparr>sch_bytes = rrs_data resp, sch_tier = rrs_tier resp\<rparr>)
      \<and> cl_machine w' = m"
    and "exact \<Longrightarrow> r = Inr resp \<Longrightarrow> got = Inr \<lparr>sch_bytes = rrs_data resp, sch_tier = rrs_tier resp\<rparr> \<and> cl_machine w' = m"
proof -
  let ?env = "cs_oracle site (cl_tick w)"
  let ?path = "''/chunks/'' @ show_nat (unat (ch_offset h)) @ ''/'' @ show_nat (unat (ch_len h))"
  let ?call = "HttpGet (cs_node_url site @ ?path @ CHR ''?'' # object_query (tenant_as_str t) (key_as_str k))"
  obtain x w1 where http: "cluster_http site ?call w = (x, w1)" by fastforce
  have got: "(got, w') = (case x of Inl e \<Rightarrow> (Inl (GeStoreUpstream e), w1)
      | Inr response \<Rightarrow> if is_success (hres_status response)
          then (map_err GeStoreUpstream (typed_json (cs_type_error site) store_read_from_value response), w1)
          else (Inl (GeStoreUpstream (upstream_error_text response)), w1))"
    using assms(4)
    unfolding cluster_store_def remote_store_ops_def store_client.select_convs remote_read_chunk_def
      remote_store_client.select_convs list.map snd_conv list.case Let_def chunk_url http prod.case
    by (cases x) (simp_all split: if_splits)
  have "cl_run w' = cl_run w \<and> cl_machine w' \<in> {cl_machine w, m}
    \<and> (got = Inr chunk \<longrightarrow> (\<exists>resp. r = Inr resp \<and> chunk = \<lparr>sch_bytes = rrs_data resp, sch_tier = rrs_tier resp\<rparr>)
        \<and> cl_machine w' = m)
    \<and> (exact \<longrightarrow> r = Inr resp \<longrightarrow> got = Inr \<lparr>sch_bytes = rrs_data resp, sch_tier = rrs_tier resp\<rparr> \<and> cl_machine w' = m)"
  proof (cases "ce_fault ?env ?call")
    case (Some y)
    then have "x = y" "w1 = w\<lparr>cl_tick := Suc (cl_tick w)\<rparr>" using http cluster_http_fault [OF Some] by simp_all
    moreover have "\<not> exact" using assms(1) Some by (auto simp: site_ok_def reliable_def)
    ultimately show ?thesis
      using got fault_no_success [OF assms(1)] Some by (auto split: sum.splits if_splits)
  next
    case None
    let ?reply = "case r of Inl e \<Rightarrow> store_node_error_to_response (cs_format site) e
        | Inr resp \<Rightarrow> (200, read_chunk_response_to_value resp)"
    let ?response = "service_response site (Inr ?reply)"
    have "CHR ''?'' \<notin> set ?path" using url_safe_free(3) [OF show_nat_safe] by auto
    note request = master_request(2) [OF this]
    have here: "x = seen ?env ?call ?response" "w1 = w\<lparr>cl_tick := Suc (cl_tick w), cl_machine := m\<rparr>"
      using http cluster_http_node [OF None node_request(2) [OF assms(1)] request chunk_routed [OF assms(1-3)]] by simp_all
    have status: "is_success (hres_status ?response) \<longleftrightarrow> (\<exists>resp. r = Inr resp)"
      using store_error_not_success by (cases r) (simp_all add: service_response_def split: prod.splits, metis fst_conv)
    have good: "got = Inr \<lparr>sch_bytes = rrs_data resp, sch_tier = rrs_tier resp\<rparr>" if "x = Inr ?response" "r = Inr resp" for resp
      using got that status by (simp add: typed_json_def service_response_def read_answer_read)
    have real: "x = Inr ?response" if "got = Inr chunk"
      using that got here(1) seen_success [OF assms(1), of "cl_tick w" ?call ?response] by (auto split: sum.splits if_splits)
    have "w' = w1" using got by (auto split: sum.splits if_splits)
    then have w': "cl_run w' = cl_run w" "cl_machine w' = m" using here(2) by simp_all
    have "\<exists>resp. r = Inr resp \<and> chunk = \<lparr>sch_bytes = rrs_data resp, sch_tier = rrs_tier resp\<rparr>" if some: "got = Inr chunk"
    proof -
      obtain resp where "r = Inr resp" using some real [OF some] got status by (auto split: if_splits)
      then show ?thesis using good [OF real [OF some]] some by simp
    qed
    moreover have "got = Inr \<lparr>sch_bytes = rrs_data resp, sch_tier = rrs_tier resp\<rparr>" if exact "r = Inr resp"
    proof -
      have "x = Inr ?response" using here(1) seen_exact assms(1) that(1) by simp
      then show ?thesis using that(2) by (rule good)
    qed
    ultimately show ?thesis using w' by simp
  qed
  then show "cl_run w' = cl_run w \<and> cl_machine w' \<in> {cl_machine w, m}"
    and "got = Inr chunk \<Longrightarrow> (\<exists>resp. r = Inr resp \<and> chunk = \<lparr>sch_bytes = rrs_data resp, sch_tier = rrs_tier resp\<rparr>)
      \<and> cl_machine w' = m"
    and "exact \<Longrightarrow> r = Inr resp \<Longrightarrow> got = Inr \<lparr>sch_bytes = rrs_data resp, sch_tier = rrs_tier resp\<rparr> \<and> cl_machine w' = m"
    by blast+
qed

lemma cluster_write:
  assumes "site_ok exact site" and "sc_write_preallocated_chunk (cluster_store site node_id) n t k h bs w = (res, w')"
  obtains (lost) e where "res = Inl e" "cl_run w' = cl_run w" "cl_machine w' = cl_machine w"
        "n = node_id \<longrightarrow> \<not> calm site (cl_tick w)"
    | (tried) r where "node_write_preallocated (cs_sha256 site) (cs_cipher site) (ce_io (cs_oracle site (cl_tick w))) h bs
          (Some (tenant_as_str t)) (Some (key_as_str k)) (cl_machine w) = (r, cl_machine w')"
        "res = Inr () \<Longrightarrow> r = Inr ()" "calm site (cl_tick w) \<Longrightarrow> r = Inr () \<Longrightarrow> res = Inr ()" "cl_run w' = cl_run w"
proof (cases "n = node_id")
  case False
  then show thesis
    using assms(2) by (intro lost) (auto simp: cluster_store_def remote_store_ops_def remote_write_preallocated_chunk_def hm_get_def)
next
  case True
  let ?env = "cs_oracle site (cl_tick w)" and ?path = "''/chunks/preallocated''"
  let ?body = "object_body t k [(''offset'', JNumber (PosInt (ch_offset h))), (''len'', JNumber (PosInt (ch_len h))),
       (''data'', JArray (map (\<lambda>b. JNumber (PosInt (of_char b))) bs))]"
  let ?call = "HttpPost (cs_node_url site @ ?path) ?body"
  have sent: "(res, w') = (case cluster_http site ?call w of
      (Inl e, w') \<Rightarrow> (Inl (GeStoreUpstream e), w')
    | (Inr response, w') \<Rightarrow> if is_success (hres_status response) then (Inr (), w')
        else (Inl (GeStoreUpstream (upstream_error_text response)), w'))"
    using assms(2) True
    by (simp add: cluster_store_def remote_store_ops_def remote_write_preallocated_chunk_def hm_get_def Let_def)
  show thesis
  proof (cases "ce_fault ?env ?call")
    case (Some r)
    then have "\<exists>e. res = Inl e" "w' = w\<lparr>cl_tick := Suc (cl_tick w)\<rparr>"
      using sent fault_no_success [OF assms(1)] unfolding cluster_http_fault [OF Some] by (auto split: sum.splits if_splits)
    moreover have "\<not> calm site (cl_tick w)" using Some by (auto simp: calm_def)
    ultimately show thesis using lost by auto
  next
    case None
    let ?req = "\<lparr>sq_method = MethodPost, sq_path = ?path, sq_query = [], sq_body = ?body\<rparr>"
    obtain r m where node: "node_write_preallocated (cs_sha256 site) (cs_cipher site) (ce_io ?env) h bs
        (Some (tenant_as_str t)) (Some (key_as_str k)) (cl_machine w) = (r, m)" by fastforce
    obtain reply where routed: "store_router (cs_sha256 site) (cs_cipher site) (ce_io ?env) (ce_read_error ?env)
        (cs_format site) (cs_decode site) ?req (cl_machine w) = (Inr reply, m)"
      and reply: "is_success (word_of_nat (fst reply)) \<longleftrightarrow> r = Inr ()"
      using node store_error_not_success
      by (cases r) (auto simp: store_router_def on_route_def object_body_read(3) post_chunk_preallocated_def chunk_reply_def)
    let ?response = "service_response site (Inr reply)"
    have "CHR ''?'' \<notin> set ?path" by simp
    note http = cluster_http_node [OF None node_request(1) [OF assms(1)] master_request(1) [OF this] routed]
    have status: "is_success (hres_status ?response) \<longleftrightarrow> r = Inr ()"
      using reply by (cases reply) (simp add: service_response_def)
    have "r = Inr ()" if "res = Inr ()"
      using that sent status seen_success [OF assms(1), of "cl_tick w" ?call ?response] unfolding http
      by (auto split: sum.splits if_splits)
    moreover have "res = Inr ()" if "calm site (cl_tick w)" "r = Inr ()"
      using that sent status unfolding http by (simp add: calm_def seen_def)
    moreover have "w' = w\<lparr>cl_tick := Suc (cl_tick w), cl_machine := m\<rparr>"
      using sent unfolding http by (auto split: sum.splits if_splits)
    ultimately show thesis using node by (intro tried [of r]) simp_all
  qed
qed

end
