(* ===== verification/Cluster.thy ===== *)
theory Cluster
imports Network
begin

text \<open>
  The deployed system: a gateway whose remote clients talk over the network of \<open>Network\<close> to a
  master service and to a store node with an SSD, which may restart and lose its memory whenever
  the vendor is being asked. The whole is a cache in the sense of \<open>cache_backend\<close>, an exact one
  when answers are not lost and saves succeed.
\<close>

section \<open>The map behind the cluster\<close>

text \<open>
  The contents are what the SSD holds for the committed objects; the node's memory is a cache
  of it that answers the same bytes or says that it has none.
\<close>

fun on_ssd :: "'m site \<Rightarrow> ssd_store \<Rightarrow> ('m, 'x) cluster_scheme \<Rightarrow> object_key \<Rightarrow> bytes option" where
  "on_ssd site ssd w (t, k) =
     (case read_object (cs_cipher site) None (tenant_as_str t) (key_as_str k) ssd (sm_disk (cl_machine w)) of
        Inl _ \<Rightarrow> None | Inr bs \<Rightarrow> Some bs)"

definition cluster_contents :: "'m site \<Rightarrow> ssd_store \<Rightarrow> ('m, 'x) cluster_scheme \<Rightarrow> object_key \<rightharpoonup> bytes" where
  "cluster_contents site ssd w key =
     (case hm_get (objects (mr_master (cl_run w))) key of
        None \<Rightarrow> None
      | Some obj \<Rightarrow> if obj_status obj = Committed then on_ssd site ssd w key else None)"

definition held ::
  "'m site \<Rightarrow> ssd_store \<Rightarrow> ('m, 'x) cluster_scheme \<Rightarrow> object_key \<Rightarrow> replica_descriptor \<Rightarrow> bytes \<Rightarrow> bool" where
  "held site ssd w key r bs \<longleftrightarrow>
     on_ssd site ssd w key = Some bs \<and> chunk_fits (replica_handle r) (sn_dram (sm_node (cl_machine w)))
     \<and> length bs = unat (rep_len r)
     \<and> (case read_chunk (cs_sha256 site) (replica_handle r) (sn_dram (sm_node (cl_machine w))) of
          Inl e \<Rightarrow> absent_from_dram e | Inr bs' \<Rightarrow> bs' = bs)"

definition node_inv :: "ssd_store \<Rightarrow> usize \<Rightarrow> store_node_state \<Rightarrow> bool" where
  "node_inv ssd dram_capacity n \<longleftrightarrow>
     sn_ssd n = Some ssd \<and> memory_inv (sn_dram n) \<and> length (arena (sn_dram n)) = unat dram_capacity"

definition cluster_inv :: "'m site \<Rightarrow> ssd_store \<Rightarrow> usize \<Rightarrow> ('m, 'x) cluster_scheme \<Rightarrow> bool" where
  "cluster_inv site ssd dram_capacity w \<longleftrightarrow>
     cache_master (mr_master (cl_run w)) \<and> node_inv ssd dram_capacity (sm_node (cl_machine w))
     \<and> (\<forall>key obj. hm_get (objects (mr_master (cl_run w))) key = Some obj \<longrightarrow> obj_status obj = Committed \<longrightarrow>
          (\<exists>r rs bs. obj_replicas obj = r # rs \<and> held site ssd w key r bs))"

definition cluster_pending :: "('m, 'x) cluster_scheme \<Rightarrow> object_key \<Rightarrow> replica_descriptor \<Rightarrow> bool" where
  "cluster_pending w key r \<longleftrightarrow>
     (\<exists>obj. hm_get (objects (mr_master (cl_run w))) key = Some obj \<and> obj_status obj = Reserving \<and> obj_replicas obj = [r])"

definition cluster_filled ::
  "'m site \<Rightarrow> ssd_store \<Rightarrow> ('m, 'x) cluster_scheme \<Rightarrow> object_key \<Rightarrow> replica_descriptor \<Rightarrow> bytes \<Rightarrow> bool" where
  "cluster_filled site ssd w key r bs \<longleftrightarrow> cluster_pending w key r \<and> held site ssd w key r bs"

text \<open>
  What may happen beside the gateway's own calls, while it waits for the vendor: the master and
  the machine stay as they are, or the node's process restarts, with all of its memory lost.
\<close>

definition node_restarts :: "ssd_store \<Rightarrow> usize \<Rightarrow> store_machine \<Rightarrow> store_machine \<Rightarrow> bool" where
  "node_restarts ssd dram_capacity m m' \<longleftrightarrow>
     (\<exists>env ssd_capacity n. node_with_ssd env dram_capacity (ssd_root ssd) ssd_capacity (ssd_key ssd) = Inr n
        \<and> m' = m\<lparr>sm_node := n\<rparr>)"

definition cluster_keeps :: "ssd_store \<Rightarrow> usize \<Rightarrow> ('m, 'x) cluster_scheme \<Rightarrow> ('m, 'x) cluster_scheme \<Rightarrow> bool" where
  "cluster_keeps ssd dram_capacity w w' \<longleftrightarrow>
     mr_master (cl_run w') = mr_master (cl_run w)
     \<and> (cl_machine w' = cl_machine w \<or> node_restarts ssd dram_capacity (cl_machine w) (cl_machine w'))"

text \<open>A change that keeps what is held for the first replicas of all objects but its own.\<close>

definition holds_kept ::
  "'m site \<Rightarrow> ssd_store \<Rightarrow> object_key option \<Rightarrow> ('m, 'x) cluster_scheme \<Rightarrow> ('m, 'x) cluster_scheme \<Rightarrow> bool" where
  "holds_kept site ssd own w w' \<longleftrightarrow>
     (\<forall>key obj r rs bs. own \<noteq> Some key \<longrightarrow> hm_get (objects (mr_master (cl_run w))) key = Some obj \<longrightarrow>
        obj_replicas obj = r # rs \<longrightarrow> held site ssd w key r bs \<longrightarrow> held site ssd w' key r bs)"

section \<open>Steps of the node\<close>

lemma write_preallocated_arena:
  assumes "memory_inv st" and "length bs \<le> u64_max" and "write_preallocated_chunk sha256 h bs st = (r, st')"
  shows "length (arena st') = length (arena st)"
proof (cases r)
  case (Inl e)
  then show ?thesis using write_preallocated_Inl [OF assms(1,2)] assms(3) by blast
next
  case (Inr u)
  then show ?thesis
    using assms(3) by (auto simp: write_preallocated_Inr [OF assms(1)] arena_fits_put)
qed

text \<open>One write to the node's memory, whatever its outcome.\<close>

lemma dram_written:
  assumes "node_inv ssd c n" and "length bs \<le> u64_max"
    and "write_preallocated_chunk sha256 h bs (sn_dram n) = (r, sn_dram n')" and "sn_ssd n' = sn_ssd n"
  shows "node_inv ssd c n'" and "chunk_fits h' (sn_dram n') \<longleftrightarrow> chunk_fits h' (sn_dram n)"
    and "chunk_disjoint h h' \<Longrightarrow> 0 < unat (ch_len h') \<Longrightarrow>
      read_chunk sha256 h' (sn_dram n') = read_chunk sha256 h' (sn_dram n)"
    and "r = Inr u \<Longrightarrow> read_chunk sha256 h (sn_dram n') = Inr bs"
proof -
  have mem: "memory_inv (sn_dram n)" using assms(1) by (simp add: node_inv_def)
  note len = write_preallocated_arena [OF mem assms(2,3)]
  show "node_inv ssd c n'"
    using assms(1,4) len pre.inv_written [OF mem assms(2,3)] by (simp add: node_inv_def)
  show "chunk_fits h' (sn_dram n') \<longleftrightarrow> chunk_fits h' (sn_dram n)" by (simp add: chunk_fits_def len)
  show "chunk_disjoint h h' \<Longrightarrow> 0 < unat (ch_len h') \<Longrightarrow>
      read_chunk sha256 h' (sn_dram n') = read_chunk sha256 h' (sn_dram n)"
    using pre.read_beside [OF mem assms(2), of h h' sha256] assms(3) by simp
  show "r = Inr u \<Longrightarrow> read_chunk sha256 h (sn_dram n') = Inr bs"
    using pre.read_written [OF mem] assms(3) by blast
qed

lemma node_write_effect:
  assumes "sn_ssd (sm_node m) = Some ssd"
    and "node_write_preallocated sha256 cipher env h bs (Some t) (Some k) m = (r, m')"
  obtains dres where "write_preallocated_chunk sha256 h bs (sn_dram (sm_node m)) = (dres, sn_dram (sm_node m'))"
    and "sn_ssd (sm_node m') = sn_ssd (sm_node m)"
    and "\<And>t' k' err. (t', k') \<noteq> (t, k) \<Longrightarrow>
      read_object cipher err t' k' ssd (sm_disk m') = read_object cipher err t' k' ssd (sm_disk m)"
    and "r = Inr () \<Longrightarrow> dres = Inr () \<and> persist_object cipher env t k bs ssd (sm_disk m) = (Inr (), sm_disk m')"
proof -
  obtain dres where dres: "write_preallocated_chunk sha256 h bs (sn_dram (sm_node m)) = (dres, sn_dram (sm_node m'))"
    and fine: "r = Inr () \<Longrightarrow> dres = Inr () \<and> persist_object cipher env t k bs ssd (sm_disk m) = (Inr (), sm_disk m')"
    using assms
    by (auto simp: node_write_preallocated_def record_ssd_object_def Let_def split: prod.splits sum.splits)
  have "read_object cipher err t' k' ssd (sm_disk m') = read_object cipher err t' k' ssd (sm_disk m)"
    if "(t', k') \<noteq> (t, k)" for t' k' err
    using node_write_disk [OF assms(2)] assms(1) by (auto dest: persist_object_other [OF _ that])
  then show thesis by (rule that [OF dres node_write_ssd [OF assms(2)] _ fine])
qed

section \<open>What the map depends on\<close>

lemma held_machine:
  assumes "cl_machine w' = cl_machine w"
  shows "on_ssd site ssd w' key = on_ssd site ssd w key" and "held site ssd w' key r bs = held site ssd w key r bs"
  by (cases key; simp add: held_def assms)+

lemma holds_kept_machine: "cl_machine w' = cl_machine w \<Longrightarrow> holds_kept site ssd own w w'"
  unfolding holds_kept_def using held_machine(2) by blast

lemma cluster_master_changed:
  assumes "cluster_inv site ssd c w" and "cl_machine w' = cl_machine w" and "cache_master (mr_master (cl_run w'))"
    and "\<And>key obj. hm_get (objects (mr_master (cl_run w'))) key = Some obj \<Longrightarrow> obj_status obj = Committed \<Longrightarrow>
      hm_get (objects (mr_master (cl_run w))) key = Some obj
      \<or> (\<exists>r bs. obj_replicas obj = [r] \<and> held site ssd w key r bs)"
  shows "cluster_inv site ssd c w'"
  unfolding cluster_inv_def
proof (intro conjI allI impI)
  fix key obj
  assume "hm_get (objects (mr_master (cl_run w'))) key = Some obj" "obj_status obj = Committed"
  then have "\<exists>r rs bs. obj_replicas obj = r # rs \<and> held site ssd w key r bs"
    using assms(4) [of key obj] assms(1) unfolding cluster_inv_def by metis
  then show "\<exists>r rs bs. obj_replicas obj = r # rs \<and> held site ssd w' key r bs"
    by (simp add: held_machine [OF assms(2)])
qed (use assms in \<open>simp_all add: cluster_inv_def\<close>)

lemma cluster_contents_changed:
  assumes "cl_machine w' = cl_machine w"
    and "hm_get (objects (mr_master (cl_run w'))) key = hm_get (objects (mr_master (cl_run w))) key
      \<or> (\<forall>obj. hm_get (objects (mr_master (cl_run w))) key = Some obj \<longrightarrow> obj_status obj \<noteq> Committed)
        \<and> (\<forall>obj. hm_get (objects (mr_master (cl_run w'))) key = Some obj \<longrightarrow> obj_status obj \<noteq> Committed)"
  shows "cluster_contents site ssd w' key = cluster_contents site ssd w key"
  using assms(2) held_machine(1) [OF assms(1)] by (auto simp: cluster_contents_def split: option.splits)

lemma cluster_same:
  assumes "cl_machine w' = cl_machine w" and "mr_master (cl_run w') = mr_master (cl_run w)"
  shows "cluster_inv site ssd c w' = cluster_inv site ssd c w"
    and "cluster_contents site ssd w' = cluster_contents site ssd w"
  using held_machine [OF assms(1)] assms
  by (auto simp: cluster_inv_def cluster_contents_def fun_eq_iff split: option.splits)

text \<open>A change of the node that keeps what is held for the committed objects.\<close>

lemma cluster_node_changed:
  assumes "cluster_inv site ssd c w" and "mr_master (cl_run w') = mr_master (cl_run w)"
    and "node_inv ssd c (sm_node (cl_machine w'))"
    and "\<And>key obj r rs bs. hm_get (objects (mr_master (cl_run w))) key = Some obj \<Longrightarrow> obj_status obj = Committed \<Longrightarrow>
      obj_replicas obj = r # rs \<Longrightarrow> held site ssd w key r bs \<Longrightarrow> held site ssd w' key r bs"
  shows "cluster_inv site ssd c w'" and "cluster_contents site ssd w' = cluster_contents site ssd w"
proof -
  have hold: "\<exists>r rs bs. obj_replicas obj = r # rs \<and> held site ssd w key r bs \<and> held site ssd w' key r bs"
    if "hm_get (objects (mr_master (cl_run w))) key = Some obj" "obj_status obj = Committed" for key obj
    using assms(1) assms(4) that unfolding cluster_inv_def by meson
  show "cluster_inv site ssd c w'"
    using assms(1-3) hold unfolding cluster_inv_def by metis
  show "cluster_contents site ssd w' = cluster_contents site ssd w"
  proof
    fix key
    have "on_ssd site ssd w' key = on_ssd site ssd w key"
      if "hm_get (objects (mr_master (cl_run w))) key = Some obj" "obj_status obj = Committed" for obj
      using hold [OF that] by (auto simp: held_def)
    then show "cluster_contents site ssd w' key = cluster_contents site ssd w key"
      using assms(2) by (auto simp: cluster_contents_def split: option.splits)
  qed
qed


section \<open>The laws\<close>

lemma held_distinct:
  assumes "cluster_inv site ssd c w"
    and "hm_get (objects (mr_master (cl_run w))) key1 = Some obj1" and "r1 \<in> set (obj_replicas obj1)"
    and "hm_get (objects (mr_master (cl_run w))) key2 = Some obj2" and "r2 \<in> set (obj_replicas obj2)"
    and "key1 \<noteq> key2"
  shows "chunk_disjoint (replica_handle r1) (replica_handle r2)" and "0 < unat (ch_len (replica_handle r2))"
proof -
  have ok: "cache_master (mr_master (cl_run w))" using assms(1) by (simp add: cluster_inv_def)
  show "chunk_disjoint (replica_handle r1) (replica_handle r2)"
    using cache_chunks_disjoint [OF ok assms(2,4,6,3,5)] .
  have "object_ok key2 obj2" using ok assms(4) by (auto simp: cache_master_def master_inv_def)
  then show "0 < unat (ch_len (replica_handle r2))"
    using assms(5) by (auto simp: object_ok_def replica_handle_def)
qed

text \<open>Promotion into memory changes nothing of what is held.\<close>

lemma held_promoted:
  assumes "cluster_inv site ssd c w" and "hm_get (objects (mr_master (cl_run w))) (t, k) = Some obj"
    and "obj_replicas obj = r # rs" and "held site ssd w (t, k) r bs"
    and "write_preallocated_chunk (cs_sha256 site) (replica_handle r) bs (sn_dram (sm_node (cl_machine w))) = (Inr (), dram')"
    and "cl_machine w' = (cl_machine w)\<lparr>sm_node := (sm_node (cl_machine w))\<lparr>sn_dram := dram'\<rparr>\<rparr>"
    and "mr_master (cl_run w') = mr_master (cl_run w)"
  shows "cluster_inv site ssd c w' \<and> cluster_contents site ssd w' = cluster_contents site ssd w
    \<and> holds_kept site ssd None w w'"
proof -
  let ?n = "sm_node (cl_machine w)" and ?n' = "sm_node (cl_machine w')" and ?h = "replica_handle r"
  have node: "node_inv ssd c ?n" using assms(1) by (simp add: cluster_inv_def)
  have small: "length bs \<le> u64_max"
    using assms(4) unat_less_u64 [of "rep_len r"] by (simp add: held_def)
  have "write_preallocated_chunk (cs_sha256 site) ?h bs (sn_dram ?n) = (Inr (), sn_dram ?n')" "sn_ssd ?n' = sn_ssd ?n"
    using assms(5,6) by simp_all
  note wrote = dram_written [OF node small this]
  have "held site ssd w' key r' bs'"
    if "hm_get (objects (mr_master (cl_run w))) key = Some obj'" "obj_replicas obj' = r' # rs'"
      and "held site ssd w key r' bs'" for key obj' r' rs' bs'
  proof (cases "key = (t, k)")
    case True
    then have "r' = r" "bs' = bs" using that assms(2-4) by (auto simp: held_def)
    then show ?thesis using assms(4,6) wrote(2,4) True by (simp add: held_def)
  next
    case False
    then have "chunk_disjoint ?h (replica_handle r')" "0 < unat (ch_len (replica_handle r'))"
      using held_distinct [OF assms(1,2) _ that(1)] that(2) assms(3) by auto
    then show ?thesis using that(3) assms(6) wrote(2,3) by (cases key) (simp add: held_def)
  qed
  then show ?thesis using cluster_node_changed [OF assms(1,7) wrote(1)] unfolding holds_kept_def by blast
qed

text \<open>
  A read of a committed object answers its bytes, from memory or, after a restart, from the SSD;
  it can fail only when the file cannot be read.
\<close>

lemma held_read:
  assumes "cluster_inv site ssd c w" and "hm_get (objects (mr_master (cl_run w))) (t, k) = Some obj"
    and "obj_replicas obj = r # rs" and "held site ssd w (t, k) r bs"
    and "node_read_chunk (cs_sha256 site) (cs_cipher site) err (replica_handle r)
      (Some (tenant_as_str t)) (Some (key_as_str k)) (cl_machine w) = (result, m)"
  shows "err = None \<Longrightarrow> \<exists>resp. result = Inr resp" and "result = Inr resp \<Longrightarrow> rrs_data resp = bs"
    and "cl_machine w' = m \<Longrightarrow> mr_master (cl_run w') = mr_master (cl_run w) \<Longrightarrow>
      cluster_inv site ssd c w' \<and> cluster_contents site ssd w' = cluster_contents site ssd w
      \<and> holds_kept site ssd None w w'"
proof -
  let ?m = "cl_machine w" and ?h = "replica_handle r"
  let ?dram = "sn_dram (sm_node ?m)"
  have node: "memory_inv ?dram" "sn_ssd (sm_node ?m) = Some ssd" using assms(1) by (simp_all add: cluster_inv_def node_inv_def)
  have disk: "read_object (cs_cipher site) None (tenant_as_str t) (key_as_str k) ssd (sm_disk ?m) = Inr bs"
    and fits: "chunk_fits ?h ?dram" "length bs = unat (ch_len ?h)"
    using assms(4) by (auto simp: held_def replica_handle_def split: sum.splits)
  have failed: "\<exists>e'. read_object (cs_cipher site) (Some e) (tenant_as_str t) (key_as_str k) ssd (sm_disk ?m) = Inl e'" for e
    by (simp add: read_object_def split: sum.splits)
  have "(err = None \<longrightarrow> (\<exists>resp. result = Inr resp)) \<and> (\<forall>resp. result = Inr resp \<longrightarrow> rrs_data resp = bs)
    \<and> (m = ?m \<or> (\<exists>dram'. write_preallocated_chunk (cs_sha256 site) ?h bs ?dram = (Inr (), dram')
         \<and> m = ?m\<lparr>sm_node := (sm_node ?m)\<lparr>sn_dram := dram'\<rparr>\<rparr>))"
  proof (cases "read_chunk (cs_sha256 site) ?h ?dram")
    case (Inr bs')
    then have "bs' = bs" using assms(4) by (simp add: held_def)
    then show ?thesis using Inr assms(5) by (auto simp: node_read_chunk_def)
  next
    case (Inl e)
    then have absent: "absent_from_dram e" using assms(4) by (simp add: held_def)
    obtain dram' where put: "write_preallocated_chunk (cs_sha256 site) ?h bs ?dram = (Inr (), dram')"
      using write_preallocated_Inr [OF node(1), of "cs_sha256 site" ?h bs "()"] fits by blast
    note read = Inl absent node(2) put assms(5)
    show ?thesis
    proof (cases err)
      case None
      then show ?thesis
        using read disk by (auto simp: node_read_chunk_def can_promote_from_ssd_def promote_to_dram_def)
    next
      case (Some e')
      obtain e'' where "read_object (cs_cipher site) (Some e') (tenant_as_str t) (key_as_str k) ssd (sm_disk ?m) = Inl e''"
        using failed by blast
      then show ?thesis
        using read Some by (auto simp: node_read_chunk_def can_promote_from_ssd_def promote_to_dram_def)
    qed
  qed
  then show "err = None \<Longrightarrow> \<exists>resp. result = Inr resp" and "result = Inr resp \<Longrightarrow> rrs_data resp = bs"
    and "cl_machine w' = m \<Longrightarrow> mr_master (cl_run w') = mr_master (cl_run w) \<Longrightarrow>
      cluster_inv site ssd c w' \<and> cluster_contents site ssd w' = cluster_contents site ssd w
      \<and> holds_kept site ssd None w w'"
    using held_promoted [OF assms(1-4)] cluster_same [of w' w] holds_kept_machine [of w' w] assms(1) by blast+
qed

lemma pending_written:
  assumes "site_ok exact site" and "cluster_inv site ssd c w" and "cluster_pending w (t, k) r" and "length bs \<le> u64_max"
    and "node_write_preallocated (cs_sha256 site) (cs_cipher site) (ce_io (cs_oracle site n)) (replica_handle r) bs
      (Some (tenant_as_str t)) (Some (key_as_str k)) (cl_machine w) = (res, cl_machine w')"
    and "cl_run w' = cl_run w"
  shows "cluster_inv site ssd c w'" and "cluster_contents site ssd w' = cluster_contents site ssd w"
    and "holds_kept site ssd (Some (t, k)) w w'" and "res = Inr () \<Longrightarrow> held site ssd w' (t, k) r bs"
proof -
  let ?h = "replica_handle r" and ?n = "sm_node (cl_machine w)" and ?n' = "sm_node (cl_machine w')"
  have node: "node_inv ssd c ?n" using assms(2) by (simp add: cluster_inv_def)
  then have "sn_ssd ?n = Some ssd" by (simp add: node_inv_def)
  then obtain dres where dres: "write_preallocated_chunk (cs_sha256 site) ?h bs (sn_dram ?n) = (dres, sn_dram ?n')"
    and ssd: "sn_ssd ?n' = sn_ssd ?n"
    and other: "\<And>t' k' err. (t', k') \<noteq> (tenant_as_str t, key_as_str k) \<Longrightarrow>
      read_object (cs_cipher site) err t' k' ssd (sm_disk (cl_machine w')) =
      read_object (cs_cipher site) err t' k' ssd (sm_disk (cl_machine w))"
    and fine: "res = Inr () \<Longrightarrow> dres = Inr () \<and> persist_object (cs_cipher site) (ce_io (cs_oracle site n))
      (tenant_as_str t) (key_as_str k) bs ssd (sm_disk (cl_machine w)) = (Inr (), sm_disk (cl_machine w'))"
    by (rule node_write_effect [OF _ assms(5)]) blast
  note wrote = dram_written [OF node assms(4) dres ssd]
  obtain obj where obj: "hm_get (objects (mr_master (cl_run w))) (t, k) = Some obj" "obj_status obj = Reserving"
    "obj_replicas obj = [r]"
    using assms(3) by (auto simp: cluster_pending_def)
  have keep: "held site ssd w' key r' bs'"
    if "hm_get (objects (mr_master (cl_run w))) key = Some obj'" "key \<noteq> (t, k)"
      "obj_replicas obj' = r' # rs'" "held site ssd w key r' bs'" for key obj' r' rs' bs'
  proof -
    from that(2) have disjoint: "chunk_disjoint ?h (replica_handle r')" "0 < unat (ch_len (replica_handle r'))"
      using held_distinct [OF assms(2) obj(1) _ that(1)] that(3) obj(3) by auto
    obtain t' k' where key: "key = (t', k')" by (cases key)
    with that(2) have "(tenant_as_str t', key_as_str k') \<noteq> (tenant_as_str t, key_as_str k)"
      by (cases t; cases k; cases t'; cases k') auto
    note ssd = other [OF this]
    show ?thesis using that(4) wrote(2) wrote(3) [OF disjoint] ssd by (simp add: held_def key)
  qed
  have apart: "key \<noteq> (t, k)" if "hm_get (objects (mr_master (cl_run w))) key = Some obj'" "obj_status obj' = Committed" for key obj'
    using obj that by auto
  have same: "mr_master (cl_run w') = mr_master (cl_run w)" using assms(6) by simp
  show "cluster_inv site ssd c w'" by (rule cluster_node_changed(1) [OF assms(2) same wrote(1)]) (rule keep; blast dest: apart)
  show "cluster_contents site ssd w' = cluster_contents site ssd w"
    by (rule cluster_node_changed(2) [OF assms(2) same wrote(1)]) (rule keep; blast dest: apart)
  show "holds_kept site ssd (Some (t, k)) w w'" using keep unfolding holds_kept_def by blast
  assume "res = Inr ()"
  then have d: "dres = Inr ()" and p: "persist_object (cs_cipher site) (ce_io (cs_oracle site n))
      (tenant_as_str t) (key_as_str k) bs ssd (sm_disk (cl_machine w)) = (Inr (), sm_disk (cl_machine w'))"
    using fine by blast+
  have "chunk_fits ?h (sn_dram ?n) \<and> length bs = unat (ch_len ?h)"
    using dres d node by (simp add: write_preallocated_Inr node_inv_def)
  moreover have "read_object (cs_cipher site) None (tenant_as_str t) (key_as_str k) ssd (sm_disk (cl_machine w')) = Inr bs"
    using persist_object_read [OF _ _ p] assms(1) by (simp add: site_ok_def)
  ultimately show "held site ssd w' (t, k) r bs"
    using wrote(2) wrote(4) [OF d] by (simp add: held_def replica_handle_def)
qed

text \<open>A restart loses the memory and nothing of the map.\<close>

lemma restart_keeps:
  assumes "cluster_inv site ssd c w" and "mr_master (cl_run w') = mr_master (cl_run w)"
    and "node_restarts ssd c (cl_machine w) (cl_machine w')"
  shows "cluster_inv site ssd c w' \<and> cluster_contents site ssd w' = cluster_contents site ssd w
    \<and> (\<forall>key r bs. held site ssd w key r bs \<longrightarrow> held site ssd w' key r bs)"
proof -
  obtain env ssd_capacity n where n: "node_with_ssd env c (ssd_root ssd) ssd_capacity (ssd_key ssd) = Inr n"
    and m: "cl_machine w' = (cl_machine w)\<lparr>sm_node := n\<rparr>"
    using assms(3) by (auto simp: node_restarts_def)
  have dram: "sn_ssd n = Some ssd" "sn_dram n = memory_with_capacity c" using node_with_ssd_Inr [OF n] by simp_all
  then have inv: "node_inv ssd c (sm_node (cl_machine w'))"
    using memory_inv_with_capacity by (simp add: node_inv_def m memory_with_capacity_def)
  have miss: "read_chunk sha256 h (memory_with_capacity c) = Inl (invalid_handle h)" for sha256 h
    by (simp add: read_chunk_def validate_allocated_handle_def memory_with_capacity_def)
  have "length (arena (sn_dram (sm_node (cl_machine w)))) = length (arena (memory_with_capacity c))"
    using assms(1) by (simp add: cluster_inv_def node_inv_def memory_with_capacity_def)
  then have "held site ssd w key r bs \<Longrightarrow> held site ssd w' key r bs" for key r bs
    by (cases key) (simp add: held_def m dram miss invalid_handle_def chunk_fits_def)
  then show ?thesis using cluster_node_changed [OF assms(1,2) inv] by blast
qed


section \<open>The cluster is a cache\<close>

abbreviation site_inv :: "bool \<Rightarrow> 'm site \<Rightarrow> ssd_store \<Rightarrow> usize \<Rightarrow> ('m, 'x) cluster_scheme \<Rightarrow> bool" where
  "site_inv exact site ssd c w \<equiv> site_ok exact site \<and> cluster_inv site ssd c w"

text \<open>A committed object, with the replica that holds its bytes.\<close>

lemma cluster_committed:
  assumes "cluster_inv site ssd c w" and "hm_get (objects (mr_master (cl_run w))) (t, k) = Some obj"
    and "obj_status obj = Committed"
  obtains r rs bs where "obj_replicas obj = r # rs" and "held site ssd w (t, k) r bs"
    and "cluster_contents site ssd w (t, k) = Some bs"
proof -
  obtain r rs bs where "obj_replicas obj = r # rs" "held site ssd w (t, k) r bs"
    using assms unfolding cluster_inv_def by blast
  then show thesis using that assms(2,3) by (auto simp: cluster_contents_def held_def)
qed

lemma cluster_lookup:
  assumes "site_inv exact site ssd c w" and "url_key (t, k)"
    and "mc_get_replica_list (cluster_master site) t k w = (found, w')"
  shows "site_inv exact site ssd c w' \<and> cluster_contents site ssd w' = cluster_contents site ssd w"
    and "found = Inr rl \<Longrightarrow> \<exists>obj. hm_get (objects (mr_master (cl_run w'))) (t, k) = Some obj \<and> obj_status obj = Committed
      \<and> rl_replicas rl = obj_replicas obj"
    and "exact \<Longrightarrow> cluster_contents site ssd w (t, k) = Some bs \<Longrightarrow> \<exists>rl. found = Inr rl"
proof -
  let ?m = "mr_master (cl_run w)"
  have ok: "site_ok exact site" "cluster_inv site ssd c w" "cache_master ?m" using assms(1) by (simp_all add: cluster_inv_def)
  obtain r m' where get: "get_replica_list (ce_now (cs_oracle site (cl_tick w))) t k ?m = (r, m')" by fastforce
  note looked = cluster_looked_up [OF ok(1) assms(2,3) get]
  have m': "objects m' = objects ?m \<and> cache_master m' \<and> (\<forall>rl. r = Inr rl \<longrightarrow>
      (\<exists>obj. hm_get (objects ?m) (t, k) = Some obj \<and> obj_status obj = Committed \<and> rl_replicas rl = obj_replicas obj))"
  proof (cases "\<exists>obj. hm_get (objects ?m) (t, k) = Some obj \<and> obj_status obj = Committed")
    case True
    then obtain obj where obj: "hm_get (objects ?m) (t, k) = Some obj" "obj_status obj = Committed" by blast
    show ?thesis
      by (rule cache_get_present [OF ok(3) obj, where now = "ce_now (cs_oracle site (cl_tick w))"]) (use get obj in auto)
  next
    case False
    then show ?thesis using cache_get_absent [of ?m t k] get ok(3) by auto
  qed
  have same: "objects (mr_master (cl_run w')) = objects ?m" "cache_master (mr_master (cl_run w'))"
    using looked(1) m' ok(3) by auto
  have "cluster_inv site ssd c w'"
    by (rule cluster_master_changed [OF ok(2) conjunct1 [OF looked(1)] same(2)]) (simp add: same(1))
  moreover have "cluster_contents site ssd w' = cluster_contents site ssd w"
    by (intro ext cluster_contents_changed [OF conjunct1 [OF looked(1)]]) (simp add: same(1))
  ultimately show "site_inv exact site ssd c w' \<and> cluster_contents site ssd w' = cluster_contents site ssd w"
    using ok(1) by blast
  show "found = Inr rl \<Longrightarrow> \<exists>obj. hm_get (objects (mr_master (cl_run w'))) (t, k) = Some obj \<and> obj_status obj = Committed
      \<and> rl_replicas rl = obj_replicas obj"
    using looked(2) m' same(1) by simp
  assume exact "cluster_contents site ssd w (t, k) = Some bs"
  then have "\<exists>obj. hm_get (objects ?m) (t, k) = Some obj \<and> obj_status obj = Committed"
    by (auto simp: cluster_contents_def split: option.splits if_splits)
  then obtain obj where obj: "hm_get (objects ?m) (t, k) = Some obj" "obj_status obj = Committed" by blast
  have "\<exists>rl. r = Inr rl"
    by (rule cache_get_present [OF ok(3) obj, where now = "ce_now (cs_oracle site (cl_tick w))"]) (use get in auto)
  then show "\<exists>rl. found = Inr rl" using looked(3) \<open>exact\<close> by auto
qed

lemma cluster_chunk_read:
  assumes "site_inv exact site ssd c w" and "url_key (t, k)"
    and "mc_get_replica_list (cluster_master site) t k w = (Inr rl, w')" and "rl_replicas rl = r # rs"
    and "sc_read_chunk (cluster_store site node_id) t k (replica_handle r) w' = (got, w'')"
  shows "site_inv exact site ssd c w'' \<and> cluster_contents site ssd w'' = cluster_contents site ssd w"
    and "got = Inr chunk \<Longrightarrow> cluster_contents site ssd w (t, k) = Some (sch_bytes chunk)"
    and "exact \<Longrightarrow> \<exists>tier bs. got = Inr \<lparr>sch_bytes = bs, sch_tier = tier\<rparr>"
proof -
  note found = cluster_lookup [OF assms(1-3)]
  have ok: "site_ok exact site" "cluster_inv site ssd c w'" using found(1) by simp_all
  obtain obj where obj: "hm_get (objects (mr_master (cl_run w'))) (t, k) = Some obj" "obj_status obj = Committed"
    "obj_replicas obj = r # rs"
    using found(2) assms(4) by auto
  obtain bs where bs: "held site ssd w' (t, k) r bs" "cluster_contents site ssd w' (t, k) = Some bs"
    by (rule cluster_committed [OF ok(2) obj(1,2)]) (use obj(3) in auto)
  obtain result m where node: "node_read_chunk (cs_sha256 site) (cs_cipher site) (ce_read_error (cs_oracle site (cl_tick w')))
      (replica_handle r) (Some (tenant_as_str t)) (Some (key_as_str k)) (cl_machine w') = (result, m)" by fastforce
  note read = cluster_read [OF ok(1) assms(2) node assms(5)]
  note held = held_read [OF ok(2) obj(1,3) bs(1) node]
  have "cluster_inv site ssd c w'' \<and> cluster_contents site ssd w'' = cluster_contents site ssd w'"
    using read(1) held(3) [of w''] cluster_same [of w'' w'] ok(2) by auto
  then show "site_inv exact site ssd c w'' \<and> cluster_contents site ssd w'' = cluster_contents site ssd w"
    using ok(1) found(1) by simp
  show "got = Inr chunk \<Longrightarrow> cluster_contents site ssd w (t, k) = Some (sch_bytes chunk)"
    using read(2) held(2) bs(2) found(1) by auto
  assume exact
  then have "ce_read_error (cs_oracle site (cl_tick w')) = None" using ok(1) by (simp add: site_ok_def reliable_def)
  then show "\<exists>tier bs. got = Inr \<lparr>sch_bytes = bs, sch_tier = tier\<rparr>" using held(1) read(3) [OF \<open>exact\<close>] by blast
qed

lemma cluster_lookup_present:
  assumes "exact" and "site_inv exact site ssd c w" and "url_key (t, k)" and "cluster_contents site ssd w (t, k) = Some bs"
  shows "\<exists>rl r rs h tier w' w''. mc_get_replica_list (cluster_master site) t k w = (Inr rl, w') \<and> rl_replicas rl = r # rs
    \<and> from_replica r = Inr h
    \<and> sc_read_chunk (cluster_store site node_id) t k h w' = (Inr \<lparr>sch_bytes = bs, sch_tier = tier\<rparr>, w'')"
proof -
  obtain found w' where get: "mc_get_replica_list (cluster_master site) t k w = (found, w')" by fastforce
  note found = cluster_lookup [OF assms(2,3) get]
  obtain rl where rl: "found = Inr rl" using found(3) [OF assms(1,4)] by blast
  obtain obj where obj: "hm_get (objects (mr_master (cl_run w'))) (t, k) = Some obj" "obj_status obj = Committed"
    "rl_replicas rl = obj_replicas obj"
    using found(2) [OF rl] by blast
  have "cluster_inv site ssd c w'" using found(1) by simp
  then obtain r rs where r: "rl_replicas rl = r # rs" by (rule cluster_committed [OF _ obj(1,2)]) (use obj(3) in auto)
  obtain got w'' where read: "sc_read_chunk (cluster_store site node_id) t k (replica_handle r) w' = (got, w'')" by fastforce
  note chunk = cluster_chunk_read [OF assms(2,3) get [unfolded rl] r read]
  obtain tier bs' where "got = Inr \<lparr>sch_bytes = bs', sch_tier = tier\<rparr>" using chunk(3) [OF assms(1)] by blast
  moreover from this have "bs' = bs" using chunk(2) assms(4) by simp
  ultimately show ?thesis using get rl r read by (auto simp: from_replica_handle)
qed

lemma cluster_start_outcome:
  assumes "site_inv exact site ssd c w" and "url_key (t, k)"
    and "mc_put_start (cluster_master site) t k len replica_count w = (res, w')"
  shows "site_inv exact site ssd c w'" and "cluster_contents site ssd w' = cluster_contents site ssd w"
    and "res = Inr rs \<Longrightarrow> \<exists>r. rs = [r] \<and> cluster_contents site ssd w (t, k) = None \<and> cluster_pending w' (t, k) r"
proof -
  let ?m = "mr_master (cl_run w)" and ?m' = "mr_master (cl_run w')"
  have ok: "site_ok exact site" "cluster_inv site ssd c w" "cache_master ?m" using assms(1) by (simp_all add: cluster_inv_def)
  have granted: "cluster_inv site ssd c w' \<and> cluster_contents site ssd w' = cluster_contents site ssd w
      \<and> (\<exists>r. rs = [r] \<and> cluster_contents site ssd w (t, k) = None \<and> cluster_pending w' (t, k) r)"
    if run: "put_start t k len replica_count ?m = (Inr rs, ?m')" and machine: "cl_machine w' = cl_machine w" for rs
  proof -
    obtain r obj where r: "rs = [r]" "hm_get (objects ?m) (t, k) = None" "cache_master ?m'"
      "obj_status obj = Reserving" "obj_replicas obj = [r]"
      and get: "\<And>key. hm_get (objects ?m') key = (if key = (t, k) then Some obj else hm_get (objects ?m) key)"
      using cache_start_granted [OF ok(3) run] by blast
    have "cluster_inv site ssd c w'"
      using r(4) by (auto intro!: cluster_master_changed [OF ok(2) machine r(3)] simp: get split: if_splits)
    moreover have "cluster_contents site ssd w' = cluster_contents site ssd w"
      using r by (intro ext cluster_contents_changed [OF machine]) (auto simp: get)
    ultimately show ?thesis using r by (auto simp: cluster_contents_def cluster_pending_def get)
  qed
  have "cluster_inv site ssd c w' \<and> cluster_contents site ssd w' = cluster_contents site ssd w \<and> (\<forall>rs. res = Inr rs \<longrightarrow>
      (\<exists>r. rs = [r] \<and> cluster_contents site ssd w (t, k) = None \<and> cluster_pending w' (t, k) r))"
    by (rule cluster_start [OF ok(1) assms(2,3)])
       (use ok cluster_same [of w' w] cache_start_refused [OF ok(3)] granted in auto)
  then show "site_inv exact site ssd c w'" and "cluster_contents site ssd w' = cluster_contents site ssd w"
    and "res = Inr rs \<Longrightarrow> \<exists>r. rs = [r] \<and> cluster_contents site ssd w (t, k) = None \<and> cluster_pending w' (t, k) r"
    using ok(1) by blast+
qed

lemma cluster_write_outcome:
  assumes "site_inv exact site ssd c w" and "cluster_pending w (t, k) r" and "length bs \<le> u64_max"
    and "sc_write_preallocated_chunk (cluster_store site node_id) n t k (replica_handle r) bs w = (res, w')"
  shows "site_inv exact site ssd c w' \<and> cluster_contents site ssd w' = cluster_contents site ssd w
    \<and> cluster_pending w' (t, k) r \<and> (res = Inr () \<longrightarrow> cluster_filled site ssd w' (t, k) r bs)"
proof -
  have ok: "site_ok exact site" "cluster_inv site ssd c w" using assms(1) by simp_all
  show ?thesis
  proof (rule cluster_write [OF ok(1) assms(4)])
    fix e
    assume "res = Inl e" and "cl_run w' = cl_run w" and machine: "cl_machine w' = cl_machine w"
    then show ?thesis
      using cluster_same [OF machine] assms(1,2) by (simp add: cluster_pending_def)
  next
    fix r'
    assume run: "node_write_preallocated (cs_sha256 site) (cs_cipher site) (ce_io (cs_oracle site (cl_tick w)))
        (replica_handle r) bs (Some (tenant_as_str t)) (Some (key_as_str k)) (cl_machine w) = (r', cl_machine w')"
      and fine: "res = Inr () \<Longrightarrow> r' = Inr ()" and same: "cl_run w' = cl_run w"
    have "cluster_pending w' (t, k) r" using assms(2) same by (simp add: cluster_pending_def)
    then show ?thesis
      using pending_written [OF ok assms(2,3) run same] ok(1) fine by (auto simp: cluster_filled_def)
  qed
qed

text \<open>A commit of a filled object, whether the caller learns of it or not.\<close>

lemma cluster_put_end:
  assumes "cluster_inv site ssd c w" and "cluster_filled site ssd w (t, k) r bs"
    and "put_end t k (mr_master (cl_run w)) = (Inr u, mr_master (cl_run w'))" and machine: "cl_machine w' = cl_machine w"
  shows "cluster_inv site ssd c w' \<and> cluster_contents site ssd w' = (cluster_contents site ssd w)((t, k) \<mapsto> bs)"
proof -
  let ?m = "mr_master (cl_run w)"
  have ok: "cache_master ?m" using assms(1) by (simp_all add: cluster_inv_def)
  obtain obj where obj: "hm_get (objects ?m) (t, k) = Some obj" "obj_replicas obj = [r]"
    and held: "held site ssd w (t, k) r bs"
    using assms(2) by (auto simp: cluster_filled_def cluster_pending_def)
  note m' = cache_committed [OF ok obj(1) assms(3)]
  have "cluster_inv site ssd c w'"
    using obj(2) held by (auto intro!: cluster_master_changed [OF assms(1) machine m'(1)] simp: m'(2) split: if_splits)
  moreover have "cluster_contents site ssd w' key = ((cluster_contents site ssd w)((t, k) \<mapsto> bs)) key" for key
  proof (cases "key = (t, k)")
    case True
    then show ?thesis using held held_machine(1) [OF machine]
      by (simp add: cluster_contents_def m'(2) held_def del: on_ssd.simps)
  next
    case False
    then show ?thesis using cluster_contents_changed [OF machine, of key] by (simp add: m'(2))
  qed
  ultimately show ?thesis by blast
qed

lemma cluster_end_outcome:
  assumes "site_inv exact site ssd c w" and "url_key (t, k)" and "cluster_filled site ssd w (t, k) r bs"
    and "mc_put_end (cluster_master site) t k w = (res, w')"
  shows "res = Inr u \<Longrightarrow> site_inv exact site ssd c w' \<and> cluster_contents site ssd w' = (cluster_contents site ssd w)((t, k) \<mapsto> bs)"
    and "res = Inl e \<Longrightarrow> site_inv exact site ssd c w' \<and>
      (cluster_contents site ssd w' = cluster_contents site ssd w \<and> cluster_pending w' (t, k) r
       \<or> \<not> exact \<and> cluster_contents site ssd w' = (cluster_contents site ssd w)((t, k) \<mapsto> bs))"
proof -
  have ok: "site_ok exact site" "cluster_inv site ssd c w" and pending: "cluster_pending w (t, k) r"
    using assms(1,3) by (simp_all add: cluster_filled_def)
  have same: "cluster_inv site ssd c w' \<and> cluster_contents site ssd w' = cluster_contents site ssd w \<and> cluster_pending w' (t, k) r"
    if "mr_master (cl_run w') = mr_master (cl_run w)" "cl_machine w' = cl_machine w"
    using cluster_same [OF that(2,1)] ok(2) pending that by (simp add: cluster_pending_def)
  note put = cluster_put_end [OF ok(2) assms(3)]
  from ok(1) assms(2,4) have "cluster_inv site ssd c w' \<and> (case res of
      Inr _ \<Rightarrow> cluster_contents site ssd w' = (cluster_contents site ssd w)((t, k) \<mapsto> bs)
    | Inl _ \<Rightarrow> cluster_contents site ssd w' = cluster_contents site ssd w \<and> cluster_pending w' (t, k) r
       \<or> \<not> exact \<and> cluster_contents site ssd w' = (cluster_contents site ssd w)((t, k) \<mapsto> bs))"
  proof (cases rule: cluster_end)
    case (lost e)
    then show ?thesis using same by simp
  next
    case (refused e e')
    then show ?thesis using same put_end_Inl by simp
  next
    case (unsure e u)
    then show ?thesis using put [OF unsure(2,3)] by simp
  next
    case (changed u)
    then show ?thesis using put [OF changed(2,3)] by simp
  qed
  then show "res = Inr u \<Longrightarrow> site_inv exact site ssd c w' \<and> cluster_contents site ssd w' = (cluster_contents site ssd w)((t, k) \<mapsto> bs)"
    and "res = Inl e \<Longrightarrow> site_inv exact site ssd c w' \<and>
      (cluster_contents site ssd w' = cluster_contents site ssd w \<and> cluster_pending w' (t, k) r
       \<or> \<not> exact \<and> cluster_contents site ssd w' = (cluster_contents site ssd w)((t, k) \<mapsto> bs))"
    using ok(1) by simp_all
qed

text \<open>A revocation takes away what is stored under the key, and nothing else.\<close>

lemma cluster_revoke_outcome:
  assumes "site_inv exact site ssd c w" and "url_key (t, k)" and "mc_put_revoke (cluster_master site) t k w = (res, w')"
    and "hm_get (objects (mr_master (cl_run w))) (t, k) = Some obj"
  shows "site_inv exact site ssd c w'
    \<and> (cluster_contents site ssd w' = cluster_contents site ssd w
       \<or> cluster_contents site ssd w' = (cluster_contents site ssd w)((t, k) := None))"
proof -
  let ?m = "mr_master (cl_run w)" and ?m' = "mr_master (cl_run w')"
  have ok: "site_ok exact site" "cluster_inv site ssd c w" "cache_master ?m" using assms(1) by (simp_all add: cluster_inv_def)
  note call = cluster_revoke [OF ok(1) assms(2,3)]
  show ?thesis
  proof (cases "?m' = ?m")
    case True
    then show ?thesis using cluster_same [OF call(1) True] assms(1) by simp
  next
    case False
    then have run: "put_revoke t k ?m = (fst (put_revoke t k ?m), ?m')" using call(2) by simp
    note m' = cache_revoked [OF ok(3) assms(4) run]
    have "cluster_inv site ssd c w'"
      by (auto intro!: cluster_master_changed [OF ok(2) call(1) m'(1)] simp: m'(2) split: if_splits)
    moreover have "cluster_contents site ssd w' key = ((cluster_contents site ssd w)((t, k) := None)) key" for key
    proof (cases "key = (t, k)")
      case True
      then show ?thesis by (simp add: cluster_contents_def m'(2))
    next
      case False
      then show ?thesis using cluster_contents_changed [OF call(1), of key] by (simp add: m'(2))
    qed
    ultimately show ?thesis using ok(1) by blast
  qed
qed

interpretation cluster: cached_gateway "cluster_master site" "cluster_store site node_id" "site_inv exact site ssd c"
  "cluster_contents site ssd" cluster_pending "cluster_filled site ssd" url_key exact "cluster_keeps ssd c"
  for site node_id exact ssd c
proof (unfold_locales, goal_cases)
  case 1
  then show ?case by (intro cluster_lookup(1))
next
  case (2 w t k rl w' r rs h got w'')
  then have "sc_read_chunk (cluster_store site node_id) t k (replica_handle r) w' = (got, w'')"
    by (simp add: from_replica_handle)
  from cluster_chunk_read(1,2) [OF 2(1-4) this] show ?case by blast
next
  case 3
  then show ?case by (intro cluster_lookup_present)
next
  case 4
  then show ?case using cluster_start_outcome(1,2) by blast
next
  case 5
  then show ?case using cluster_start_outcome [OF 5(1,2,3)] by (auto simp: from_replica_handle)
next
  case 6
  then show ?case using cluster_write_outcome [OF 6(1,3,5)] by (simp add: from_replica_handle)
next
  case 7
  then show ?case using cluster_end_outcome(1) [OF 7(1-4)] by blast
next
  case 8
  then show ?case using cluster_end_outcome(2) [OF 8(1-4)] by blast
next
  case (9 w t k r res w')
  then obtain obj where obj: "hm_get (objects (mr_master (cl_run w))) (t, k) = Some obj" "obj_status obj = Reserving"
    by (auto simp: cluster_pending_def)
  then have "(cluster_contents site ssd w)((t, k) := None) = cluster_contents site ssd w"
    by (simp add: cluster_contents_def fun_upd_idem)
  then show ?case using cluster_revoke_outcome [OF 9(1,2,4) obj(1)] by auto
next
  case (10 w t k bs res w')
  then obtain obj where "hm_get (objects (mr_master (cl_run w))) (t, k) = Some obj" "obj_status obj = Committed"
    by (auto simp: cluster_contents_def split: option.splits if_splits)
  then show ?case using cluster_revoke_outcome [OF 10(2,3,5)] by blast
next
  case (11 w w')
  then show ?case
    using cluster_same [of w' w] restart_keeps [of site ssd c w w'] by (auto simp: cluster_keeps_def)
qed


section \<open>Contract\<close>

text \<open>
  The gateway with its remote clients, the master service and a store node with an SSD together
  are a map from tenant and cache key to bytes, which a request changes in at most one place, its
  own tenant and key, only when its answer says that the write was committed, only when nothing
  was stored there, and then to the serialized answer.
\<close>

lemma cluster_refines:
  assumes "backed (cluster_master site) (cluster_store site node_id) state"
    and "vendor_keeps (cluster_keeps ssd dram_capacity) (gs_vendor state)" and "serde_bounded (env_serde env)"
    and "site_ok exact site" and "cluster_inv site ssd dram_capacity (gw_world s)"
    and "handle_response_request env state auth cc body s = (r, s')"
    and "\<And>tenant control request key s1.
      dispatched env state auth cc body s tenant control request key s1 \<Longrightarrow> url_key (tenant, key)"
  shows "cluster_inv site ssd dram_capacity (gw_world s') \<and>
    (if \<exists>tenant control request key s1. dispatched env state auth cc body s tenant control request key s1
     then \<exists>tenant control request key s1. dispatched env state auth cc body s tenant control request key s1
       \<and> reflected exact (env_serde env) (tenant, key) (cluster_contents site ssd (gw_world s)) r
           (cluster_contents site ssd (gw_world s'))
     else cluster_contents site ssd (gw_world s') = cluster_contents site ssd (gw_world s))"
proof -
  have inv: "site_inv exact site ssd dram_capacity (gw_world s)" using assms(4,5) by simp
  show ?thesis
    using cluster.dispatched_reflected [OF assms(1-3) inv assms(6) _ assms(7)]
      cluster.undispatched_kept [OF assms(2) inv assms(6)] by metis
qed


section \<open>More than one node\<close>

text \<open>
  C35: with several store nodes a gateway serves bytes of other objects. The read path asks the
  first node of its table, whichever node the replica names, and the node's memory answers for
  an offset and a length, whoever wrote there. So when a committed object of one tenant lies on
  another node, and the first node holds a chunk at the same place, the lookup succeeds with
  the bytes of that chunk, which may be another tenant's.
\<close>

theorem first_node_answers_every_read:
  assumes "site_ok True site" and "url_key (t, k)" and "gs_master_client state = cluster_master site"
    and "gs_store_client state = remote_store_ops (cluster_http site) (cs_type_error site)
      \<lparr>rs_node_urls = (node_id, cs_node_url site) # others\<rparr>"
    and "hm_get (objects (mr_master (cl_run (gw_world s)))) (t, k) = Some obj" and "obj_status obj = Committed"
    and "obj_replicas obj = r # rs"
    and "read_chunk (cs_sha256 site) (replica_handle r) (sn_dram (sm_node (cl_machine (gw_world s)))) = Inr bs"
  shows "\<exists>s'. read_cached_bytes state t k s = (Inr (Some \<lparr>sch_bytes = bs, sch_tier = ''dram''\<rparr>), s')"
proof -
  let ?w = "gw_world s"
  obtain rl m' where get: "get_replica_list (ce_now (cs_oracle site (cl_tick ?w))) t k (mr_master (cl_run ?w)) = (Inr rl, m')"
    and rl: "rl_replicas rl = r # rs"
    using assms(5-7) by (auto simp: get_replica_list_def lease_refresh_def Let_def)
  obtain w1 where w1: "mc_get_replica_list (cluster_master site) t k ?w = (map_err GeCache (Inr rl), w1)"
    "cl_machine w1 = cl_machine ?w"
    by (rule cluster_get [OF assms(1,2) get])
  have node: "node_read_chunk (cs_sha256 site) (cs_cipher site) err (replica_handle r) (Some (tenant_as_str t))
      (Some (key_as_str k)) (cl_machine w1) =
    (Inr \<lparr>rrs_offset = ch_offset (replica_handle r), rrs_len = ch_len (replica_handle r), rrs_tier = ''dram'',
       rrs_data = bs\<rparr>, cl_machine w1)" for err
    using assms(8) w1(2) by (simp add: node_read_chunk_def)
  obtain got w2 where read: "sc_read_chunk (cluster_store site node_id) t k (replica_handle r) w1 = (got, w2)" by fastforce
  have "got = Inr \<lparr>sch_bytes = bs, sch_tier = ''dram''\<rparr>"
    using cluster_read(3) [OF assms(1,2) node read TrueI refl] by simp
  with read have "sc_read_chunk (cluster_store site node_id) t k (replica_handle r) w1 =
      (Inr \<lparr>sch_bytes = bs, sch_tier = ''dram''\<rparr>, w2)" by simp
  then have "sc_read_chunk (gs_store_client state) t k (replica_handle r) w1 =
      (Inr \<lparr>sch_bytes = bs, sch_tier = ''dram''\<rparr>, w2)"
    by (simp add: assms(4) cluster_store_def remote_store_ops_def remote_read_chunk_def)
  moreover have "from_replica r = Inr (replica_handle r)" by (simp add: from_replica_handle)
  ultimately show ?thesis
    using w1(1) rl by (simp add: read_cached_bytes_def assms(3) on_world_def try_bind_cases)
qed

end
