(* ===== verification/Admin_Service.thy ===== *)
theory Admin_Service
imports Master Fingerprint
begin

text \<open>
  The crate \<^verbatim>\<open>mooncache-admin-api\<close>: roles and the actions they allow (\<^verbatim>\<open>rbac.rs\<close>), the audit
  log (\<^verbatim>\<open>audit.rs\<close>) and the operations of the admin service (\<^verbatim>\<open>routes.rs\<close>). A mutex is its
  content with the flag that says whether it is poisoned; the clock is an argument.
\<close>

section \<open>Roles\<close>

datatype admin_role = NoAccess | Viewer | Operator | Admin

datatype admin_action =
    ReadMetrics | ReadNodes | ReadAuditLog | DebugCacheFingerprint | DrainNode
  | RemoveCacheObject | WarmupCache | PatchTenantPolicy | PatchVendorPolicy | ManageUsers

fun role_allows :: "admin_role \<Rightarrow> admin_action \<Rightarrow> bool" where
  "role_allows NoAccess action \<longleftrightarrow> False"
| "role_allows Viewer action \<longleftrightarrow>
     action \<in> {ReadMetrics, ReadNodes, ReadAuditLog, DebugCacheFingerprint}"
| "role_allows Operator action \<longleftrightarrow>
     action \<in> {ReadMetrics, ReadNodes, ReadAuditLog, DebugCacheFingerprint,
                DrainNode, RemoveCacheObject, WarmupCache}"
| "role_allows Admin action \<longleftrightarrow> True"

text \<open>The roles in the order of their rights; what a role may do, every higher role may do.\<close>

fun role_rank :: "admin_role \<Rightarrow> nat" where
  "role_rank NoAccess = 0"
| "role_rank Viewer = 1"
| "role_rank Operator = 2"
| "role_rank Admin = 3"

lemma role_rank_inject [simp]: "role_rank r = role_rank r' \<longleftrightarrow> r = r'"
  by (cases r; cases r') simp_all

instantiation admin_role :: linorder
begin

definition less_eq_admin_role :: "admin_role \<Rightarrow> admin_role \<Rightarrow> bool" where
  "r \<le> r' \<longleftrightarrow> role_rank r \<le> role_rank r'"

definition less_admin_role :: "admin_role \<Rightarrow> admin_role \<Rightarrow> bool" where
  "r < r' \<longleftrightarrow> role_rank r < role_rank r'"

instance
  by standard (auto simp: less_eq_admin_role_def less_admin_role_def)

end

lemma role_allows_mono: "r \<le> r' \<Longrightarrow> role_allows r action \<Longrightarrow> role_allows r' action"
  by (cases r; cases r') (auto simp: less_eq_admin_role_def)

text \<open>The derived \<^verbatim>\<open>Debug\<close> of an action prints its constructor.\<close>

fun admin_action_debug :: "admin_action \<Rightarrow> string" where
  "admin_action_debug ReadMetrics = ''ReadMetrics''"
| "admin_action_debug ReadNodes = ''ReadNodes''"
| "admin_action_debug ReadAuditLog = ''ReadAuditLog''"
| "admin_action_debug DebugCacheFingerprint = ''DebugCacheFingerprint''"
| "admin_action_debug DrainNode = ''DrainNode''"
| "admin_action_debug RemoveCacheObject = ''RemoveCacheObject''"
| "admin_action_debug WarmupCache = ''WarmupCache''"
| "admin_action_debug PatchTenantPolicy = ''PatchTenantPolicy''"
| "admin_action_debug PatchVendorPolicy = ''PatchVendorPolicy''"
| "admin_action_debug ManageUsers = ''ManageUsers''"

fun admin_action_label :: "admin_action \<Rightarrow> string" where
  "admin_action_label ReadMetrics = ''read_metrics''"
| "admin_action_label ReadNodes = ''read_nodes''"
| "admin_action_label ReadAuditLog = ''read_audit_log''"
| "admin_action_label DebugCacheFingerprint = ''debug_cache_fingerprint''"
| "admin_action_label DrainNode = ''drain_node''"
| "admin_action_label RemoveCacheObject = ''remove_cache_object''"
| "admin_action_label WarmupCache = ''warmup_cache''"
| "admin_action_label PatchTenantPolicy = ''patch_tenant_policy''"
| "admin_action_label PatchVendorPolicy = ''patch_vendor_policy''"
| "admin_action_label ManageUsers = ''manage_users''"

section \<open>Audit log\<close>

datatype audit_result = AuditSuccess | AuditDenied | AuditFailed string

record audit_event =
  ev_actor :: string
  ev_role :: admin_role
  ev_action :: admin_action
  ev_resource :: string
  ev_tenant_scope :: "string option"
  ev_before_summary :: "string option"
  ev_after_summary :: "string option"
  ev_request_id :: string
  ev_timestamp_ms :: u64
  ev_result :: audit_result

datatype audit_error = AuditUnavailable

fun audit_error_to_string :: "audit_error \<Rightarrow> string" where
  "audit_error_to_string AuditUnavailable = ''audit sink is unavailable''"

record audit_sink =
  sink_events :: "audit_event list"
  sink_poisoned :: bool

definition audit_append :: "audit_event \<Rightarrow> (audit_sink, audit_error, unit) comp" where
  "audit_append event sink =
     (if sink_poisoned sink then (Inl AuditUnavailable, sink)
      else (Inr (), sink\<lparr>sink_events := sink_events sink @ [event]\<rparr>))"

definition audit_list :: "audit_sink \<Rightarrow> audit_error + audit_event list" where
  "audit_list sink = (if sink_poisoned sink then Inl AuditUnavailable else Inr (sink_events sink))"

fun audit_action_result :: "audit_result \<Rightarrow> admin_action_result" where
  "audit_action_result AuditSuccess = ActSuccess"
| "audit_action_result AuditDenied = ActDenied"
| "audit_action_result (AuditFailed m) = ActFailed"

section \<open>State of the service\<close>

record admin_request_context =
  cx_actor :: string
  cx_role :: admin_role
  cx_request_id :: string

record node_view =
  nv_node_id :: string
  nv_draining :: bool

record fingerprint_debug_request =
  fd_tenant_id :: tenant_id
  fd_endpoint_version :: string
  fd_vendor_id :: string
  fd_resolved_model_version :: string
  fd_adapter_version :: string
  fd_cache_policy :: string
  fd_body :: json

datatype admin_service_error =
    AdminForbidden admin_action
  | AdminNotFound string
  | AdminCache cache_error
  | AdminAudit audit_error
  | AdminStateUnavailable

fun admin_service_error_to_string :: "admin_service_error \<Rightarrow> string" where
  "admin_service_error_to_string (AdminForbidden action) =
     ''forbidden: '' @ admin_action_debug action @ '' requires elevated role''"
| "admin_service_error_to_string (AdminNotFound resource) = ''not found: '' @ resource"
| "admin_service_error_to_string (AdminCache e) = cache_error_to_string e"
| "admin_service_error_to_string (AdminAudit e) = audit_error_to_string e"
| "admin_service_error_to_string AdminStateUnavailable = ''admin service state is unavailable''"

record node_state =
  ns_draining :: bool

record admin_service =
  as_nodes :: "(string, node_state) btree_map"
  as_nodes_poisoned :: bool
  as_audit :: audit_sink
  as_metrics :: admin_metrics

record audit_record =
  ar_action :: admin_action
  ar_resource :: string
  ar_tenant_scope :: "string option"
  ar_before_summary :: "string option"
  ar_after_summary :: "string option"
  ar_result :: audit_result

type_synonym 'a admin_run = "(admin_service, admin_service_error, 'a) comp"

definition admin_service_new_for_test :: "string list \<Rightarrow> admin_service" where
  "admin_service_new_for_test node_ids =
     \<lparr>as_nodes = fold (\<lambda>node_id. bt_insert node_id \<lparr>ns_draining = False\<rparr>) node_ids [],
      as_nodes_poisoned = False,
      as_audit = \<lparr>sink_events = [], sink_poisoned = False\<rparr>,
      as_metrics = admin_metrics_default\<rparr>"

section \<open>Operations\<close>

definition record_audit :: "u64 \<Rightarrow> admin_request_context \<Rightarrow> audit_record \<Rightarrow> unit admin_run" where
  "record_audit now context rec s =
     (case audit_append
         \<lparr>ev_actor = cx_actor context, ev_role = cx_role context, ev_action = ar_action rec,
          ev_resource = ar_resource rec, ev_tenant_scope = ar_tenant_scope rec,
          ev_before_summary = ar_before_summary rec, ev_after_summary = ar_after_summary rec,
          ev_request_id = cx_request_id context, ev_timestamp_ms = now, ev_result = ar_result rec\<rparr>
         (as_audit s) of
        (Inl e, sink) \<Rightarrow> (Inl (AdminAudit e), s\<lparr>as_audit := sink\<rparr>)
      | (Inr _, sink) \<Rightarrow>
          (Inr (), s\<lparr>as_audit := sink,
                     as_metrics := record_action (admin_action_label (ar_action rec))
                       (audit_action_result (ar_result rec)) (as_metrics s)\<rparr>))"

definition authorize :: "admin_request_context \<Rightarrow> admin_action \<Rightarrow> admin_service_error + unit" where
  "authorize context action =
     (if role_allows (cx_role context) action then Inr () else Inl (AdminForbidden action))"

definition admin_metrics_snapshot_for ::
  "u64 \<Rightarrow> admin_request_context \<Rightarrow> admin_metrics_snapshot admin_run" where
  "admin_metrics_snapshot_for now context =
     (if \<not> role_allows (cx_role context) ReadMetrics
      then try_bind (record_audit now context
             \<lparr>ar_action = ReadMetrics, ar_resource = ''metrics'', ar_tenant_scope = None,
              ar_before_summary = None, ar_after_summary = None, ar_result = AuditDenied\<rparr>)
             (\<lambda>_ s. (Inl (AdminForbidden ReadMetrics), s))
      else try_bind (record_audit now context
             \<lparr>ar_action = ReadMetrics, ar_resource = ''metrics'', ar_tenant_scope = None,
              ar_before_summary = None, ar_after_summary = Some ''snapshot_returned'',
              ar_result = AuditSuccess\<rparr>)
             (\<lambda>_ s. (Inr (admin_snapshot (as_metrics s)), s)))"

definition list_nodes :: "admin_request_context \<Rightarrow> node_view list admin_run" where
  "list_nodes context s =
     (case authorize context ReadNodes of
        Inl e \<Rightarrow> (Inl e, s)
      | Inr _ \<Rightarrow>
          if as_nodes_poisoned s then (Inl AdminStateUnavailable, s)
          else (Inr (map (\<lambda>(node_id, node). \<lparr>nv_node_id = node_id, nv_draining = ns_draining node\<rparr>)
                       (as_nodes s)), s))"

definition show_bool :: "bool \<Rightarrow> string" where
  "show_bool b = (if b then ''true'' else ''false'')"

definition drain_node :: "u64 \<Rightarrow> admin_request_context \<Rightarrow> string \<Rightarrow> node_view admin_run" where
  "drain_node now context node_id s =
     (let resource = ''node:'' @ node_id
      in if \<not> role_allows (cx_role context) DrainNode
         then try_bind (record_audit now context
                \<lparr>ar_action = DrainNode, ar_resource = resource, ar_tenant_scope = None,
                 ar_before_summary = None, ar_after_summary = None, ar_result = AuditDenied\<rparr>)
                (\<lambda>_ s. (Inl (AdminForbidden DrainNode), s)) s
         else if as_nodes_poisoned s then (Inl AdminStateUnavailable, s)
         else case bt_get (as_nodes s) node_id of
             None \<Rightarrow>
               (let err = AdminNotFound resource
                in try_bind (record_audit now context
                     \<lparr>ar_action = DrainNode, ar_resource = resource, ar_tenant_scope = None,
                      ar_before_summary = None, ar_after_summary = None,
                      ar_result = AuditFailed (admin_service_error_to_string err)\<rparr>)
                     (\<lambda>_ s. (Inl err, s)) s)
           | Some node \<Rightarrow>
               (let before = ''draining='' @ show_bool (ns_draining node);
                    node' = node\<lparr>ns_draining := True\<rparr>;
                    after = ''draining='' @ show_bool (ns_draining node');
                    view = \<lparr>nv_node_id = node_id, nv_draining = ns_draining node'\<rparr>
                in try_bind (record_audit now context
                     \<lparr>ar_action = DrainNode, ar_resource = resource, ar_tenant_scope = None,
                      ar_before_summary = Some before, ar_after_summary = Some after,
                      ar_result = AuditSuccess\<rparr>)
                     (\<lambda>_ s. (Inr view, s)) (s\<lparr>as_nodes := bt_insert node_id node' (as_nodes s)\<rparr>)))"

definition fingerprint_debug_summary :: "fingerprint_debug_request \<Rightarrow> string" where
  "fingerprint_debug_summary request =
     ''endpoint_version='' @ fd_endpoint_version request
     @ '' vendor_id='' @ fd_vendor_id request
     @ '' resolved_model_version='' @ fd_resolved_model_version request
     @ '' adapter_version='' @ fd_adapter_version request
     @ '' cache_policy='' @ fd_cache_policy request
     @ '' body=redacted''"

definition debug_fingerprint_input :: "fingerprint_debug_request \<Rightarrow> fingerprint_input" where
  "debug_fingerprint_input request =
     \<lparr>fi_tenant_id = fd_tenant_id request, fi_endpoint_version = fd_endpoint_version request,
      fi_vendor_id = fd_vendor_id request,
      fi_resolved_model_version = fd_resolved_model_version request,
      fi_adapter_version = fd_adapter_version request,
      fi_cache_policy = fd_cache_policy request, fi_body = fd_body request\<rparr>"

definition debug_cache_fingerprint ::
  "serializer \<Rightarrow> (bytes \<Rightarrow> bytes) \<Rightarrow> u64 \<Rightarrow> admin_request_context \<Rightarrow> fingerprint_debug_request
   \<Rightarrow> cache_key admin_run" where
  "debug_cache_fingerprint to_vec sha256 now context request =
     (let tenant = tenant_as_str (fd_tenant_id request);
          base_resource = ''cache_fingerprint:'' @ tenant;
          request_summary = fingerprint_debug_summary request
      in if \<not> role_allows (cx_role context) DebugCacheFingerprint
         then try_bind (record_audit now context
                \<lparr>ar_action = DebugCacheFingerprint, ar_resource = base_resource,
                 ar_tenant_scope = Some tenant, ar_before_summary = Some request_summary,
                 ar_after_summary = None, ar_result = AuditDenied\<rparr>)
                (\<lambda>_ s. (Inl (AdminForbidden DebugCacheFingerprint), s))
         else case compute_cache_key to_vec sha256 (debug_fingerprint_input request) of
             Inl err \<Rightarrow>
               try_bind (record_audit now context
                 \<lparr>ar_action = DebugCacheFingerprint, ar_resource = base_resource,
                  ar_tenant_scope = Some tenant, ar_before_summary = Some request_summary,
                  ar_after_summary = None, ar_result = AuditFailed (cache_error_to_string err)\<rparr>)
                 (\<lambda>_ s. (Inl (AdminCache err), s))
           | Inr key \<Rightarrow>
               try_bind (record_audit now context
                 \<lparr>ar_action = DebugCacheFingerprint,
                  ar_resource = base_resource @ ''/'' @ redacted key,
                  ar_tenant_scope = Some tenant, ar_before_summary = Some request_summary,
                  ar_after_summary = Some (''cache_key='' @ redacted key), ar_result = AuditSuccess\<rparr>)
                 (\<lambda>_ s. (Inr key, s)))"

definition delete_cache_object ::
  "u64 \<Rightarrow> admin_request_context \<Rightarrow> tenant_id \<Rightarrow> cache_key \<Rightarrow> master_state
   \<Rightarrow> admin_service \<Rightarrow> (admin_service_error + unit) \<times> admin_service \<times> master_state" where
  "delete_cache_object now context tenant_id cache_key master s =
     (let tenant = tenant_as_str tenant_id;
          resource = ''cache_object:'' @ tenant @ ''/'' @ redacted cache_key
      in if \<not> role_allows (cx_role context) RemoveCacheObject
         then (case try_bind (record_audit now context
                  \<lparr>ar_action = RemoveCacheObject, ar_resource = resource, ar_tenant_scope = Some tenant,
                   ar_before_summary = None, ar_after_summary = None, ar_result = AuditDenied\<rparr>)
                  (\<lambda>_ s. (Inl (AdminForbidden RemoveCacheObject), s)) s of
                (r, s1) \<Rightarrow> (r, s1, master))
         else case remove tenant_id cache_key master of
             (Inr _, master1) \<Rightarrow>
               (case record_audit now context
                  \<lparr>ar_action = RemoveCacheObject, ar_resource = resource, ar_tenant_scope = Some tenant,
                   ar_before_summary = Some ''delete requested'', ar_after_summary = Some ''deleted'',
                   ar_result = AuditSuccess\<rparr> s of
                  (r, s1) \<Rightarrow> (r, s1, master1))
           | (Inl err, master1) \<Rightarrow>
               (case try_bind (record_audit now context
                  \<lparr>ar_action = RemoveCacheObject, ar_resource = resource, ar_tenant_scope = Some tenant,
                   ar_before_summary = Some ''delete requested'', ar_after_summary = None,
                   ar_result = AuditFailed (cache_error_to_string err)\<rparr>)
                  (\<lambda>_ s. (Inl (AdminCache err), s)) s of
                  (r, s1) \<Rightarrow> (r, s1, master1)))"

definition audit_events :: "u64 \<Rightarrow> admin_request_context \<Rightarrow> audit_event list admin_run" where
  "audit_events now context s =
     (if \<not> role_allows (cx_role context) ReadAuditLog
      then try_bind (record_audit now context
             \<lparr>ar_action = ReadAuditLog, ar_resource = ''audit_log'', ar_tenant_scope = None,
              ar_before_summary = None, ar_after_summary = None, ar_result = AuditDenied\<rparr>)
             (\<lambda>_ s. (Inl (AdminForbidden ReadAuditLog), s)) s
      else case audit_list (as_audit s) of
          Inl e \<Rightarrow> (Inl (AdminAudit e), s)
        | Inr events \<Rightarrow>
            try_bind (record_audit now context
              \<lparr>ar_action = ReadAuditLog, ar_resource = ''audit_log'', ar_tenant_scope = None,
               ar_before_summary = None,
               ar_after_summary = Some (''listed_events='' @ show_nat (length events)),
               ar_result = AuditSuccess\<rparr>)
              (\<lambda>_ s. (Inr events, s)) s)"

section \<open>One request\<close>

text \<open>A request of the admin interface, and its execution on the service and the master.\<close>

datatype admin_op =
    OpMetrics | OpListNodes | OpDrain string | OpDebug fingerprint_debug_request
  | OpDelete tenant_id cache_key | OpAuditEvents

fun op_action :: "admin_op \<Rightarrow> admin_action" where
  "op_action OpMetrics = ReadMetrics"
| "op_action OpListNodes = ReadNodes"
| "op_action (OpDrain n) = DrainNode"
| "op_action (OpDebug q) = DebugCacheFingerprint"
| "op_action (OpDelete t k) = RemoveCacheObject"
| "op_action OpAuditEvents = ReadAuditLog"

definition ignore_value :: "('e + 'a) \<times> 's \<Rightarrow> 'm \<Rightarrow> ('e + unit) \<times> 's \<times> 'm" where
  "ignore_value out m = (map_sum (\<lambda>e. e) (\<lambda>_. ()) (fst out), snd out, m)"

fun admin_exec ::
  "serializer \<Rightarrow> (bytes \<Rightarrow> bytes) \<Rightarrow> u64 \<Rightarrow> admin_request_context \<Rightarrow> admin_op \<Rightarrow> admin_service \<Rightarrow> master_state
   \<Rightarrow> (admin_service_error + unit) \<times> admin_service \<times> master_state" where
  "admin_exec to_vec sha256 now context OpMetrics s m = ignore_value (admin_metrics_snapshot_for now context s) m"
| "admin_exec to_vec sha256 now context OpListNodes s m = ignore_value (list_nodes context s) m"
| "admin_exec to_vec sha256 now context (OpDrain node_id) s m = ignore_value (drain_node now context node_id s) m"
| "admin_exec to_vec sha256 now context (OpDebug q) s m =
     ignore_value (debug_cache_fingerprint to_vec sha256 now context q s) m"
| "admin_exec to_vec sha256 now context (OpDelete t k) s m = delete_cache_object now context t k m s"
| "admin_exec to_vec sha256 now context OpAuditEvents s m = ignore_value (audit_events now context s) m"

fun outcome :: "admin_service_error + 'a \<Rightarrow> audit_result" where
  "outcome (Inr x) = AuditSuccess"
| "outcome (Inl (AdminForbidden a)) = AuditDenied"
| "outcome (Inl e) = AuditFailed (admin_service_error_to_string e)"

definition logs ::
  "admin_request_context \<Rightarrow> u64 \<Rightarrow> admin_action \<Rightarrow> audit_result \<Rightarrow> admin_service \<Rightarrow> admin_service \<Rightarrow> bool" where
  "logs context now action res s s' \<longleftrightarrow>
     (\<exists>ev. as_audit s' = (as_audit s)\<lparr>sink_events := sink_events (as_audit s) @ [ev]\<rparr>
       \<and> ev_actor ev = cx_actor context \<and> ev_role ev = cx_role context
       \<and> ev_request_id ev = cx_request_id context \<and> ev_timestamp_ms ev = now
       \<and> ev_action ev = action \<and> ev_result ev = res
       \<and> as_metrics s' = record_action (admin_action_label action) (audit_action_result res) (as_metrics s))"

definition service_available :: "admin_service \<Rightarrow> bool" where
  "service_available s \<longleftrightarrow> \<not> as_nodes_poisoned s \<and> \<not> sink_poisoned (as_audit s)"

lemma record_audit_available:
  assumes "service_available s"
  obtains s' where "record_audit now context rec s = (Inr (), s')"
    and "logs context now (ar_action rec) (ar_result rec) s s'"
    and "as_nodes s' = as_nodes s" and "as_nodes_poisoned s' = as_nodes_poisoned s"
    and "ev_resource (last (sink_events (as_audit s'))) = ar_resource rec"
proof
  show "record_audit now context rec s = (Inr (), snd (record_audit now context rec s))"
    using assms by (simp add: record_audit_def audit_append_def service_available_def)
  show "logs context now (ar_action rec) (ar_result rec) s (snd (record_audit now context rec s))"
    using assms unfolding logs_def service_available_def
    by (simp add: record_audit_def audit_append_def) (rule exI, intro conjI, rule refl, simp_all)
qed (use assms in \<open>simp_all add: record_audit_def audit_append_def service_available_def\<close>)

lemma try_bind_record_audit:
  assumes "service_available s" and "try_bind (record_audit now context rec) (\<lambda>_ s. (f s, s)) s = (r, s')"
  shows "r = f s'" and "logs context now (ar_action rec) (ar_result rec) s s'"
    and "as_nodes s' = as_nodes s" and "as_nodes_poisoned s' = as_nodes_poisoned s"
    and "ev_resource (last (sink_events (as_audit s'))) = ar_resource rec"
  using assms by (auto simp: try_bind_def elim!: record_audit_available [of _ now "context" rec])

text \<open>What every audited operation guarantees, by the role of the caller.\<close>

definition audited_run ::
  "admin_request_context \<Rightarrow> u64 \<Rightarrow> admin_action \<Rightarrow> admin_service \<Rightarrow> admin_service_error + 'a \<Rightarrow> admin_service \<Rightarrow> bool" where
  "audited_run context now action s r s' \<longleftrightarrow>
     logs context now action (outcome r) s s' \<and> service_available s'
     \<and> (if role_allows (cx_role context) action then \<forall>a. r \<noteq> Inl (AdminForbidden a)
        else r = Inl (AdminForbidden action) \<and> as_nodes s' = as_nodes s)"

lemma logs_available: "service_available s \<Longrightarrow> logs context now action res s s' \<Longrightarrow>
    as_nodes_poisoned s' = as_nodes_poisoned s \<Longrightarrow> service_available s'"
  by (auto simp: service_available_def logs_def)

lemma audited_run_record:
  assumes "service_available s" and "try_bind (record_audit now context rec) (\<lambda>_ s. (f s, s)) s = (r, s')"
    and "ar_result rec = outcome (f s')"
    and "if role_allows (cx_role context) (ar_action rec) then \<forall>a. f s' \<noteq> Inl (AdminForbidden a)
         else f s' = Inl (AdminForbidden (ar_action rec))"
  shows "audited_run context now (ar_action rec) s r s'"
  using assms(3,4) try_bind_record_audit [OF assms(1,2)] logs_available [OF assms(1)]
  by (auto simp: audited_run_def)

lemma availableD: "service_available s \<Longrightarrow> \<not> as_nodes_poisoned s \<and> \<not> sink_poisoned (as_audit s)"
  by (simp add: service_available_def)

lemma metrics_audited:
  assumes "service_available s" and "admin_metrics_snapshot_for now context s = (r, s')"
  shows "audited_run context now ReadMetrics s r s'" and "as_nodes s' = as_nodes s"
  using assms(2) unfolding admin_metrics_snapshot_for_def
  by (auto split: if_splits dest: audited_run_record [OF assms(1)] try_bind_record_audit(3) [OF assms(1)])

lemma audit_events_audited:
  assumes "service_available s" and "audit_events now context s = (r, s')"
  shows "audited_run context now ReadAuditLog s r s'" and "as_nodes s' = as_nodes s"
  using assms(2) availableD [OF assms(1)] unfolding audit_events_def audit_list_def
  by (auto split: if_splits dest: audited_run_record [OF assms(1)] try_bind_record_audit(3) [OF assms(1)])

lemma debug_audited:
  assumes "service_available s" and "debug_cache_fingerprint to_vec sha256 now context q s = (r, s')"
  shows "audited_run context now DebugCacheFingerprint s r s'" and "as_nodes s' = as_nodes s"
  using assms(2) unfolding debug_cache_fingerprint_def Let_def
  by (auto split: if_splits sum.splits dest: audited_run_record [OF assms(1)] try_bind_record_audit(3) [OF assms(1)])

text \<open>A drain that succeeds flags one node; every other outcome leaves the nodes as they are.\<close>

definition drained :: "string \<Rightarrow> admin_service \<Rightarrow> (string, node_state) btree_map" where
  "drained node_id s = bt_insert node_id \<lparr>ns_draining = True\<rparr> (as_nodes s)"

lemma audited_run_nodes: "audited_run context now action (s\<lparr>as_nodes := ns\<rparr>) r s' \<Longrightarrow>
    role_allows (cx_role context) action \<Longrightarrow> audited_run context now action s r s'"
  by (simp add: audited_run_def logs_def)

lemma drain_denied:
  assumes "service_available s" and "\<not> role_allows (cx_role context) DrainNode"
    and "drain_node now context node_id s = (r, s')"
  shows "audited_run context now DrainNode s r s'" and "as_nodes s' = as_nodes s"
  using assms(3) unfolding drain_node_def Let_def if_P [OF assms(2)]
  using assms(2) by (auto dest: audited_run_record [OF assms(1)] try_bind_record_audit(3) [OF assms(1)])

lemma drain_missing:
  assumes "service_available s" and "role_allows (cx_role context) DrainNode"
    and "bt_get (as_nodes s) node_id = None" and "drain_node now context node_id s = (r, s')"
  shows "audited_run context now DrainNode s r s'" and "as_nodes s' = as_nodes s"
    and "r = Inl (AdminNotFound (''node:'' @ node_id))"
  using assms(2,4) availableD [OF assms(1)] unfolding drain_node_def Let_def assms(3)
  by (auto dest: audited_run_record [OF assms(1)] try_bind_record_audit(1,3) [OF assms(1)])

lemma drain_flagged:
  assumes "service_available s" and "role_allows (cx_role context) DrainNode"
    and "bt_get (as_nodes s) node_id = Some node" and "drain_node now context node_id s = (r, s')"
  shows "audited_run context now DrainNode s r s'" and "as_nodes s' = drained node_id s"
    and "ev_resource (last (sink_events (as_audit s'))) = ''node:'' @ node_id"
    and "r = Inr \<lparr>nv_node_id = node_id, nv_draining = True\<rparr>"
proof -
  have avail: "service_available (s\<lparr>as_nodes := ns\<rparr>)" for ns
    using assms(1) by (simp add: service_available_def)
  have node: "node\<lparr>ns_draining := True\<rparr> = \<lparr>ns_draining = True\<rparr>" by simp
  have run: "try_bind (record_audit now context
      \<lparr>ar_action = DrainNode, ar_resource = ''node:'' @ node_id, ar_tenant_scope = None,
       ar_before_summary = Some (''draining='' @ show_bool (ns_draining node)),
       ar_after_summary = Some (''draining='' @ show_bool True), ar_result = AuditSuccess\<rparr>)
      (\<lambda>_ s. (Inr \<lparr>nv_node_id = node_id, nv_draining = True\<rparr>, s)) (s\<lparr>as_nodes := drained node_id s\<rparr>) = (r, s')"
    using assms(2,4) availableD [OF assms(1)] unfolding drain_node_def Let_def assms(3) drained_def by (simp add: node)
  show "audited_run context now DrainNode s r s'"
    by (rule audited_run_nodes [OF _ assms(2), where ns = "drained node_id s"])
       (use audited_run_record [OF avail run] assms(2) in simp)
  show "as_nodes s' = drained node_id s" "r = Inr \<lparr>nv_node_id = node_id, nv_draining = True\<rparr>"
    "ev_resource (last (sink_events (as_audit s'))) = ''node:'' @ node_id"
    using try_bind_record_audit(1,3,5) [OF avail run] by simp_all
qed

lemma audited_run_success:
  assumes "service_available s" and "record_audit now context rec s = (r, s')"
    and "ar_result rec = AuditSuccess" and "role_allows (cx_role context) (ar_action rec)"
  shows "audited_run context now (ar_action rec) s r s'" and "as_nodes s' = as_nodes s" and "r = Inr ()"
proof -
  have run: "try_bind (record_audit now context rec) (\<lambda>_ s. (Inr (), s)) s = (r, s')"
    using assms(2) by (auto simp: try_bind_def split: prod.splits sum.splits)
  show "audited_run context now (ar_action rec) s r s'"
    by (rule audited_run_record [OF assms(1) run]) (simp_all add: assms)
  show "as_nodes s' = as_nodes s" "r = Inr ()"
    using try_bind_record_audit(1,3) [OF assms(1) run] by simp_all
qed

lemma delete_audited:
  assumes "service_available s" and "delete_cache_object now context t k m s = (r, s', m')"
  shows "audited_run context now RemoveCacheObject s r s'" and "as_nodes s' = as_nodes s"
    and "m' = (if role_allows (cx_role context) RemoveCacheObject then snd (remove t k m) else m)"
    and "role_allows (cx_role context) RemoveCacheObject \<Longrightarrow> r = map_err AdminCache (fst (remove t k m))"
  using assms(2) unfolding delete_cache_object_def Let_def
  by (auto split: if_splits sum.splits prod.splits dest: audited_run_success [OF assms(1)]
      audited_run_record [OF assms(1)] try_bind_record_audit(1,3) [OF assms(1)])

lemma outcome_map_sum [simp]: "outcome (map_sum (\<lambda>e. e) f r) = outcome r"
  by (cases r rule: outcome.cases) simp_all

lemma audited_run_map_sum [simp]:
  "audited_run context now action s (map_sum (\<lambda>e. e) f r) s' \<longleftrightarrow> audited_run context now action s r s'"
  by (cases r rule: outcome.cases) (simp_all add: audited_run_def)

lemma list_nodes_keeps [simp]: "snd (list_nodes context s) = s"
  by (simp add: list_nodes_def authorize_def)

lemma drain_audited:
  assumes "service_available s" and "drain_node now context node_id s = (r, s')"
  shows "audited_run context now DrainNode s r s'"
  using drain_denied [OF assms(1) _ assms(2)] drain_missing [OF assms(1) _ _ assms(2)]
    drain_flagged [OF assms(1) _ _ assms(2)]
  by (cases "role_allows (cx_role context) DrainNode"; cases "bt_get (as_nodes s) node_id") blast+

lemma admin_exec_audited:
  assumes "service_available s" and "admin_exec to_vec sha256 now context op s m = (r, s', m')"
  shows "if op = OpListNodes then s' = s \<and> m' = m else audited_run context now (op_action op) s r s'"
  using assms(2) metrics_audited [OF assms(1)] audit_events_audited [OF assms(1)] debug_audited [OF assms(1)]
    delete_audited [OF assms(1)] drain_audited [OF assms(1)]
  by (cases op) (auto simp: ignore_value_def)

lemma admin_exec_master:
  assumes "service_available s" and "admin_exec to_vec sha256 now context op s m = (r, s', m')"
    and "\<not> role_allows (cx_role context) (op_action op)"
  shows "m' = m"
  using assms(2,3) by (cases op) (auto simp: ignore_value_def dest: delete_audited(3) [OF assms(1)])

text \<open>
  Every operation of the service except the listing of nodes adds exactly one entry to the audit
  log, with the outcome the caller is told.
\<close>

lemma admin_operations_audited:
  assumes "service_available s" and "admin_exec to_vec sha256 now context op s m = (r, s', m')"
  shows "(op \<noteq> OpListNodes \<longrightarrow> logs context now (op_action op) (outcome r) s s')
    \<and> (op = OpListNodes \<longrightarrow> s' = s \<and> m' = m)
    \<and> ((\<exists>a. r = Inl (AdminForbidden a)) \<longleftrightarrow> \<not> role_allows (cx_role context) (op_action op))
    \<and> (\<not> role_allows (cx_role context) (op_action op) \<longrightarrow> as_nodes s' = as_nodes s \<and> m' = m)"
proof (cases "op = OpListNodes")
  case True
  then have "(\<exists>a. r = Inl (AdminForbidden a)) \<longleftrightarrow> \<not> role_allows (cx_role context) ReadNodes"
    using assms by (auto simp: ignore_value_def list_nodes_def authorize_def split: if_splits)
  then show ?thesis
    using True admin_exec_audited [OF assms] by simp
next
  case False
  then have "audited_run context now (op_action op) s r s'" using admin_exec_audited [OF assms] by simp
  then show ?thesis
    using False admin_exec_master [OF assms] by (auto simp: audited_run_def)
qed

section \<open>Runs of the service\<close>

inductive admin_reach ::
  "serializer \<Rightarrow> (bytes \<Rightarrow> bytes) \<Rightarrow> string list \<Rightarrow> admin_service \<Rightarrow> master_state \<Rightarrow> bool"
  for to_vec sha256 ids where
  admin_start: "admin_reach to_vec sha256 ids (admin_service_new_for_test ids) m"
| admin_next: "admin_reach to_vec sha256 ids s m
    \<Longrightarrow> admin_exec to_vec sha256 now context op s m = (r, s', m')
    \<Longrightarrow> admin_reach to_vec sha256 ids s' m'"

definition results_logged :: "admin_action_result \<Rightarrow> admin_service \<Rightarrow> nat" where
  "results_logged res s =
     length (filter (\<lambda>ev. audit_action_result (ev_result ev) = res) (sink_events (as_audit s)))"

definition drain_logged :: "string \<Rightarrow> admin_service \<Rightarrow> bool" where
  "drain_logged node_id s \<longleftrightarrow>
     (\<exists>ev \<in> set (sink_events (as_audit s)).
        ev_action ev = DrainNode \<and> ev_resource ev = ''node:'' @ node_id \<and> ev_result ev = AuditSuccess)"

definition counters_match :: "admin_service \<Rightarrow> bool" where
  "counters_match s \<longleftrightarrow>
     admin_metrics_balanced (as_metrics s)
     \<and> audit_events_total (as_metrics s) = of_nat (length (sink_events (as_audit s)))
     \<and> audit_success_total (as_metrics s) = of_nat (results_logged ActSuccess s)
     \<and> audit_denied_total (as_metrics s) = of_nat (results_logged ActDenied s)
     \<and> audit_failed_total (as_metrics s) = of_nat (results_logged ActFailed s)"

definition nodes_match :: "string list \<Rightarrow> admin_service \<Rightarrow> bool" where
  "nodes_match ids s \<longleftrightarrow>
     (\<forall>n. bt_get (as_nodes s) n =
        (if n \<in> set ids then Some \<lparr>ns_draining = drain_logged n s\<rparr> else None))"

lemma record_action_totals [simp]:
  "audit_success_total (record_action a res m) = audit_success_total m + (if res = ActSuccess then 1 else 0)"
  "audit_denied_total (record_action a res m) = audit_denied_total m + (if res = ActDenied then 1 else 0)"
  "audit_failed_total (record_action a res m) = audit_failed_total m + (if res = ActFailed then 1 else 0)"
  by (cases res; simp add: record_action_def Let_def)+

lemma logs_counters:
  assumes "logs context now action res s s'" and "counters_match s"
  shows "counters_match s'"
proof -
  obtain ev where "sink_events (as_audit s') = sink_events (as_audit s) @ [ev]" "ev_result ev = res"
    "as_metrics s' = record_action (admin_action_label action) (audit_action_result res) (as_metrics s)"
    using assms(1) by (auto simp: logs_def)
  then show ?thesis
    using assms(2) by (simp add: counters_match_def results_logged_def)
qed

lemma logs_drain_logged:
  assumes "logs context now action res s s'"
  shows "drain_logged n s' \<longleftrightarrow> drain_logged n s \<or>
    action = DrainNode \<and> res = AuditSuccess \<and> ev_resource (last (sink_events (as_audit s'))) = ''node:'' @ n"
  using assms by (auto simp: logs_def drain_logged_def)

lemma nodes_match_quiet:
  assumes "logs context now action res s s'" and "as_nodes s' = as_nodes s"
    and "action \<noteq> DrainNode \<or> res \<noteq> AuditSuccess" and "nodes_match ids s"
  shows "nodes_match ids s'"
  using assms(2-) logs_drain_logged [OF assms(1)] by (auto simp: nodes_match_def)

lemma drain_nodes_match:
  assumes "service_available s" and "drain_node now context node_id s = (r, s')" and "nodes_match ids s"
  shows "nodes_match ids s'"
proof -
  have logged: "logs context now DrainNode (outcome r) s s'"
    using drain_audited [OF assms(1,2)] by (simp add: audited_run_def)
  consider "\<not> role_allows (cx_role context) DrainNode"
    | "role_allows (cx_role context) DrainNode" "bt_get (as_nodes s) node_id = None"
    | node where "role_allows (cx_role context) DrainNode" "bt_get (as_nodes s) node_id = Some node"
    by fastforce
  then show ?thesis
  proof cases
    case 1
    note denied = drain_denied [OF assms(1) 1 assms(2)]
    then show ?thesis
      using 1 nodes_match_quiet [OF logged _ _ assms(3)] by (simp add: audited_run_def)
  next
    case 2
    note missing = drain_missing [OF assms(1) 2 assms(2)]
    then show ?thesis
      using nodes_match_quiet [OF logged _ _ assms(3)] by simp
  next
    case 3
    note flagged = drain_flagged [OF assms(1) 3 assms(2)]
    have "node_id \<in> set ids"
      using 3(2) assms(3) by (auto simp: nodes_match_def split: if_splits)
    then show ?thesis
      using assms(3) flagged logs_drain_logged [OF logged] by (auto simp: nodes_match_def drained_def)
  qed
qed

lemma admin_exec_nodes:
  assumes "service_available s" and "admin_exec to_vec sha256 now context op s m = (r, s', m')"
    and "op_action op \<noteq> DrainNode"
  shows "as_nodes s' = as_nodes s"
  using assms(2,3) metrics_audited(2) [OF assms(1) surjective_pairing]
    audit_events_audited(2) [OF assms(1) surjective_pairing] debug_audited(2) [OF assms(1) surjective_pairing]
    delete_audited(2) [OF assms(1)]
  by (cases op) (auto simp: ignore_value_def)

lemma admin_exec_nodes_match:
  assumes "service_available s" and "admin_exec to_vec sha256 now context op s m = (r, s', m')"
    and "nodes_match ids s"
  shows "nodes_match ids s'"
proof (cases "op_action op = DrainNode")
  case True
  then obtain node_id where "op = OpDrain node_id" by (cases op) auto
  then show ?thesis
    using assms(2) drain_nodes_match [OF assms(1) surjective_pairing assms(3)] by (auto simp: ignore_value_def)
next
  case False
  note same = admin_exec_nodes [OF assms(1,2) False]
  then show ?thesis
    using admin_exec_audited [OF assms(1,2)] False assms(3) nodes_match_quiet [OF _ same]
    by (auto simp: audited_run_def split: if_splits)
qed

lemma new_for_test_nodes:
  "bt_get (fold (\<lambda>n. bt_insert n v) ids ns) n = (if n \<in> set ids then Some v else bt_get ns n)"
  by (induction ids arbitrary: ns) auto

lemma admin_reach_inv:
  "admin_reach to_vec sha256 ids s m \<Longrightarrow> service_available s \<and> counters_match s \<and> nodes_match ids s"
proof (induction rule: admin_reach.induct)
  case (admin_start m)
  then show ?case
    by (simp add: admin_service_new_for_test_def service_available_def counters_match_def results_logged_def
        nodes_match_def drain_logged_def new_for_test_nodes) (simp add: admin_metrics_default_def)
next
  case (admin_next s m now "context" op r s' m')
  then have inv: "service_available s" "counters_match s" "nodes_match ids s" by simp_all
  show ?case
    using inv admin_exec_audited [OF inv(1) admin_next.hyps(2)] logs_counters [OF _ inv(2)]
      admin_exec_nodes_match [OF inv(1) admin_next.hyps(2) inv(3)]
    by (auto simp: audited_run_def split: if_splits)
qed

text \<open>
  C26: In every run of the admin service from its start, the counters equal the numbers of
  entries in the audit log, in total and per result (modulo the word size), the set of nodes
  never changes, and a node is flagged as draining exactly when the log has a successful drain
  of it.
\<close>

theorem admin_log_explains_state:
  assumes "admin_reach to_vec sha256 ids s m"
  shows "counters_match s \<and> nodes_match ids s"
  using admin_reach_inv [OF assms] by simp

section \<open>Examples\<close>

text \<open>A viewer who tries to drain a node, then an operator who does.\<close>

definition example_context :: "admin_role \<Rightarrow> admin_request_context" where
  "example_context role = \<lparr>cx_actor = ''alice'', cx_role = role, cx_request_id = ''r1''\<rparr>"

definition example_encode :: serializer where
  "example_encode v = Inr []"

lemma example_drain_denied:
  "admin_exec example_encode id 5 (example_context Viewer) (OpDrain ''n1'') (admin_service_new_for_test [''n1'']) m =
     (Inl (AdminForbidden DrainNode),
      snd (drain_node 5 (example_context Viewer) ''n1'' (admin_service_new_for_test [''n1''])), m)"
  by (simp add: ignore_value_def drain_node_def example_context_def admin_service_new_for_test_def
      try_bind_def record_audit_def audit_append_def)

lemma example_drain_reached:
  "admin_reach example_encode id [''n1''] (snd (drain_node 5 (example_context Operator) ''n1'' (admin_service_new_for_test [''n1''])))
     master_new"
  by (rule admin_next [OF admin_start, where op = "OpDrain ''n1''"]) (simp add: ignore_value_def)

theorem admin_log_explains_state_witness:
  "counters_match (snd (drain_node 5 (example_context Operator) ''n1'' (admin_service_new_for_test [''n1''])))
   \<and> nodes_match [''n1''] (snd (drain_node 5 (example_context Operator) ''n1'' (admin_service_new_for_test [''n1''])))"
  by (rule admin_log_explains_state [OF example_drain_reached])

end
