(* ===== verification/Cli.thy ===== *)
theory Cli
imports Text "HOL-Library.While_Combinator"
begin

text \<open>
  The command lines of the four services (\<^verbatim>\<open>parse_config\<close> in \<^verbatim>\<open>apps/*/src/main.rs\<close>). The master,
  the store node and the admin service share their code up to three constants; the gateway
  adds the address of the master and the table of store nodes. The environment is an argument:
  \<open>getenv\<close> gives the value of a variable that is set to valid text.
\<close>

section \<open>Values\<close>

type_synonym environment = "string \<Rightarrow> string option"

definition env_value :: "environment \<Rightarrow> string \<Rightarrow> string \<Rightarrow> string \<Rightarrow> string" where
  "env_value getenv service_prefix suffix default_value =
     (case getenv (service_prefix @ ''_'' @ suffix) of
        Some v \<Rightarrow> v
      | None \<Rightarrow> (case getenv (''MOONCACHE_'' @ suffix) of Some v \<Rightarrow> v | None \<Rightarrow> default_value))"

definition requires_value :: "string \<Rightarrow> string" where
  "requires_value flag = flag @ '' requires a value''"

text \<open>\<^verbatim>\<open>next_value\<close> takes the next argument, and returns those that are left.\<close>

definition next_value :: "string list \<Rightarrow> string \<Rightarrow> string + string \<times> string list" where
  "next_value args flag =
     (case args of
        v # rest \<Rightarrow>
          if v \<noteq> [] \<and> \<not> starts_with ''--'' v then Inr (v, rest) else Inl (requires_value flag)
      | [] \<Rightarrow> Inl (requires_value flag))"

definition required_value :: "string \<Rightarrow> string \<Rightarrow> string + string" where
  "required_value v flag = (if v = [] then Inl (requires_value flag) else Inr v)"

section \<open>The loop over the arguments\<close>

datatype 'c parsed_config = Help | Run 'c

text \<open>
  One turn: the flags in the order of the code, each as \<^verbatim>\<open>--flag value\<close> and as
  \<^verbatim>\<open>--flag=value\<close>, with what it does to the configuration.
\<close>

fun apply_argument ::
  "(string \<times> (string \<Rightarrow> 'c \<Rightarrow> string + 'c)) list \<Rightarrow> string \<Rightarrow> string list \<Rightarrow> 'c \<Rightarrow> string + 'c \<times> string list" where
  "apply_argument [] arg args c = Inl (''unknown argument `'' @ arg @ ''`'')"
| "apply_argument ((flag, set_flag) # flags) arg args c =
     (if arg = flag
      then try_result (next_value args flag) (\<lambda>(v, rest). try_result (set_flag v c) (\<lambda>c'. Inr (c', rest)))
      else case strip_prefix (flag @ ''='') arg of
          Some v \<Rightarrow> try_result (required_value v flag) (\<lambda>v. try_result (set_flag v c) (\<lambda>c'. Inr (c', args)))
        | None \<Rightarrow> apply_argument flags arg args c)"

text \<open>
  The loop \<^verbatim>\<open>while let Some(arg) = args.next()\<close>: a turn on the arguments that are left and the
  configuration so far (on the right), until a result is returned (on the left). Its last turn
  finds no argument, and the function returns the configuration.
\<close>

definition parse_turn ::
  "(string \<times> (string \<Rightarrow> 'c \<Rightarrow> string + 'c)) list \<Rightarrow> (string + 'c parsed_config) + (string list \<times> 'c)
   \<Rightarrow> (string + 'c parsed_config) + (string list \<times> 'c)" where
  "parse_turn flags st =
     (case st of
        Inl res \<Rightarrow> Inl res
      | Inr ([], c) \<Rightarrow> Inl (Inr (Run c))
      | Inr (arg # args, c) \<Rightarrow>
          if arg = ''--help'' \<or> arg = ''-h'' then Inl (Inr Help)
          else case apply_argument flags arg args c of
              Inl e \<Rightarrow> Inl (Inl e)
            | Inr (c', rest) \<Rightarrow> Inr (rest, c'))"

definition parse_loop ::
  "(string \<times> (string \<Rightarrow> 'c \<Rightarrow> string + 'c)) list \<Rightarrow> string list \<Rightarrow> 'c
   \<Rightarrow> ((string + 'c parsed_config) + (string list \<times> 'c)) option" where
  "parse_loop flags args c = while_option (\<lambda>st. \<not> isl st) (parse_turn flags) (Inr (args, c))"

text \<open>What the loop returns; it always returns (\<open>parse_loop_ends\<close>).\<close>

definition parse_arguments ::
  "(string \<times> (string \<Rightarrow> 'c \<Rightarrow> string + 'c)) list \<Rightarrow> string list \<Rightarrow> 'c \<Rightarrow> string + 'c parsed_config" where
  "parse_arguments flags args c = projl (the (parse_loop flags args c))"

definition set_value :: "(string \<Rightarrow> 'c \<Rightarrow> 'c) \<Rightarrow> string \<Rightarrow> 'c \<Rightarrow> string + 'c" where
  "set_value f v c = Inr (f v c)"

section \<open>Master, store node and admin service\<close>

record app_config =
  bind_addr :: string
  etcd_url :: string
  tenant_config_path :: string
  ssd_root_path :: string
  metrics_bind_addr :: string
  vendor_config_path :: string

record service_constants =
  service_env_prefix :: string
  default_bind_addr :: string
  default_metrics_bind_addr :: string

definition master_constants :: service_constants where
  "master_constants = \<lparr>service_env_prefix = ''MOONCACHE_MASTER'', default_bind_addr = ''0.0.0.0:8081'',
     default_metrics_bind_addr = ''0.0.0.0:9091''\<rparr>"

definition store_node_constants :: service_constants where
  "store_node_constants = \<lparr>service_env_prefix = ''MOONCACHE_STORE_NODE'', default_bind_addr = ''0.0.0.0:8082'',
     default_metrics_bind_addr = ''0.0.0.0:9092''\<rparr>"

definition admin_constants :: service_constants where
  "admin_constants = \<lparr>service_env_prefix = ''MOONCACHE_ADMIN_API'', default_bind_addr = ''0.0.0.0:8083'',
     default_metrics_bind_addr = ''0.0.0.0:9093''\<rparr>"

definition app_config_from_env :: "environment \<Rightarrow> service_constants \<Rightarrow> app_config" where
  "app_config_from_env getenv sc =
     (let val = env_value getenv (service_env_prefix sc)
      in \<lparr>bind_addr = val ''BIND_ADDR'' (default_bind_addr sc),
          etcd_url = val ''ETCD_URL'' ''http://127.0.0.1:2379'',
          tenant_config_path = val ''TENANT_CONFIG'' ''config/tenants.toml'',
          ssd_root_path = val ''SSD_ROOT'' ''/var/lib/mooncache/ssd'',
          metrics_bind_addr = val ''METRICS_BIND_ADDR'' (default_metrics_bind_addr sc),
          vendor_config_path = val ''VENDOR_CONFIG'' ''config/vendors.toml''\<rparr>)"

definition app_flags :: "(string \<times> (string \<Rightarrow> app_config \<Rightarrow> string + app_config)) list" where
  "app_flags =
     [(''--bind-addr'', set_value (\<lambda>v c. c\<lparr>bind_addr := v\<rparr>)),
      (''--etcd-url'', set_value (\<lambda>v c. c\<lparr>etcd_url := v\<rparr>)),
      (''--tenant-config'', set_value (\<lambda>v c. c\<lparr>tenant_config_path := v\<rparr>)),
      (''--ssd-root'', set_value (\<lambda>v c. c\<lparr>ssd_root_path := v\<rparr>)),
      (''--metrics-bind-addr'', set_value (\<lambda>v c. c\<lparr>metrics_bind_addr := v\<rparr>)),
      (''--vendor-config'', set_value (\<lambda>v c. c\<lparr>vendor_config_path := v\<rparr>))]"

definition parse_config :: "environment \<Rightarrow> service_constants \<Rightarrow> string list \<Rightarrow> string + app_config parsed_config" where
  "parse_config getenv sc args = parse_arguments app_flags args (app_config_from_env getenv sc)"

definition master_parse_config :: "environment \<Rightarrow> string list \<Rightarrow> string + app_config parsed_config" where
  "master_parse_config getenv = parse_config getenv master_constants"

definition store_node_parse_config :: "environment \<Rightarrow> string list \<Rightarrow> string + app_config parsed_config" where
  "store_node_parse_config getenv = parse_config getenv store_node_constants"

definition admin_parse_config :: "environment \<Rightarrow> string list \<Rightarrow> string + app_config parsed_config" where
  "admin_parse_config getenv = parse_config getenv admin_constants"

section \<open>Gateway\<close>

record gateway_app_config =
  ga_bind_addr :: string
  ga_etcd_url :: string
  ga_master_url :: string
  ga_store_node_urls :: "(string, string) btree_map"
  ga_tenant_config_path :: string
  ga_ssd_root_path :: string
  ga_metrics_bind_addr :: string
  ga_vendor_config_path :: string

definition insert_store_node :: "string \<Rightarrow> (string, string) btree_map \<Rightarrow> string + (string, string) btree_map" where
  "insert_store_node item nodes =
     (case split_once (CHR ''='') item of
        None \<Rightarrow> Inl (''store node `'' @ item @ ''` must use NODE_ID=URL'')
      | Some (node_id, url) \<Rightarrow>
          let node_id = trim node_id; url = trim url
          in if node_id = [] \<or> url = []
             then Inl (''store node `'' @ item @ ''` must use non-empty NODE_ID=URL'')
             else Inr (bt_insert node_id (trim_end_matches (CHR ''/'') url) nodes))"

fun insert_store_nodes :: "string list \<Rightarrow> (string, string) btree_map \<Rightarrow> string + (string, string) btree_map" where
  "insert_store_nodes [] nodes = Inr nodes"
| "insert_store_nodes (item # items) nodes =
     (let item = trim item
      in if item = [] then insert_store_nodes items nodes
         else try_result (insert_store_node item nodes) (insert_store_nodes items))"

definition parse_store_node_urls :: "string \<Rightarrow> string + (string, string) btree_map" where
  "parse_store_node_urls raw =
     try_result (insert_store_nodes (split_on (CHR '','') raw) []) (\<lambda>nodes.
       if nodes = [] then Inl ''store node list must not be empty'' else Inr nodes)"

definition gateway_config_from_env :: "environment \<Rightarrow> string + gateway_app_config" where
  "gateway_config_from_env getenv =
     (let val = env_value getenv ''MOONCACHE_GATEWAY''
      in try_result (parse_store_node_urls (val ''STORE_NODES'' ''default=http://127.0.0.1:8082'')) (\<lambda>nodes.
           Inr \<lparr>ga_bind_addr = val ''BIND_ADDR'' ''0.0.0.0:8080'',
                ga_etcd_url = val ''ETCD_URL'' ''http://127.0.0.1:2379'',
                ga_master_url = val ''MASTER_URL'' ''http://127.0.0.1:8081'',
                ga_store_node_urls = nodes,
                ga_tenant_config_path = val ''TENANT_CONFIG'' ''config/tenants.toml'',
                ga_ssd_root_path = val ''SSD_ROOT'' ''/var/lib/mooncache/ssd'',
                ga_metrics_bind_addr = val ''METRICS_BIND_ADDR'' ''0.0.0.0:9090'',
                ga_vendor_config_path = val ''VENDOR_CONFIG'' ''config/vendors.toml''\<rparr>))"

definition set_store_nodes :: "string \<Rightarrow> gateway_app_config \<Rightarrow> string + gateway_app_config" where
  "set_store_nodes v c = try_result (parse_store_node_urls v) (\<lambda>nodes. Inr (c\<lparr>ga_store_node_urls := nodes\<rparr>))"

definition add_store_node :: "string \<Rightarrow> gateway_app_config \<Rightarrow> string + gateway_app_config" where
  "add_store_node v c =
     try_result (insert_store_node v (ga_store_node_urls c)) (\<lambda>nodes. Inr (c\<lparr>ga_store_node_urls := nodes\<rparr>))"

definition gateway_flags :: "(string \<times> (string \<Rightarrow> gateway_app_config \<Rightarrow> string + gateway_app_config)) list" where
  "gateway_flags =
     [(''--bind-addr'', set_value (\<lambda>v c. c\<lparr>ga_bind_addr := v\<rparr>)),
      (''--etcd-url'', set_value (\<lambda>v c. c\<lparr>ga_etcd_url := v\<rparr>)),
      (''--master-url'', set_value (\<lambda>v c. c\<lparr>ga_master_url := v\<rparr>)),
      (''--store-nodes'', set_store_nodes),
      (''--store-node'', add_store_node),
      (''--tenant-config'', set_value (\<lambda>v c. c\<lparr>ga_tenant_config_path := v\<rparr>)),
      (''--ssd-root'', set_value (\<lambda>v c. c\<lparr>ga_ssd_root_path := v\<rparr>)),
      (''--metrics-bind-addr'', set_value (\<lambda>v c. c\<lparr>ga_metrics_bind_addr := v\<rparr>)),
      (''--vendor-config'', set_value (\<lambda>v c. c\<lparr>ga_vendor_config_path := v\<rparr>))]"

definition gateway_parse_config :: "environment \<Rightarrow> string list \<Rightarrow> string + gateway_app_config parsed_config" where
  "gateway_parse_config getenv args =
     (if list_ex (\<lambda>arg. arg = ''--help'' \<or> arg = ''-h'') args then Inr Help
      else try_result (gateway_config_from_env getenv) (parse_arguments gateway_flags args))"

section \<open>The loop ends\<close>

lemma next_value_rest: "next_value args flag = Inr (v, rest) \<Longrightarrow> length rest < length args"
  by (auto simp: next_value_def split: list.splits if_splits)

lemma apply_argument_rest: "apply_argument flags arg args c = Inr (c', rest) \<Longrightarrow> length rest \<le> length args"
  by (induction flags arg args c rule: apply_argument.induct)
     (auto simp: try_result_eq_Inr split: if_splits option.splits dest!: next_value_rest)

lemma parse_loop_step:
  "parse_loop flags args c =
     (case parse_turn flags (Inr (args, c)) of Inl res \<Rightarrow> Some (Inl res) | Inr (rest, c') \<Rightarrow> parse_loop flags rest c')"
proof -
  have "while_option (\<lambda>st. \<not> isl st) (parse_turn flags) (Inl res) = Some (Inl res)" for res
    by (subst while_option_unfold) simp
  then show ?thesis
    unfolding parse_loop_def by (subst while_option_unfold) (auto split: sum.split prod.split)
qed

text \<open>Every turn takes at least one argument, so every command line ends the loop.\<close>

lemma parse_loop_ends: "\<exists>res. parse_loop flags args c = Some (Inl res)"
proof (induction args arbitrary: c rule: length_induct)
  case (1 args)
  show ?case
  proof (cases "parse_turn flags (Inr (args, c))")
    case (Inl res)
    then show ?thesis by (subst parse_loop_step) simp
  next
    case (Inr p)
    then obtain rest c' where p: "p = (rest, c')" and "length rest < length args"
      by (cases p) (auto simp: parse_turn_def less_Suc_eq_le split: list.splits if_splits sum.splits dest!: apply_argument_rest)
    then show ?thesis using 1 Inr by (subst parse_loop_step) simp
  qed
qed

lemma parse_arguments_simps [simp]:
  "parse_arguments flags [] c = Inr (Run c)"
  "parse_arguments flags (arg # args) c =
     (if arg = ''--help'' \<or> arg = ''-h'' then Inr Help
      else case apply_argument flags arg args c of
          Inl e \<Rightarrow> Inl e
        | Inr (c', rest) \<Rightarrow> parse_arguments flags rest c')"
  unfolding parse_arguments_def by (subst parse_loop_step; auto simp: parse_turn_def split: sum.split)+

section \<open>Lemmas\<close>

text \<open>What every setter keeps, the whole command line keeps.\<close>

definition setters_keep :: "(string \<times> (string \<Rightarrow> 'c \<Rightarrow> string + 'c)) list \<Rightarrow> ('c \<Rightarrow> bool) \<Rightarrow> bool" where
  "setters_keep flags P \<longleftrightarrow> (\<forall>e \<in> set flags. \<forall>v c c'. snd e v c = Inr c' \<longrightarrow> P c \<longrightarrow> P c')"

lemma apply_argument_keeps:
  "setters_keep flags P \<Longrightarrow> apply_argument flags arg args c = Inr (c', rest) \<Longrightarrow> P c \<Longrightarrow> P c'"
  by (induction flags arg args c rule: apply_argument.induct)
     (auto simp: setters_keep_def try_result_eq_Inr split: if_splits option.splits)

lemma parse_arguments_keeps:
  "parse_arguments flags args c = Inr (Run c') \<Longrightarrow> setters_keep flags P \<Longrightarrow> P c \<Longrightarrow> P c'"
proof (induction args arbitrary: c rule: length_induct)
  case (1 args)
  show ?case
  proof (cases args)
    case (Cons arg more)
    then obtain c1 rest where "apply_argument flags arg more c = Inr (c1, rest)" "parse_arguments flags rest c1 = Inr (Run c')"
      using "1.prems"(1) by (auto split: if_splits sum.splits)
    then show ?thesis
      using "1.IH" "1.prems"(2,3) Cons apply_argument_rest [of flags arg more c c1 rest] apply_argument_keeps
      by (metis length_Cons less_Suc_eq_le)
  qed (use "1.prems" in simp)
qed

lemma insert_store_node_ok: "insert_store_node item nodes = Inr nodes' \<Longrightarrow> bt_ok nodes \<Longrightarrow> nodes' \<noteq> [] \<and> bt_ok nodes'"
  by (auto simp: insert_store_node_def Let_def split: option.splits if_splits)
     (metis fst_set_bt_insert image_is_empty insert_not_empty set_empty)

lemma insert_store_nodes_ok: "insert_store_nodes items nodes = Inr nodes' \<Longrightarrow> bt_ok nodes \<Longrightarrow> bt_ok nodes'"
  by (induction items nodes rule: insert_store_nodes.induct)
     (auto simp: Let_def try_result_eq_Inr dest: insert_store_node_ok split: if_splits)

lemma parse_store_node_urls_ok: "parse_store_node_urls raw = Inr nodes \<Longrightarrow> nodes \<noteq> [] \<and> bt_ok nodes"
  by (auto simp: parse_store_node_urls_def try_result_eq_Inr split: if_splits dest: insert_store_nodes_ok)

text \<open>A gateway that starts has at least one store node, and one address per node.\<close>

lemma gateway_has_store_nodes:
  assumes "gateway_parse_config getenv args = Inr (Run c)"
  shows "ga_store_node_urls c \<noteq> [] \<and> bt_ok (ga_store_node_urls c)"
proof -
  let ?P = "\<lambda>c. ga_store_node_urls c \<noteq> [] \<and> bt_ok (ga_store_node_urls c)"
  obtain c0 where c0: "gateway_config_from_env getenv = Inr c0" "parse_arguments gateway_flags args c0 = Inr (Run c)"
    using assms by (auto simp: gateway_parse_config_def try_result_eq_Inr split: if_splits)
  have "?P c0"
    using c0(1) by (auto simp: gateway_config_from_env_def Let_def try_result_eq_Inr dest: parse_store_node_urls_ok)
  moreover have "setters_keep gateway_flags ?P"
    using parse_store_node_urls_ok insert_store_node_ok
    by (auto simp: setters_keep_def gateway_flags_def set_value_def set_store_nodes_def add_store_node_def
        try_result_eq_Inr)
  ultimately show ?thesis using parse_arguments_keeps [OF c0(2), of ?P] by blast
qed

section \<open>What a command line means\<close>

text \<open>A setting: a flag and its value, as two arguments or as one.\<close>

datatype setting = Separate (setting_flag: string) (setting_value: string) | Joined (setting_flag: string) (setting_value: string)

fun spelled :: "setting \<Rightarrow> string list" where
  "spelled (Separate flag v) = [flag, v]"
| "spelled (Joined flag v) = [flag @ ''='' @ v]"

definition app_flag_names :: "string list" where
  "app_flag_names =
     [''--bind-addr'', ''--etcd-url'', ''--tenant-config'', ''--ssd-root'', ''--metrics-bind-addr'', ''--vendor-config'']"

fun setting_ok :: "setting \<Rightarrow> bool" where
  "setting_ok (Separate flag v) \<longleftrightarrow> flag \<in> set app_flag_names \<and> v \<noteq> [] \<and> \<not> starts_with ''--'' v"
| "setting_ok (Joined flag v) \<longleftrightarrow> flag \<in> set app_flag_names \<and> v \<noteq> []"

text \<open>The last value given for a flag, or the default.\<close>

definition chosen :: "string \<Rightarrow> setting list \<Rightarrow> string \<Rightarrow> string" where
  "chosen flag settings default_value =
     (case rev (filter (\<lambda>s. setting_flag s = flag) settings) of
        [] \<Rightarrow> default_value | s # _ \<Rightarrow> setting_value s)"

definition chosen_config :: "setting list \<Rightarrow> app_config \<Rightarrow> app_config" where
  "chosen_config settings c =
     \<lparr>bind_addr = chosen ''--bind-addr'' settings (bind_addr c), etcd_url = chosen ''--etcd-url'' settings (etcd_url c),
      tenant_config_path = chosen ''--tenant-config'' settings (tenant_config_path c),
      ssd_root_path = chosen ''--ssd-root'' settings (ssd_root_path c),
      metrics_bind_addr = chosen ''--metrics-bind-addr'' settings (metrics_bind_addr c),
      vendor_config_path = chosen ''--vendor-config'' settings (vendor_config_path c)\<rparr>"

lemma chosen_simps:
  "chosen flag [] d = d"
  "chosen flag (s # settings) d = chosen flag settings (if setting_flag s = flag then setting_value s else d)"
  by (auto simp: chosen_def split: list.split)

definition assign :: "string \<Rightarrow> string \<Rightarrow> app_config \<Rightarrow> app_config" where
  "assign flag v c =
     \<lparr>bind_addr = if flag = ''--bind-addr'' then v else bind_addr c,
      etcd_url = if flag = ''--etcd-url'' then v else etcd_url c,
      tenant_config_path = if flag = ''--tenant-config'' then v else tenant_config_path c,
      ssd_root_path = if flag = ''--ssd-root'' then v else ssd_root_path c,
      metrics_bind_addr = if flag = ''--metrics-bind-addr'' then v else metrics_bind_addr c,
      vendor_config_path = if flag = ''--vendor-config'' then v else vendor_config_path c\<rparr>"

lemma chosen_config_Cons: "chosen_config (s # settings) c = chosen_config settings (assign (setting_flag s) (setting_value s) c)"
  by (simp only: chosen_config_def assign_def chosen_simps app_config.select_convs)

lemma apply_separate:
  assumes "flag \<in> set app_flag_names"
  shows "apply_argument app_flags flag args c =
    (case next_value args flag of Inl e \<Rightarrow> Inl e | Inr (v, rest) \<Rightarrow> Inr (assign flag v c, rest))"
  using assms
  by (auto simp: app_flag_names_def app_flags_def set_value_def assign_def try_result_def split: sum.split)

lemma apply_joined:
  assumes "flag \<in> set app_flag_names"
  shows "apply_argument app_flags (flag @ CHR ''='' # v) args c =
    (if v = [] then Inl (requires_value flag) else Inr (assign flag v c, args))"
  using assms
  by (auto simp: app_flag_names_def app_flags_def set_value_def assign_def required_value_def requires_value_def)

lemma flag_is_no_help: "flag \<in> set app_flag_names \<Longrightarrow> flag @ xs \<noteq> ''--help'' \<and> flag @ xs \<noteq> ''-h''"
  by (auto simp: app_flag_names_def)

lemma settings_read:
  assumes "list_all setting_ok settings"
  shows "parse_arguments app_flags (concat (map spelled settings) @ rest) c =
    parse_arguments app_flags rest (chosen_config settings c)"
  using assms
proof (induction settings arbitrary: c)
  case Nil
  then show ?case by (cases c) (simp add: chosen_config_def chosen_simps)
next
  case (Cons s settings)
  then show ?case
    using flag_is_no_help [of "setting_flag s" "[]"] flag_is_no_help [of "setting_flag s"]
    by (cases s) (simp_all add: apply_separate apply_joined next_value_def chosen_config_Cons)
qed

lemma unknown_argument:
  assumes "\<forall>flag \<in> set app_flag_names. arg \<noteq> flag \<and> \<not> starts_with (flag @ ''='') arg"
  shows "apply_argument app_flags arg args c = Inl (''unknown argument `'' @ arg @ ''`'')"
  using assms by (simp add: app_flag_names_def app_flags_def starts_with_def del: strip_prefix.simps append.simps)

text \<open>
  C40: How the master, the store node and the admin service read their command lines. After
  any number of well-formed settings, each a flag with its value as \<^verbatim>\<open>--flag value\<close> or
  \<^verbatim>\<open>--flag=value\<close>: at the end of the arguments every option has the last value given for its
  flag, or else the value of its environment variable, or else its default; \<^verbatim>\<open>--help\<close> or \<^verbatim>\<open>-h\<close>
  asks for help whatever follows; a flag at the end, or before an empty argument or one that
  starts with two dashes, and a flag with an empty value after \<^verbatim>\<open>=\<close>, is refused with the name of
  the flag; and any other argument is refused as unknown.
\<close>

theorem command_line_is_read:
  assumes "list_all setting_ok settings"
  shows "let before = concat (map spelled settings)
    in parse_config getenv sc before = Inr (Run (chosen_config settings (app_config_from_env getenv sc)))
    \<and> (\<forall>rest. parse_config getenv sc (before @ ''--help'' # rest) = Inr Help
        \<and> parse_config getenv sc (before @ ''-h'' # rest) = Inr Help)
    \<and> (\<forall>flag \<in> set app_flag_names. \<forall>rest.
          (rest = [] \<or> hd rest = [] \<or> starts_with ''--'' (hd rest) \<longrightarrow>
             parse_config getenv sc (before @ flag # rest) = Inl (flag @ '' requires a value''))
        \<and> parse_config getenv sc (before @ (flag @ ''='') # rest) = Inl (flag @ '' requires a value''))
    \<and> (\<forall>arg rest. arg \<notin> {''--help'', ''-h''} \<longrightarrow>
          (\<forall>flag \<in> set app_flag_names. arg \<noteq> flag \<and> \<not> starts_with (flag @ ''='') arg) \<longrightarrow>
          parse_config getenv sc (before @ arg # rest) = Inl (''unknown argument `'' @ arg @ ''`''))"
unfolding Let_def
proof (intro allI impI conjI ballI)
  note read = settings_read [OF assms]
  show "parse_config getenv sc (concat (map spelled settings)) =
      Inr (Run (chosen_config settings (app_config_from_env getenv sc)))"
    using read [of "[]"] by (simp add: parse_config_def)
  show "parse_config getenv sc (concat (map spelled settings) @ ''--help'' # rest) = Inr Help"
    "parse_config getenv sc (concat (map spelled settings) @ ''-h'' # rest) = Inr Help" for rest
    by (simp_all add: parse_config_def read)
  show "parse_config getenv sc (concat (map spelled settings) @ flag # rest) = Inl (flag @ '' requires a value'')"
    if "flag \<in> set app_flag_names" "rest = [] \<or> hd rest = [] \<or> starts_with ''--'' (hd rest)" for flag rest
    using flag_is_no_help [OF that(1), of "[]"] that
    by (cases rest) (auto simp: parse_config_def read apply_separate next_value_def requires_value_def)
  show "parse_config getenv sc (concat (map spelled settings) @ (flag @ ''='') # rest) = Inl (flag @ '' requires a value'')"
    if "flag \<in> set app_flag_names" for flag rest
    using flag_is_no_help [OF that, of "''=''"] apply_joined [OF that, of "[]"]
    by (simp add: parse_config_def read requires_value_def)
  show "parse_config getenv sc (concat (map spelled settings) @ arg # rest) = Inl (''unknown argument `'' @ arg @ ''`'')"
    if "arg \<notin> {''--help'', ''-h''}" "\<forall>flag \<in> set app_flag_names. arg \<noteq> flag \<and> \<not> starts_with (flag @ ''='') arg" for arg rest
    using unknown_argument [OF that(2)] that(1) by (simp add: parse_config_def read)
qed

theorem command_line_is_read_witness:
  "parse_config (\<lambda>_. None) master_constants [''--etcd-url'', ''http://a:1'', ''--ssd-root=/ssd'', ''--etcd-url=http://b:2'']
     = Inr (Run (chosen_config [Separate ''--etcd-url'' ''http://a:1'', Joined ''--ssd-root'' ''/ssd'',
                                Joined ''--etcd-url'' ''http://b:2'']
         (app_config_from_env (\<lambda>_. None) master_constants)))
   \<and> chosen ''--etcd-url'' [Separate ''--etcd-url'' ''http://a:1'', Joined ''--ssd-root'' ''/ssd'',
                            Joined ''--etcd-url'' ''http://b:2''] ''x'' = ''http://b:2''
   \<and> parse_config (\<lambda>_. None) master_constants [''--ssd-root=/ssd'', ''--etcd-url'', ''--help'']
     = Inl ''--etcd-url requires a value''"
proof -
  let ?settings = "[Separate ''--etcd-url'' ''http://a:1'', Joined ''--ssd-root'' ''/ssd'', Joined ''--etcd-url'' ''http://b:2'']"
  have ok: "list_all setting_ok ?settings" "list_all setting_ok [Joined ''--ssd-root'' ''/ssd'']"
    by (simp_all add: app_flag_names_def starts_with_def)
  have "starts_with ''--'' (hd [''--help''])" "''--etcd-url'' \<in> set app_flag_names"
    by (simp_all add: starts_with_def app_flag_names_def)
  then show ?thesis
    using command_line_is_read [OF ok(1), of "\<lambda>_. None" master_constants]
      command_line_is_read [OF ok(2), of "\<lambda>_. None" master_constants]
    by (simp add: chosen_simps del: starts_with_def)
qed

end
