(* ===== verification/Gateway_App.thy ===== *)
theory Gateway_App
imports Cache_Flow Cli
begin

text \<open>
  \<^verbatim>\<open>apps/gateway/src/main.rs\<close>: the gateway as a service. The header map of a request is a
  function: no entry for a missing header, and for a present one its text, if \<^verbatim>\<open>to_str\<close> has
  one. Which names and values \<^verbatim>\<open>http\<close> accepts for headers of an answer are arguments, as are
  the TOML parser, the files and the HTTP clients.
\<close>

section \<open>Requests and answers\<close>

type_synonym header_map = "string \<Rightarrow> string option option"

record http_reply =
  hr_status :: u16
  hr_headers :: "(string, string) hash_map"
  hr_body :: json

definition optional_header :: "header_map \<Rightarrow> string \<Rightarrow> string + string option" where
  "optional_header headers name =
     (case headers name of
        None \<Rightarrow> Inr None
      | Some (Some v) \<Rightarrow> Inr (Some v)
      | Some None \<Rightarrow> Inl (''header `'' @ name @ ''` must be valid UTF-8''))"

definition json_reply :: "u16 \<Rightarrow> json \<Rightarrow> http_reply" where
  "json_reply status body = \<lparr>hr_status = status, hr_headers = [(''content-type'', ''application/json'')], hr_body = body\<rparr>"

definition json_error :: "u16 \<Rightarrow> string \<Rightarrow> http_reply" where
  "json_error status message =
     json_reply status (json_obj [(''ok'', JBool False), (''error'', JString message)])"

fun gateway_error_status :: "gateway_error \<Rightarrow> u16" where
  "gateway_error_status (GeJson m) = 400"
| "gateway_error_status (GeVendor e) = 502"
| "gateway_error_status _ = 500"

definition gateway_error_response :: "gateway_error \<Rightarrow> http_reply" where
  "gateway_error_response error = json_error (gateway_error_status error) (gateway_error_to_string error)"

record header_rules =
  header_name_ok :: "string \<Rightarrow> bool"
  header_value_ok :: "string \<Rightarrow> bool"

definition gateway_http_response :: "header_rules \<Rightarrow> gateway_response \<Rightarrow> http_reply" where
  "gateway_http_response rules response =
     (let status = (if 100 \<le> gr_status_code response \<and> gr_status_code response < 1000
                    then gr_status_code response else 500);
          reply = json_reply status (gr_body response)
      in reply\<lparr>hr_headers := fold (\<lambda>(name, val) headers.
            if header_name_ok rules name \<and> header_value_ok rules val then hm_insert name val headers else headers)
          (gr_headers response) (hr_headers reply)\<rparr>)"

definition responses ::
  "header_rules \<Rightarrow> request_env \<Rightarrow> 'w gateway_state \<Rightarrow> header_map \<Rightarrow> json \<Rightarrow> 'w gateway_run \<Rightarrow> http_reply \<times> 'w gateway_run" where
  "responses rules env state headers body s =
     (case optional_header headers ''authorization'' of
        Inl message \<Rightarrow> (json_error 400 message, s)
      | Inr authorization \<Rightarrow>
          (case (case optional_header headers ''x-cache-control'' of
                   Inl message \<Rightarrow> Inl message
                 | Inr (Some v) \<Rightarrow> Inr (Some v)
                 | Inr None \<Rightarrow> optional_header headers ''cache-control'') of
             Inl message \<Rightarrow> (json_error 400 message, s)
           | Inr cache_control \<Rightarrow>
               (case handle_response_request env state authorization cache_control body s of
                  (Inr response, s1) \<Rightarrow> (gateway_http_response rules response, s1)
                | (Inl error, s1) \<Rightarrow> (gateway_error_response error, s1))))"

definition gateway_healthz :: json where
  "gateway_healthz = json_obj [(''ok'', JBool True), (''service'', JString ''mooncache-gateway'')]"

definition gateway_metrics_json :: "'w gateway_run \<Rightarrow> json" where
  "gateway_metrics_json s =
     (let m = gateway_snapshot (gw_metrics s); num = (\<lambda>n. JNumber (PosInt n))
      in json_obj
           [(''cache_hits'', num (gms_cache_hits m)), (''cache_misses'', num (gms_cache_misses m)),
            (''cache_bypasses'', num (gms_cache_bypasses m)), (''cache_ineligible'', num (gms_cache_ineligible m)),
            (''cache_only_misses'', num (gms_cache_only_misses m)), (''cache_degraded'', num (gms_cache_degraded m)),
            (''write_committed'', num (gms_write_committed m)), (''write_failed'', num (gms_write_failed m)),
            (''write_skipped'', num (gms_write_skipped m)),
            (''singleflight_leaders'', num (gms_singleflight_leaders m)),
            (''singleflight_waiters'', num (gms_singleflight_waiters m)),
            (''singleflight_none'', num (gms_singleflight_none m)),
            (''singleflight_over_capacity'', num (gms_singleflight_over_capacity m)),
            (''vendor_calls'', num (gms_vendor_calls m)),
            (''vendor_latency_micros_total'', num (gms_vendor_latency_micros_total m))])"

section \<open>Start-up\<close>

text \<open>What start-up gets from outside: files, TOML, environment, HTTP, a hash map's order.\<close>

record 'w gateway_startup =
  st_read_to_string :: "string \<Rightarrow> string + string"
  st_tenants_toml :: "string \<Rightarrow> string + raw_tenant_config list"
  st_vendors_toml :: "string \<Rightarrow> string + raw_vendor_config list"
  st_getenv :: environment
  st_client_error :: "string option"
  st_send :: "'w http_send"
  st_http :: "'w http"
  st_type_error :: "json \<Rightarrow> string"
  st_node_order :: "(string, string) btree_map \<Rightarrow> (string, string) hash_map"

definition build_gateway_state_from_config ::
  "'w gateway_startup \<Rightarrow> gateway_app_config \<Rightarrow> string + 'w gateway_state" where
  "build_gateway_state_from_config io config =
     try_result (map_err (\<lambda>e. ''failed to load tenant config: '' @ config_error_to_string e)
       (load_tenant_config (st_tenants_toml io) (st_read_to_string io) (ga_tenant_config_path config))) (\<lambda>tenants.
     try_result (map_err (\<lambda>e. ''failed to load vendor config: '' @ config_error_to_string e)
       (load_vendor_config (st_vendors_toml io) (st_read_to_string io) (ga_vendor_config_path config))) (\<lambda>vendors.
     case config_vendors vendors of
       [] \<Rightarrow> Inl ''vendor config must contain at least one vendor''
     | vendor # _ \<Rightarrow>
         if vc_adapter vendor \<noteq> ''openai-responses''
         then Inl (''unsupported vendor adapter `'' @ vc_adapter vendor @ ''` for vendor `'' @ vc_id vendor @ ''`'')
         else try_result (ok_or (st_getenv io (vc_api_key_env vendor))
             (''vendor `'' @ vc_id vendor @ ''` api key env `'' @ vc_api_key_env vendor @ ''` is not set'')) (\<lambda>api_key.
         try_result (map_err (\<lambda>e. ''failed to build vendor `'' @ vc_id vendor @ ''`: '' @ vendor_error_to_string e)
             (openai_new (st_client_error io) (vc_base_url vendor) api_key (vc_timeout_ms vendor) (vc_headers vendor)
               (vc_models vendor))) (\<lambda>adapter.
         Inr (gateway_new_with_clients_and_tenant_config
           (remote_master_ops (st_http io) (st_type_error io) (remote_master_new (ga_master_url config)))
           (remote_store_ops (st_http io) (st_type_error io)
              (remote_store_new (st_node_order io (ga_store_node_urls config))))
           (openai_vendor (st_send io) adapter) tenants)))))"

section \<open>Lemmas\<close>

lemma optional_header_cases:
  obtains (missing) "headers name = None" "optional_header headers name = Inr None"
    | (present) v where "headers name = Some (Some v)" "optional_header headers name = Inr (Some v)"
    | (broken) "headers name = Some None" "\<exists>m. optional_header headers name = Inl m"
  by (cases "headers name"; cases "the (headers name)") (auto simp: optional_header_def)

text \<open>
  An answer of the service is an answer of the request flow, or a refusal of a header that is
  not text, which does not reach the flow; \<^verbatim>\<open>x-cache-control\<close> takes precedence over
  \<^verbatim>\<open>cache-control\<close>.
\<close>

lemma responses_runs_the_flow:
  assumes "headers ''authorization'' \<noteq> Some None" and "headers ''x-cache-control'' \<noteq> Some None"
    and "headers ''x-cache-control'' = None \<Longrightarrow> headers ''cache-control'' \<noteq> Some None"
    and "control = (case headers ''x-cache-control'' of
      None \<Rightarrow> (case headers ''cache-control'' of None \<Rightarrow> None | Some v \<Rightarrow> v) | Some v \<Rightarrow> v)"
    and "handle_response_request env state (case headers ''authorization'' of None \<Rightarrow> None | Some v \<Rightarrow> v) control body s = (r, s')"
  shows "responses rules env state headers body s =
    (case r of Inr response \<Rightarrow> gateway_http_response rules response | Inl e \<Rightarrow> gateway_error_response e, s')"
  using assms
  by (auto simp: responses_def optional_header_def split: option.splits sum.splits)

text \<open>A header the flow sets and the rules accept reaches the client, with its value.\<close>

lemma fold_headers:
  assumes "distinct (map fst hs)"
  shows "hm_get (fold (\<lambda>(name, val) headers. if ok name val then hm_insert name val headers else headers) hs acc) name =
    (case map_of hs name of Some val \<Rightarrow> if ok name val then Some val else hm_get acc name | None \<Rightarrow> hm_get acc name)"
  using assms
proof (induction hs arbitrary: acc)
  case (Cons h hs)
  obtain n v where h: "h = (n, v)" by (cases h)
  have "map_of hs n = None" using Cons.prems h by (simp add: map_of_eq_None_iff)
  then show ?case using Cons h by (auto split: option.splits)
qed simp

lemma gateway_headers_sent:
  assumes "bt_ok (gr_headers response)" and "header name response = Some val"
    and "header_name_ok rules name" and "header_value_ok rules val"
  shows "hm_get (hr_headers (gateway_http_response rules response)) name = Some val"
  using assms bt_ok_distinct [OF assms(1)]
  by (simp add: gateway_http_response_def Let_def fold_headers header_def bt_get_def)

text \<open>A gateway that starts authenticates by its tenant file and uses the first vendor.\<close>

lemma started_gateway:
  assumes "build_gateway_state_from_config io config = Inr state"
  shows "gs_cache_available state \<and> (\<exists>tenants txt. gs_tenant_configs state = Some tenants
    \<and> st_read_to_string io (ga_tenant_config_path config) = Inr txt
    \<and> parse_tenant_toml (st_tenants_toml io) txt = Inr tenants)"
proof -
  obtain tenants
    where "load_tenant_config (st_tenants_toml io) (st_read_to_string io) (ga_tenant_config_path config) = Inr tenants"
    and "gs_tenant_configs state = Some tenants" and "gs_cache_available state"
    using assms unfolding build_gateway_state_from_config_def try_result_eq_Inr map_err_eq_Inr
    by (elim exE conjE)
       (simp split: list.splits if_splits,
        auto simp: try_result_eq_Inr gateway_new_with_clients_and_tenant_config_def)
  then show ?thesis
    by (auto simp: load_tenant_config_def split: sum.splits)
qed

end
