(* ===== verification/Admin_App.thy ===== *)
theory Admin_App
imports Admin_Service Gateway_App
begin

text \<open>
  \<^verbatim>\<open>apps/admin-api/src/main.rs\<close>: the admin service over HTTP. The caller's name and role come
  from two headers; the request id that \<^verbatim>\<open>RequestId::new\<close> makes and the clock are arguments.
  \<^verbatim>\<open>optional_header\<close> and \<^verbatim>\<open>json_error\<close> are the same code as in the gateway's service.
\<close>

section \<open>Callers\<close>

definition parse_role :: "string \<Rightarrow> string + admin_role" where
  "parse_role val =
     (let v = to_ascii_lowercase (trim val)
      in if v = ''admin'' then Inr Admin
         else if v = ''operator'' then Inr Operator
         else if v = ''viewer'' then Inr Viewer
         else if v = ''no-access'' \<or> v = ''no_access'' then Inr NoAccess
         else Inl (''invalid x-admin-role `'' @ v @ ''`''))"

definition admin_context :: "string \<Rightarrow> header_map \<Rightarrow> string + admin_request_context" where
  "admin_context fresh_id headers =
     try_result (optional_header headers ''x-admin-actor'') (\<lambda>actor.
     try_result (optional_header headers ''x-admin-role'') (\<lambda>role.
     try_result (case role of None \<Rightarrow> Inr Admin | Some v \<Rightarrow> parse_role v) (\<lambda>role.
       Inr \<lparr>cx_actor = (case actor of None \<Rightarrow> ''local-admin'' | Some a \<Rightarrow> a), cx_role = role,
            cx_request_id = fresh_id\<rparr>)))"

section \<open>Views\<close>

record tenant_http_view =
  tv_tenant_id :: string
  tv_api_key_ref :: string
  tv_dram_quota_bytes :: u64
  tv_ssd_quota_bytes :: u64
  tv_request_rate_limit_per_minute :: u32
  tv_stream_concurrency_limit :: u32
  tv_vendor_spend_budget_usd :: u32
  tv_default_ttl_seconds :: u64
  tv_policy :: string

record vendor_http_view =
  vv_vendor_id :: string
  vv_health :: string
  vv_models :: "string list"
  vv_resolved_version :: string
  vv_rate_limit_remaining :: u32
  vv_error_rate :: json_number
  vv_retry_count :: u32
  vv_cost_per_million_tokens_usd :: json_number
  vv_routing_policy :: string

fun tenant_policy_label :: "tenant_cache_policy \<Rightarrow> string" where
  "tenant_policy_label PolicyCacheFirst = ''cache_first''"
| "tenant_policy_label PolicyBypass = ''bypass''"
| "tenant_policy_label PolicyCacheOnly = ''cache_only''"

definition tenant_views :: "tenant_config_set \<Rightarrow> tenant_http_view list" where
  "tenant_views configs =
     map (\<lambda>tenant.
       \<lparr>tv_tenant_id = tenant_as_str (tc_id tenant),
        tv_api_key_ref = ''sha256:'' @ take 8 (tc_api_key_sha256 tenant) @ ellipsis,
        tv_dram_quota_bytes = tc_dram_quota_bytes tenant, tv_ssd_quota_bytes = tc_ssd_quota_bytes tenant,
        tv_request_rate_limit_per_minute = tc_request_rate_limit_per_minute tenant,
        tv_stream_concurrency_limit = tc_stream_concurrency_limit tenant,
        tv_vendor_spend_budget_usd = tc_vendor_spend_budget_usd tenant,
        tv_default_ttl_seconds = tc_default_ttl_seconds tenant,
        tv_policy = tenant_policy_label (tc_policy tenant)\<rparr>) (config_tenants configs)"

text \<open>An \<^verbatim>\<open>f64\<close> is the JSON number it is sent as; \<open>Float 0\<close> is \<^verbatim>\<open>0.0\<close>.\<close>

definition vendor_views :: "vendor_config_set \<Rightarrow> vendor_http_view list" where
  "vendor_views configs =
     map (\<lambda>vendor.
       \<lparr>vv_vendor_id = vc_id vendor, vv_health = ''healthy'', vv_models = map vm_requested (vc_models vendor),
        vv_resolved_version = vc_adapter_version vendor, vv_rate_limit_remaining = 0, vv_error_rate = Float 0,
        vv_retry_count = 0, vv_cost_per_million_tokens_usd = Float 0, vv_routing_policy = vc_adapter vendor\<rparr>)
       (config_vendors configs)"

definition tenant_view_json :: "tenant_http_view \<Rightarrow> json" where
  "tenant_view_json v =
     json_obj [(''tenantId'', JString (tv_tenant_id v)), (''apiKeyRef'', JString (tv_api_key_ref v)),
       (''dramQuotaBytes'', JNumber (PosInt (tv_dram_quota_bytes v))),
       (''ssdQuotaBytes'', JNumber (PosInt (tv_ssd_quota_bytes v))),
       (''requestRateLimitPerMinute'', JNumber (PosInt (ucast (tv_request_rate_limit_per_minute v)))),
       (''streamConcurrencyLimit'', JNumber (PosInt (ucast (tv_stream_concurrency_limit v)))),
       (''vendorSpendBudgetUsd'', JNumber (PosInt (ucast (tv_vendor_spend_budget_usd v)))),
       (''defaultTtlSeconds'', JNumber (PosInt (tv_default_ttl_seconds v))),
       (''policy'', JString (tv_policy v))]"

definition vendor_view_json :: "vendor_http_view \<Rightarrow> json" where
  "vendor_view_json v =
     json_obj [(''vendorId'', JString (vv_vendor_id v)), (''health'', JString (vv_health v)),
       (''models'', JArray (map JString (vv_models v))),
       (''resolvedVersion'', JString (vv_resolved_version v)),
       (''rateLimitRemaining'', JNumber (PosInt (ucast (vv_rate_limit_remaining v)))),
       (''errorRate'', JNumber (vv_error_rate v)), (''retryCount'', JNumber (PosInt (ucast (vv_retry_count v)))),
       (''costPerMillionTokensUsd'', JNumber (vv_cost_per_million_tokens_usd v)),
       (''routingPolicy'', JString (vv_routing_policy v))]"

section \<open>State\<close>

record admin_http_state =
  ah_service :: admin_service
  ah_master :: master_state
  ah_master_poisoned :: bool
  ah_tenants :: "tenant_http_view list"
  ah_vendors :: "vendor_http_view list"

definition build_admin_state :: "tenant_http_view list \<Rightarrow> vendor_http_view list \<Rightarrow> admin_http_state" where
  "build_admin_state tenants vendors =
     \<lparr>ah_service = admin_service_new_for_test [''local-store''],
      ah_master = mount_segment ''local-store'' 1048576 master_new, ah_master_poisoned = False,
      ah_tenants = tenants, ah_vendors = vendors\<rparr>"

definition build_admin_state_from_config ::
  "(string \<Rightarrow> string + raw_tenant_config list) \<Rightarrow> (string \<Rightarrow> string + raw_vendor_config list)
   \<Rightarrow> (string \<Rightarrow> string + string) \<Rightarrow> app_config \<Rightarrow> string + admin_http_state" where
  "build_admin_state_from_config tenants_toml vendors_toml read_to_string config =
     try_result (map_err (\<lambda>e. ''failed to load tenant config: '' @ config_error_to_string e)
       (load_tenant_config tenants_toml read_to_string (tenant_config_path config))) (\<lambda>tenants.
     try_result (map_err (\<lambda>e. ''failed to load vendor config: '' @ config_error_to_string e)
       (load_vendor_config vendors_toml read_to_string (vendor_config_path config))) (\<lambda>vendors.
     Inr (build_admin_state (tenant_views tenants) (vendor_views vendors))))"

section \<open>Errors\<close>

fun admin_cache_status :: "cache_error \<Rightarrow> u16" where
  "admin_cache_status EmptyTenantId = 400"
| "admin_cache_status InvalidCacheKey = 400"
| "admin_cache_status (InvalidId m) = 400"
| "admin_cache_status NotFound = 404"
| "admin_cache_status (Conflict m) = 409"
| "admin_cache_status (QuotaExceeded m) = 503"
| "admin_cache_status (UpstreamUnavailable m) = 503"

definition cache_error_response :: "cache_error \<Rightarrow> http_reply" where
  "cache_error_response e = json_error (admin_cache_status e) (cache_error_to_string e)"

fun admin_error_response :: "admin_service_error \<Rightarrow> http_reply" where
  "admin_error_response (AdminForbidden a) = json_error 403 (admin_service_error_to_string (AdminForbidden a))"
| "admin_error_response (AdminNotFound r) = json_error 404 (admin_service_error_to_string (AdminNotFound r))"
| "admin_error_response (AdminCache e) = cache_error_response e"
| "admin_error_response (AdminAudit e) = json_error 500 (admin_service_error_to_string (AdminAudit e))"
| "admin_error_response AdminStateUnavailable = json_error 500 (admin_service_error_to_string AdminStateUnavailable)"

section \<open>JSON of the answers\<close>

definition node_view_json :: "node_view \<Rightarrow> json" where
  "node_view_json n = json_obj [(''node_id'', JString (nv_node_id n)), (''draining'', JBool (nv_draining n))]"

definition optional_json :: "string option \<Rightarrow> json" where
  "optional_json v = (case v of None \<Rightarrow> JNull | Some s \<Rightarrow> JString s)"

fun role_name :: "admin_role \<Rightarrow> string" where
  "role_name NoAccess = ''NoAccess''"
| "role_name Viewer = ''Viewer''"
| "role_name Operator = ''Operator''"
| "role_name Admin = ''Admin''"

fun audit_result_json :: "audit_result \<Rightarrow> json" where
  "audit_result_json AuditSuccess = JString ''Success''"
| "audit_result_json AuditDenied = JString ''Denied''"
| "audit_result_json (AuditFailed m) = json_obj [(''Failed'', JString m)]"

definition audit_event_json :: "audit_event \<Rightarrow> json" where
  "audit_event_json ev =
     json_obj [(''actor'', JString (ev_actor ev)), (''role'', JString (role_name (ev_role ev))),
       (''action'', JString (admin_action_debug (ev_action ev))), (''resource'', JString (ev_resource ev)),
       (''tenant_scope'', optional_json (ev_tenant_scope ev)),
       (''before_summary'', optional_json (ev_before_summary ev)),
       (''after_summary'', optional_json (ev_after_summary ev)),
       (''request_id'', JString (ev_request_id ev)),
       (''timestamp_ms'', JNumber (PosInt (ev_timestamp_ms ev))), (''result'', audit_result_json (ev_result ev))]"

definition admin_snapshot_json :: "admin_metrics_snapshot \<Rightarrow> json" where
  "admin_snapshot_json m =
     json_obj [(''audit_events_total'', JNumber (PosInt (ams_audit_events_total m))),
       (''audit_success_total'', JNumber (PosInt (ams_audit_success_total m))),
       (''audit_denied_total'', JNumber (PosInt (ams_audit_denied_total m))),
       (''audit_failed_total'', JNumber (PosInt (ams_audit_failed_total m))),
       (''action_counts'', JObject (map (\<lambda>(k, n). (k, JNumber (PosInt n))) (ams_action_counts m)))]"

section \<open>Handlers\<close>

type_synonym admin_handler = "admin_http_state \<Rightarrow> http_reply \<times> admin_http_state"

text \<open>The shape of the handlers: who asks, then one operation of the service.\<close>

definition with_context :: "string \<Rightarrow> header_map \<Rightarrow> (admin_request_context \<Rightarrow> admin_handler) \<Rightarrow> admin_handler" where
  "with_context fresh_id headers k s =
     (case admin_context fresh_id headers of
        Inl message \<Rightarrow> (json_error 400 message, s)
      | Inr context \<Rightarrow> k context s)"

definition on_service :: "'a admin_run \<Rightarrow> ('a \<Rightarrow> json) \<Rightarrow> admin_handler" where
  "on_service run body s =
     (case run (ah_service s) of
        (Inr x, service) \<Rightarrow> (json_reply 200 (body x), s\<lparr>ah_service := service\<rparr>)
      | (Inl e, service) \<Rightarrow> (admin_error_response e, s\<lparr>ah_service := service\<rparr>))"

definition handle_admin_metrics :: "string \<Rightarrow> u64 \<Rightarrow> header_map \<Rightarrow> admin_handler" where
  "handle_admin_metrics fresh_id now headers =
     with_context fresh_id headers (\<lambda>context. on_service (admin_metrics_snapshot_for now context) admin_snapshot_json)"

definition handle_audit_events :: "string \<Rightarrow> u64 \<Rightarrow> header_map \<Rightarrow> admin_handler" where
  "handle_audit_events fresh_id now headers =
     with_context fresh_id headers (\<lambda>context.
       on_service (audit_events now context) (\<lambda>events. JArray (map audit_event_json events)))"

definition handle_nodes :: "string \<Rightarrow> header_map \<Rightarrow> admin_handler" where
  "handle_nodes fresh_id headers =
     with_context fresh_id headers (\<lambda>context.
       on_service (list_nodes context) (\<lambda>nodes. JArray (map node_view_json nodes)))"

definition handle_tenants :: "admin_http_state \<Rightarrow> json" where
  "handle_tenants s = JArray (map tenant_view_json (ah_tenants s))"

definition handle_vendors :: "admin_http_state \<Rightarrow> json" where
  "handle_vendors s = JArray (map vendor_view_json (ah_vendors s))"

definition handle_alerts :: json where
  "handle_alerts = JArray []"

definition handle_drain_node :: "string \<Rightarrow> u64 \<Rightarrow> header_map \<Rightarrow> string \<Rightarrow> admin_handler" where
  "handle_drain_node fresh_id now headers node_id =
     with_context fresh_id headers (\<lambda>context. on_service (drain_node now context node_id) node_view_json)"

record fingerprint_debug_http_request =
  fh_tenant_id :: string
  fh_endpoint_version :: string
  fh_vendor_id :: string
  fh_resolved_model_version :: string
  fh_adapter_version :: string
  fh_cache_policy :: string
  fh_body :: json

definition handle_fingerprint_debug ::
  "serializer \<Rightarrow> (bytes \<Rightarrow> bytes) \<Rightarrow> string \<Rightarrow> u64 \<Rightarrow> header_map \<Rightarrow> fingerprint_debug_http_request \<Rightarrow> admin_handler" where
  "handle_fingerprint_debug to_vec sha256 fresh_id now headers request =
     with_context fresh_id headers (\<lambda>context s.
       case parse_tenant_id (fh_tenant_id request) of
         Inl e \<Rightarrow> (cache_error_response e, s)
       | Inr tenant_id \<Rightarrow>
           on_service (debug_cache_fingerprint to_vec sha256 now context
               \<lparr>fd_tenant_id = tenant_id, fd_endpoint_version = fh_endpoint_version request,
                fd_vendor_id = fh_vendor_id request, fd_resolved_model_version = fh_resolved_model_version request,
                fd_adapter_version = fh_adapter_version request, fd_cache_policy = fh_cache_policy request,
                fd_body = fh_body request\<rparr>)
             (\<lambda>key. json_obj [(''cache_key'', JString (key_as_str key))]) s)"

record purge_http_request =
  ph_tenant_id :: string
  ph_cache_key :: string

definition handle_cache_purge :: "string \<Rightarrow> u64 \<Rightarrow> header_map \<Rightarrow> purge_http_request \<Rightarrow> admin_handler" where
  "handle_cache_purge fresh_id now headers request =
     with_context fresh_id headers (\<lambda>context s.
       case parse_tenant_id (ph_tenant_id request) of
         Inl e \<Rightarrow> (cache_error_response e, s)
       | Inr tenant_id \<Rightarrow>
           (case cache_key_from_hex (ph_cache_key request) of
              Inl e \<Rightarrow> (cache_error_response e, s)
            | Inr cache_key \<Rightarrow>
                if ah_master_poisoned s then (json_error 500 ''master state is unavailable'', s)
                else case delete_cache_object now context tenant_id cache_key (ah_master s) (ah_service s) of
                    (Inr _, service, master) \<Rightarrow>
                      (json_reply 200 (json_obj [(''ok'', JBool True)]), s\<lparr>ah_service := service, ah_master := master\<rparr>)
                  | (Inl e, service, master) \<Rightarrow>
                      (admin_error_response e, s\<lparr>ah_service := service, ah_master := master\<rparr>)))"

definition handle_cache_warmup :: "string \<Rightarrow> header_map \<Rightarrow> http_reply" where
  "handle_cache_warmup fresh_id headers =
     (case admin_context fresh_id headers of
        Inl message \<Rightarrow> json_error 400 message
      | Inr context \<Rightarrow>
          if \<not> role_allows (cx_role context) WarmupCache
          then json_error 403 ''forbidden: WarmupCache requires elevated role''
          else json_reply 200 (json_obj
            [(''ok'', JBool True), (''status'', JString ''not_configured''),
             (''detail'', JString ''local warmup backend is not configured; no upstream warmup was performed'')]))"

definition admin_healthz :: json where
  "admin_healthz = json_obj [(''ok'', JBool True), (''service'', JString ''mooncache-admin-api'')]"

section \<open>Lemmas\<close>

text \<open>A caller who sends no role is an administrator.\<close>

lemma caller_without_role_is_admin:
  assumes "headers ''x-admin-role'' = None" and "headers ''x-admin-actor'' = None"
  shows "admin_context fresh_id headers = Inr \<lparr>cx_actor = ''local-admin'', cx_role = Admin, cx_request_id = fresh_id\<rparr>"
  using assms by (simp add: admin_context_def optional_header_def)

text \<open>Every request of the service: handlers that change its state, as steps.\<close>

inductive admin_http_reach :: "serializer \<Rightarrow> (bytes \<Rightarrow> bytes) \<Rightarrow> admin_http_state \<Rightarrow> bool"
  for to_vec sha256 where
  http_start: "admin_http_reach to_vec sha256 (build_admin_state tenants vendors)"
| http_metrics: "admin_http_reach to_vec sha256 s
    \<Longrightarrow> admin_http_reach to_vec sha256 (snd (handle_admin_metrics i now hs s))"
| http_audit: "admin_http_reach to_vec sha256 s
    \<Longrightarrow> admin_http_reach to_vec sha256 (snd (handle_audit_events i now hs s))"
| http_nodes: "admin_http_reach to_vec sha256 s \<Longrightarrow> admin_http_reach to_vec sha256 (snd (handle_nodes i hs s))"
| http_drain: "admin_http_reach to_vec sha256 s
    \<Longrightarrow> admin_http_reach to_vec sha256 (snd (handle_drain_node i now hs n s))"
| http_debug: "admin_http_reach to_vec sha256 s
    \<Longrightarrow> admin_http_reach to_vec sha256 (snd (handle_fingerprint_debug to_vec sha256 i now hs q s))"
| http_purge: "admin_http_reach to_vec sha256 s
    \<Longrightarrow> admin_http_reach to_vec sha256 (snd (handle_cache_purge i now hs p s))"

lemma with_context_keeps: "(\<And>context. P (snd (k context s))) \<Longrightarrow> P s \<Longrightarrow> P (snd (with_context i hs k s))"
  by (auto simp: with_context_def split: sum.splits)

lemma on_service_master [simp]:
  "ah_master (snd (on_service run body s)) = ah_master s"
  "ah_master_poisoned (snd (on_service run body s)) = ah_master_poisoned s"
  by (auto simp: on_service_def split: prod.splits sum.splits)

text \<open>What the private master of the service holds: no objects at any time.\<close>

definition no_objects :: "admin_http_state \<Rightarrow> bool" where
  "no_objects s \<longleftrightarrow> objects (ah_master s) = [] \<and> \<not> ah_master_poisoned s"

lemma no_objects_on_service [simp]: "no_objects (snd (on_service run body s)) \<longleftrightarrow> no_objects s"
  by (simp add: no_objects_def)

lemma delete_empty: "objects m = [] \<Longrightarrow> snd (snd (delete_cache_object now context t k m s)) = m"
  by (auto simp: delete_cache_object_def remove_def Let_def split: prod.splits)

lemma purge_no_objects: "no_objects s \<Longrightarrow> no_objects (snd (handle_cache_purge i now hs p s))"
  unfolding handle_cache_purge_def
  by (rule with_context_keeps)
     (auto simp: no_objects_def split: sum.splits prod.splits dest!: arg_cong [where f = "\<lambda>x. snd (snd x)"] simp: delete_empty)

lemma admin_http_no_objects: "admin_http_reach to_vec sha256 s \<Longrightarrow> no_objects s"
proof (induction rule: admin_http_reach.induct)
  case (http_start tenants vendors)
  show ?case by (simp add: no_objects_def build_admin_state_def mount_segment_def master_new_def)
qed (simp_all add: purge_no_objects handle_admin_metrics_def handle_audit_events_def handle_nodes_def
    handle_drain_node_def handle_fingerprint_debug_def with_context_def split: sum.split)

text \<open>
  C39: The purge of the admin service works on a master of its own and not on the control plane
  of the cache. In every state the service reaches, whatever is cached, a purge with valid
  names by a caller whose role allows it answers 404.
\<close>

theorem purge_finds_nothing:
  assumes "admin_http_reach to_vec sha256 s" and "service_available (ah_service s)"
    and "admin_context i hs = Inr context" and "role_allows (cx_role context) RemoveCacheObject"
    and "parse_tenant_id (ph_tenant_id p) = Inr t" and "cache_key_from_hex (ph_cache_key p) = Inr k"
  shows "fst (handle_cache_purge i now hs p s) = json_error 404 ''not found''"
proof -
  have empty: "objects (ah_master s) = []" "\<not> ah_master_poisoned s"
    using admin_http_no_objects [OF assms(1)] by (simp_all add: no_objects_def)
  obtain r service master where del:
    "delete_cache_object now context t k (ah_master s) (ah_service s) = (r, service, master)"
    by (metis prod_cases3)
  have "r = Inl (AdminCache NotFound)"
    using delete_audited(4) [OF assms(2) del assms(4)] empty by (simp add: remove_def)
  then show ?thesis
    using assms(3) empty del
    unfolding handle_cache_purge_def with_context_def assms(3,5,6)
    by (simp add: cache_error_response_def)
qed

section \<open>Examples\<close>

theorem purge_finds_nothing_witness:
  "fst (handle_cache_purge ''id'' 0 (\<lambda>_. None) \<lparr>ph_tenant_id = ''t'', ph_cache_key = replicate 64 (CHR ''0'')\<rparr>
     (build_admin_state [] [])) = json_error 404 ''not found''"
proof -
  have t: "trim ''t'' \<noteq> []" by code_simp
  have k: "valid_key_text (replicate 64 (CHR ''0''))"
    by (simp add: valid_key_text_def is_lower_hex_def list_all_iff)
  have avail: "service_available (ah_service (build_admin_state [] []))"
    by (simp add: build_admin_state_def service_available_def admin_service_new_for_test_def)
  show ?thesis
    by (rule purge_finds_nothing [OF http_start [of example_encode id] avail caller_without_role_is_admin])
       (use t k in simp_all)
qed

end
