(* ===== verification/Startup.thy ===== *)
theory Startup
imports Service_Http Admin_App
begin

text \<open>
  The four programs from the command line to the listener: usage texts, the printed
  configuration, \<^verbatim>\<open>run_server\<close>, \<^verbatim>\<open>main\<close> with its exit codes, and the route tables of the gateway and
  the admin service. What the operating system does with the listener, the names
  \<^verbatim>\<open>std::any::type_name\<close> gives and the \<^verbatim>\<open>Debug\<close> form of a string are arguments.
\<close>

section \<open>Routes of the gateway and the admin service\<close>

record header_request = service_request +
  sq_headers :: header_map

type_synonym http_answer = "rejection + http_reply"

definition gateway_router ::
  "header_rules \<Rightarrow> request_env \<Rightarrow> 'w gateway_state \<Rightarrow> header_request \<Rightarrow> 'w gateway_run \<Rightarrow> http_answer \<times> 'w gateway_run" where
  "gateway_router rules env state req =
     (if sq_path req = ''/healthz'' then on_route MethodGet req (Inr ()) (\<lambda>_ s. (json_reply 200 gateway_healthz, s))
      else if sq_path req = ''/metrics/snapshot''
      then on_route MethodGet req (Inr ()) (\<lambda>_ s. (json_reply 200 (gateway_metrics_json s), s))
      else if sq_path req = ''/v1/responses''
      then on_route MethodPost req (Inr (sq_body req)) (responses rules env state (sq_headers req))
      else (\<lambda>s. (Inl NoRoute, s)))"

definition fingerprint_debug_request_from_value :: "json \<Rightarrow> fingerprint_debug_http_request option" where
  "fingerprint_debug_request_from_value v =
     (case json_struct [''tenant_id'', ''endpoint_version'', ''vendor_id'', ''resolved_model_version'',
              ''adapter_version'', ''cache_policy'', ''body''] v of
        Some [t, e, vid, m, a, p, b] \<Rightarrow>
          (case (Option.bind t json_as_str, Option.bind e json_as_str, Option.bind vid json_as_str,
                 Option.bind m json_as_str, Option.bind a json_as_str, Option.bind p json_as_str, b) of
             (Some t, Some e, Some vid, Some m, Some a, Some p, Some b) \<Rightarrow>
               Some \<lparr>fh_tenant_id = t, fh_endpoint_version = e, fh_vendor_id = vid, fh_resolved_model_version = m,
                     fh_adapter_version = a, fh_cache_policy = p, fh_body = b\<rparr>
           | _ \<Rightarrow> None)
      | _ \<Rightarrow> None)"

definition purge_request_from_value :: "json \<Rightarrow> purge_http_request option" where
  "purge_request_from_value v =
     (case json_struct [''tenant_id'', ''cache_key''] v of
        Some [t, k] \<Rightarrow>
          (case (Option.bind t json_as_str, Option.bind k json_as_str) of
             (Some t, Some k) \<Rightarrow> Some \<lparr>ph_tenant_id = t, ph_cache_key = k\<rparr>
           | _ \<Rightarrow> None)
      | _ \<Rightarrow> None)"

text \<open>\<^verbatim>\<open>/admin/nodes/{node_id}/drain\<close>: the segment in the middle, which is not empty.\<close>

definition drain_segment :: "string \<Rightarrow> string option" where
  "drain_segment path =
     (case strip_prefix ''/admin/nodes/'' path of
        None \<Rightarrow> None
      | Some rest \<Rightarrow>
          (case split_on (CHR ''/'') rest of
             [node_id, action] \<Rightarrow> if node_id \<noteq> [] \<and> action = ''drain'' then Some node_id else None
           | _ \<Rightarrow> None))"

definition admin_router ::
  "serializer \<Rightarrow> (bytes \<Rightarrow> bytes) \<Rightarrow> (string \<Rightarrow> string) \<Rightarrow> string \<Rightarrow> u64 \<Rightarrow> header_request \<Rightarrow> admin_http_state
   \<Rightarrow> http_answer \<times> admin_http_state" where
  "admin_router to_vec sha256 decode fresh_id now req =
     (let hs = sq_headers req
      in if sq_path req = ''/healthz'' then on_route MethodGet req (Inr ()) (\<lambda>_ s. (json_reply 200 admin_healthz, s))
         else if sq_path req = ''/admin/metrics''
         then on_route MethodGet req (Inr ()) (\<lambda>_. handle_admin_metrics fresh_id now hs)
         else if sq_path req = ''/admin/audit-events''
         then on_route MethodGet req (Inr ()) (\<lambda>_. handle_audit_events fresh_id now hs)
         else if sq_path req = ''/admin/nodes'' then on_route MethodGet req (Inr ()) (\<lambda>_. handle_nodes fresh_id hs)
         else if sq_path req = ''/admin/tenants''
         then on_route MethodGet req (Inr ()) (\<lambda>_ s. (json_reply 200 (handle_tenants s), s))
         else if sq_path req = ''/admin/vendors''
         then on_route MethodGet req (Inr ()) (\<lambda>_ s. (json_reply 200 (handle_vendors s), s))
         else if sq_path req = ''/admin/alerts''
         then on_route MethodGet req (Inr ()) (\<lambda>_ s. (json_reply 200 handle_alerts, s))
         else if sq_path req = ''/admin/cache/fingerprint/debug''
         then on_route MethodPost req (ok_or (fingerprint_debug_request_from_value (sq_body req)) BadBody)
                (handle_fingerprint_debug to_vec sha256 fresh_id now hs)
         else if sq_path req = ''/admin/cache/purge''
         then on_route MethodPost req (ok_or (purge_request_from_value (sq_body req)) BadBody)
                (handle_cache_purge fresh_id now hs)
         else if sq_path req = ''/admin/cache/warmup''
         then on_route MethodPost req (Inr ()) (\<lambda>_ s. (handle_cache_warmup fresh_id hs, s))
         else case drain_segment (sq_path req) of
             Some node_id \<Rightarrow> on_route MethodPost req (Inr (decode node_id)) (handle_drain_node fresh_id now hs)
           | None \<Rightarrow> (\<lambda>s. (Inl NoRoute, s)))"

section \<open>Texts\<close>

definition newline :: string where
  "newline = [CHR 0x0A]"

record service_identity =
  si_name :: string
  si_package :: string
  si_constants :: service_constants

definition master_identity :: service_identity where
  "master_identity =
     \<lparr>si_name = ''mooncache-master'', si_package = ''mooncache-master-app'', si_constants = master_constants\<rparr>"

definition store_node_identity :: service_identity where
  "store_node_identity =
     \<lparr>si_name = ''mooncache-store-node'', si_package = ''mooncache-store-node-app'', si_constants = store_node_constants\<rparr>"

definition admin_identity :: service_identity where
  "admin_identity =
     \<lparr>si_name = ''mooncache-admin-api'', si_package = ''mooncache-admin-api-app'', si_constants = admin_constants\<rparr>"

text \<open>One line of the options: the flag in its column, what it sets, and where its default comes from.\<close>

definition usage_line :: "string \<Rightarrow> string \<Rightarrow> string \<Rightarrow> string \<Rightarrow> string \<Rightarrow> string" where
  "usage_line env_prefix column what var default_value =
     ''  '' @ column @ what @ '' [env: '' @ env_prefix @ ''_'' @ var @ '' or MOONCACHE_'' @ var @ ''] [default: ''
     @ default_value @ '']'' @ newline"

definition usage_head :: "string \<Rightarrow> string \<Rightarrow> string" where
  "usage_head service package =
     service @ newline @ newline @ ''Usage: cargo run -p '' @ package @ '' -- [OPTIONS]'' @ newline @ newline
     @ ''Options:'' @ newline"

definition usage :: "service_identity \<Rightarrow> string" where
  "usage si =
     (let sc = si_constants si; line = usage_line (service_env_prefix sc)
      in usage_head (si_name si) (si_package si)
         @ line ''--bind-addr <ADDR>           '' ''API bind address'' ''BIND_ADDR'' (default_bind_addr sc)
         @ line ''--etcd-url <URL>             '' ''Etcd endpoint URL'' ''ETCD_URL'' ''http://127.0.0.1:2379''
         @ line ''--tenant-config <PATH>       '' ''Tenant config path'' ''TENANT_CONFIG'' ''config/tenants.toml''
         @ line ''--ssd-root <PATH>            '' ''SSD root path'' ''SSD_ROOT'' ''/var/lib/mooncache/ssd''
         @ line ''--metrics-bind-addr <ADDR>   '' ''Metrics bind address'' ''METRICS_BIND_ADDR''
             (default_metrics_bind_addr sc)
         @ line ''--vendor-config <PATH>       '' ''Vendor config path'' ''VENDOR_CONFIG'' ''config/vendors.toml''
         @ ''  -h, --help                   Print help and exit'' @ newline)"

definition master_usage :: string where
  "master_usage = usage master_identity"

definition store_node_usage :: string where
  "store_node_usage = usage store_node_identity"

definition admin_usage :: string where
  "admin_usage = usage admin_identity"

definition gateway_usage :: string where
  "gateway_usage =
     (let line = usage_line ''MOONCACHE_GATEWAY''
      in usage_head ''mooncache-gateway'' ''mooncache-gateway-app''
         @ line ''--bind-addr <ADDR>           '' ''API bind address'' ''BIND_ADDR'' ''0.0.0.0:8080''
         @ line ''--etcd-url <URL>             '' ''Etcd endpoint URL'' ''ETCD_URL'' ''http://127.0.0.1:2379''
         @ line ''--master-url <URL>           '' ''Master API URL'' ''MASTER_URL'' ''http://127.0.0.1:8081''
         @ line ''--store-nodes <NODE=URL,..>  '' ''Store node URLs'' ''STORE_NODES'' ''default=http://127.0.0.1:8082''
         @ ''  --store-node <NODE=URL>      Add or replace one store node URL; may repeat'' @ newline
         @ line ''--tenant-config <PATH>       '' ''Tenant config path'' ''TENANT_CONFIG'' ''config/tenants.toml''
         @ line ''--ssd-root <PATH>            '' ''SSD root path'' ''SSD_ROOT'' ''/var/lib/mooncache/ssd''
         @ line ''--metrics-bind-addr <ADDR>   '' ''Metrics bind address'' ''METRICS_BIND_ADDR'' ''0.0.0.0:9090''
         @ line ''--vendor-config <PATH>       '' ''Vendor config path'' ''VENDOR_CONFIG'' ''config/vendors.toml''
         @ ''  -h, --help                   Print help'' @ newline)"

definition config_line :: "string \<Rightarrow> string \<Rightarrow> string" where
  "config_line name val = ''  '' @ name @ ''='' @ val @ newline"

definition print_resolved_config :: "string \<Rightarrow> string \<Rightarrow> app_config \<Rightarrow> string" where
  "print_resolved_config service core_crate config =
     service @ '' resolved config:'' @ newline
     @ config_line ''bind_addr'' (bind_addr config) @ config_line ''etcd_url'' (etcd_url config)
     @ config_line ''tenant_config_path'' (tenant_config_path config)
     @ config_line ''ssd_root_path'' (ssd_root_path config)
     @ config_line ''metrics_bind_addr'' (metrics_bind_addr config)
     @ config_line ''vendor_config_path'' (vendor_config_path config) @ config_line ''core_crate'' core_crate"

definition master_print_config :: "string \<Rightarrow> app_config \<Rightarrow> string" where
  "master_print_config = print_resolved_config (si_name master_identity)"

definition store_node_print_config :: "string \<Rightarrow> app_config \<Rightarrow> string" where
  "store_node_print_config = print_resolved_config (si_name store_node_identity)"

definition admin_print_config :: "string \<Rightarrow> app_config \<Rightarrow> string" where
  "admin_print_config = print_resolved_config (si_name admin_identity)"

definition debug_map :: "(string \<Rightarrow> string) \<Rightarrow> (string, string) btree_map \<Rightarrow> string" where
  "debug_map debug m = ''{'' @ join '', '' (map (\<lambda>(k, v). debug k @ '': '' @ debug v) m) @ ''}''"

definition gateway_print_config :: "(string \<Rightarrow> string) \<Rightarrow> string \<Rightarrow> gateway_app_config \<Rightarrow> string" where
  "gateway_print_config debug core_crate config =
     ''mooncache-gateway resolved config:'' @ newline
     @ config_line ''bind_addr'' (ga_bind_addr config) @ config_line ''etcd_url'' (ga_etcd_url config)
     @ config_line ''master_url'' (ga_master_url config)
     @ config_line ''store_node_urls'' (debug_map debug (ga_store_node_urls config))
     @ config_line ''tenant_config_path'' (ga_tenant_config_path config)
     @ config_line ''ssd_root_path'' (ga_ssd_root_path config)
     @ config_line ''metrics_bind_addr'' (ga_metrics_bind_addr config)
     @ config_line ''vendor_config_path'' (ga_vendor_config_path config) @ config_line ''core_crate'' core_crate"

section \<open>The listener\<close>

text \<open>What the system answers: an error of \<^verbatim>\<open>bind\<close>, the bound address, and how serving ended.\<close>

record listener_env =
  le_bind :: "string \<Rightarrow> string option"
  le_local_addr :: "string + string"
  le_serve :: "string + unit"

text \<open>A run prints and ends with a result.\<close>

type_synonym 'a printed = "string \<times> (string + 'a)"

definition printed_then :: "'a printed \<Rightarrow> ('a \<Rightarrow> 'b printed) \<Rightarrow> 'b printed" where
  "printed_then r k =
     (case r of
        (out, Inl e) \<Rightarrow> (out, Inl e)
      | (out, Inr x) \<Rightarrow> (case k x of (out', r') \<Rightarrow> (out @ out', r')))"

definition listen :: "listener_env \<Rightarrow> string \<Rightarrow> string \<Rightarrow> unit printed" where
  "listen le service addr =
     (case le_bind le addr of
        Some e \<Rightarrow> ([], Inl (''failed to bind '' @ addr @ '': '' @ e))
      | None \<Rightarrow>
          (case le_local_addr le of
             Inl e \<Rightarrow> ([], Inl (''failed to read bound address: '' @ e))
           | Inr local_addr \<Rightarrow> (service @ '' listening on '' @ local_addr @ newline, Inr ())))"

definition serve_router :: "listener_env \<Rightarrow> 'r \<Rightarrow> unit printed" where
  "serve_router le router = ([], map_err (\<lambda>e. ''server error: '' @ e) (le_serve le))"

text \<open>The gateway, the admin service and the store node listen first; the master builds its state first.\<close>

definition run_listening_first :: "listener_env \<Rightarrow> string \<Rightarrow> string \<Rightarrow> string \<Rightarrow> string + 'r \<Rightarrow> unit printed" where
  "run_listening_first le service addr config_text router =
     printed_then (config_text, Inr ()) (\<lambda>_.
     printed_then (listen le service addr) (\<lambda>_.
     printed_then ([], router) (serve_router le)))"

definition run_building_first :: "listener_env \<Rightarrow> string \<Rightarrow> string \<Rightarrow> string \<Rightarrow> string + 'r \<Rightarrow> unit printed" where
  "run_building_first le service addr config_text router =
     printed_then (config_text, Inr ()) (\<lambda>_.
     printed_then ([], router) (\<lambda>r.
     printed_then (listen le service addr) (\<lambda>_. serve_router le r)))"

definition build_router_with_ssd_root ::
  "environment \<Rightarrow> io_env \<Rightarrow> std_format \<Rightarrow> path \<Rightarrow> string + store_node_state" where
  "build_router_with_ssd_root getenv env f root =
     try_result (ssd_key_from_env getenv) (\<lambda>key.
       map_err (\<lambda>e. ''failed to initialize SSD tier: '' @ ssd_error_to_string f e)
         (node_with_ssd env 1048576 root 1048576 key))"

definition master_run_server ::
  "listener_env \<Rightarrow> 'w http \<Rightarrow> etcd_codec \<Rightarrow> string \<Rightarrow> 'w \<Rightarrow> app_config \<Rightarrow> unit printed" where
  "master_run_server le http c core_crate w config =
     run_building_first le ''mooncache-master'' (bind_addr config)
       (master_print_config core_crate config)
       (fst (build_from_config http c (etcd_url config) (bind_addr config) w))"

definition store_node_run_server ::
  "listener_env \<Rightarrow> environment \<Rightarrow> io_env \<Rightarrow> std_format \<Rightarrow> (string \<Rightarrow> path) \<Rightarrow> string \<Rightarrow> app_config \<Rightarrow> unit printed" where
  "store_node_run_server le getenv env f components core_crate config =
     run_listening_first le ''mooncache-store-node'' (bind_addr config)
       (store_node_print_config core_crate config)
       (build_router_with_ssd_root getenv env f (components (ssd_root_path config)))"

definition admin_run_server ::
  "listener_env \<Rightarrow> (string \<Rightarrow> string + raw_tenant_config list) \<Rightarrow> (string \<Rightarrow> string + raw_vendor_config list)
   \<Rightarrow> (string \<Rightarrow> string + string) \<Rightarrow> string \<Rightarrow> app_config \<Rightarrow> unit printed" where
  "admin_run_server le tenants_toml vendors_toml read_to_string core_crate config =
     run_listening_first le ''mooncache-admin-api'' (bind_addr config)
       (admin_print_config core_crate config)
       (build_admin_state_from_config tenants_toml vendors_toml read_to_string config)"

definition gateway_run_server ::
  "listener_env \<Rightarrow> 'w gateway_startup \<Rightarrow> (string \<Rightarrow> string) \<Rightarrow> string \<Rightarrow> gateway_app_config \<Rightarrow> unit printed" where
  "gateway_run_server le io debug core_crate config =
     run_listening_first le ''mooncache-gateway'' (ga_bind_addr config) (gateway_print_config debug core_crate config)
       (build_gateway_state_from_config io config)"

section \<open>The programs\<close>

record process_end =
  pe_stdout :: string
  pe_stderr :: string
  pe_exit :: nat

definition service_main :: "string \<Rightarrow> string + 'c parsed_config \<Rightarrow> ('c \<Rightarrow> unit printed) \<Rightarrow> process_end" where
  "service_main usage_text parsed run_server =
     (case parsed of
        Inr Help \<Rightarrow> \<lparr>pe_stdout = usage_text, pe_stderr = [], pe_exit = 0\<rparr>
      | Inr (Run config) \<Rightarrow>
          (case run_server config of
             (out, Inr _) \<Rightarrow> \<lparr>pe_stdout = out, pe_stderr = [], pe_exit = 0\<rparr>
           | (out, Inl e) \<Rightarrow> \<lparr>pe_stdout = out, pe_stderr = ''error: '' @ e @ newline, pe_exit = 1\<rparr>)
      | Inl e \<Rightarrow> \<lparr>pe_stdout = [], pe_stderr = ''error: '' @ e @ newline @ newline @ usage_text @ newline, pe_exit = 2\<rparr>)"

definition master_main ::
  "environment \<Rightarrow> listener_env \<Rightarrow> 'w http \<Rightarrow> etcd_codec \<Rightarrow> string \<Rightarrow> 'w \<Rightarrow> string list \<Rightarrow> process_end" where
  "master_main getenv le http c core_crate w args =
     service_main master_usage (master_parse_config getenv args) (master_run_server le http c core_crate w)"

definition store_node_main ::
  "environment \<Rightarrow> listener_env \<Rightarrow> io_env \<Rightarrow> std_format \<Rightarrow> (string \<Rightarrow> path) \<Rightarrow> string \<Rightarrow> string list \<Rightarrow> process_end" where
  "store_node_main getenv le env f components core_crate args =
     service_main store_node_usage (store_node_parse_config getenv args)
       (store_node_run_server le getenv env f components core_crate)"

definition admin_main ::
  "environment \<Rightarrow> listener_env \<Rightarrow> (string \<Rightarrow> string + raw_tenant_config list)
   \<Rightarrow> (string \<Rightarrow> string + raw_vendor_config list) \<Rightarrow> (string \<Rightarrow> string + string) \<Rightarrow> string \<Rightarrow> string list \<Rightarrow> process_end" where
  "admin_main getenv le tenants_toml vendors_toml read_to_string core_crate args =
     service_main admin_usage (admin_parse_config getenv args)
       (admin_run_server le tenants_toml vendors_toml read_to_string core_crate)"

definition gateway_main ::
  "environment \<Rightarrow> listener_env \<Rightarrow> 'w gateway_startup \<Rightarrow> (string \<Rightarrow> string) \<Rightarrow> string \<Rightarrow> string list \<Rightarrow> process_end" where
  "gateway_main getenv le io debug core_crate args =
     service_main gateway_usage (gateway_parse_config getenv args) (gateway_run_server le io debug core_crate)"

section \<open>States for tests\<close>

definition mock_vendor :: "(json \<Rightarrow> string) \<Rightarrow> json \<Rightarrow> 'w vendor_adapter" where
  "mock_vendor to_string body =
     \<lparr>va_vendor_id = ''mock'', va_adapter_version = ''mock-v1'', va_model_cache_eligible = (\<lambda>_. True),
      va_resolve_model_version = (\<lambda>requested_model w. (Inr requested_model, w)),
      va_complete = (\<lambda>_ w. (Inr body, w)),
      va_stream = (\<lambda>_ w. (Inr [Inr \<lparr>sse_name = Some ''response.completed'', sse_data = to_string body\<rparr>], w))\<rparr>"

definition build_gateway_state ::
  "(bytes \<Rightarrow> bytes) \<Rightarrow> (json \<Rightarrow> string) \<Rightarrow> u64 \<Rightarrow> local_world gateway_state \<times> local_world" where
  "build_gateway_state sha256 to_string now =
     (gateway_new_for_test sha256 (mock_vendor to_string (json_obj
        [(''id'', JString ''resp_local_test''), (''output_text'', JString ''hello from mooncache local gateway'')])),
      \<lparr>lw_master = snd (set_tenant_quota ''test-tenant'' 1048576 0 (mount_segment ''local-store'' 1048576 master_new)),
       lw_store = memory_with_capacity 1048576, lw_now = now\<rparr>)"

definition master_build_with_state ::
  "master_state \<Rightarrow> master_metadata_snapshot option master_app_state \<times> master_metadata_snapshot option master_run" where
  "master_build_with_state m =
     (\<lparr>ma_metadata = memory_metadata, ma_leadership = leadership_leader ''local''\<rparr>, \<lparr>mr_master = m, mr_world = None\<rparr>)"

definition master_build_with_metadata ::
  "master_metadata_snapshot option \<Rightarrow> leadership_state
   \<Rightarrow> master_metadata_snapshot option master_app_state \<times> master_metadata_snapshot option master_run" where
  "master_build_with_metadata cell leadership =
     (let st = (case cell of None \<Rightarrow> master_new | Some snap \<Rightarrow> from_metadata_snapshot snap);
          st = mount_segment ''node-0'' 1048576 st
      in (\<lparr>ma_metadata = memory_metadata, ma_leadership = leadership\<rparr>, \<lparr>mr_master = st, mr_world = cell\<rparr>))"

definition build_admin_state_for_test :: admin_http_state where
  "build_admin_state_for_test =
     build_admin_state
       [\<lparr>tv_tenant_id = ''test-tenant'', tv_api_key_ref = ''sha256:e46ea83e'' @ ellipsis,
         tv_dram_quota_bytes = 1073741824, tv_ssd_quota_bytes = 10737418240,
         tv_request_rate_limit_per_minute = 12000, tv_stream_concurrency_limit = 80,
         tv_vendor_spend_budget_usd = 5000, tv_default_ttl_seconds = 86400, tv_policy = ''cache_first''\<rparr>]
       [\<lparr>vv_vendor_id = ''mock'', vv_health = ''healthy'', vv_models = [''gpt-test''], vv_resolved_version = ''mock-v1'',
         vv_rate_limit_remaining = 0, vv_error_rate = Float 0, vv_retry_count = 0,
         vv_cost_per_million_tokens_usd = Float 0, vv_routing_policy = ''mock''\<rparr>]"

section \<open>Lemmas\<close>

text \<open>The exit code tells what happened: a refused command line is 2, a failed run is 1.\<close>

lemma service_main_exit:
  "pe_exit (service_main usage_text parsed run_server) = 2 \<longleftrightarrow> (\<exists>e. parsed = Inl e)"
  "pe_exit (service_main usage_text parsed run_server) = 1 \<longleftrightarrow> (\<exists>c out e. parsed = Inr (Run c) \<and> run_server c = (out, Inl e))"
  "pe_exit (service_main usage_text parsed run_server) \<le> 2"
  by (cases parsed; auto simp: service_main_def split: parsed_config.splits prod.splits sum.splits)+

lemma printed_then_Inr:
  "printed_then r k = (out, Inr y) \<longleftrightarrow>
     (\<exists>o1 x o2. r = (o1, Inr x) \<and> k x = (o2, Inr y) \<and> out = o1 @ o2)"
  by (auto simp: printed_then_def split: prod.splits sum.splits)

text \<open>A server that ends well has built its state and was bound to the configured address.\<close>

lemma run_server_ok:
  "run_listening_first le service addr txt router = (out, Inr u) \<Longrightarrow> (\<exists>r. router = Inr r) \<and> le_bind le addr = None"
  "run_building_first le service addr txt router = (out, Inr u) \<Longrightarrow> (\<exists>r. router = Inr r) \<and> le_bind le addr = None"
  by (auto simp: run_listening_first_def run_building_first_def printed_then_Inr listen_def split: option.splits)

text \<open>Only a request for answers reaches the flow of the gateway.\<close>

lemma gateway_router_flow:
  assumes "gateway_router rules env state req s = (answer, s')" and "s' \<noteq> s"
  shows "sq_path req = ''/v1/responses'' \<and> sq_method req = MethodPost
    \<and> (\<exists>reply. answer = Inr reply \<and> responses rules env state (sq_headers req) (sq_body req) s = (reply, s'))"
  using assms by (auto simp: gateway_router_def on_route_def split: if_splits prod.splits)

text \<open>Every request to the admin service is a step of it, or changes nothing.\<close>

lemma admin_router_reach:
  assumes "admin_http_reach to_vec sha256 s"
  shows "admin_http_reach to_vec sha256 (snd (admin_router to_vec sha256 decode fresh_id now req s))"
proof -
  note step = admin_http_reach.intros(2-) [OF assms]
  note route = on_route_keeps [where Q = "admin_http_reach to_vec sha256", OF assms]
  have drain: "admin_http_reach to_vec sha256 (snd ((case drain_segment (sq_path req) of
      Some node_id \<Rightarrow> on_route MethodPost req (Inr (decode node_id)) (handle_drain_node fresh_id now (sq_headers req))
    | None \<Rightarrow> (\<lambda>s. (Inl NoRoute, s))) s))"
    by (cases "drain_segment (sq_path req)") (simp_all add: assms route step)
  show ?thesis
    unfolding admin_router_def Let_def
    by (intro if_keeps [where Q = "admin_http_reach to_vec sha256"] route drain) (simp_all only: step assms snd_conv)
qed

section \<open>The audit log of the admin service\<close>

text \<open>The action a request asks for, when it is one that the service records.\<close>

definition audited_request :: "(string \<Rightarrow> string) \<Rightarrow> header_request \<Rightarrow> admin_action option" where
  "audited_request decode req =
     (if sq_path req = ''/admin/metrics'' then (if sq_method req = MethodGet then Some ReadMetrics else None)
      else if sq_path req = ''/admin/audit-events'' then (if sq_method req = MethodGet then Some ReadAuditLog else None)
      else if sq_path req = ''/admin/cache/fingerprint/debug''
      then (case fingerprint_debug_request_from_value (sq_body req) of
              Some q \<Rightarrow> if sq_method req = MethodPost \<and> is_ok (parse_tenant_id (fh_tenant_id q))
                        then Some DebugCacheFingerprint else None
            | None \<Rightarrow> None)
      else if sq_path req = ''/admin/cache/purge''
      then (case purge_request_from_value (sq_body req) of
              Some p \<Rightarrow> if sq_method req = MethodPost \<and> is_ok (parse_tenant_id (ph_tenant_id p))
                           \<and> is_ok (cache_key_from_hex (ph_cache_key p))
                        then Some RemoveCacheObject else None
            | None \<Rightarrow> None)
      else if drain_segment (sq_path req) \<noteq> None then (if sq_method req = MethodPost then Some DrainNode else None)
      else None)"

definition request_logged ::
  "admin_request_context \<Rightarrow> u64 \<Rightarrow> admin_action \<Rightarrow> admin_http_state \<Rightarrow> http_reply \<Rightarrow> admin_http_state \<Rightarrow> bool" where
  "request_logged context now action s reply s' \<longleftrightarrow>
     (\<exists>res. logs context now action res (ah_service s) (ah_service s')
        \<and> (res = AuditSuccess \<longleftrightarrow> hr_status reply = 200) \<and> (res = AuditDenied \<longleftrightarrow> hr_status reply = 403)
        \<and> (res = AuditDenied \<longleftrightarrow> \<not> role_allows (cx_role context) action))
     \<and> (\<not> role_allows (cx_role context) action \<longrightarrow>
          as_nodes (ah_service s') = as_nodes (ah_service s) \<and> ah_master s' = ah_master s)"

lemma admin_error_status:
  "hr_status (admin_error_response e) \<noteq> 200"
  "hr_status (admin_error_response e) = 403 \<longleftrightarrow> (\<exists>a. e = AdminForbidden a)"
proof -
  have "admin_cache_status c \<notin> {200, 403}" for c by (cases c) simp_all
  then show "hr_status (admin_error_response e) \<noteq> 200"
    "hr_status (admin_error_response e) = 403 \<longleftrightarrow> (\<exists>a. e = AdminForbidden a)"
    by (cases e; simp add: json_error_def json_reply_def cache_error_response_def)+
qed

lemma audited_reply:
  assumes "audited_run context now action (ah_service s) r service"
    and "hr_status reply = (case r of Inr _ \<Rightarrow> 200 | Inl e \<Rightarrow> hr_status (admin_error_response e))"
    and "ah_service s' = service" and "\<not> role_allows (cx_role context) action \<Longrightarrow> ah_master s' = ah_master s"
  shows "request_logged context now action s reply s'"
proof -
  have "outcome r = AuditSuccess \<longleftrightarrow> hr_status reply = 200"
    using assms(2) admin_error_status(1) by (cases r rule: outcome.cases) (simp_all del: admin_error_response.simps)
  moreover have "outcome r = AuditDenied \<longleftrightarrow> (\<exists>a. r = Inl (AdminForbidden a))"
    by (cases r rule: outcome.cases) simp_all
  moreover have "hr_status reply = 403 \<longleftrightarrow> (\<exists>a. r = Inl (AdminForbidden a))"
    using assms(2) admin_error_status(2) by (cases r) (simp_all del: admin_error_response.simps)
  ultimately show ?thesis
    using assms(1,3,4) by (auto simp: request_logged_def audited_run_def split: if_splits)
qed

lemma on_service_logged:
  assumes "\<And>r service. run (ah_service s) = (r, service) \<Longrightarrow> audited_run context now action (ah_service s) r service"
  shows "request_logged context now action s (fst (on_service run body s)) (snd (on_service run body s))"
proof -
  obtain r service where run: "run (ah_service s) = (r, service)" by fastforce
  show ?thesis
    by (rule audited_reply [OF assms [OF run]])
       (use run in \<open>auto simp: on_service_def json_reply_def simp del: admin_error_response.simps split: sum.splits\<close>)
qed

lemma purge_logged:
  assumes "service_available (ah_service s)" and "\<not> ah_master_poisoned s" and "admin_context i hs = Inr context"
    and "parse_tenant_id (ph_tenant_id p) = Inr t" and "cache_key_from_hex (ph_cache_key p) = Inr k"
  shows "request_logged context now RemoveCacheObject s (fst (handle_cache_purge i now hs p s))
    (snd (handle_cache_purge i now hs p s))"
proof -
  obtain r service master where del:
    "delete_cache_object now context t k (ah_master s) (ah_service s) = (r, service, master)" by (metis prod_cases3)
  have master: "master = ah_master s" if "\<not> role_allows (cx_role context) RemoveCacheObject"
    using delete_audited(3) [OF assms(1) del] that by simp
  show ?thesis
    unfolding handle_cache_purge_def with_context_def assms(3-5) sum.case if_not_P [OF assms(2)] del prod.case
    by (rule audited_reply [OF delete_audited(1) [OF assms(1) del]])
       (auto simp: json_reply_def master simp del: admin_error_response.simps split: sum.splits)
qed

text \<open>A request that the service does not record leaves everything as it is.\<close>

lemma on_service_list [simp]: "snd (on_service (list_nodes context) body s) = s"
  using list_nodes_keeps [of "context" "ah_service s"]
  by (auto simp: on_service_def simp del: list_nodes_keeps split: prod.splits sum.splits)

lemma on_route_cases:
  "on_route m req extracted handler s =
     (if sq_method req = m
      then (case extracted of Inl e \<Rightarrow> (Inl e, s) | Inr x \<Rightarrow> (Inr (fst (handler x s)), snd (handler x s)))
      else (Inl NoMethod, s))"
  by (simp add: on_route_def split: sum.split prod.split)

definition admin_answered ::
  "admin_request_context \<Rightarrow> u64 \<Rightarrow> admin_action option \<Rightarrow> admin_http_state \<Rightarrow> http_answer \<times> admin_http_state \<Rightarrow> bool" where
  "admin_answered context now asked s result \<longleftrightarrow>
     (case asked of
        None \<Rightarrow> snd result = s
      | Some action \<Rightarrow> (\<exists>reply. fst result = Inr reply \<and> request_logged context now action s reply (snd result)))"

lemma purge_rejected:
  "\<not> (is_ok (parse_tenant_id (ph_tenant_id p)) \<and> is_ok (cache_key_from_hex (ph_cache_key p))) \<Longrightarrow>
   snd (handle_cache_purge i now hs p s) = s"
  by (auto simp: handle_cache_purge_def with_context_def is_ok_def
      simp del: parse_tenant_id_eq_Inl parse_tenant_id_eq_Inr cache_key_from_hex_eq_Inl cache_key_from_hex_eq_Inr
      split: sum.splits)

lemma admin_routes_logged:
  assumes "service_available (ah_service s)" and "\<not> ah_master_poisoned s" and "admin_context i (sq_headers req) = Inr context"
  shows "admin_answered context now (if sq_method req = MethodGet then Some ReadMetrics else None) s
      (on_route MethodGet req (Inr ()) (\<lambda>_. handle_admin_metrics i now (sq_headers req)) s)"
    and "admin_answered context now (if sq_method req = MethodGet then Some ReadAuditLog else None) s
      (on_route MethodGet req (Inr ()) (\<lambda>_. handle_audit_events i now (sq_headers req)) s)"
    and "admin_answered context now None s (on_route MethodGet req (Inr ()) (\<lambda>_. handle_nodes i (sq_headers req)) s)"
    and "admin_answered context now (if sq_method req = MethodPost then Some DrainNode else None) s
      (on_route MethodPost req (Inr n) (handle_drain_node i now (sq_headers req)) s)"
proof -
  note logged = on_service_logged [where s = s and now = now]
  show "admin_answered context now (if sq_method req = MethodGet then Some ReadMetrics else None) s
      (on_route MethodGet req (Inr ()) (\<lambda>_. handle_admin_metrics i now (sq_headers req)) s)"
    using logged [OF metrics_audited(1) [OF assms(1)]]
    by (simp add: on_route_cases admin_answered_def handle_admin_metrics_def with_context_def assms(3))
  show "admin_answered context now (if sq_method req = MethodGet then Some ReadAuditLog else None) s
      (on_route MethodGet req (Inr ()) (\<lambda>_. handle_audit_events i now (sq_headers req)) s)"
    using logged [OF audit_events_audited(1) [OF assms(1)]]
    by (simp add: on_route_cases admin_answered_def handle_audit_events_def with_context_def assms(3))
  show "admin_answered context now None s (on_route MethodGet req (Inr ()) (\<lambda>_. handle_nodes i (sq_headers req)) s)"
    by (simp add: on_route_cases admin_answered_def handle_nodes_def with_context_def assms(3))
  show "admin_answered context now (if sq_method req = MethodPost then Some DrainNode else None) s
      (on_route MethodPost req (Inr n) (handle_drain_node i now (sq_headers req)) s)"
    using logged [OF drain_audited [OF assms(1)]]
    by (simp add: on_route_cases admin_answered_def handle_drain_node_def with_context_def assms(3))
qed

lemma admin_bodies_logged:
  assumes "service_available (ah_service s)" and "\<not> ah_master_poisoned s" and "admin_context i (sq_headers req) = Inr context"
  shows "admin_answered context now
      (case fingerprint_debug_request_from_value (sq_body req) of
         Some q \<Rightarrow> if sq_method req = MethodPost \<and> is_ok (parse_tenant_id (fh_tenant_id q))
                   then Some DebugCacheFingerprint else None
       | None \<Rightarrow> None) s
      (on_route MethodPost req (ok_or (fingerprint_debug_request_from_value (sq_body req)) BadBody)
         (handle_fingerprint_debug to_vec sha256 i now (sq_headers req)) s)" (is ?debug)
    and "admin_answered context now
      (case purge_request_from_value (sq_body req) of
         Some p \<Rightarrow> if sq_method req = MethodPost \<and> is_ok (parse_tenant_id (ph_tenant_id p))
                      \<and> is_ok (cache_key_from_hex (ph_cache_key p))
                   then Some RemoveCacheObject else None
       | None \<Rightarrow> None) s
      (on_route MethodPost req (ok_or (purge_request_from_value (sq_body req)) BadBody)
         (handle_cache_purge i now (sq_headers req)) s)" (is ?purge)
proof -
  show ?debug
  proof (cases "fingerprint_debug_request_from_value (sq_body req)")
    case (Some q)
    show ?thesis
    proof (cases "parse_tenant_id (fh_tenant_id q)")
      case (Inl e)
      then show ?thesis
        unfolding Some on_route_cases admin_answered_def handle_fingerprint_debug_def with_context_def assms(3)
        by (simp add: is_ok_def ok_or_def del: parse_tenant_id_eq_Inl)
    next
      case (Inr t)
      then show ?thesis
        using on_service_logged [where s = s, OF debug_audited(1) [OF assms(1)]]
        unfolding Some on_route_cases admin_answered_def handle_fingerprint_debug_def with_context_def assms(3)
        by (simp add: is_ok_def ok_or_def del: parse_tenant_id_eq_Inr)
    qed
  qed (simp add: on_route_cases admin_answered_def ok_or_def)
  show ?purge
  proof (cases "purge_request_from_value (sq_body req)")
    case (Some p)
    show ?thesis
    proof (cases "is_ok (parse_tenant_id (ph_tenant_id p)) \<and> is_ok (cache_key_from_hex (ph_cache_key p))")
      case True
      then obtain t k where "parse_tenant_id (ph_tenant_id p) = Inr t" "cache_key_from_hex (ph_cache_key p) = Inr k"
        unfolding is_ok_def by (metis sum.case_eq_if sum.collapse(2) sum.disc(1) sum.exhaust_sel)
      from purge_logged [OF assms this] show ?thesis
        using True unfolding Some on_route_cases admin_answered_def by (simp add: ok_or_def)
    next
      case False
      then show ?thesis
        using purge_rejected [OF False, of i now "sq_headers req" s] False
        unfolding Some on_route_cases admin_answered_def by (auto simp: ok_or_def)
    qed
  qed (simp add: on_route_cases admin_answered_def ok_or_def)
qed

lemma admin_unlogged_routes:
  "snd (on_route m req (Inr ()) (\<lambda>_ s. (reply s, s)) s) = s"
  by (simp add: on_route_cases)

lemma with_context_refused:
  "admin_context i hs = Inl e \<Longrightarrow> with_context i hs k s = (json_error 400 e, s)"
  by (simp add: with_context_def)

lemma admin_router_refused:
  assumes "admin_context i (sq_headers req) = Inl e"
  shows "snd (admin_router to_vec sha256 decode i now req s) = s"
proof -
  have unchanged: "snd (handle_admin_metrics i now (sq_headers req) s) = s"
    "snd (handle_audit_events i now (sq_headers req) s) = s" "snd (handle_nodes i (sq_headers req) s) = s"
    "\<And>n. snd (handle_drain_node i now (sq_headers req) n s) = s"
    "\<And>q. snd (handle_fingerprint_debug to_vec sha256 i now (sq_headers req) q s) = s"
    "\<And>p. snd (handle_cache_purge i now (sq_headers req) p s) = s"
    by (simp_all add: handle_admin_metrics_def handle_audit_events_def handle_nodes_def handle_drain_node_def
        handle_fingerprint_debug_def handle_cache_purge_def with_context_refused [OF assms])
  note route = on_route_keeps [where Q = "\<lambda>s'. s' = s"]
  have drain: "snd ((case drain_segment (sq_path req) of
      Some node_id \<Rightarrow> on_route MethodPost req (Inr (decode node_id)) (handle_drain_node i now (sq_headers req))
    | None \<Rightarrow> (\<lambda>s. (Inl NoRoute, s))) s) = s"
    by (cases "drain_segment (sq_path req)") (simp_all add: route unchanged)
  show ?thesis
    unfolding admin_router_def Let_def
    by (intro if_keeps [where Q = "\<lambda>s'. s' = s"] route drain) (simp_all only: unchanged snd_conv)
qed

text \<open>
  C15: Which requests to the admin service are recorded. Over HTTP, while its locks are intact:
  a request for the metrics, the audit log, a fingerprint, a purge or a drain, with readable
  caller headers and, for the two with a body, valid names in it, adds exactly one entry to
  the audit log, at its end, with the actor, the role, the request id, the time and the action
  of the caller, and counts it; the entry says success exactly when the answer is 200 and denied
  exactly when it is 403, which is exactly when the role does not allow the action, and then
  neither the nodes nor the objects of the service's master change. Every other request changes
  nothing and leaves no entry: the listing of nodes, tenants, vendors and alerts, the warm-up
  (also when it is denied), and requests that are malformed.
\<close>

theorem admin_requests_are_audited:
  assumes "service_available (ah_service s)" and "\<not> ah_master_poisoned s"
    and "admin_router to_vec sha256 decode fresh_id now req s = (answer, s')"
  shows "case (admin_context fresh_id (sq_headers req), audited_request decode req) of
      (Inr context, Some action) \<Rightarrow> \<exists>reply. answer = Inr reply \<and> request_logged context now action s reply s'
    | _ \<Rightarrow> s' = s"
proof (cases "admin_context fresh_id (sq_headers req)")
  case (Inl e)
  then show ?thesis using admin_router_refused [OF Inl, of to_vec sha256 decode now s] assms(3) by simp
next
  case (Inr cx)
  note routes = admin_routes_logged [OF assms(1,2) Inr, of now] admin_bodies_logged [OF assms(1,2) Inr, of now]
  have "admin_answered cx now (audited_request decode req) s (admin_router to_vec sha256 decode fresh_id now req s)"
  proof (cases "sq_path req \<in> {''/healthz'', ''/admin/nodes'', ''/admin/tenants'', ''/admin/vendors'', ''/admin/alerts'',
      ''/admin/cache/warmup''}")
    case True
    then have "audited_request decode req = None" by (auto simp: audited_request_def drain_segment_def)
    then show ?thesis
      using True routes(3) admin_unlogged_routes by (auto simp: admin_router_def admin_answered_def)
  next
    case False
    note other = False
    note unfolded = admin_router_def audited_request_def
    have none: "admin_answered cx now None s (x, s)" for x by (simp add: admin_answered_def)
    consider "sq_path req = ''/admin/metrics''" | "sq_path req = ''/admin/audit-events''"
      | "sq_path req = ''/admin/cache/fingerprint/debug''" | "sq_path req = ''/admin/cache/purge''"
      | "sq_path req \<notin> {''/admin/metrics'', ''/admin/audit-events'', ''/admin/cache/fingerprint/debug'', ''/admin/cache/purge''}"
      by blast
    then show ?thesis
    proof cases
      case 5
      then show ?thesis
        using other routes(4) none by (cases "drain_segment (sq_path req)") (simp_all add: unfolded split del: if_split)
    qed (use routes in \<open>simp_all add: unfolded split del: if_split\<close>)
  qed
  then show ?thesis using Inr assms(3) by (cases "audited_request decode req") (simp_all add: admin_answered_def)
qed

text \<open>A drain that names no role, which makes its caller an administrator.\<close>

definition example_drain_request :: header_request where
  "example_drain_request =
     \<lparr>sq_method = MethodPost, sq_path = ''/admin/nodes/local-store/drain'', sq_query = [], sq_body = JNull,
      sq_headers = (\<lambda>_. None)\<rparr>"

theorem admin_requests_are_audited_witness:
  "\<exists>reply. fst (admin_router example_encode id id ''r1'' 5 example_drain_request (build_admin_state [] [])) = Inr reply
     \<and> request_logged \<lparr>cx_actor = ''local-admin'', cx_role = Admin, cx_request_id = ''r1''\<rparr> 5 DrainNode
         (build_admin_state [] []) reply
         (snd (admin_router example_encode id id ''r1'' 5 example_drain_request (build_admin_state [] [])))"
proof -
  have "service_available (ah_service (build_admin_state [] []))" "\<not> ah_master_poisoned (build_admin_state [] [])"
    by (simp_all add: build_admin_state_def service_available_def admin_service_new_for_test_def)
  moreover have "drain_segment (sq_path example_drain_request) = Some ''local-store''" by code_simp
  then have "audited_request id example_drain_request = Some DrainNode"
    by (simp add: audited_request_def example_drain_request_def)
  moreover have "admin_context ''r1'' (sq_headers example_drain_request)
      = Inr \<lparr>cx_actor = ''local-admin'', cx_role = Admin, cx_request_id = ''r1''\<rparr>"
    by (rule caller_without_role_is_admin) (simp_all add: example_drain_request_def)
  ultimately show ?thesis
    using admin_requests_are_audited [OF _ _ prod.collapse [symmetric], of "build_admin_state [] []" example_encode id id
        "''r1''" 5 example_drain_request] by simp
qed

end
