(* ===== verification/Deployment.thy ===== *)
theory Deployment
imports Cluster Startup
begin

text \<open>
  From the command line to the cache: a gateway process that started from its configuration,
  with its routes, in front of the cluster of \<open>Cluster\<close>. What the contract of the cluster assumes of
  the gateway's parts is here derived from the code that builds them.
\<close>

declare split_paired_All [simp del] split_paired_Ex [simp del]

section \<open>The gateway that was built\<close>

text \<open>
  The configuration names the site: the master's address, one store node, and the HTTP client of
  the process is the network of the site. Copying a map into a hash map keeps its entries, in some order.
\<close>

definition configured ::
  "'m site \<Rightarrow> string \<Rightarrow> ('m, 'x) cluster_scheme gateway_startup \<Rightarrow> gateway_app_config \<Rightarrow> bool" where
  "configured site node_id io config \<longleftrightarrow>
     st_http io = cluster_http site \<and> st_type_error io = cs_type_error site
     \<and> trim_end_matches (CHR ''/'') (ga_master_url config) = cs_master_url site
     \<and> (\<exists>url. ga_store_node_urls config = [(node_id, url)] \<and> trim_end_matches (CHR ''/'') url = cs_node_url site)
     \<and> mset (st_node_order io (ga_store_node_urls config)) = mset (ga_store_node_urls config)"

lemma built_gateway:
  assumes "build_gateway_state_from_config io config = Inr state"
  obtains adapter where
    "gs_master_client state = remote_master_ops (st_http io) (st_type_error io) (remote_master_new (ga_master_url config))"
    and "gs_store_client state = remote_store_ops (st_http io) (st_type_error io)
      (remote_store_new (st_node_order io (ga_store_node_urls config)))"
    and "gs_vendor state = openai_vendor (st_send io) adapter"
  using assms unfolding build_gateway_state_from_config_def try_result_eq_Inr map_err_eq_Inr
  by (elim exE conjE)
     (simp split: list.splits if_splits,
      auto simp: try_result_eq_Inr gateway_new_with_clients_and_tenant_config_def)

lemma built_backed:
  assumes "build_gateway_state_from_config io config = Inr state" and "configured site node_id io config"
  shows "backed (cluster_master site) (cluster_store site node_id) state"
proof -
  obtain url where url: "ga_store_node_urls config = [(node_id, url)]" "trim_end_matches (CHR ''/'') url = cs_node_url site"
    and order: "mset (st_node_order io (ga_store_node_urls config)) = mset (ga_store_node_urls config)"
    using assms(2) by (auto simp: configured_def)
  then have "st_node_order io (ga_store_node_urls config) = [(node_id, url)]" by simp
  then show ?thesis
    using assms(2) url built_gateway [OF assms(1)]
    by (metis (no_types, lifting) backed_def cluster_master_def cluster_store_def configured_def list.simps(8,9)
        old.prod.case remote_master_new_def remote_store_new_def)
qed

lemma openai_keeps:
  assumes "\<And>req w. keeps w (snd (send req w))" and "\<And>w. keeps w w"
  shows "vendor_keeps keeps (openai_vendor send a)"
proof -
  have post: "keeps w w'" if "openai_post_json send a body w = (r, w')" for body w r w'
    using that assms(1) by (auto simp: openai_post_json_def split: prod.splits sum.splits dest: sym) (metis snd_conv)+
  show ?thesis
    by (auto simp: vendor_keeps_def openai_vendor_def assms(2) openai_complete_def openai_stream_def Let_def
        split: prod.splits sum.splits dest: post)
qed

lemma cluster_keeps_refl: "cluster_keeps ssd c w w"
  by (simp add: cluster_keeps_def)

text \<open>The tenants that the gateway serves are those of its file, and their keys fit into a URL.\<close>

definition tenants_url_safe :: "'w gateway_state \<Rightarrow> bool" where
  "tenants_url_safe state \<longleftrightarrow>
     (case gs_tenant_configs state of
        None \<Rightarrow> False
      | Some configs \<Rightarrow> list_all (\<lambda>tenant. url_safe (tenant_as_str (tc_id tenant))) (config_tenants configs))"

lemma built_tenant_valid:
  assumes "build_gateway_state_from_config io config = Inr state" and "gs_tenant_configs state = Some configs"
    and "tenant \<in> set (config_tenants configs)"
  shows "tenant_valid tenant"
proof -
  obtain toml where "parse_tenant_toml (st_tenants_toml io) toml = Inr configs"
    using started_gateway [OF assms(1)] assms(2) by auto
  from parse_tenant_toml_Inr [OF this] have ok: "bt_ok configs"
    and valid: "\<And>key c. config_tenant configs key = Some c \<Longrightarrow> tenant_valid c" by blast+
  obtain key where "(key, tenant) \<in> set configs" using assms(3) by (auto simp: config_tenants_def)
  then have "config_tenant configs key = Some tenant"
    using ok by (simp add: config_tenant_def bt_get_def bt_ok_distinct)
  then show ?thesis by (rule valid)
qed

lemma compute_cache_key_valid: "compute_cache_key to_vec sha256 input = Inr key \<Longrightarrow> valid_key_text (key_as_str key)"
  by (auto simp: compute_cache_key_def split: sum.splits)

lemma built_key:
  assumes "build_gateway_state_from_config io config = Inr state" and "tenants_url_safe state"
    and "authenticate sha256 state auth = Some t" and "compute_cache_key to_vec sha256' input = Inr key"
  shows "url_key (t, key)"
    and "\<exists>configs tenant token. gs_tenant_configs state = Some configs \<and> tenant \<in> set (config_tenants configs)
      \<and> tc_enabled tenant \<and> tc_id tenant = t \<and> auth = Some (''Bearer '' @ token)
      \<and> tc_api_key_sha256 tenant = sha256_hex sha256 token"
proof -
  obtain configs where configs: "gs_tenant_configs state = Some configs"
    using assms(2) by (auto simp: tenants_url_safe_def split: option.splits)
  obtain token tenant where tenant: "auth = Some (''Bearer '' @ token)" "tenant \<in> set (config_tenants configs)"
    "tc_enabled tenant" "tc_api_key_sha256 tenant = sha256_hex sha256 token" "t = tc_id tenant"
    by (rule authenticate_configured [OF configs assms(3)])
  have "valid_key_text (key_as_str key)" using assms(4) by (rule compute_cache_key_valid)
  moreover have "trim (tenant_as_str t) \<noteq> []"
    using built_tenant_valid [OF assms(1) configs tenant(2)] tenant(5) by (simp add: tenant_valid_def)
  moreover have "url_safe (tenant_as_str t)"
    using assms(2) configs tenant(2,5) by (auto simp: tenants_url_safe_def list_all_iff)
  ultimately show "url_key (t, key)" by simp
  show "\<exists>configs tenant token. gs_tenant_configs state = Some configs \<and> tenant \<in> set (config_tenants configs)
      \<and> tc_enabled tenant \<and> tc_id tenant = t \<and> auth = Some (''Bearer '' @ token)
      \<and> tc_api_key_sha256 tenant = sha256_hex sha256 token"
    using configs tenant by blast
qed

lemma built_dispatched_key:
  assumes "build_gateway_state_from_config io config = Inr state" and "tenants_url_safe state"
    and "dispatched env state auth cc body s t control request key s1"
  shows "url_key (t, key)"
    and "\<exists>configs tenant token. gs_tenant_configs state = Some configs \<and> tenant \<in> set (config_tenants configs)
      \<and> tc_enabled tenant \<and> tc_id tenant = t \<and> auth = Some (''Bearer '' @ token)
      \<and> tc_api_key_sha256 tenant = sha256_hex (env_sha256 env) token"
proof -
  have "authenticate (env_sha256 env) state auth = Some t" using assms(3) by (simp add: dispatched_def)
  moreover obtain to_vec input where "compute_cache_key to_vec (env_sha256 env) input = Inr key"
    using assms(3) by (auto simp: dispatched_def)
  ultimately show "url_key (t, key)"
    and "\<exists>configs tenant token. gs_tenant_configs state = Some configs \<and> tenant \<in> set (config_tenants configs)
      \<and> tc_enabled tenant \<and> tc_id tenant = t \<and> auth = Some (''Bearer '' @ token)
      \<and> tc_api_key_sha256 tenant = sha256_hex (env_sha256 env) token"
    using built_key [OF assms(1,2)] by blast+
qed

text \<open>A request that reaches the flow, with the headers it was given.\<close>

lemma responses_flow:
  assumes "responses rules env state headers body s = (reply, s')"
  obtains (rejected) m where "s' = s" and "reply = json_error 400 m"
    | (handled) auth cc r where "handle_response_request env state auth cc body s = (r, s')"
        and "\<And>a. auth = Some a \<Longrightarrow> headers ''authorization'' = Some (Some a)"
        and "reply = (case r of Inr response \<Rightarrow> gateway_http_response rules response | Inl e \<Rightarrow> gateway_error_response e)"
  using assms
  by (auto simp: responses_def optional_header_def split: option.splits sum.splits prod.splits)
     (fastforce intro: handled rejected)+

section \<open>The label of an answer\<close>

text \<open>The headers of an answer are a B-tree map; of the answer a waiter is handed this is assumed.\<close>

lemma constructed_headers_ok [simp]:
  "bt_ok (gr_headers (with_cache_headers c b st w tier))"
  "bt_ok (gr_headers r) \<Longrightarrow> bt_ok (gr_headers (set_header name val r))"
  "bt_ok (gr_headers (response_ok b st w tier key))"
  "bt_ok (gr_headers (response_ok_stream b es st w tier key))"
  "bt_ok (gr_headers (response_error c m st w tier))"
  "bt_ok (gr_headers (with_cache_key k (response_error c m st w tier)))"
  by (simp_all add: with_cache_headers_def set_header_def response_ok_def response_ok_stream_def response_error_def
      with_cache_key_def Let_def split: option.splits)

lemma coalesced_headers_ok:
  assumes "\<And>r. env_wait env = Inr r \<Longrightarrow> bt_ok (gr_headers r)"
    and "coalesced_miss env state t control request key s = (Inr response, s')"
  shows "bt_ok (gr_headers response)"
proof -
  have miss: "bt_ok (gr_headers r)" if "cacheable_non_streaming_miss env state t control request key s1 = (Inr r, s2)" for s1 r s2
    using that by (auto simp: cacheable_non_streaming_miss_def try_bind_cases split: prod.splits sum.splits)
  show ?thesis
    using assms(2)
    by (auto simp: coalesced_miss_def with_cache_coalesced_def with_cache_write_def Let_def
        split: prod.splits singleflight_start.splits sum.splits dest: assms(1) miss)
qed

lemma vendor_headers_ok:
  "vendor_response env state request st w key s = (Inr response, s') \<Longrightarrow> bt_ok (gr_headers response)"
  "vendor_stream_response env state request st w key s = (Inr response, s') \<Longrightarrow> bt_ok (gr_headers response)"
  "cache_only_miss k s = (Inr response, s') \<Longrightarrow> bt_ok (gr_headers response)"
  "refuse c m s = (Inr response, s') \<Longrightarrow> bt_ok (gr_headers response)"
  by (auto simp: vendor_response_def vendor_stream_response_def cache_only_miss_def refuse_def try_bind_cases
      split: prod.splits sum.splits)

lemma respond_headers_ok:
  assumes "\<And>r. env_wait env = Inr r \<Longrightarrow> bt_ok (gr_headers r)"
    and "respond streaming env state t control request e key s = (Inr response, s')"
  shows "bt_ok (gr_headers response)"
proof (cases streaming)
  case True
  then show ?thesis
    using assms(2)
    by (auto simp: respond_def streaming_response_def try_bind_cases dest: vendor_headers_ok
        split: if_splits prod.splits sum.splits option.splits)
next
  case False
  have miss: "bt_ok (gr_headers r)" if "coalesced_miss env state t control request key s1 = (Inr r, s2)" for control s1 r s2
    by (rule coalesced_headers_ok [OF _ that]) (rule assms(1))
  from False show ?thesis
    using assms(2)
    by (auto simp: respond_def plain_response_def try_bind_cases dest: vendor_headers_ok miss
        split: if_splits prod.splits sum.splits option.splits)
qed

lemma answer_headers_ok:
  assumes "\<And>r. env_wait env = Inr r \<Longrightarrow> bt_ok (gr_headers r)"
    and "handle_response_request env state auth cc body s = (Inr response, s')"
  shows "bt_ok (gr_headers response)"
proof (cases rule: handle_cases [of env state auth cc body s])
  case (refused status message)
  then show ?thesis using assms(2) vendor_headers_ok(4) by metis
next
  case (failed err s1)
  then show ?thesis using assms(2) by simp
next
  case (dispatched tenant control request key s1)
  then show ?thesis using assms(2) respond_headers_ok [OF assms(1)] by (simp add: handle_dispatched)
qed

definition labelled_committed :: "http_answer \<Rightarrow> bool" where
  "labelled_committed answer \<longleftrightarrow>
     (case answer of Inl _ \<Rightarrow> False | Inr reply \<Rightarrow> hm_get (hr_headers reply) ''x-cache-write'' = Some ''committed'')"

lemma plain_answers_unlabelled [simp]:
  "\<not> labelled_committed (Inl r)" "\<not> labelled_committed (Inr (json_reply c v))"
  "\<not> labelled_committed (Inr (json_error c m))" "\<not> labelled_committed (Inr (gateway_error_response e))"
  by (simp_all add: labelled_committed_def json_reply_def json_error_def gateway_error_response_def hm_get_def)

lemma labelled_response:
  assumes "bt_ok (gr_headers response)" and "header_name_ok rules ''x-cache-write''" and "header_value_ok rules ''committed''"
  shows "labelled_committed (Inr (gateway_http_response rules response)) \<longleftrightarrow>
    header ''x-cache-write'' response = Some ''committed''"
proof -
  have "hm_get [(''content-type'', ''application/json'')] ''x-cache-write'' = None" by (simp add: hm_get_def)
  then show ?thesis
    using assms(2,3) bt_ok_distinct [OF assms(1)]
    by (cases "map_of (gr_headers response) ''x-cache-write''")
       (auto simp: labelled_committed_def gateway_http_response_def Let_def header_def bt_get_def json_reply_def
         fold_headers [where ok = "\<lambda>name val. header_name_ok rules name \<and> header_value_ok rules val"]
         simp del: map_of_eq_Some_iff)
qed

lemma undispatched_unlabelled:
  assumes "handle_response_request env state auth cc body s = (Inr response, s')"
    and "header ''x-cache-write'' response = Some ''committed''"
  shows "\<exists>t control request k s1. dispatched env state auth cc body s t control request k s1"
proof (cases rule: handle_cases [of env state auth cc body s])
  case (refused status message)
  then show ?thesis
    using assms by (auto simp: refuse_def response_error_def header_with_cache_headers)
next
  case (failed err s1)
  then show ?thesis using assms by simp
next
  case (dispatched tenant control request key s1)
  then show ?thesis by blast
qed

lemma unrouted_unlabelled:
  assumes "gateway_router rules env state req s = (answer, s')"
    and "\<not> (sq_path req = ''/v1/responses'' \<and> sq_method req = MethodPost)"
  shows "s' = s \<and> \<not> labelled_committed answer"
  using assms by (auto simp: gateway_router_def on_route_def split: if_splits)

section \<open>Contract\<close>

text \<open>
  One new entry, the serialized answer, for an enabled tenant of the configuration whose key the
  caller has.
\<close>

definition tenant_entry ::
  "request_env \<Rightarrow> 'w gateway_state \<Rightarrow> string option \<Rightarrow> gateway_response \<Rightarrow> (object_key \<rightharpoonup> bytes) \<Rightarrow> (object_key \<rightharpoonup> bytes) \<Rightarrow> bool"
where
  "tenant_entry env state auth response c c' \<longleftrightarrow>
     (\<exists>configs tenant token key. gs_tenant_configs state = Some configs \<and> tenant \<in> set (config_tenants configs)
        \<and> tc_enabled tenant \<and> auth = Some (''Bearer '' @ token)
        \<and> tc_api_key_sha256 tenant = sha256_hex (env_sha256 env) token
        \<and> stored (env_serde env) (tc_id tenant, key) c response c')"

definition entry_added ::
  "header_rules \<Rightarrow> request_env \<Rightarrow> 'w gateway_state \<Rightarrow> header_request \<Rightarrow> http_answer
   \<Rightarrow> (object_key \<rightharpoonup> bytes) \<Rightarrow> (object_key \<rightharpoonup> bytes) \<Rightarrow> bool" where
  "entry_added rules env state req answer c c' \<longleftrightarrow>
     (\<exists>auth response. sq_headers req ''authorization'' = Some (Some auth)
        \<and> answer = Inr (gateway_http_response rules response) \<and> tenant_entry env state (Some auth) response c c')"

text \<open>The flow of the gateway that was built.\<close>

lemma built_flow_refines:
  assumes "build_gateway_state_from_config io config = Inr state" and "configured site node_id io config"
    and "\<And>call w. cluster_keeps ssd dram_capacity w (snd (st_send io call w))" and "tenants_url_safe state"
    and "serde_bounded (env_serde env)" and "site_ok exact site" and "cluster_inv site ssd dram_capacity (gw_world s)"
    and "handle_response_request env state auth cc body s = (r, s')"
  shows "cluster_inv site ssd dram_capacity (gw_world s')"
    and "r = Inr response \<Longrightarrow> header ''x-cache-write'' response = Some ''committed'' \<Longrightarrow>
      tenant_entry env state auth response (cluster_contents site ssd (gw_world s)) (cluster_contents site ssd (gw_world s'))"
    and "\<not> (\<exists>response. r = Inr response \<and> header ''x-cache-write'' response = Some ''committed'') \<Longrightarrow>
      cluster_contents site ssd (gw_world s') = cluster_contents site ssd (gw_world s)
      \<or> \<not> exact \<and> (\<exists>response. r = Inr response
        \<and> tenant_entry env state auth response (cluster_contents site ssd (gw_world s)) (cluster_contents site ssd (gw_world s')))"
proof -
  let ?c = "\<lambda>s. cluster_contents site ssd (gw_world s)"
  obtain adapter where vendor: "gs_vendor state = openai_vendor (st_send io) adapter"
    by (rule built_gateway [OF assms(1)])
  have keeps: "vendor_keeps (cluster_keeps ssd dram_capacity) (gs_vendor state)"
    unfolding vendor by (intro openai_keeps assms(3) cluster_keeps_refl)
  note key = built_dispatched_key [OF assms(1,4)]
  have refined: "cluster_inv site ssd dram_capacity (gw_world s') \<and>
    (if \<exists>t control request k s1. dispatched env state auth cc body s t control request k s1
     then \<exists>t control request k s1. dispatched env state auth cc body s t control request k s1
       \<and> reflected exact (env_serde env) (t, k) (?c s) r (?c s')
     else ?c s' = ?c s)"
    by (rule cluster_refines [OF built_backed [OF assms(1,2)] keeps assms(5-8)]) (rule key(1))
  then show "cluster_inv site ssd dram_capacity (gw_world s')" ..
  have entry: "tenant_entry env state auth response (?c s) (?c s')"
    if "dispatched env state auth cc body s t control request k s1" "stored (env_serde env) (t, k) (?c s) response (?c s')"
    for response t control request k s1
    using key(2) [OF that(1)] that(2) unfolding tenant_entry_def by blast
  show "tenant_entry env state auth response (?c s) (?c s')"
    if response: "r = Inr response" "header ''x-cache-write'' response = Some ''committed''"
  proof -
    obtain t control request k s1 where d: "dispatched env state auth cc body s t control request k s1"
      and change: "reflected exact (env_serde env) (t, k) (?c s) r (?c s')"
      using refined undispatched_unlabelled [OF assms(8) [unfolded response(1)] response(2)] by (auto split: if_splits)
    then show ?thesis using response by (intro entry [OF d]) simp
  qed
  show "?c s' = ?c s \<or> \<not> exact \<and> (\<exists>response. r = Inr response \<and> tenant_entry env state auth response (?c s) (?c s'))"
    if "\<not> (\<exists>response. r = Inr response \<and> header ''x-cache-write'' response = Some ''committed'')"
    using refined that entry by (cases r) (auto split: if_splits)
qed

text \<open>
  C2: the deployed system is a cache. A gateway that started from its configuration against one
  master service and one store node with an SSD answers HTTP requests so that a map from tenants
  and keys to bytes, held on the SSD, gets one new entry when the answer carries the header
  \<^verbatim>\<open>x-cache-write: committed\<close>: the serialized answer, where there was none before, for an enabled
  tenant of the configuration file whose key the request carried. Otherwise the map stays as it
  is, when the site is exact; when answers of the services may be lost or the master's saves may
  fail, it may get the same entry without the label. Nothing else changes the map, and what it
  holds is never lost or mixed up: no other request, path, method or header, no lost call, no
  failing file system call, no standby master, and no restart of the node while the vendor is
  asked. Tenants are assumed to have names that need no encoding in a URL, and the HTTP library
  to accept that header.
\<close>

theorem deployment_refines_cache_map:
  assumes "build_gateway_state_from_config io config = Inr state" and "configured site node_id io config"
    and "\<And>call w. cluster_keeps ssd dram_capacity w (snd (st_send io call w))" and "tenants_url_safe state"
    and "serde_bounded (env_serde env)" and "site_ok exact site" and "cluster_inv site ssd dram_capacity (gw_world s)"
    and "gateway_router rules env state req s = (answer, s')"
    and "\<And>r. env_wait env = Inr r \<Longrightarrow> bt_ok (gr_headers r)"
    and "header_name_ok rules ''x-cache-write''" and "header_value_ok rules ''committed''"
    and "c = cluster_contents site ssd (gw_world s)" and "c' = cluster_contents site ssd (gw_world s')"
  shows "cluster_inv site ssd dram_capacity (gw_world s') \<and>
    (if labelled_committed answer then entry_added rules env state req answer c c'
     else c' = c \<or> \<not> exact \<and> entry_added rules env state req answer c c')"
proof (cases "sq_path req = ''/v1/responses'' \<and> sq_method req = MethodPost")
  case False
  then show ?thesis using unrouted_unlabelled [OF assms(8)] assms(7,12,13) by simp
next
  case True
  obtain reply where answer: "answer = Inr reply"
    and run: "responses rules env state (sq_headers req) (sq_body req) s = (reply, s')"
    using assms(8) True by (auto simp: gateway_router_def on_route_def split: prod.splits)
  from run show ?thesis
  proof (cases rule: responses_flow)
    case (handled auth cc r)
    note flow = built_flow_refines [OF assms(1-7) handled(1), folded assms(12,13)]
    have entry: "entry_added rules env state req answer c c'" if e: "r = Inr response" "tenant_entry env state auth response c c'" for response
    proof -
      obtain a where "auth = Some a" using e(2) by (auto simp: tenant_entry_def)
      then show ?thesis using e answer handled(2,3) by (auto simp: entry_added_def)
    qed
    have label: "labelled_committed answer \<longleftrightarrow> (\<exists>response. r = Inr response \<and> header ''x-cache-write'' response = Some ''committed'')"
    proof (cases r)
      case (Inr response)
      have "bt_ok (gr_headers response)"
        by (rule answer_headers_ok [OF _ handled(1) [unfolded Inr]]) (rule assms(9))
      then show ?thesis using labelled_response [OF _ assms(10,11)] answer handled(3) Inr by simp
    qed (use answer handled(3) in simp)
    show ?thesis
    proof (cases "labelled_committed answer")
      case True
      then obtain response where "r = Inr response" "header ''x-cache-write'' response = Some ''committed''"
        using label by blast
      then show ?thesis using flow(1) flow(2) entry True by simp
    next
      case False
      then show ?thesis using flow(1) flow(3) label entry by auto
    qed
  qed (use answer assms(7,12,13) in simp)
qed

end
