(* ===== verification/Gateway_Examples.thy ===== *)
theory Gateway_Examples
imports Local_Cache
begin

text \<open>
  A gateway in one process, and the requests with which the contracts of the gateway are
  applied: one tenant, one segment of eight bytes, a vendor that answers at once, a JSON
  library for the values that occur and a digest of the right length.
\<close>

section \<open>The example gateway\<close>

definition local_digest :: "bytes \<Rightarrow> bytes" where
  "local_digest bs = replicate 32 (CHR 0x00)"

definition example_answer :: json where
  "example_answer = JString ''ok''"

definition example_body :: json where
  "example_body = JObject [(''model'', JString ''m'')]"

definition example_vendor :: "'w vendor_adapter" where
  "example_vendor =
     \<lparr>va_vendor_id = ''v'', va_adapter_version = ''1'', va_model_cache_eligible = (\<lambda>_. True),
      va_resolve_model_version = (\<lambda>m w. (Inr m, w)), va_complete = (\<lambda>_ w. (Inr example_answer, w)),
      va_stream = (\<lambda>_ w. (Inr [], w))\<rparr>"

definition example_over :: "'w master_client \<Rightarrow> 'w store_client \<Rightarrow> 'w gateway_state" where
  "example_over mc sc = gateway_new_with_clients mc sc example_vendor"

definition example_gateway :: "local_world gateway_state" where
  "example_gateway = example_over local_master_client (local_store_client local_digest)"

definition example_document :: json where
  "example_document = canonicalize (fingerprint_document
     (request_fingerprint example_gateway (TenantId test_tenant_id) CcDefault ''m'' example_body))"

definition example_json :: serde where
  "example_json =
     \<lparr>sj_to_vec = (\<lambda>v. if canonicalize v = example_document then Inr ''d''
                       else if canonicalize v = example_answer then Inr ''a'' else Inl ''unsupported''),
      sj_from_slice = (\<lambda>bs. if bs = ''d'' then Inr example_document
                            else if bs = ''a'' then Inr example_answer else Inl ''unsupported''),
      sj_type_error = (\<lambda>_. ''type error'')\<rparr>"

definition example_env :: request_env where
  "example_env = \<lparr>env_sha256 = local_digest, env_serde = example_json, env_vendor_micros = 5, env_wait = Inl ''''\<rparr>"

definition example_world :: local_world where
  "example_world = \<lparr>lw_master = mount_segment ''a'' 8 master_new, lw_store = memory_with_capacity 8, lw_now = 1\<rparr>"

definition example_start :: "local_world gateway_run" where
  "example_start = gateway_run_new example_world"

definition example_auth :: "string option" where
  "example_auth = Some (''Bearer '' @ test_api_key)"

definition local_key :: cache_key where
  "local_key = CacheKey (hex_lower (replicate 32 (CHR 0x00)))"

definition example_request :: responses_request where
  "example_request = \<lparr>rr_model = ''m'', rr_body = JObject []\<rparr>"

section \<open>Its parts\<close>

lemma example_backed: "backed local_master_client (local_store_client local_digest) example_gateway"
  by (simp add: backed_def example_gateway_def example_over_def gateway_new_with_clients_def)

lemma example_vendor_keeps: "vendor_keeps local_keeps (gs_vendor example_gateway)"
  by (simp add: vendor_keeps_def local_keeps_def example_gateway_def example_over_def gateway_new_with_clients_def example_vendor_def)

lemma example_serde_laws: "serde_bounded (env_serde example_env)" "serde_reads_back (env_serde example_env)"
  by (auto simp: serde_bounded_def serde_reads_back_def same_but_floats_def example_env_def example_json_def split: if_splits)

lemma example_inv: "local_inv local_digest (gw_world example_start)"
proof -
  have "master_inv (mount_segment ''a'' 8 master_new) \<and> placement_inv (mount_segment ''a'' 8 master_new)"
    by (rule placement.mounted [OF placement.new])
  then show ?thesis
    using memory_inv_with_capacity [of 8]
    by (simp add: local_inv_def cache_master_def example_start_def gateway_run_new_def example_world_def mount_segment_def
        allocator_mount_def master_new_def)
qed

lemma example_mode: "parse_cache_control [] = Inr CcDefault"
  by code_simp

lemma example_document_object: "\<exists>m. example_document = JObject m"
  by (simp only: example_document_def fingerprint_document_def json_obj_def canonicalize_object) blast

lemma over_fields:
  "gs_master_client (example_over mc sc) = mc" "gs_store_client (example_over mc sc) = sc"
  "gs_vendor (example_over mc sc) = example_vendor" "gs_cache_available (example_over mc sc)"
  by (simp_all add: example_over_def gateway_new_with_clients_def)

lemma over_backed: "backed mc sc (example_over mc sc)"
  by (simp add: backed_def over_fields)

lemma over_dispatched:
  "dispatched example_env (example_over mc sc) example_auth None example_body s
     (TenantId test_tenant_id) CcDefault example_request local_key s"
proof -
  let ?f = "request_fingerprint (example_over mc sc) (TenantId test_tenant_id) CcDefault ''m'' example_body"
  have document: "canonicalize (fingerprint_document ?f) = example_document"
    by (simp add: example_document_def request_fingerprint_def example_gateway_def over_fields example_vendor_def)
  have "canonicalize example_document = example_document"
    unfolding example_document_def
    by (rule canonicalize_id, rule canonical_document_ok)
       (simp add: request_fingerprint_def fingerprint_body_without_stream_def example_body_def bt_get_def)
  then have "compute_cache_key (sj_to_vec example_json) local_digest ?f = Inr local_key"
    using valid_key_text_hex_lower [of "replicate 32 (CHR 0x00)"] document
    by (simp add: compute_cache_key_def canonical_json_bytes_def example_json_def local_digest_def local_key_def)
  then show ?thesis
    by (simp add: dispatched_def example_mode example_env_def authenticate_def tenant_allows_vendor_def
        example_over_def gateway_new_with_clients_def example_vendor_def on_world_def example_body_def example_auth_def
        responses_request_from_value_def example_request_def bt_get_def bt_remove_def json_as_str_def)
qed

lemma example_dispatched:
  "dispatched example_env example_gateway example_auth None example_body s
     (TenantId test_tenant_id) CcDefault example_request local_key s"
  unfolding example_gateway_def by (rule over_dispatched)

section \<open>The first request\<close>

lemma over_eligible: "request_eligibility (example_over mc sc) control example_request example_body = Cacheable"
  by (simp add: request_eligibility_def over_fields example_vendor_def
      classify_request_def example_body_def json_get_def bt_get_def)

lemma example_eligible: "request_eligibility example_gateway control example_request example_body = Cacheable"
  unfolding example_gateway_def by (rule over_eligible)

lemma example_plain: "\<not> is_streaming_request example_body"
  by (simp add: is_streaming_request_def example_body_def json_get_def bt_get_def)

lemma example_reserved:
  "put_start t k 1 1 (mount_segment ''a'' 8 master_new) =
     (Inr [\<lparr>rep_node_id = ''a'', rep_offset = 0, rep_len = 1\<rparr>],
      (mount_segment ''a'' 8 master_new)\<lparr>
        allocator := [\<lparr>seg_node_id = ''a'', seg_len = 8, seg_next_offset = 1\<rparr>],
        objects := [((t, k), \<lparr>obj_tenant_id = t, obj_cache_key = k, obj_len = 1, obj_status = Reserving,
          obj_replicas = [\<lparr>rep_node_id = ''a'', rep_offset = 0, rep_len = 1\<rparr>], obj_hard_pinned = False,
          obj_soft_pinned_until_ms = None\<rparr>)]\<rparr>)"
  by (simp add: put_start_def mount_segment_def allocator_mount_def master_new_def hm_get_def hm_insert_def
      reserve_tenant_quota_def allocator_allocate_def segment_indexes_def can_fit_def checked_add_def
      saturating_add_def replica_of_allocation_def Let_def)


lemma example_bytes: "sj_to_vec (env_serde example_env) example_answer = Inr ''a''"
proof -
  obtain m where "example_document = JObject m" using example_document_object by blast
  then have "JString ''ok'' \<noteq> example_document" by (rule ssubst) simp
  then show ?thesis by (simp add: example_env_def example_json_def example_answer_def)
qed

lemma example_gateway_fields:
  "gs_master_client example_gateway = local_master_client"
  "gs_store_client example_gateway = local_store_client local_digest"
  "gs_vendor example_gateway = example_vendor"
  "gs_cache_available example_gateway"
  by (simp_all add: example_gateway_def example_over_def gateway_new_with_clients_def)

lemma example_written:
  "\<exists>st. write_preallocated_chunk local_digest \<lparr>ch_offset = 0, ch_len = 1\<rparr> ''a'' (memory_with_capacity 8) = (Inr (), st)"
  unfolding write_preallocated_Inr [OF memory_inv_with_capacity]
  by (simp add: chunk_fits_def) (simp add: memory_with_capacity_def)

lemma example_write:
  assumes "gw_world s = example_world"
  shows "\<exists>s'. write_cached_bytes example_gateway t k ''a'' s = (Inr WriteCommitted, s')"
proof -
  obtain st where st: "write_preallocated_chunk local_digest \<lparr>ch_offset = 0, ch_len = 1\<rparr> ''a'' (memory_with_capacity 8)
      = (Inr (), st)"
    using example_written by blast
  show ?thesis
    using example_reserved [of t k] st
    by (simp add: write_cached_bytes_def example_gateway_fields local_client_defs local_master_def assms on_world_def
        example_world_def replica_count_def from_replica_def local_write_preallocated_chunk_def try_bind_cases
        put_end_def hm_get_def del: One_nat_def)
qed

text \<open>A first request misses and is stored, when the clients find nothing and take the write.\<close>

lemma first_run_committed:
  assumes "dispatched env g auth cc body (gateway_run_new w) t CcDefault request key (gateway_run_new w)"
    and "\<not> is_streaming_request body" and "request_eligibility g CcDefault request body = Cacheable"
    and "gs_cache_available g" and "mc_get_replica_list (gs_master_client g) t key w = (Inl (GeCache NotFound), w0)"
    and "va_complete (gs_vendor g) request w0 = (Inr answer, w0)" and "sj_to_vec (env_serde env) answer = Inr bs"
    and "\<And>s. gw_world s = w0 \<Longrightarrow> \<exists>s'. write_cached_bytes g t key bs s = (Inr WriteCommitted, s')"
  shows "\<exists>s. handle_response_request env g auth cc body (gateway_run_new w) =
     (Inr (with_cache_coalesced ''leader'' (response_ok answer Miss ''committed'' ''vendor'' (Some key))), s)"
proof -
  let ?s = "(gateway_run_new w)\<lparr>gw_world := w0\<rparr>"
  have read: "read_cached_body env g t key (gateway_run_new w) = (Inr None, ?s)"
    using assms(5) by (simp add: read_cached_body_def read_cached_bytes_def on_world_def try_bind_cases
        gateway_run_new_def)
  obtain flights where begun: "sf_begin \<lparr>sfk_tenant_id = t, sfk_cache_key = key, sfk_write_mode = Writable\<rparr>
      (gw_flights ?s) = (Leader \<lparr>sfk_tenant_id = t, sfk_cache_key = key, sfk_write_mode = Writable\<rparr>, flights)"
    by (auto simp: sf_begin_def gateway_run_new_def singleflight_new_def)
  let ?s1 = "on_metrics (record_singleflight RoleLeader) (?s\<lparr>gw_flights := flights\<rparr>)"
  obtain s2 where call: "complete_vendor env g request ?s1 = (Inr answer, s2)" and "gw_world s2 = w0"
    using assms(6) by (simp add: complete_vendor_def on_world_def on_metrics_def)
  then obtain s3 where wrote: "write_or_failed (write_cached_body env g t key answer) s2 = (WriteCommitted, s3)"
    using assms(8) [of s2] by (auto simp: write_or_failed_def write_cached_body_def assms(7))
  have "\<exists>s'. cacheable_non_streaming_miss env g t CcDefault request key ?s1 =
      (Inr (response_ok answer Miss ''committed'' ''vendor'' (Some key)), s')"
    using call wrote by (simp add: cacheable_non_streaming_miss_def try_bind_cases)
  then obtain s4 where miss: "cacheable_non_streaming_miss env g t CcDefault request key ?s1 =
      (Inr (response_ok answer Miss ''committed'' ''vendor'' (Some key)), s4)" ..
  show ?thesis
    using read begun miss
    by (simp add: handle_dispatched [OF assms(1)] respond_def assms(2-4) plain_response_def try_bind_cases
        coalesced_miss_def flight_write_mode_def Let_def)
qed

lemma over_first_run:
  assumes "mc_get_replica_list mc (TenantId test_tenant_id) local_key w = (Inl (GeCache NotFound), w0)"
    and "\<And>s. gw_world s = w0 \<Longrightarrow>
      \<exists>s'. write_cached_bytes (example_over mc sc) (TenantId test_tenant_id) local_key ''a'' s = (Inr WriteCommitted, s')"
  shows "\<exists>s. handle_response_request example_env (example_over mc sc) example_auth None example_body (gateway_run_new w) =
     (Inr (with_cache_coalesced ''leader'' (response_ok example_answer Miss ''committed'' ''vendor'' (Some local_key))), s)"
  by (rule first_run_committed [OF over_dispatched example_plain over_eligible over_fields(4) _ _ example_bytes assms(2)])
     (simp_all add: over_fields example_vendor_def assms(1))

lemma example_first_run:
  "\<exists>s. handle_response_request example_env example_gateway example_auth None example_body example_start =
     (Inr (with_cache_coalesced ''leader'' (response_ok example_answer Miss ''committed'' ''vendor'' (Some local_key))), s)"
proof -
  have "local_contents local_digest (gw_world example_start) (TenantId test_tenant_id, local_key) = None"
    by (simp add: local_contents_def example_start_def gateway_run_new_def example_world_def mount_segment_def master_new_def)
  then have "mc_get_replica_list local_master_client (TenantId test_tenant_id) local_key example_world =
      (Inl (GeCache NotFound), example_world)"
    using local_lookup_absent [OF example_inv] by (simp add: example_start_def gateway_run_new_def)
  from over_first_run [OF this] show ?thesis
    using example_write unfolding example_gateway_def example_start_def by blast
qed

section \<open>The contracts at work\<close>


theorem gateway_refines_cache_map_witness:
  "\<exists>r s. handle_response_request example_env example_gateway example_auth None example_body example_start = (r, s)
     \<and> local_contents local_digest (gw_world s) (TenantId test_tenant_id, local_key) = Some ''a''"
proof -
  let ?first = "with_cache_coalesced ''leader'' (response_ok example_answer Miss ''committed'' ''vendor'' (Some local_key))"
  obtain s where run: "handle_response_request example_env example_gateway example_auth None example_body example_start
      = (Inr ?first, s)"
    using example_first_run by blast
  have "\<exists>tenant control request key s1. dispatched example_env example_gateway example_auth None example_body
      example_start tenant control request key s1"
    using example_dispatched by blast
  with gateway_refines_cache_map [OF example_backed example_vendor_keeps example_serde_laws(1) example_inv run]
  obtain tenant control request key s1 where d: "dispatched example_env example_gateway example_auth None example_body
      example_start tenant control request key s1"
    and r: "reflected True (env_serde example_env) (tenant, key) (local_contents local_digest (gw_world example_start))
      (Inr ?first) (local_contents local_digest (gw_world s))"
    by (simp only: if_True) blast
  have "payload (env_serde example_env) ?first = Inr ''a''"
    by (simp add: with_cache_coalesced_def payload_ok example_bytes)
  moreover have "header ''x-cache-write'' ?first = Some ''committed''"
    by (simp add: with_cache_coalesced_def header_labels)
  ultimately show ?thesis
    using r run dispatched_unique [OF example_dispatched d] by (auto simp: stored_def)
qed

theorem every_answer_is_counted_witness:
  "\<exists>r s. handle_response_request example_env example_gateway example_auth None example_body example_start = (r, s)
     \<and> accounted (gw_metrics example_start) r (gw_metrics s)"
proof -
  obtain r s where run: "handle_response_request example_env example_gateway example_auth None example_body example_start
      = (r, s)"
    by fastforce
  have "\<And>response. env_wait example_env = Inr response \<Longrightarrow> header ''x-cache-status'' response = Some ''miss''"
    by (simp add: example_env_def)
  from every_answer_is_counted [OF this run] run show ?thesis by blast
qed

text \<open>A master that cannot be reached.\<close>

definition unreachable_gateway :: "local_world gateway_state" where
  "unreachable_gateway = example_gateway\<lparr>gs_master_client :=
     local_master_client\<lparr>mc_get_replica_list := (\<lambda>_ _ w. (Inl (GeMasterUpstream ''connection refused''), w))\<rparr>\<rparr>"

lemma dispatched_cong:
  assumes "dispatched env state auth cc body s t c r k s1"
    and "gs_tenant_configs state' = gs_tenant_configs state" and "gs_tenant_id state' = gs_tenant_id state"
    and "gs_vendor state' = gs_vendor state"
  shows "dispatched env state' auth cc body s t c r k s1"
proof -
  have "authenticate sha state' auth = authenticate sha state auth" for sha
    using assms(2,3) by (rule authenticate_cong)
  moreover have "tenant_allows_vendor state' = tenant_allows_vendor state"
    using assms(2) by (rule tenant_allows_vendor_cong)
  moreover have "request_fingerprint state' = request_fingerprint state"
    using assms(4) by (intro ext) (simp add: request_fingerprint_def)
  ultimately show ?thesis using assms(1,4) by (simp add: dispatched_def)
qed

theorem failing_lookup_fails_request_witness:
  "handle_response_request example_env unreachable_gateway example_auth None example_body example_start
     = (Inl (GeMasterUpstream ''connection refused''), example_start)"
proof (rule failing_lookup_fails_request)
  show "dispatched example_env unreachable_gateway example_auth None example_body example_start
      (TenantId test_tenant_id) CcDefault example_request local_key example_start"
    by (rule dispatched_cong [OF example_dispatched]) (simp_all add: unreachable_gateway_def)
  have "request_eligibility unreachable_gateway = request_eligibility example_gateway"
    by (intro ext) (simp add: request_eligibility_def unreachable_gateway_def)
  then show "request_eligibility unreachable_gateway CcDefault example_request example_body = Cacheable"
    by (simp add: example_eligible)
qed (simp_all add: unreachable_gateway_def example_gateway_fields on_world_def)

text \<open>Replacing the store of a bypassing request.\<close>

theorem cache_modes_are_respected_witness:
  "parse_cache_control ''bypass'' = Inr CcBypass
   \<and> handle_response_request example_env (with_clients (gs_master_client unreachable_gateway)
         (local_store_client local_digest) example_gateway) example_auth (Some ''bypass'') example_body example_start
     = handle_response_request example_env example_gateway example_auth (Some ''bypass'') example_body example_start"
proof -
  have "parse_cache_control ''bypass'' = Inr CcBypass" by code_simp
  then show ?thesis using cache_modes_are_respected [of "Some ''bypass''" CcBypass] by simp
qed

theorem only_tenants_are_served_witness:
  "\<exists>configs response s. parse_tenant_toml example_tenants_toml ''ok'' = Inr configs
     \<and> handle_response_request example_env (example_gateway\<lparr>gs_tenant_configs := Some configs\<rparr>) None None example_body
         example_start = (Inr response, s)
     \<and> gr_status_code response \<in> {401, 403} \<and> gw_world s = gw_world example_start"
proof -
  obtain configs where "parse_tenant_toml example_tenants_toml ''ok'' = Inr configs"
    using example_tenants_load by blast
  from only_tenants_are_served [OF this, of "example_gateway\<lparr>gs_tenant_configs := Some configs\<rparr>" None example_env]
    this show ?thesis by simp blast
qed

end
