(* ===== verification/Cluster_Examples.thy ===== *)
theory Cluster_Examples
imports Deployment Gateway_Examples
begin

text \<open>
  A cluster of one master, one store node of eight bytes and the gateway of
  \<open>Gateway_Examples\<close>, with which the contracts of \<open>Cluster\<close> are applied.
\<close>

section \<open>The example cluster\<close>

definition example_call_env :: call_env where
  "example_call_env = \<lparr>ce_fault = (\<lambda>_. None), ce_lost = (\<lambda>_. None), ce_now = 1, ce_io = quiet_env, ce_read_error = None\<rparr>"

definition example_site :: "master_metadata_snapshot option site" where
  "example_site =
     \<lparr>cs_master_url = ''http://m:1'', cs_node_url = ''http://n:2'', cs_app = example_app, cs_sha256 = local_digest,
      cs_cipher = tagging_aead, cs_format = plain_format, cs_decode = id,
      cs_reject = (\<lambda>_. \<lparr>hres_status = 400, hres_text = Inr [], hres_json = Inl []\<rparr>), cs_text = (\<lambda>_. []),
      cs_no_route = (\<lambda>_. []), cs_type_error = (\<lambda>_. []), cs_oracle = (\<lambda>_. example_call_env)\<rparr>"

definition example_cluster :: "master_metadata_snapshot option cluster" where
  "example_cluster =
     \<lparr>cl_run = \<lparr>mr_master = mount_segment ''a'' 8 master_new, mr_world = None\<rparr>, cl_machine = example_machine, cl_tick = 0\<rparr>"

abbreviation cluster_gateway :: "master_metadata_snapshot option cluster gateway_state" where
  "cluster_gateway \<equiv> example_over (cluster_master example_site) (cluster_store example_site ''a'')"

abbreviation cluster_begin :: "master_metadata_snapshot option cluster gateway_run" where
  "cluster_begin \<equiv> gateway_run_new example_cluster"

section \<open>Its parts\<close>

lemma example_site_ok: "site_ok True example_site"
  by (simp add: site_ok_def example_site_def example_app_def saves_succeed_def memory_metadata_def memory_save_def
      decodes_plain_def tagging_decrypts honest_def reliable_def example_call_env_def quiet_env_def)

lemma example_calm: "calm example_site n"
  by (simp add: calm_def example_site_def example_app_def is_leader_def leadership_leader_def saves_succeed_def
      memory_metadata_def memory_save_def example_call_env_def)

lemma example_cluster_inv: "cluster_inv example_site example_node_ssd 8 (gw_world cluster_begin)"
proof -
  have "master_inv (mount_segment ''a'' 8 master_new) \<and> placement_inv (mount_segment ''a'' 8 master_new)"
    by (rule placement.mounted [OF placement.new])
  then show ?thesis
    using memory_inv_with_capacity [of 8]
    by (simp add: cluster_inv_def cache_master_def gateway_run_new_def example_cluster_def mount_segment_def
        allocator_mount_def master_new_def node_inv_def example_machine_def memory_with_capacity_def)
qed

lemma example_cluster_vendor: "vendor_keeps (cluster_keeps ssd c) (gs_vendor cluster_gateway)"
  by (simp add: vendor_keeps_def cluster_keeps_def over_fields example_vendor_def)

lemma example_url_key: "url_key (TenantId test_tenant_id, local_key)"
proof -
  have "valid_key_text (hex_lower (replicate 32 (CHR 0x00)))" by (rule valid_key_text_hex_lower) simp
  moreover have "url_safe test_tenant_id" "trim test_tenant_id \<noteq> []" by code_simp+
  ultimately show ?thesis by (simp add: local_key_def)
qed

section \<open>The first request\<close>

abbreviation example_replica :: replica_descriptor where
  "example_replica \<equiv> \<lparr>rep_node_id = ''a'', rep_offset = 0, rep_len = 1\<rparr>"

lemma example_node_write:
  "\<exists>m. node_write_preallocated local_digest tagging_aead quiet_env \<lparr>ch_offset = 0, ch_len = 1\<rparr> ''a''
     (Some test_tenant_id) (Some (key_as_str local_key)) example_machine = (Inr (), m)"
proof -
  obtain st where "write_preallocated_chunk local_digest \<lparr>ch_offset = 0, ch_len = 1\<rparr> ''a'' (memory_with_capacity 8) = (Inr (), st)"
    using example_written by blast
  moreover have "validate_path_segment ''tenant_id'' test_tenant_id = Inr test_tenant_id"
    "validate_path_segment ''cache_key'' (key_as_str local_key) = Inr (key_as_str local_key)"
    by code_simp+
  then have "object_path test_tenant_id (key_as_str local_key) example_node_ssd =
      Inr (ssd_root example_node_ssd @ [test_tenant_id, key_as_str local_key @ ''.mcobj''])"
    by (simp add: object_path_eq_Inr)
  then have "\<exists>d'. persist_object tagging_aead quiet_env test_tenant_id (key_as_str local_key) ''a'' example_node_ssd Map.empty
      = (Inr (), d')"
    by (auto simp: persist_object_def quiet_env_def tagging_aead_def write_and_rename_def is_ok_def Let_def)
  ultimately show ?thesis
    by (auto simp: node_write_preallocated_def example_machine_def Let_def)
qed

lemma cluster_write_committed:
  assumes "backed (cluster_master example_site) (cluster_store example_site ''a'') g"
    and "mr_master (cl_run (gw_world s)) = mount_segment ''a'' 8 master_new" and "cl_machine (gw_world s) = example_machine"
  shows "\<exists>s'. write_cached_bytes g (TenantId test_tenant_id) local_key ''a'' s = (Inr WriteCommitted, s')"
proof -
  let ?t = "TenantId test_tenant_id" and ?k = local_key and ?site = example_site and ?w = "gw_world s"
  note ok = example_site_ok example_url_key
  obtain r1 w1 where start: "mc_put_start (cluster_master ?site) ?t ?k 1 1 ?w = (r1, w1)" by fastforce
  have "r1 = Inr [example_replica] \<and> cl_machine w1 = example_machine
      \<and> mr_master (cl_run w1) = snd (put_start ?t ?k 1 1 (mount_segment ''a'' 8 master_new))"
    by (rule Network.cluster_start [OF ok start]) (auto simp: example_calm assms(2,3) example_reserved)
  then have w1: "r1 = Inr [example_replica]" "cl_machine w1 = example_machine"
    and m1: "mr_master (cl_run w1) = snd (put_start ?t ?k 1 1 (mount_segment ''a'' 8 master_new))"
    by blast+
  obtain m where node: "node_write_preallocated local_digest tagging_aead quiet_env \<lparr>ch_offset = 0, ch_len = 1\<rparr> ''a''
      (Some (tenant_as_str ?t)) (Some (key_as_str ?k)) example_machine = (Inr (), m)"
    using example_node_write by auto
  have site: "cs_sha256 ?site = local_digest" "cs_cipher ?site = tagging_aead" "ce_io (cs_oracle ?site n) = quiet_env" for n
    by (simp_all add: example_site_def example_call_env_def)
  obtain r2 w2 where put: "sc_write_preallocated_chunk (cluster_store ?site ''a'') ''a'' ?t ?k
      \<lparr>ch_offset = 0, ch_len = 1\<rparr> ''a'' w1 = (r2, w2)"
    by fastforce
  have "r2 = Inr () \<and> cl_run w2 = cl_run w1"
    by (rule cluster_write [OF ok(1) put]) (simp_all only: example_calm w1(2) site node prod.inject sum.simps simp_thms)
  then have w2: "r2 = Inr ()" "cl_run w2 = cl_run w1" by blast+
  obtain r3 w3 where fin: "mc_put_end (cluster_master ?site) ?t ?k w2 = (r3, w3)" by fastforce
  have "\<exists>m. put_end ?t ?k (mr_master (cl_run w2)) = (Inr (), m)"
    by (simp add: w2(2) m1 example_reserved put_end_def hm_get_def)
  then obtain m3 where "put_end ?t ?k (mr_master (cl_run w2)) = (Inr (), m3)" ..
  note this [simp]
  have w3: "r3 = Inr ()"
    by (rule cluster_end [OF ok fin]) (simp_all add: example_calm)
  show ?thesis
    using assms(1) start put fin w1(1) w2(1) w3
    by (simp add: write_cached_bytes_def backed_def on_world_def replica_count_def from_replica_def try_bind_cases)
qed

lemma cluster_first_lookup:
  obtains w0 where
    "mc_get_replica_list (cluster_master example_site) (TenantId test_tenant_id) local_key example_cluster =
       (Inl (GeCache NotFound), w0)"
    and "mr_master (cl_run w0) = mount_segment ''a'' 8 master_new" and "cl_machine w0 = example_machine"
proof -
  have "get_replica_list (ce_now (cs_oracle example_site (cl_tick example_cluster))) (TenantId test_tenant_id) local_key
      (mr_master (cl_run example_cluster)) = (Inl NotFound, mount_segment ''a'' 8 master_new)"
    by (simp add: get_replica_list_def example_cluster_def mount_segment_def master_new_def)
  from cluster_get [OF example_site_ok example_url_key this] show thesis
    using that by (auto simp: example_cluster_def)
qed

lemma cluster_first_run:
  "\<exists>s. handle_response_request example_env cluster_gateway example_auth None example_body cluster_begin =
     (Inr (with_cache_coalesced ''leader'' (response_ok example_answer Miss ''committed'' ''vendor'' (Some local_key))), s)"
  using cluster_first_lookup over_first_run cluster_write_committed [OF over_backed] by metis

section \<open>The contracts at work\<close>


section \<open>A gateway started from its configuration\<close>

definition example_vendor_entry :: raw_vendor_config where
  "example_vendor_entry =
     \<lparr>rv_id = ''openai'', rv_adapter = ''openai-responses'', rv_adapter_version = ''openai-responses-v1'',
      rv_base_url = ''http://v/v1/'', rv_api_key_env = ''KEY'', rv_timeout_ms = 1000, rv_headers = [],
      rv_models = [\<lparr>vm_requested = ''m'', vm_resolved = ''m-1'', vm_cache_eligible = True\<rparr>]\<rparr>"

definition example_startup :: "master_metadata_snapshot option cluster gateway_startup" where
  "example_startup =
     \<lparr>st_read_to_string = (\<lambda>_. Inr []),
      st_tenants_toml = (\<lambda>_. Inr [example_tenant test_tenant_id (hex_lower (replicate 32 (CHR 0x00)))]),
      st_vendors_toml = (\<lambda>_. Inr [example_vendor_entry]), st_getenv = (\<lambda>_. Some ''secret''), st_client_error = None,
      st_send = (\<lambda>_ w. (Inr \<lparr>hres_status = 200, hres_text = Inr [], hres_json = Inr example_answer\<rparr>, w)),
      st_http = cluster_http example_site, st_type_error = cs_type_error example_site, st_node_order = id\<rparr>"

definition example_app_config :: gateway_app_config where
  "example_app_config =
     \<lparr>ga_bind_addr = ''0.0.0.0:8080'', ga_etcd_url = [], ga_master_url = ''http://m:1/'',
      ga_store_node_urls = [(''a'', ''http://n:2'')], ga_tenant_config_path = ''tenants.toml'', ga_ssd_root_path = [],
      ga_metrics_bind_addr = [], ga_vendor_config_path = ''vendors.toml''\<rparr>"

definition deployment_env :: request_env where
  "deployment_env = example_env\<lparr>env_serde := \<lparr>sj_to_vec = (\<lambda>v. if v = example_answer then Inr ''a'' else Inr ''d''),
     sj_from_slice = (\<lambda>bs. if bs = ''a'' then Inr example_answer else Inl []), sj_type_error = (\<lambda>_. [])\<rparr>\<rparr>"

definition example_http_request :: header_request where
  "example_http_request =
     \<lparr>sq_method = MethodPost, sq_path = ''/v1/responses'', sq_query = [], sq_body = example_body,
      sq_headers = (\<lambda>name. if name = ''authorization'' then Some (Some ''Bearer t'') else None)\<rparr>"

definition plain_rules :: header_rules where
  "plain_rules = \<lparr>header_name_ok = (\<lambda>_. True), header_value_ok = (\<lambda>_. True)\<rparr>"

definition example_tenant_config :: tenant_config where
  "example_tenant_config =
     \<lparr>tc_id = TenantId test_tenant_id, tc_name = ''Acme'', tc_enabled = True,
      tc_api_key_sha256 = hex_lower (replicate 32 (CHR 0x00)), tc_dram_quota_bytes = 1000, tc_ssd_quota_bytes = 0,
      tc_request_rate_limit_per_minute = 60, tc_stream_concurrency_limit = 4, tc_vendor_spend_budget_usd = 10,
      tc_default_ttl_seconds = 60, tc_max_ttl_seconds = 600, tc_policy = PolicyCacheFirst,
      tc_allowed_vendors = [''openai'']\<rparr>"

definition example_adapter :: openai_adapter where
  "example_adapter =
     \<lparr>oa_base_url = trim_end_matches (CHR ''/'') ''http://v/v1/'', oa_api_key = ''secret'', oa_timeout_ms = 1000,
      oa_headers = [], oa_models = [(''m'', \<lparr>vm_requested = ''m'', vm_resolved = ''m-1'', vm_cache_eligible = True\<rparr>)]\<rparr>"

lemma example_build:
  obtains state where "build_gateway_state_from_config example_startup example_app_config = Inr state"
    and "gs_tenant_configs state = Some [(test_tenant_id, example_tenant_config)]"
    and "gs_vendor state = openai_vendor (st_send example_startup) example_adapter"
proof -
  have "trim test_tenant_id \<noteq> []" "trim ''Acme'' \<noteq> []" "trim ''openai'' \<noteq> []" "trim ''secret'' \<noteq> []" "trim ''KEY'' \<noteq> []"
    "trim ''openai-responses'' \<noteq> []" "trim ''openai-responses-v1'' \<noteq> []" "trim ''http://v/v1/'' \<noteq> []" "trim ''m'' \<noteq> []"
    "trim ''m-1'' \<noteq> []" "trim_end_matches (CHR ''/'') ''http://v/v1/'' \<noteq> []"
    "validate_sha256 (hex_lower (replicate 32 (CHR 0x00))) = Inr ()"
    by code_simp+
  then have "\<exists>state. build_gateway_state_from_config example_startup example_app_config = Inr state
     \<and> gs_tenant_configs state = Some [(test_tenant_id, example_tenant_config)]
     \<and> gs_vendor state = openai_vendor (st_send example_startup) example_adapter"
    by (simp add: build_gateway_state_from_config_def example_startup_def load_tenant_config_def parse_tenant_toml_def
        example_tenant_def check_tenant_def parse_tenant_id_def map_err_def bt_get_def
        load_vendor_config_def parse_vendor_toml_def example_vendor_entry_def check_vendor_def validate_non_empty_def
        check_models_def try_result_def config_vendors_def openai_new_def Let_def
        gateway_new_with_clients_and_tenant_config_def example_tenant_config_def ok_or_def
        example_adapter_def)
  then show thesis using that by blast
qed


lemma example_configured: "configured example_site ''a'' example_startup example_app_config"
proof -
  have "trim_end_matches (CHR ''/'') ''http://m:1/'' = ''http://m:1''"
    "trim_end_matches (CHR ''/'') ''http://n:2'' = ''http://n:2''" by code_simp+
  then show ?thesis
    by (simp add: configured_def example_startup_def example_app_config_def example_site_def)
qed

lemma deployed_dispatched:
  assumes "gs_tenant_configs g = Some [(test_tenant_id, example_tenant_config)]"
    and "gs_vendor g = openai_vendor (st_send example_startup) example_adapter"
  shows "dispatched deployment_env g (Some ''Bearer t'') None example_body s
     (TenantId test_tenant_id) CcDefault example_request local_key s"
proof -
  let ?f = "request_fingerprint g (TenantId test_tenant_id) CcDefault ''m-1'' example_body"
  have "canonicalize (fingerprint_document ?f) \<noteq> JString ''ok''"
    by (simp add: fingerprint_document_def json_obj_def canonicalize_object)
  then have "compute_cache_key (sj_to_vec (env_serde deployment_env)) local_digest ?f = Inr local_key"
    using valid_key_text_hex_lower [of "replicate 32 (CHR 0x00)"]
    by (simp add: compute_cache_key_def canonical_json_bytes_def deployment_env_def local_digest_def local_key_def
        example_answer_def)
  moreover have "env_sha256 deployment_env = local_digest"
    by (simp add: deployment_env_def example_env_def)
  moreover have "responses_request_from_value example_body = Some example_request"
    by (simp add: example_body_def responses_request_from_value_def example_request_def bt_get_def bt_remove_def json_as_str_def)
  ultimately show ?thesis
    by (simp add: dispatched_def example_mode authenticate_def tenant_allows_vendor_def assms
        openai_vendor_def openai_resolve_model_version_def example_adapter_def bt_get_def on_world_def
        tenant_for_bearer_token_def sha256_hex_def local_digest_def example_tenant_config_def config_tenant_def
        example_request_def)
qed


lemma deployed_first_run:
  assumes "backed (cluster_master example_site) (cluster_store example_site ''a'') g" and "gs_cache_available g"
    and "gs_tenant_configs g = Some [(test_tenant_id, example_tenant_config)]"
    and "gs_vendor g = openai_vendor (st_send example_startup) example_adapter"
  shows "\<exists>s. handle_response_request deployment_env g (Some ''Bearer t'') None example_body cluster_begin =
     (Inr (with_cache_coalesced ''leader'' (response_ok example_answer Miss ''committed'' ''vendor'' (Some local_key))), s)"
proof -
  obtain w0 where w0: "mc_get_replica_list (cluster_master example_site) (TenantId test_tenant_id) local_key example_cluster =
       (Inl (GeCache NotFound), w0)"
    "mr_master (cl_run w0) = mount_segment ''a'' 8 master_new" "cl_machine w0 = example_machine"
    by (rule cluster_first_lookup)
  have eligible: "request_eligibility g CcDefault example_request example_body = Cacheable"
    by (simp add: request_eligibility_def assms(4) openai_vendor_def openai_model_cache_eligible_def example_adapter_def
        bt_get_def example_request_def classify_request_def example_body_def json_get_def)
  have answered: "va_complete (gs_vendor g) example_request w0 = (Inr example_answer, w0)"
    by (simp add: assms(4) openai_vendor_def openai_complete_def openai_post_json_def example_startup_def is_success_def)
  have bytes: "sj_to_vec (env_serde deployment_env) example_answer = Inr ''a''"
    by (simp add: deployment_env_def)
  show ?thesis
    by (rule first_run_committed [OF deployed_dispatched [OF assms(3,4)] example_plain eligible assms(2) _ answered bytes])
       (use w0 assms(1) cluster_write_committed [OF assms(1)] in \<open>simp_all add: backed_def\<close>)
qed

theorem deployment_refines_cache_map_witness:
  "\<exists>state answer s key bs. build_gateway_state_from_config example_startup example_app_config = Inr state
     \<and> gateway_router plain_rules deployment_env state example_http_request cluster_begin = (answer, s)
     \<and> labelled_committed answer
     \<and> cluster_contents example_site example_node_ssd (gw_world s) (TenantId test_tenant_id, key) = Some bs"
proof -
  obtain g where g: "build_gateway_state_from_config example_startup example_app_config = Inr g"
    "gs_tenant_configs g = Some [(test_tenant_id, example_tenant_config)]"
    "gs_vendor g = openai_vendor (st_send example_startup) example_adapter"
    by (rule example_build)
  let ?first = "with_cache_coalesced ''leader'' (response_ok example_answer Miss ''committed'' ''vendor'' (Some local_key))"
  obtain s where run: "handle_response_request deployment_env g (Some ''Bearer t'') None example_body cluster_begin = (Inr ?first, s)"
    using deployed_first_run [OF built_backed [OF g(1) example_configured] _ g(2,3)] started_gateway [OF g(1)] by blast
  let ?answer = "Inr (gateway_http_response plain_rules ?first)"
  have routed: "gateway_router plain_rules deployment_env g example_http_request cluster_begin = (?answer, s)"
    using run by (simp add: gateway_router_def example_http_request_def on_route_def responses_def optional_header_def)
  have ok: "header_name_ok plain_rules ''x-cache-write''" "header_value_ok plain_rules ''committed''"
    by (simp_all add: plain_rules_def)
  have wait: "bt_ok (gr_headers r)" if "env_wait deployment_env = Inr r" for r
    using that by (simp add: deployment_env_def example_env_def)
  have label: "labelled_committed ?answer"
    using labelled_response [OF _ ok, of ?first] by (simp add: with_cache_coalesced_def header_labels)
  have safe: "tenants_url_safe g"
    using example_url_key by (simp add: tenants_url_safe_def g(2) config_tenants_def example_tenant_config_def)
  have serde: "serde_bounded (env_serde deployment_env)"
    by (auto simp: serde_bounded_def deployment_env_def split: if_splits)
  have send: "cluster_keeps example_node_ssd 8 w (snd (st_send example_startup call w))" for call w
    by (simp add: example_startup_def cluster_keeps_refl)
  have "entry_added plain_rules deployment_env g example_http_request ?answer
      (cluster_contents example_site example_node_ssd (gw_world cluster_begin))
      (cluster_contents example_site example_node_ssd (gw_world s))"
    using deployment_refines_cache_map [OF g(1) example_configured send safe serde example_site_ok example_cluster_inv
        routed _ ok refl refl, THEN conjunct2, unfolded if_P [OF label]] wait by blast
  then obtain configs tenant key bs where "gs_tenant_configs g = Some configs" "tenant \<in> set (config_tenants configs)"
    and stored: "cluster_contents example_site example_node_ssd (gw_world s) =
      (cluster_contents example_site example_node_ssd (gw_world cluster_begin))((tc_id tenant, key) \<mapsto> bs)"
    unfolding entry_added_def tenant_entry_def stored_def by (elim exE conjE)
  then have "tc_id tenant = TenantId test_tenant_id" using g(2) by (auto simp: config_tenants_def example_tenant_config_def)
  then have "cluster_contents example_site example_node_ssd (gw_world s) (TenantId test_tenant_id, key) = Some bs"
    using stored by simp
  then show ?thesis using g(1) routed label by blast
qed


section \<open>Two store nodes\<close>

text \<open>One object on each node, both at offset 0; the gateway's table names node \<^verbatim>\<open>a\<close> first.\<close>

definition two_node_master :: master_state where
  "two_node_master =
     (let put = (\<lambda>t st. snd (put_end t local_key (snd (put_start t local_key 1 1 st))))
      in put (TenantId ''acme'') (put (TenantId test_tenant_id) (mount_segment ''b'' 1 (mount_segment ''a'' 1 master_new))))"

definition two_node_gateway :: "master_metadata_snapshot option cluster gateway_state" where
  "two_node_gateway =
     example_over (cluster_master example_site)
       (remote_store_ops (cluster_http example_site) (cs_type_error example_site)
          \<lparr>rs_node_urls = [(''a'', ''http://n:2''), (''b'', ''http://n:3'')]\<rparr>)"

lemma two_node_object:
  "\<exists>obj. hm_get (objects two_node_master) (TenantId ''acme'', local_key) = Some obj \<and> obj_status obj = Committed
     \<and> obj_replicas obj = [\<lparr>rep_node_id = ''b'', rep_offset = 0, rep_len = 1\<rparr>]"
proof -
  have full: "\<not> (2 :: u64) \<le> 1" by (simp add: word_le_nat_alt)
  show ?thesis
    by (simp add: two_node_master_def Let_def put_start_def put_end_def mount_segment_def allocator_mount_def master_new_def
        hm_get_def hm_insert_def hm_modify_def reserve_tenant_quota_def allocator_allocate_def segment_indexes_def
        can_fit_def checked_add_def saturating_add_def replica_of_allocation_def test_tenant_id_def full)
qed

theorem first_node_answers_every_read_witness:
  "\<exists>m obj s'. node_write_preallocated local_digest tagging_aead quiet_env \<lparr>ch_offset = 0, ch_len = 1\<rparr> ''a''
       (Some test_tenant_id) (Some (key_as_str local_key)) example_machine = (Inr (), m)
     \<and> hm_get (objects two_node_master) (TenantId ''acme'', local_key) = Some obj
     \<and> map rep_node_id (obj_replicas obj) = [''b'']
     \<and> read_cached_bytes two_node_gateway (TenantId ''acme'') local_key
         (gateway_run_new \<lparr>cl_run = \<lparr>mr_master = two_node_master, mr_world = None\<rparr>, cl_machine = m, cl_tick = 0\<rparr>) =
         (Inr (Some \<lparr>sch_bytes = ''a'', sch_tier = ''dram''\<rparr>), s')"
proof -
  obtain m where m: "node_write_preallocated local_digest tagging_aead quiet_env \<lparr>ch_offset = 0, ch_len = 1\<rparr> ''a''
      (Some test_tenant_id) (Some (key_as_str local_key)) example_machine = (Inr (), m)"
    using example_node_write by blast
  obtain obj where obj: "hm_get (objects two_node_master) (TenantId ''acme'', local_key) = Some obj" "obj_status obj = Committed"
    "obj_replicas obj = [\<lparr>rep_node_id = ''b'', rep_offset = 0, rep_len = 1\<rparr>]"
    using two_node_object by blast
  let ?w = "\<lparr>cl_run = \<lparr>mr_master = two_node_master, mr_world = None\<rparr>, cl_machine = m, cl_tick = 0\<rparr>"
  have node: "node_inv example_node_ssd 8 (sm_node example_machine)"
    using example_cluster_inv by (simp add: cluster_inv_def gateway_run_new_def example_cluster_def)
  have "read_chunk local_digest \<lparr>ch_offset = 0, ch_len = 1\<rparr> (sn_dram (sm_node m)) = Inr ''a''"
  proof (rule node_write_effect [OF _ m, of example_node_ssd])
    show "sn_ssd (sm_node example_machine) = Some example_node_ssd" using node by (simp add: node_inv_def)
    fix dres
    assume "write_preallocated_chunk local_digest \<lparr>ch_offset = 0, ch_len = 1\<rparr> ''a'' (sn_dram (sm_node example_machine)) =
        (dres, sn_dram (sm_node m))" and "sn_ssd (sm_node m) = sn_ssd (sm_node example_machine)"
      and "Inr () = Inr () \<Longrightarrow> dres = Inr () \<and> persist_object tagging_aead quiet_env test_tenant_id (key_as_str local_key)
        ''a'' example_node_ssd (sm_disk example_machine) = (Inr (), sm_disk m)"
    then show ?thesis using dram_written(4) [OF node, of "''a''"] by simp
  qed
  then have held: "read_chunk (cs_sha256 example_site) (replica_handle \<lparr>rep_node_id = ''b'', rep_offset = 0, rep_len = 1\<rparr>)
      (sn_dram (sm_node (cl_machine (gw_world (gateway_run_new ?w))))) = Inr ''a''"
    by (simp add: example_site_def replica_handle_def gateway_run_new_def)
  have key: "url_key (TenantId ''acme'', local_key)"
  proof -
    have "url_safe ''acme''" "trim ''acme'' \<noteq> []" by code_simp+
    then show ?thesis using example_url_key by simp
  qed
  have "\<exists>s'. read_cached_bytes two_node_gateway (TenantId ''acme'') local_key (gateway_run_new ?w) =
      (Inr (Some \<lparr>sch_bytes = ''a'', sch_tier = ''dram''\<rparr>), s')"
    by (rule first_node_answers_every_read [OF example_site_ok key _ _ _ obj(2,3) held,
          where node_id = "''a''" and others = "[(''b'', ''http://n:3'')]"])
       (simp_all add: two_node_gateway_def over_fields example_site_def gateway_run_new_def obj(1))
  then show ?thesis using m obj by auto
qed


end
