(* ===== verification/Async_Flow.thy ===== *)
theory Async_Flow
imports Cache_Flow
begin

text \<open>
  The request flow of \<^verbatim>\<open>crates/gateway/src/cache_flow.rs\<close> as it runs: an \<^verbatim>\<open>async\<close> function gives up
  control at every call of a client, of the vendor and of \<^verbatim>\<open>wait\<close>, and other requests run in
  between. A program is its result, or the next call with what follows every answer to it. Run
  without interruption, the programs are the handlers of \<open>Cache_Flow\<close>.
\<close>

section \<open>Programs\<close>

datatype 'a program =
    Return 'a
  | GetReplicaList tenant_id cache_key "gateway_error + replica_list \<Rightarrow> 'a program"
  | ReadChunk tenant_id cache_key chunk_handle "gateway_error + store_chunk \<Rightarrow> 'a program"
  | PutStart tenant_id cache_key u64 usize "gateway_error + replica_descriptor list \<Rightarrow> 'a program"
  | WriteChunk string tenant_id cache_key chunk_handle bytes "gateway_error + unit \<Rightarrow> 'a program"
  | PutEnd tenant_id cache_key "gateway_error + unit \<Rightarrow> 'a program"
  | PutRevoke tenant_id cache_key "gateway_error + unit \<Rightarrow> 'a program"
  | ResolveModel string "vendor_error + string \<Rightarrow> 'a program"
  | Complete responses_request "vendor_error + json \<Rightarrow> 'a program"
  | OpenStream responses_request "vendor_error + vendor_stream \<Rightarrow> 'a program"
  | Begin singleflight_key "singleflight_start \<Rightarrow> 'a program"
  | Publish singleflight_key "string + gateway_response" "'a program"
  | Wait nat "string + gateway_response \<Rightarrow> 'a program"
  | Count "gateway_metrics \<Rightarrow> gateway_metrics" "'a program"

primrec bind_program :: "'a program \<Rightarrow> ('a \<Rightarrow> 'b program) \<Rightarrow> 'b program" where
  "bind_program (Return a) f = f a"
| "bind_program (GetReplicaList t k c) f = GetReplicaList t k (\<lambda>r. bind_program (c r) f)"
| "bind_program (ReadChunk t k h c) f = ReadChunk t k h (\<lambda>r. bind_program (c r) f)"
| "bind_program (PutStart t k len n c) f = PutStart t k len n (\<lambda>r. bind_program (c r) f)"
| "bind_program (WriteChunk node t k h bs c) f = WriteChunk node t k h bs (\<lambda>r. bind_program (c r) f)"
| "bind_program (PutEnd t k c) f = PutEnd t k (\<lambda>r. bind_program (c r) f)"
| "bind_program (PutRevoke t k c) f = PutRevoke t k (\<lambda>r. bind_program (c r) f)"
| "bind_program (ResolveModel m c) f = ResolveModel m (\<lambda>r. bind_program (c r) f)"
| "bind_program (Complete q c) f = Complete q (\<lambda>r. bind_program (c r) f)"
| "bind_program (OpenStream q c) f = OpenStream q (\<lambda>r. bind_program (c r) f)"
| "bind_program (Begin key c) f = Begin key (\<lambda>r. bind_program (c r) f)"
| "bind_program (Publish key res p) f = Publish key res (bind_program p f)"
| "bind_program (Wait c k) f = Wait c (\<lambda>r. bind_program (k r) f)"
| "bind_program (Count u p) f = Count u (bind_program p f)"

text \<open>The \<^verbatim>\<open>?\<close> operator.\<close>

definition try_program :: "(gateway_error + 'a) program \<Rightarrow> ('a \<Rightarrow> (gateway_error + 'b) program) \<Rightarrow> (gateway_error + 'b) program" where
  "try_program p f = bind_program p (\<lambda>r. case r of Inl e \<Rightarrow> Return (Inl e) | Inr a \<Rightarrow> f a)"

section \<open>One call\<close>

text \<open>
  What a gateway does for the call a program has come to: \<open>None\<close> when it is finished, or waits on
  a flight that is still open.
\<close>

definition answered :: "(('e + 'a) \<Rightarrow> 'p) \<Rightarrow> ('e + 'a) \<times> 's \<Rightarrow> ('p \<times> 's) option" where
  "answered c rs = (case rs of (r, s) \<Rightarrow> Some (c r, s))"

fun program_step :: "'w gateway_state \<Rightarrow> 'a program \<Rightarrow> 'w gateway_run \<Rightarrow> ('a program \<times> 'w gateway_run) option" where
  "program_step g (Return a) s = None"
| "program_step g (GetReplicaList t k c) s = answered c (on_world (mc_get_replica_list (gs_master_client g) t k) s)"
| "program_step g (ReadChunk t k h c) s = answered c (on_world (sc_read_chunk (gs_store_client g) t k h) s)"
| "program_step g (PutStart t k len n c) s = answered c (on_world (mc_put_start (gs_master_client g) t k len n) s)"
| "program_step g (WriteChunk node t k h bs c) s =
     answered c (on_world (sc_write_preallocated_chunk (gs_store_client g) node t k h bs) s)"
| "program_step g (PutEnd t k c) s = answered c (on_world (mc_put_end (gs_master_client g) t k) s)"
| "program_step g (PutRevoke t k c) s = answered c (on_world (mc_put_revoke (gs_master_client g) t k) s)"
| "program_step g (ResolveModel m c) s = answered c (on_world (va_resolve_model_version (gs_vendor g) m) s)"
| "program_step g (Complete q c) s = answered c (on_world (va_complete (gs_vendor g) q) s)"
| "program_step g (OpenStream q c) s = answered c (on_world (va_stream (gs_vendor g) q) s)"
| "program_step g (Begin key c) s =
     (case sf_begin key (gw_flights s) of (start, flights) \<Rightarrow> Some (c start, s\<lparr>gw_flights := flights\<rparr>))"
| "program_step g (Publish key res p) s = Some (p, s\<lparr>gw_flights := sf_publish key res (gw_flights s)\<rparr>)"
| "program_step g (Wait c k) s = map_option (\<lambda>r. (k r, s)) (sf_wait c (gw_flights s))"
| "program_step g (Count u p) s = Some (p, on_metrics u s)"

text \<open>A program run without interruption; what a wait returns is given.\<close>

primrec run_program ::
  "'w gateway_state \<Rightarrow> string + gateway_response \<Rightarrow> 'a program \<Rightarrow> 'w gateway_run \<Rightarrow> 'a \<times> 'w gateway_run" where
  "run_program g x (Return a) = (\<lambda>s. (a, s))"
| "run_program g x (GetReplicaList t k c) = (\<lambda>s.
     case on_world (mc_get_replica_list (gs_master_client g) t k) s of (r, s1) \<Rightarrow> run_program g x (c r) s1)"
| "run_program g x (ReadChunk t k h c) = (\<lambda>s.
     case on_world (sc_read_chunk (gs_store_client g) t k h) s of (r, s1) \<Rightarrow> run_program g x (c r) s1)"
| "run_program g x (PutStart t k len n c) = (\<lambda>s.
     case on_world (mc_put_start (gs_master_client g) t k len n) s of (r, s1) \<Rightarrow> run_program g x (c r) s1)"
| "run_program g x (WriteChunk node t k h bs c) = (\<lambda>s.
     case on_world (sc_write_preallocated_chunk (gs_store_client g) node t k h bs) s of (r, s1) \<Rightarrow> run_program g x (c r) s1)"
| "run_program g x (PutEnd t k c) = (\<lambda>s.
     case on_world (mc_put_end (gs_master_client g) t k) s of (r, s1) \<Rightarrow> run_program g x (c r) s1)"
| "run_program g x (PutRevoke t k c) = (\<lambda>s.
     case on_world (mc_put_revoke (gs_master_client g) t k) s of (r, s1) \<Rightarrow> run_program g x (c r) s1)"
| "run_program g x (ResolveModel m c) = (\<lambda>s.
     case on_world (va_resolve_model_version (gs_vendor g) m) s of (r, s1) \<Rightarrow> run_program g x (c r) s1)"
| "run_program g x (Complete q c) = (\<lambda>s.
     case on_world (va_complete (gs_vendor g) q) s of (r, s1) \<Rightarrow> run_program g x (c r) s1)"
| "run_program g x (OpenStream q c) = (\<lambda>s.
     case on_world (va_stream (gs_vendor g) q) s of (r, s1) \<Rightarrow> run_program g x (c r) s1)"
| "run_program g x (Begin key c) = (\<lambda>s.
     case sf_begin key (gw_flights s) of (start, flights) \<Rightarrow> run_program g x (c start) (s\<lparr>gw_flights := flights\<rparr>))"
| "run_program g x (Publish key res p) = (\<lambda>s.
     run_program g x p (s\<lparr>gw_flights := sf_publish key res (gw_flights s)\<rparr>))"
| "run_program g x (Wait c k) = (\<lambda>s. run_program g x (k x) s)"
| "run_program g x (Count u p) = (\<lambda>s. run_program g x p (on_metrics u s))"

section \<open>The flow as programs\<close>

definition read_cached_bytes_program :: "tenant_id \<Rightarrow> cache_key \<Rightarrow> (gateway_error + store_chunk option) program" where
  "read_cached_bytes_program tenant_id cache_key =
     GetReplicaList tenant_id cache_key (\<lambda>found.
       case found of
         Inl e \<Rightarrow> Return (if e = GeCache NotFound then Inr None else Inl e)
       | Inr replica_list \<Rightarrow>
           (case rl_replicas replica_list of
              [] \<Rightarrow> Return (Inr None)
            | replica # _ \<Rightarrow>
                (case from_replica replica of
                   Inl e \<Rightarrow> Return (Inl (GeStore e))
                 | Inr handle \<Rightarrow> ReadChunk tenant_id cache_key handle (\<lambda>chunk. Return (map_sum id Some chunk)))))"

definition read_cached_body_program ::
  "request_env \<Rightarrow> tenant_id \<Rightarrow> cache_key \<Rightarrow> (gateway_error + (json \<times> string) option) program" where
  "read_cached_body_program env tenant_id cache_key =
     try_program (read_cached_bytes_program tenant_id cache_key) (\<lambda>chunk.
       Return (case chunk of
         None \<Rightarrow> Inr None
       | Some chunk \<Rightarrow>
           (case cached_body_from_bytes (env_serde env) (sch_bytes chunk) of
              Inl e \<Rightarrow> Inl (GeJson e)
            | Inr val \<Rightarrow> Inr (Some (val, sch_tier chunk)))))"

definition read_cached_stream_object_program ::
  "request_env \<Rightarrow> tenant_id \<Rightarrow> cache_key \<Rightarrow> (gateway_error + (cached_stream_object \<times> string) option) program" where
  "read_cached_stream_object_program env tenant_id cache_key =
     try_program (read_cached_bytes_program tenant_id cache_key) (\<lambda>chunk.
       Return (case chunk of
         None \<Rightarrow> Inr None
       | Some chunk \<Rightarrow>
           (case stream_object_from_bytes (env_serde env) (sch_bytes chunk) of
              Inl e \<Rightarrow> Inl (GeJson e)
            | Inr None \<Rightarrow> Inr None
            | Inr (Some obj) \<Rightarrow> Inr (Some (obj, sch_tier chunk)))))"

fun write_reserved_replicas_program ::
  "tenant_id \<Rightarrow> cache_key \<Rightarrow> replica_descriptor list \<Rightarrow> bytes \<Rightarrow> (gateway_error + unit) program" where
  "write_reserved_replicas_program tenant_id cache_key [] bs = Return (Inr ())"
| "write_reserved_replicas_program tenant_id cache_key (replica # rest) bs =
     (case from_replica replica of
        Inl e \<Rightarrow> Return (Inl (GeStore e))
      | Inr handle \<Rightarrow>
          WriteChunk (rep_node_id replica) tenant_id cache_key handle bs (\<lambda>r.
            case r of
              Inl e \<Rightarrow> Return (Inl e)
            | Inr _ \<Rightarrow> write_reserved_replicas_program tenant_id cache_key rest bs))"

definition revoke_reservation_program :: "tenant_id \<Rightarrow> cache_key \<Rightarrow> gateway_error \<Rightarrow> gateway_error program" where
  "revoke_reservation_program tenant_id cache_key write_error =
     PutRevoke tenant_id cache_key (\<lambda>r.
       Return (case r of
         Inr _ \<Rightarrow> write_error
       | Inl revoke_error \<Rightarrow>
           GeReservationRevokeFailed (gateway_error_to_string write_error) (gateway_error_to_string revoke_error)))"

definition write_cached_bytes_program ::
  "tenant_id \<Rightarrow> cache_key \<Rightarrow> bytes \<Rightarrow> (gateway_error + cache_write_status) program" where
  "write_cached_bytes_program tenant_id cache_key bs =
     PutStart tenant_id cache_key (word_of_nat (length bs)) replica_count (\<lambda>started.
       case started of
         Inl e \<Rightarrow> Return (Inl e)
       | Inr replicas \<Rightarrow>
           bind_program (write_reserved_replicas_program tenant_id cache_key replicas bs) (\<lambda>r.
             case r of
               Inl e \<Rightarrow> bind_program (revoke_reservation_program tenant_id cache_key e) (\<lambda>e. Return (Inl e))
             | Inr _ \<Rightarrow>
                 PutEnd tenant_id cache_key (\<lambda>r.
                   case r of
                     Inl e \<Rightarrow> bind_program (revoke_reservation_program tenant_id cache_key e) (\<lambda>e. Return (Inl e))
                   | Inr _ \<Rightarrow> Return (Inr WriteCommitted))))"

text \<open>Writing serialized bytes, with \<^verbatim>\<open>unwrap_or(CacheWriteStatus::Failed)\<close>.\<close>

definition write_or_failed_program ::
  "tenant_id \<Rightarrow> cache_key \<Rightarrow> string + bytes \<Rightarrow> cache_write_status program" where
  "write_or_failed_program tenant_id cache_key serialized =
     (case serialized of
        Inl e \<Rightarrow> Return WriteFailed
      | Inr bs \<Rightarrow>
          bind_program (write_cached_bytes_program tenant_id cache_key bs) (\<lambda>r.
            Return (case r of Inl _ \<Rightarrow> WriteFailed | Inr st \<Rightarrow> st)))"

definition complete_vendor_program :: "request_env \<Rightarrow> responses_request \<Rightarrow> (gateway_error + json) program" where
  "complete_vendor_program env request =
     Complete request (\<lambda>response.
       Count (record_vendor_call (env_vendor_micros env)) (Return (map_err GeVendor response)))"

definition count_gateway :: "cache_status \<Rightarrow> cache_write_status \<Rightarrow> 'a program \<Rightarrow> 'a program" where
  "count_gateway status write_status =
     Count (record_write (write_metrics_status write_status) \<circ> record_cache_status (observed_cache_status status))"

definition count_simple :: "cache_status \<Rightarrow> cache_write_status \<Rightarrow> 'a program \<Rightarrow> 'a program" where
  "count_simple status write_status p = count_gateway status write_status (Count (record_singleflight RoleNone) p)"

definition vendor_response_program ::
  "request_env \<Rightarrow> responses_request \<Rightarrow> cache_status \<Rightarrow> cache_write_status \<Rightarrow> cache_key option
   \<Rightarrow> (gateway_error + gateway_response) program" where
  "vendor_response_program env request cache_status write_status cache_key =
     try_program (complete_vendor_program env request) (\<lambda>body.
       count_simple cache_status write_status
         (Return (Inr (response_ok body cache_status (write_header_value write_status) ''vendor'' cache_key))))"

definition capture_vendor_stream_program :: "request_env \<Rightarrow> responses_request \<Rightarrow> (gateway_error + captured_stream) program" where
  "capture_vendor_stream_program env request =
     OpenStream request (\<lambda>stream.
       case stream of
         Inl e \<Rightarrow> Return (Inl (GeVendor e))
       | Inr stream \<Rightarrow>
           (case collect_stream (env_serde env) stream of
              Inl e \<Rightarrow> Return (Inl (GeVendor e))
            | Inr captured \<Rightarrow> Count (record_vendor_call (env_vendor_micros env)) (Return (Inr captured))))"

definition vendor_stream_response_program ::
  "request_env \<Rightarrow> responses_request \<Rightarrow> cache_status \<Rightarrow> cache_write_status \<Rightarrow> cache_key option
   \<Rightarrow> (gateway_error + gateway_response) program" where
  "vendor_stream_response_program env request cache_status write_status cache_key =
     try_program (capture_vendor_stream_program env request) (\<lambda>captured.
       count_simple cache_status write_status
         (Return (Inr (response_ok_stream (cap_final_body captured) (cap_events captured) cache_status
            (write_header_value write_status) ''vendor'' cache_key))))"

definition cacheable_non_streaming_miss_program ::
  "request_env \<Rightarrow> tenant_id \<Rightarrow> cache_control \<Rightarrow> responses_request \<Rightarrow> cache_key
   \<Rightarrow> (gateway_error + gateway_response) program" where
  "cacheable_non_streaming_miss_program env tenant_id control request cache_key =
     try_program (complete_vendor_program env request) (\<lambda>body.
       bind_program
         (if control = CcReadOnly then Return WriteSkipped
          else write_or_failed_program tenant_id cache_key (sj_to_vec (env_serde env) body))
         (\<lambda>write_status.
            count_gateway Miss write_status
              (Return (Inr (response_ok body Miss (write_header_value write_status) ''vendor'' (Some cache_key))))))"

definition cache_only_miss_program :: "cache_key \<Rightarrow> (gateway_error + gateway_response) program" where
  "cache_only_miss_program cache_key =
     count_simple CacheOnlyMiss WriteSkipped
       (Return (Inr (with_cache_key cache_key
          (response_error 404 ''cache object not found'' CacheOnlyMiss (write_header_value WriteSkipped) ''none''))))"

definition streaming_response_program ::
  "request_env \<Rightarrow> tenant_id \<Rightarrow> cache_control \<Rightarrow> responses_request \<Rightarrow> eligibility_decision \<Rightarrow> cache_key
   \<Rightarrow> (gateway_error + gateway_response) program" where
  "streaming_response_program env tenant_id control request eligibility cache_key =
     (if control = CcBypass
      then vendor_stream_response_program env request StatusBypass WriteSkipped None
      else if eligibility \<noteq> Cacheable
      then vendor_stream_response_program env request Ineligible WriteSkipped (Some cache_key)
      else try_program
        (if control \<noteq> CcWriteOnly then read_cached_stream_object_program env tenant_id cache_key
         else Return (Inr None))
        (\<lambda>cached.
          case cached of
            Some (obj, tier) \<Rightarrow>
              count_simple Hit WriteSkipped
                (Return (Inr (response_ok_stream (cso_final_body obj) (cso_events obj) Hit
                   (write_header_value WriteSkipped) tier (Some cache_key))))
          | None \<Rightarrow>
              if control = CcCacheOnly then cache_only_miss_program cache_key
              else try_program (capture_vendor_stream_program env request) (\<lambda>captured.
                bind_program
                  (if control = CcReadOnly then Return WriteSkipped
                   else write_or_failed_program tenant_id cache_key (serialize_stream_object (env_serde env) captured))
                  (\<lambda>write_status.
                     count_simple Miss write_status
                       (Return (Inr (response_ok_stream (cap_final_body captured) (cap_events captured) Miss
                          (write_header_value write_status) ''vendor'' (Some cache_key))))))))"

definition coalesced_miss_program ::
  "request_env \<Rightarrow> tenant_id \<Rightarrow> cache_control \<Rightarrow> responses_request \<Rightarrow> cache_key
   \<Rightarrow> (gateway_error + gateway_response) program" where
  "coalesced_miss_program env tenant_id control request cache_key =
     Begin \<lparr>sfk_tenant_id = tenant_id, sfk_cache_key = cache_key, sfk_write_mode = flight_write_mode control\<rparr> (\<lambda>start.
       case start of
         Leader leader \<Rightarrow>
           Count (record_singleflight RoleLeader)
             (bind_program (cacheable_non_streaming_miss_program env tenant_id control request cache_key) (\<lambda>r.
                case r of
                  Inr response \<Rightarrow>
                    Publish leader (Inr response) (Return (Inr (with_cache_coalesced ''leader'' response)))
                | Inl err \<Rightarrow> Publish leader (Inl (gateway_error_to_string err)) (Return (Inl err))))
       | Waiter receiver \<Rightarrow>
           Wait receiver (\<lambda>r.
             case r of
               Inr response \<Rightarrow>
                 Count (record_singleflight RoleWaiter)
                   (count_gateway Miss WriteSkipped
                      (Return (Inr (with_cache_write (write_header_value WriteSkipped)
                         (with_cache_coalesced ''waiter'' response)))))
             | Inl message \<Rightarrow> Return (Inl (GeSingleflightLeaderFailed message)))
       | OverCapacity \<Rightarrow>
           Count (record_singleflight RoleOverCapacity)
             (cacheable_non_streaming_miss_program env tenant_id control request cache_key))"

definition plain_response_program ::
  "request_env \<Rightarrow> bool \<Rightarrow> tenant_id \<Rightarrow> cache_control \<Rightarrow> responses_request \<Rightarrow> eligibility_decision \<Rightarrow> cache_key
   \<Rightarrow> (gateway_error + gateway_response) program" where
  "plain_response_program env cache_available tenant_id control request eligibility cache_key =
     (if control = CcBypass
      then vendor_response_program env request StatusBypass WriteSkipped None
      else if eligibility \<noteq> Cacheable
      then vendor_response_program env request Ineligible WriteSkipped (Some cache_key)
      else if \<not> cache_available
      then (if control = CcCacheOnly then cache_only_miss_program cache_key
            else vendor_response_program env request Degraded WriteFailed (Some cache_key))
      else try_program
        (if control \<noteq> CcWriteOnly then read_cached_body_program env tenant_id cache_key else Return (Inr None))
        (\<lambda>cached.
          case cached of
            Some (body, tier) \<Rightarrow>
              count_simple Hit WriteSkipped
                (Return (Inr (response_ok body Hit (write_header_value WriteSkipped) tier (Some cache_key))))
          | None \<Rightarrow>
              if control = CcCacheOnly then cache_only_miss_program cache_key
              else coalesced_miss_program env tenant_id control request cache_key))"

definition refuse_program :: "u16 \<Rightarrow> string \<Rightarrow> (gateway_error + gateway_response) program" where
  "refuse_program status message =
     count_simple StatusBypass WriteSkipped
       (Return (Inr (response_error status message StatusBypass (write_header_value WriteSkipped) ''none'')))"

definition handle_response_program ::
  "request_env \<Rightarrow> 'w gateway_state \<Rightarrow> string option \<Rightarrow> string option \<Rightarrow> json
   \<Rightarrow> (gateway_error + gateway_response) program" where
  "handle_response_program env state authorization cache_control body =
     (case authenticate (env_sha256 env) state authorization of
        None \<Rightarrow> refuse_program 401 ''unauthorized''
      | Some tenant_id \<Rightarrow>
        if \<not> tenant_allows_vendor state tenant_id (va_vendor_id (gs_vendor state))
        then refuse_program 403 ''tenant is not allowed to use configured vendor''
        else case parse_cache_control (case cache_control of None \<Rightarrow> [] | Some v \<Rightarrow> v) of
          Inl err \<Rightarrow> refuse_program 400 (header_error_to_string err)
        | Inr control \<Rightarrow>
          (case responses_request_from_value body of
             None \<Rightarrow> Return (Inl (GeJson (sj_type_error (env_serde env) body)))
           | Some request \<Rightarrow>
             ResolveModel (rr_model request) (\<lambda>resolved.
               case resolved of
                 Inl e \<Rightarrow> Return (Inl (GeVendor e))
               | Inr resolved_model \<Rightarrow>
                 (case compute_cache_key (sj_to_vec (env_serde env)) (env_sha256 env)
                         (request_fingerprint state tenant_id control resolved_model body) of
                    Inl e \<Rightarrow> Return (Inl (GeCache e))
                  | Inr cache_key \<Rightarrow>
                      if is_streaming_request body
                      then streaming_response_program env tenant_id control request
                        (request_eligibility state control request body) cache_key
                      else plain_response_program env (gs_cache_available state) tenant_id control request
                        (request_eligibility state control request body) cache_key))))"


section \<open>Without interruption\<close>

lemma run_bind [simp]:
  "run_program g x (bind_program p f) s = (case run_program g x p s of (a, s1) \<Rightarrow> run_program g x (f a) s1)"
  by (induction p arbitrary: s) (simp_all split: prod.splits)

lemma run_try [simp]:
  "run_program g x (try_program p f) s = try_bind (run_program g x p) (\<lambda>a. run_program g x (f a)) s"
  by (auto simp: try_program_def try_bind_def split: prod.splits sum.splits)

lemma run_count [simp]:
  "run_program g x (count_gateway st ws p) s = run_program g x p (record_gateway_metrics st ws s)"
  "run_program g x (count_simple st ws p) s = run_program g x p (record_simple st ws s)"
  by (simp_all add: count_gateway_def count_simple_def record_gateway_metrics_def record_simple_def)

lemma run_read_cached_bytes [simp]:
  "run_program g x (read_cached_bytes_program t k) s = read_cached_bytes g t k s"
  by (auto simp: read_cached_bytes_program_def read_cached_bytes_def try_bind_def split: prod.splits sum.splits list.splits)

lemma run_reads [simp]:
  "run_program g x (read_cached_body_program env t k) s = read_cached_body env g t k s"
  "run_program g x (read_cached_stream_object_program env t k) s = read_cached_stream_object env g t k s"
  by (auto simp: read_cached_body_program_def read_cached_body_def read_cached_stream_object_program_def
      read_cached_stream_object_def try_bind_def split: prod.splits sum.splits option.splits)

lemma run_write_reserved_replicas [simp]:
  "run_program g x (write_reserved_replicas_program t k rs bs) s = write_reserved_replicas g t k rs bs s"
  by (induction rs arbitrary: s) (auto simp: try_bind_def split: prod.splits sum.splits)

lemma run_revoke [simp]:
  "run_program g x (revoke_reservation_program t k e) s = revoke_reservation_after_write_failure g t k e s"
  by (auto simp: revoke_reservation_program_def revoke_reservation_after_write_failure_def split: prod.splits sum.splits)

lemma run_write_cached_bytes [simp]:
  "run_program g x (write_cached_bytes_program t k bs) s = write_cached_bytes g t k bs s"
  by (auto simp: write_cached_bytes_program_def write_cached_bytes_def Let_def split: prod.splits sum.splits)

lemma run_write_or_failed [simp]:
  "run_program g x (write_or_failed_program t k (sj_to_vec (env_serde env) body)) s =
     write_or_failed (write_cached_body env g t k body) s"
  "run_program g x (write_or_failed_program t k (serialize_stream_object (env_serde env) captured)) s =
     write_or_failed (write_cached_stream_object env g t k captured) s"
  by (auto simp: write_or_failed_program_def write_or_failed_def write_cached_body_def write_cached_stream_object_def
      split: prod.splits sum.splits)

lemma run_vendor [simp]:
  "run_program g x (complete_vendor_program env q) s = complete_vendor env g q s"
  "run_program g x (capture_vendor_stream_program env q) s = capture_vendor_stream env g q s"
  by (auto simp: complete_vendor_program_def complete_vendor_def capture_vendor_stream_program_def
      capture_vendor_stream_def split: prod.splits sum.splits)

lemma run_responses [simp]:
  "run_program g x (vendor_response_program env q st ws key) s = vendor_response env g q st ws key s"
  "run_program g x (vendor_stream_response_program env q st ws key) s = vendor_stream_response env g q st ws key s"
  "run_program g x (cache_only_miss_program k) s = cache_only_miss k s"
  "run_program g x (refuse_program status message) s = refuse status message s"
  by (auto simp: vendor_response_program_def vendor_response_def vendor_stream_response_program_def
      vendor_stream_response_def cache_only_miss_program_def cache_only_miss_def refuse_program_def refuse_def try_bind_def
      split: prod.splits sum.splits)

lemma run_miss [simp]:
  "run_program g x (cacheable_non_streaming_miss_program env t control q k) s =
     cacheable_non_streaming_miss env g t control q k s"
  by (auto simp: cacheable_non_streaming_miss_program_def cacheable_non_streaming_miss_def try_bind_def
      split: prod.splits sum.splits)

lemma run_streaming [simp]:
  "run_program g x (streaming_response_program env t control q e k) s = streaming_response env g t control q e k s"
  by (auto simp: streaming_response_program_def streaming_response_def try_bind_def cache_only_miss_def
      split: prod.splits sum.splits option.splits)

lemma run_coalesced [simp]:
  "run_program g (env_wait env) (coalesced_miss_program env t control q k) s = coalesced_miss env g t control q k s"
  by (auto simp: coalesced_miss_program_def coalesced_miss_def Let_def
      split: prod.splits sum.splits singleflight_start.splits)

lemma run_plain [simp]:
  "run_program g (env_wait env) (plain_response_program env (gs_cache_available g) t control q e k) s =
     plain_response env g t control q e k s"
  by (auto simp: plain_response_program_def plain_response_def try_bind_def split: prod.splits sum.splits option.splits)

text \<open>
  The program of a request, run without interruption, is the handler: same answer, same calls in
  the same order, same counters, for every gateway, request and state.
\<close>

lemma run_handler:
  "run_program state (env_wait env) (handle_response_program env state authorization cache_control body) s =
     handle_response_request env state authorization cache_control body s"
  by (auto simp: handle_response_program_def handle_response_request_def split: option.splits sum.splits prod.splits)

text \<open>One call, and the run that is left.\<close>

lemma run_program_step:
  assumes "program_step g p s = Some (p', s')" and "\<And>c k. p = Wait c k \<Longrightarrow> sf_wait c (gw_flights s) = Some x"
  shows "run_program g x p s = run_program g x p' s'"
  using assms by (cases p) (auto simp: answered_def split: prod.splits)

lemma answered_on_world:
  "answered c (on_world f v) = Some (p, v') \<longleftrightarrow> (\<exists>r w'. f (gw_world v) = (r, w') \<and> p = c r \<and> v' = v\<lparr>gw_world := w'\<rparr>)"
  by (auto simp: answered_def on_world_def split: prod.splits)

end
