(* ===== verification/Typestate.thy ===== *)
theory Typestate
imports Async_Flow Cache_Backend
begin

text \<open>
  The protocol that the programs of \<open>Async_Flow\<close> follow, as a weakest precondition over what a
  request has learned so far: which bytes it found, what the vendor answered, which reservation it
  holds, whether it leads a flight. What the precondition assumes of an answer is what the cache
  and the other requests have to guarantee; it is independent of how they do it.
\<close>

section \<open>What a request has learned\<close>

datatype stage =
    Start
  | Looked object_key replica_descriptor bytes
  | Got object_key bytes
  | Answered "string + bytes"
  | Reserved object_key replica_descriptor bytes
  | Filled object_key replica_descriptor bytes
  | Stored object_key bytes
  | Withdrawing object_key replica_descriptor
  | Abandoned object_key
  | Listening singleflight_key nat
  | Heard singleflight_key gateway_response

text \<open>The key that a request may write, once it has got a reservation.\<close>

fun owned :: "stage \<Rightarrow> object_key option" where
  "owned (Reserved key r bs) = Some key"
| "owned (Filled key r bs) = Some key"
| "owned (Stored key bs) = Some key"
| "owned (Withdrawing key r) = Some key"
| "owned (Abandoned key) = Some key"
| "owned _ = None"

text \<open>The calls that touch the cache or the vendor.\<close>

fun cache_call :: "'a program \<Rightarrow> bool" where
  "cache_call (Return a) = False"
| "cache_call (Begin key c) = False"
| "cache_call (Publish key res p) = False"
| "cache_call (Wait ch c) = False"
| "cache_call (Count u p) = False"
| "cache_call _ = True"

text \<open>Stages that say nothing of the cache.\<close>

fun of_flight :: "stage \<Rightarrow> bool" where
  "of_flight Start = True"
| "of_flight (Listening key ch) = True"
| "of_flight (Heard key r) = True"
| "of_flight _ = False"

text \<open>Stages that say nothing of the flights.\<close>

fun of_cache :: "stage \<Rightarrow> bool" where
  "of_cache (Listening key ch) = False"
| "of_cache (Heard key r) = False"
| "of_cache _ = True"

definition flight_object :: "singleflight_key \<Rightarrow> object_key" where
  "flight_object key = (sfk_tenant_id key, sfk_cache_key key)"

definition streamed :: "serde \<Rightarrow> vendor_stream \<Rightarrow> string + bytes" where
  "streamed sj stream =
     (case collect_stream sj stream of
        Inl e \<Rightarrow> Inl (vendor_error_to_string e) | Inr captured \<Rightarrow> serialize_stream_object sj captured)"

definition shared_answer :: "gateway_response \<Rightarrow> bool" where
  "shared_answer response \<longleftrightarrow> header ''x-cache-status'' response = Some ''miss''"

section \<open>The precondition\<close>

text \<open>
  The first arguments are the JSON library, the keys the request asks for, and what a leader may
  publish. A program is allowed a call in some stages only; the stage after the call is known for
  each answer.
\<close>

primrec wp ::
  "serde \<Rightarrow> (object_key \<Rightarrow> bool) \<Rightarrow> (singleflight_key \<Rightarrow> string + gateway_response \<Rightarrow> 'a program \<Rightarrow> bool)
   \<Rightarrow> (singleflight_key option \<Rightarrow> stage \<Rightarrow> 'a \<Rightarrow> bool)
   \<Rightarrow> 'a program \<Rightarrow> singleflight_key option \<Rightarrow> stage \<Rightarrow> bool" where
  "wp sj mine pub Q (Return a) = (\<lambda>lead st. Q lead st a)"
| "wp sj mine pub Q (GetReplicaList t k c) = (\<lambda>lead st.
     mine (t, k) \<and> st = Start
     \<and> (\<forall>found. (\<forall>rl r rs. found = Inr rl \<longrightarrow> rl_replicas rl \<noteq> r # rs) \<longrightarrow> wp sj mine pub Q (c found) lead Start)
     \<and> (\<forall>rl r rs bs. rl_replicas rl = r # rs \<longrightarrow> wp sj mine pub Q (c (Inr rl)) lead (Looked (t, k) r bs)))"
| "wp sj mine pub Q (ReadChunk t k h c) = (\<lambda>lead st.
     \<exists>r bs. st = Looked (t, k) r bs \<and> from_replica r = Inr h
     \<and> (\<forall>e. wp sj mine pub Q (c (Inl e)) lead Start)
     \<and> (\<forall>chunk. sch_bytes chunk = bs \<longrightarrow> wp sj mine pub Q (c (Inr chunk)) lead (Got (t, k) bs)))"
| "wp sj mine pub Q (PutStart t k len n c) = (\<lambda>lead st.
     mine (t, k) \<and> (\<exists>bs. st = Answered (Inr bs) \<and> len = word_of_nat (length bs) \<and> n = replica_count
     \<and> (\<forall>e. wp sj mine pub Q (c (Inl e)) lead st)
     \<and> (\<forall>r h. from_replica r = Inr h \<longrightarrow> wp sj mine pub Q (c (Inr [r])) lead (Reserved (t, k) r bs))))"
| "wp sj mine pub Q (WriteChunk node t k h bs c) = (\<lambda>lead st.
     \<exists>r. st = Reserved (t, k) r bs \<and> node = rep_node_id r \<and> from_replica r = Inr h
     \<and> (\<forall>e. wp sj mine pub Q (c (Inl e)) lead st) \<and> wp sj mine pub Q (c (Inr ())) lead (Filled (t, k) r bs))"
| "wp sj mine pub Q (PutEnd t k c) = (\<lambda>lead st.
     \<exists>r bs. st = Filled (t, k) r bs
     \<and> (\<forall>e. wp sj mine pub Q (c (Inl e)) lead (Withdrawing (t, k) r)) \<and> wp sj mine pub Q (c (Inr ())) lead (Stored (t, k) bs))"
| "wp sj mine pub Q (PutRevoke t k c) = (\<lambda>lead st.
     (\<exists>r. st = Withdrawing (t, k) r \<or> (\<exists>bs. st = Reserved (t, k) r bs))
     \<and> (\<forall>res. wp sj mine pub Q (c res) lead (Abandoned (t, k))))"
| "wp sj mine pub Q (ResolveModel m c) = (\<lambda>lead st. st = Start \<and> (\<forall>res. wp sj mine pub Q (c res) lead Start))"
| "wp sj mine pub Q (Complete q c) = (\<lambda>lead st.
     owned st = None \<and> (\<forall>e. wp sj mine pub Q (c (Inl e)) lead Start)
     \<and> (\<forall>body. wp sj mine pub Q (c (Inr body)) lead (Answered (sj_to_vec sj body))))"
| "wp sj mine pub Q (OpenStream q c) = (\<lambda>lead st.
     owned st = None \<and> (\<forall>e. wp sj mine pub Q (c (Inl e)) lead Start)
     \<and> (\<forall>stream. wp sj mine pub Q (c (Inr stream)) lead (Answered (streamed sj stream))))"
| "wp sj mine pub Q (Begin key c) = (\<lambda>lead st.
     mine (flight_object key) \<and> lead = None \<and> owned st = None
     \<and> wp sj mine pub Q (c (Leader key)) (Some key) st
     \<and> (\<forall>ch. wp sj mine pub Q (c (Waiter ch)) None (Listening key ch)) \<and> wp sj mine pub Q (c OverCapacity) None st)"
| "wp sj mine pub Q (Publish key res p) = (\<lambda>lead st.
     pub key res p \<and> lead = Some key \<and> wp sj mine pub Q p None st)"
| "wp sj mine pub Q (Wait ch c) = (\<lambda>lead st.
     lead = None \<and> (\<exists>key. mine (flight_object key) \<and> st = Listening key ch
     \<and> (\<forall>e. wp sj mine pub Q (c (Inl e)) None Start)
     \<and> (\<forall>response. shared_answer response \<longrightarrow> wp sj mine pub Q (c (Inr response)) None (Heard key response))))"
| "wp sj mine pub Q (Count u p) = (\<lambda>lead st. wp sj mine pub Q p lead st)"

lemma wp_bind [simp]:
  "wp sj mine pub Q (bind_program p f) lead st =
     wp sj mine (\<lambda>key res p'. pub key res (bind_program p' f)) (\<lambda>lead st a. wp sj mine pub Q (f a) lead st) p lead st"
  by (induction p arbitrary: lead st) simp_all

lemma wp_try [simp]:
  "wp sj mine pub Q (try_program p f) lead st =
     wp sj mine (\<lambda>key res p'. pub key res (try_program p' f))
       (\<lambda>lead st r. case r of Inl e \<Rightarrow> Q lead st (Inl e) | Inr a \<Rightarrow> wp sj mine pub Q (f a) lead st) p lead st"
  by (simp add: try_program_def sum.case_distrib [where h = "\<lambda>p. wp sj mine pub Q p _ _"] cong: sum.case_cong)

lemma wp_count [simp]:
  "wp sj mine pub Q (count_gateway cs ws p) lead st = wp sj mine pub Q p lead st"
  "wp sj mine pub Q (count_simple cs ws p) lead st = wp sj mine pub Q p lead st"
  by (simp_all add: count_gateway_def count_simple_def)

section \<open>What an answer claims\<close>

text \<open>
  A hit was found under the request's own key; an answer labelled committed is stored there; a
  coalesced answer is the leader's, of a request for the same key.
\<close>

definition served :: "serde \<Rightarrow> bytes \<Rightarrow> gateway_response \<Rightarrow> bool" where
  "served sj bs response \<longleftrightarrow>
     (case gr_stream_events response of
        None \<Rightarrow> cached_body_from_bytes sj bs = Inr (gr_body response)
      | Some events \<Rightarrow>
          (\<exists>obj. stream_object_from_bytes sj bs = Inr (Some obj) \<and> cso_events obj = events
             \<and> cso_final_body obj = gr_body response))"

definition justified ::
  "serde \<Rightarrow> (object_key \<Rightarrow> bool) \<Rightarrow> singleflight_key option \<Rightarrow> stage \<Rightarrow> gateway_error + gateway_response \<Rightarrow> bool" where
  "justified sj mine lead st a \<longleftrightarrow>
     lead = None
     \<and> (\<forall>response. a = Inr response \<longrightarrow>
          (header ''x-cache-status'' response = Some ''hit'' \<longrightarrow>
             (\<exists>key bs. st = Got key bs \<and> mine key \<and> served sj bs response))
          \<and> (header ''x-cache-write'' response = Some ''committed'' \<longrightarrow>
             (\<exists>key bs. st = Stored key bs \<and> mine key \<and> payload sj response = Inr bs))
          \<and> (header ''x-cache-coalesced'' response = Some ''waiter'' \<longrightarrow>
             (\<exists>key r. st = Heard key r \<and> mine (flight_object key) \<and> gr_body response = gr_body r)))"

definition may_publish ::
  "(object_key \<Rightarrow> bool) \<Rightarrow> singleflight_key \<Rightarrow> string + gateway_response
   \<Rightarrow> (gateway_error + gateway_response) program \<Rightarrow> bool" where
  "may_publish mine key res p \<longleftrightarrow>
     mine (flight_object key)
     \<and> (\<forall>response. res = Inr response \<longrightarrow>
          shared_answer response \<and> p = Return (Inr (with_cache_coalesced ''leader'' response)))"

abbreviation follows :: "serde \<Rightarrow> (object_key \<Rightarrow> bool) \<Rightarrow> (gateway_error + gateway_response) program
   \<Rightarrow> singleflight_key option \<Rightarrow> stage \<Rightarrow> bool" where
  "follows sj mine \<equiv> wp sj mine (may_publish mine) (justified sj mine)"

section \<open>The parts of the flow\<close>

lemma from_replica_total: "from_replica r \<noteq> Inl e"
  by (simp add: from_replica_def)

lemma wp_read_cached_bytes:
  assumes "mine (t, k)" and "\<And>e. Q lead Start (Inl e)" and "Q lead Start (Inr None)"
    and "\<And>chunk. Q lead (Got (t, k) (sch_bytes chunk)) (Inr (Some chunk))"
  shows "wp sj mine pub Q (read_cached_bytes_program t k) lead Start"
  using assms from_replica_total
  by (auto simp: read_cached_bytes_program_def split: sum.splits list.splits)

lemma wp_reads:
  assumes "mine (t, k)"
  shows "(\<And>st e. Q lead st (Inl e)) \<Longrightarrow> Q lead Start (Inr None) \<Longrightarrow>
      (\<And>bs val tier. cached_body_from_bytes (env_serde env) bs = Inr val \<Longrightarrow> Q lead (Got (t, k) bs) (Inr (Some (val, tier)))) \<Longrightarrow>
      wp sj mine pub Q (read_cached_body_program env t k) lead Start"
    and "(\<And>st e. R lead st (Inl e)) \<Longrightarrow> R lead Start (Inr None) \<Longrightarrow> (\<And>bs. R lead (Got (t, k) bs) (Inr None)) \<Longrightarrow>
      (\<And>bs obj tier. stream_object_from_bytes (env_serde env) bs = Inr (Some obj) \<Longrightarrow>
         R lead (Got (t, k) bs) (Inr (Some (obj, tier)))) \<Longrightarrow>
      wp sj mine pub2 R (read_cached_stream_object_program env t k) lead Start"
  by (auto simp: read_cached_body_program_def read_cached_stream_object_program_def assms
      intro!: wp_read_cached_bytes split: sum.splits option.splits)

lemma wp_revoke:
  assumes "\<And>e. Q lead (Abandoned (t, k)) e" and "st = Withdrawing (t, k) r \<or> st = Reserved (t, k) r bs"
  shows "wp sj mine pub Q (revoke_reservation_program t k e) lead st"
  using assms by (auto simp: revoke_reservation_program_def)

lemma wp_write_cached_bytes:
  assumes "mine (t, k)" and "\<And>e. Q lead (Answered (Inr bs)) (Inl e)" and "\<And>e. Q lead (Abandoned (t, k)) (Inl e)"
    and "Q lead (Stored (t, k) bs) (Inr WriteCommitted)"
  shows "wp sj mine pub Q (write_cached_bytes_program t k bs) lead (Answered (Inr bs))"
  using assms by (auto simp: write_cached_bytes_program_def intro!: wp_revoke)

lemma wp_write_or_failed:
  assumes "mine (t, k)" and "\<And>st. Q lead st WriteFailed" and "\<And>bs. serialized = Inr bs \<Longrightarrow> Q lead (Stored (t, k) bs) WriteCommitted"
  shows "wp sj mine pub Q (write_or_failed_program t k serialized) lead (Answered serialized)"
  using assms by (cases serialized) (auto simp: write_or_failed_program_def intro!: wp_write_cached_bytes)

lemma wp_complete_vendor:
  assumes "owned st = None" and "\<And>e. Q lead Start (Inl e)" and "\<And>body. Q lead (Answered (sj_to_vec sj body)) (Inr body)"
  shows "wp sj mine pub Q (complete_vendor_program env request) lead st"
  using assms by (auto simp: complete_vendor_program_def)

lemma wp_capture_vendor_stream:
  assumes "owned st = None" and "\<And>st e. Q lead st (Inl e)"
    and "\<And>captured. Q lead (Answered (serialize_stream_object (env_serde env) captured)) (Inr captured)"
  shows "wp (env_serde env) mine pub Q (capture_vendor_stream_program env request) lead st"
  using assms by (auto simp: capture_vendor_stream_program_def streamed_def split: sum.splits)

section \<open>The whole flow\<close>

lemma response_labels [simp]:
  "header ''x-cache-coalesced'' (response_ok b st w tier key) = Some ''none''"
  "header ''x-cache-coalesced'' (response_ok_stream b es st w tier key) = Some ''none''"
  "header ''x-cache-coalesced'' (response_error c m st w tier) = Some ''none''"
  "gr_body (response_ok b st w tier key) = b" "gr_body (response_ok_stream b es st w tier key) = b"
  "gr_stream_events (response_ok b st w tier key) = None"
  "gr_stream_events (response_ok_stream b es st w tier key) = Some es"
  by (simp_all add: response_ok_def response_ok_stream_def response_error_def Let_def with_cache_key_def
      header_with_cache_headers split: option.splits)

lemma justified_error [simp]: "justified sj mine lead st (Inl e) \<longleftrightarrow> lead = None"
  by (simp add: justified_def)

lemma write_header_committed [simp]: "write_header_value ws = ''committed'' \<longleftrightarrow> ws = WriteCommitted"
  by (cases ws) simp_all

lemma status_header_hit [simp]: "cache_status_header cs = ''hit'' \<longleftrightarrow> cs = Hit" "cache_status_header Miss = ''miss''"
  by (cases cs; simp add: cache_status_header_def)+

lemmas justified_labels = justified_def header_labels payload_ok with_cache_key_def with_cache_coalesced_def
  with_cache_write_def served_def

lemma captured_eta [simp]: "\<lparr>cap_events = cap_events c, cap_final_body = cap_final_body c\<rparr> = c"
  by simp

lemma wp_miss:
  assumes "mine (t, k)" and "owned st = None" and "\<And>e. Q lead Start (Inl e)"
    and "\<And>st body. Q lead st (Inr (response_ok body Miss ''skipped'' ''vendor'' (Some k)))"
    and "\<And>st body. Q lead st (Inr (response_ok body Miss ''failed'' ''vendor'' (Some k)))"
    and "\<And>body bs. sj_to_vec (env_serde env) body = Inr bs \<Longrightarrow>
      Q lead (Stored (t, k) bs) (Inr (response_ok body Miss ''committed'' ''vendor'' (Some k)))"
  shows "wp (env_serde env) mine pub Q (cacheable_non_streaming_miss_program env t control request k) lead st"
  using assms
  by (auto simp: cacheable_non_streaming_miss_program_def intro!: wp_complete_vendor wp_write_or_failed)

lemma coalesced_follows:
  assumes "mine (t, k)" and "owned st = None"
  shows "follows (env_serde env) mine (coalesced_miss_program env t control request k) None st"
  using assms
  by (auto simp: coalesced_miss_program_def may_publish_def shared_answer_def justified_labels flight_object_def
      intro!: wp_miss split: sum.splits)

lemma plain_follows:
  assumes "mine (t, k)"
  shows "follows (env_serde env) mine (plain_response_program env available t control request e k) None Start"
  using assms
  by (auto simp: plain_response_program_def vendor_response_program_def cache_only_miss_program_def justified_labels
      intro!: wp_complete_vendor wp_reads(1) coalesced_follows)

lemma streaming_follows:
  assumes "mine (t, k)"
  shows "follows (env_serde env) mine (streaming_response_program env t control request e k) None Start"
  using assms
  by (auto simp: streaming_response_program_def vendor_stream_response_program_def cache_only_miss_program_def justified_labels
      intro!: wp_capture_vendor_stream wp_reads(2) wp_write_or_failed)


text \<open>The keys that a request asks for: those of its tenant, computed from its body.\<close>

definition asked ::
  "(bytes \<Rightarrow> bytes) \<Rightarrow> serde \<Rightarrow> 'w gateway_state \<Rightarrow> gateway_request \<Rightarrow> object_key \<Rightarrow> bool" where
  "asked sha256 sj g request key \<longleftrightarrow>
     authenticate sha256 g (gq_authorization request) = Some (fst key)
     \<and> tenant_allows_vendor g (fst key) (va_vendor_id (gs_vendor g))
     \<and> (\<exists>control resolved_model.
          parse_cache_control (case gq_cache_control request of None \<Rightarrow> [] | Some v \<Rightarrow> v) = Inr control
          \<and> compute_cache_key (sj_to_vec sj) sha256
            (request_fingerprint g (fst key) control resolved_model (gq_body request)) = Inr (snd key))"

text \<open>Every request follows the protocol.\<close>

lemma request_follows:
  "follows (env_serde env) (asked (env_sha256 env) (env_serde env) g request)
     (handle_response_program env g (gq_authorization request) (gq_cache_control request) (gq_body request)) None Start"
  by (auto simp: handle_response_program_def refuse_program_def justified_labels asked_def
      intro!: plain_follows streaming_follows split: option.splits sum.splits)

end
