(* ===== verification/Schedule.thy ===== *)
theory Schedule
imports Async_Flow
begin

text \<open>
  Requests of any number of gateways in any interleaving. The gateways share the world behind
  their clients; each has its own counters and flights. A request is a task that runs its program,
  one call at a time; the runtime may drop it at every call, as when the client hangs up.
\<close>

section \<open>Tasks\<close>

record task =
  tk_gateway :: nat
  tk_request :: gateway_request
  tk_program :: "(gateway_error + gateway_response) program option"
  tk_leading :: "singleflight_key option"

record 'w system =
  sy_world :: 'w
  sy_metrics :: "nat \<Rightarrow> gateway_metrics"
  sy_flights :: "nat \<Rightarrow> gateway_response singleflight_group"
  sy_tasks :: "task list"

definition gateway_view :: "nat \<Rightarrow> 'w system \<Rightarrow> 'w gateway_run" where
  "gateway_view g s = \<lparr>gw_world = sy_world s, gw_metrics = sy_metrics s g, gw_flights = sy_flights s g\<rparr>"

definition with_view :: "nat \<Rightarrow> 'w gateway_run \<Rightarrow> 'w system \<Rightarrow> 'w system" where
  "with_view g v s =
     s\<lparr>sy_world := gw_world v, sy_metrics := (sy_metrics s)(g := gw_metrics v),
       sy_flights := (sy_flights s)(g := gw_flights v)\<rparr>"

text \<open>
  The \<^verbatim>\<open>SingleflightLeader\<close> that a task holds: it gets one when it becomes the leader of a flight and
  gives it away when it publishes.
\<close>

fun leading_after ::
  "'a program \<Rightarrow> gateway_response singleflight_group \<Rightarrow> singleflight_key option \<Rightarrow> singleflight_key option" where
  "leading_after (Begin key c) flights lead =
     (case fst (sf_begin key flights) of Leader k \<Rightarrow> Some k | _ \<Rightarrow> lead)"
| "leading_after (Publish key res p) flights lead = None"
| "leading_after _ flights lead = lead"

definition update_task :: "nat \<Rightarrow> (task \<Rightarrow> task) \<Rightarrow> 'w system \<Rightarrow> 'w system" where
  "update_task i f s = s\<lparr>sy_tasks := (sy_tasks s)[i := f (sy_tasks s ! i)]\<rparr>"

definition resume :: "(nat \<Rightarrow> 'w gateway_state) \<Rightarrow> nat \<Rightarrow> 'w system \<Rightarrow> 'w system option" where
  "resume gateways i s =
     (let task = sy_tasks s ! i; g = tk_gateway task
      in case tk_program task of
           None \<Rightarrow> None
         | Some p \<Rightarrow>
             (case program_step (gateways g) p (gateway_view g s) of
                None \<Rightarrow> None
              | Some (p', v) \<Rightarrow>
                  Some (update_task i (\<lambda>task. task\<lparr>tk_program := Some p',
                      tk_leading := leading_after p (sy_flights s g) (tk_leading task)\<rparr>) (with_view g v s))))"

text \<open>Dropping a task runs the destructor of the \<^verbatim>\<open>SingleflightLeader\<close> it holds.\<close>

definition drop_task :: "nat \<Rightarrow> 'w system \<Rightarrow> 'w system" where
  "drop_task i s =
     (let task = sy_tasks s ! i; g = tk_gateway task
      in update_task i (\<lambda>task. task\<lparr>tk_program := None, tk_leading := None\<rparr>)
           (case tk_leading task of
              None \<Rightarrow> s
            | Some key \<Rightarrow> s\<lparr>sy_flights := (sy_flights s)(g := sf_leader_drop False key (sy_flights s g))\<rparr>))"

definition arrive ::
  "(bytes \<Rightarrow> bytes) \<Rightarrow> serde \<Rightarrow> (nat \<Rightarrow> 'w gateway_state) \<Rightarrow> nat \<Rightarrow> nat \<Rightarrow> gateway_request \<Rightarrow> 'w system \<Rightarrow> 'w system" where
  "arrive sha256 sj gateways g micros request s =
     (let env = \<lparr>env_sha256 = sha256, env_serde = sj, env_vendor_micros = micros, env_wait = Inl []\<rparr>
      in s\<lparr>sy_tasks := sy_tasks s @
           [\<lparr>tk_gateway = g, tk_request = request,
             tk_program = Some (handle_response_program env (gateways g) (gq_authorization request)
               (gq_cache_control request) (gq_body request)),
             tk_leading = None\<rparr>]\<rparr>)"

section \<open>Interleavings\<close>

fun program_result :: "'a program \<Rightarrow> 'a option" where
  "program_result (Return a) = Some a"
| "program_result _ = None"

definition task_result :: "task \<Rightarrow> (gateway_error + gateway_response) option" where
  "task_result task = Option.bind (tk_program task) program_result"

definition task_over :: "task \<Rightarrow> bool" where
  "task_over task \<longleftrightarrow> tk_program task = None \<or> task_result task \<noteq> None"

lemma task_result_eq: "task_result task = Some a \<longleftrightarrow> tk_program task = Some (Return a)"
proof -
  have "program_result p = Some a \<longleftrightarrow> p = Return a" for p :: "(gateway_error + gateway_response) program" by (cases p) auto
  then show ?thesis by (auto simp: task_result_def Option.bind_eq_Some_conv)
qed

lemma task_not_over: "\<not> task_over task \<longleftrightarrow> (\<exists>p. tk_program task = Some p \<and> (\<forall>a. p \<noteq> Return a))"
  by (cases "tk_program task") (auto simp: task_over_def task_result_eq)

text \<open>The tasks whose answer says that it was written.\<close>

definition committed_tasks :: "'w system \<Rightarrow> nat set" where
  "committed_tasks s =
     {i. i < length (sy_tasks s) \<and> (\<exists>response. task_result (sy_tasks s ! i) = Some (Inr response)
        \<and> header ''x-cache-write'' response = Some ''committed'')}"

text \<open>The key that a task has reserved and is about to fill or to commit.\<close>

fun being_written :: "'a program \<Rightarrow> object_key option" where
  "being_written (WriteChunk node t k h bs c) = Some (t, k)"
| "being_written (PutEnd t k c) = Some (t, k)"
| "being_written _ = None"

text \<open>A turn of the scheduler: one task makes one call, or is dropped.\<close>

inductive turn :: "(nat \<Rightarrow> 'w gateway_state) \<Rightarrow> 'w system \<Rightarrow> 'w system \<Rightarrow> bool" for gateways where
  turn_resume: "i < length (sy_tasks s) \<Longrightarrow> resume gateways i s = Some s' \<Longrightarrow> turn gateways s s'"
| turn_drop: "i < length (sy_tasks s) \<Longrightarrow> \<not> task_over (sy_tasks s ! i) \<Longrightarrow> turn gateways s (drop_task i s)"

text \<open>What else happens: requests arrive, and the world changes beside the gateways' calls.\<close>

inductive system_step ::
  "(bytes \<Rightarrow> bytes) \<Rightarrow> serde \<Rightarrow> (nat \<Rightarrow> 'w gateway_state) \<Rightarrow> ('w \<Rightarrow> 'w \<Rightarrow> bool) \<Rightarrow> 'w system \<Rightarrow> 'w system \<Rightarrow> bool"
  for sha256 sj gateways keeps where
  step_turn: "turn gateways s s' \<Longrightarrow> system_step sha256 sj gateways keeps s s'"
| step_arrive: "system_step sha256 sj gateways keeps s (arrive sha256 sj gateways g micros request s)"
| step_beside: "keeps (sy_world s) w \<Longrightarrow> system_step sha256 sj gateways keeps s (s\<lparr>sy_world := w\<rparr>)"

text \<open>A run, the latest state first.\<close>

inductive system_run ::
  "(bytes \<Rightarrow> bytes) \<Rightarrow> serde \<Rightarrow> (nat \<Rightarrow> 'w gateway_state) \<Rightarrow> ('w \<Rightarrow> 'w \<Rightarrow> bool) \<Rightarrow> 'w \<Rightarrow> 'w system list \<Rightarrow> bool"
  for sha256 sj gateways keeps w where
  run_start: "sy_world s = w \<Longrightarrow> sy_tasks s = [] \<Longrightarrow>
    (\<And>g. sy_flights s g = singleflight_new default_max_waiters_per_key) \<Longrightarrow>
    system_run sha256 sj gateways keeps w [s]"
| run_step: "system_run sha256 sj gateways keeps w (s # ss) \<Longrightarrow> system_step sha256 sj gateways keeps s s' \<Longrightarrow>
    system_run sha256 sj gateways keeps w (s' # s # ss)"

section \<open>Every schedule ends\<close>

text \<open>Programs are finite in every branch: the order of what is left to do is well-founded.\<close>

definition left_to_do :: "'w itself \<Rightarrow> ('a program option \<times> 'a program option) set" where
  "left_to_do _ =
     {(q, Some p) | q p. q = None \<or> (\<exists>(g :: 'w gateway_state) s p' s'. program_step g p s = Some (p', s') \<and> q = Some p')}"

lemma wf_left_to_do: "wf (left_to_do TYPE('w))"
proof (rule wfUNIVI)
  fix P :: "'a program option \<Rightarrow> bool" and q
  assume step: "\<forall>x. (\<forall>y. (y, x) \<in> left_to_do TYPE('w) \<longrightarrow> P y) \<longrightarrow> P x"
  have none: "P None" using step by (auto simp: left_to_do_def)
  have "P (Some p)" for p
    by (induction p; rule step [rule_format]; auto simp: left_to_do_def answered_def none split_beta)
  then show "P q" using none by (cases q) auto
qed

lemma program_step_None:
  "program_step g p s = None \<longleftrightarrow> (\<exists>a. p = Return a) \<or> (\<exists>ch c. p = Wait ch c \<and> sf_wait ch (gw_flights s) = None)"
  by (cases p) (auto simp: answered_def split: prod.splits)

lemma listrel1_update: "i < length ys \<Longrightarrow> (x, ys ! i) \<in> r \<Longrightarrow> (ys[i := x], ys) \<in> listrel1 r"
  by (rule listrel1I [of x "ys ! i" r _ "take i ys" "drop (Suc i) ys"])
     (simp_all add: upd_conv_take_nth_drop id_take_nth_drop [symmetric])

lemma resume_program:
  assumes "resume gateways i s = Some s'"
  obtains p p' v where "tk_program (sy_tasks s ! i) = Some p"
    and "program_step (gateways (tk_gateway (sy_tasks s ! i))) p (gateway_view (tk_gateway (sy_tasks s ! i)) s) = Some (p', v)"
    and "s' = update_task i (\<lambda>task. task\<lparr>tk_program := Some p',
        tk_leading := leading_after p (sy_flights s (tk_gateway task)) (tk_leading task)\<rparr>)
      (with_view (tk_gateway (sy_tasks s ! i)) v s)"
  using assms by (auto simp: resume_def Let_def update_task_def with_view_def split: option.splits)

lemma drop_task_tasks: "sy_tasks (drop_task i s) = (sy_tasks s)[i := (sy_tasks s ! i)\<lparr>tk_program := None, tk_leading := None\<rparr>]"
  by (simp add: drop_task_def update_task_def Let_def split: option.splits)

lemma turn_progress:
  assumes "turn gateways (s :: 'w system) s'"
  shows "(map tk_program (sy_tasks s'), map tk_program (sy_tasks s)) \<in> listrel1 (left_to_do TYPE('w))"
  using assms
proof cases
  case (turn_resume i)
  from turn_resume(2) obtain p p' v where p: "tk_program (sy_tasks s ! i) = Some p"
    and call: "program_step (gateways (tk_gateway (sy_tasks s ! i))) p (gateway_view (tk_gateway (sy_tasks s ! i)) s) = Some (p', v)"
    and s': "map tk_program (sy_tasks s') = (map tk_program (sy_tasks s))[i := Some p']"
    by (rule resume_program) (auto simp: update_task_def with_view_def map_update)
  have "(Some p', Some p) \<in> left_to_do TYPE('w)" using call by (auto simp: left_to_do_def)
  then show ?thesis
    unfolding s' using p turn_resume(1) by (intro listrel1_update) simp_all
next
  case (turn_drop i)
  then obtain p where "tk_program (sy_tasks s ! i) = Some p" by (auto simp: task_over_def)
  then show ?thesis
    using turn_drop by (auto simp: drop_task_tasks map_update left_to_do_def intro!: listrel1_update)
qed

lemma wf_turn: "wf {(s', s :: 'w system). turn gateways s s'}"
proof (rule wf_subset)
  show "wf (inv_image (listrel1 (left_to_do TYPE('w))) (\<lambda>s :: 'w system. map tk_program (sy_tasks s)))"
    using wf_left_to_do by (intro wf_inv_image) simp
qed (auto simp: turn_progress)

end
