(* ===== verification/Shared_Cache.thy ===== *)
theory Shared_Cache
imports Typestate Schedule
begin

text \<open>
  A cache that many requests use at the same time. The interface \<open>shared_cache\<close> adds to \<open>cached_gateway\<close>
  what the calls of one request leave to the others: reservations and what has been read stay as
  they are, whatever happens under other keys. From it follows, by a proof of non-interference over
  the stages of \<open>Typestate\<close>, what every answer says in every interleaving.
\<close>

declare split_paired_All [simp del] split_paired_Ex [simp del]

section \<open>The interface\<close>

text \<open>
  What a call leaves alone: reservations of other keys than its own with what was written into
  them, what can be read, and that a key is taken.
\<close>

definition undisturbed ::
  "('w \<Rightarrow> object_key \<Rightarrow> replica_descriptor \<Rightarrow> bool) \<Rightarrow> ('w \<Rightarrow> object_key \<Rightarrow> replica_descriptor \<Rightarrow> bytes \<Rightarrow> bool)
   \<Rightarrow> ('w \<Rightarrow> object_key \<Rightarrow> bool) \<Rightarrow> ('w \<Rightarrow> object_key \<Rightarrow> replica_descriptor \<Rightarrow> bytes \<Rightarrow> bool)
   \<Rightarrow> object_key option \<Rightarrow> 'w \<Rightarrow> 'w \<Rightarrow> bool" where
  "undisturbed pending filled claimed readable own w w' \<longleftrightarrow>
     (\<forall>key. claimed w key \<longrightarrow> claimed w' key)
     \<and> (\<forall>key r bs. readable w key r bs \<longrightarrow> readable w' key r bs)
     \<and> (\<forall>key. own \<noteq> Some key \<longrightarrow>
          (\<forall>r. pending w key r \<longrightarrow> pending w' key r) \<and> (\<forall>r bs. filled w key r bs \<longrightarrow> filled w' key r bs))"

text \<open>
  \<open>claimed\<close> says that a reservation was given for a key, now or in the past, and \<open>readable\<close> that
  a replica which a lookup returned has given bytes.
\<close>

locale shared_cache = cached_gateway mc sc inv contents pending filled usable exact keeps
  for mc :: "'w master_client" and sc :: "'w store_client"
    and inv :: "'w \<Rightarrow> bool" and contents :: "'w \<Rightarrow> object_key \<rightharpoonup> bytes"
    and pending :: "'w \<Rightarrow> object_key \<Rightarrow> replica_descriptor \<Rightarrow> bool"
    and filled :: "'w \<Rightarrow> object_key \<Rightarrow> replica_descriptor \<Rightarrow> bytes \<Rightarrow> bool"
    and usable :: "object_key \<Rightarrow> bool" and exact :: bool and keeps :: "'w \<Rightarrow> 'w \<Rightarrow> bool" +
  fixes claimed :: "'w \<Rightarrow> object_key \<Rightarrow> bool"
    and readable :: "'w \<Rightarrow> object_key \<Rightarrow> replica_descriptor \<Rightarrow> bytes \<Rightarrow> bool"
  assumes found_readable: "inv w \<Longrightarrow> usable (t, k) \<Longrightarrow> mc_get_replica_list mc t k w = (found, w') \<Longrightarrow>
      undisturbed pending filled claimed readable None w w'
      \<and> (\<forall>rl r rs. found = Inr rl \<longrightarrow> rl_replicas rl = r # rs \<longrightarrow>
          (\<exists>bs. contents w (t, k) = Some bs \<and> readable w' (t, k) r bs))"
    and readable_read: "inv w \<Longrightarrow> usable (t, k) \<Longrightarrow> readable w (t, k) r bs \<Longrightarrow> from_replica r = Inr h \<Longrightarrow>
      sc_read_chunk sc t k h w = (got, w') \<Longrightarrow>
      inv w' \<and> contents w' = contents w \<and> undisturbed pending filled claimed readable None w w'
      \<and> (\<forall>chunk. got = Inr chunk \<longrightarrow> sch_bytes chunk = bs)"
    and start_claims: "inv w \<Longrightarrow> usable (t, k) \<Longrightarrow> mc_put_start mc t k len replica_count w = (started, w') \<Longrightarrow>
      undisturbed pending filled claimed readable None w w'
      \<and> (\<forall>rs. started = Inr rs \<longrightarrow> \<not> claimed w (t, k) \<and> claimed w' (t, k))"
    and write_beside: "inv w \<Longrightarrow> usable (t, k) \<Longrightarrow> pending w (t, k) r \<Longrightarrow> from_replica r = Inr h \<Longrightarrow>
      length bs \<le> u64_max \<Longrightarrow> sc_write_preallocated_chunk sc (rep_node_id r) t k h bs w = (ended, w') \<Longrightarrow>
      undisturbed pending filled claimed readable (Some (t, k)) w w'"
    and end_beside: "inv w \<Longrightarrow> usable (t, k) \<Longrightarrow> filled w (t, k) r bs \<Longrightarrow> mc_put_end mc t k w = (ended, w') \<Longrightarrow>
      undisturbed pending filled claimed readable (Some (t, k)) w w'"
    and revoke_beside: "inv w \<Longrightarrow> usable (t, k) \<Longrightarrow> claimed w (t, k) \<Longrightarrow> mc_put_revoke mc t k w = (ended, w') \<Longrightarrow>
      undisturbed pending filled claimed readable (Some (t, k)) w w'"
    and kept_beside: "keeps w w' \<Longrightarrow> inv w \<Longrightarrow> undisturbed pending filled claimed readable None w w'"
begin

section \<open>What a request knows of the cache\<close>

text \<open>The first argument are the entries that the map has had.\<close>

primrec knows :: "(object_key \<Rightarrow> bytes \<Rightarrow> bool) \<Rightarrow> 'w \<Rightarrow> stage \<Rightarrow> bool" where
  "knows had w Start \<longleftrightarrow> True"
| "knows had w (Looked key r bs) \<longleftrightarrow> usable key \<and> readable w key r bs \<and> had key bs"
| "knows had w (Got key bs) \<longleftrightarrow> had key bs"
| "knows had w (Answered serialized) \<longleftrightarrow> (\<forall>bs. serialized = Inr bs \<longrightarrow> length bs \<le> u64_max)"
| "knows had w (Reserved key r bs) \<longleftrightarrow> usable key \<and> claimed w key \<and> pending w key r \<and> contents w key = None \<and> length bs \<le> u64_max"
| "knows had w (Filled key r bs) \<longleftrightarrow> usable key \<and> claimed w key \<and> filled w key r bs \<and> contents w key = None"
| "knows had w (Stored key bs) \<longleftrightarrow> claimed w key \<and> contents w key = Some bs"
| "knows had w (Withdrawing key r) \<longleftrightarrow>
     usable key \<and> claimed w key \<and> (pending w key r \<and> contents w key = None \<or> \<not> exact \<and> contents w key \<noteq> None)"
| "knows had w (Abandoned key) \<longleftrightarrow> claimed w key"
| "knows had w (Listening key ch) \<longleftrightarrow> True"
| "knows had w (Heard key r) \<longleftrightarrow> True"

text \<open>
  What one call does to the cache: nothing outside of the caller's own key; what an exact cache has
  stored stays there.
\<close>

definition own_effect :: "object_key option \<Rightarrow> 'w \<Rightarrow> 'w \<Rightarrow> bool" where
  "own_effect own w w' \<longleftrightarrow>
     inv w' \<and> undisturbed pending filled claimed readable own w w'
     \<and> (\<forall>key. own \<noteq> Some key \<longrightarrow> contents w' key = contents w key) \<and> (exact \<longrightarrow> contents w \<subseteq>\<^sub>m contents w')"

lemma own_effectI:
  "inv w' \<Longrightarrow> undisturbed pending filled claimed readable own w w' \<Longrightarrow> contents w' = contents w \<Longrightarrow> own_effect own w w'"
  by (simp add: own_effect_def)

lemma own_effect_only:
  assumes "inv w'" and "undisturbed pending filled claimed readable (Some key) w w'"
    and "contents w' = contents w \<or> (\<exists>x. contents w' = (contents w)(key := x)) \<and> (exact \<longrightarrow> contents w key = None)"
  shows "own_effect (Some key) w w'"
  using assms by (auto simp: own_effect_def map_le_def)

lemma own_effect_refl: "inv w \<Longrightarrow> own_effect own w w"
  by (simp add: own_effect_def undisturbed_def)

lemma knows_stable:
  assumes "own_effect own w w'" and "own \<noteq> owned st \<or> own = None" and "knows had w st" and "had \<le> had'"
  shows "knows had' w' st"
  using assms by (cases st) (auto simp: own_effect_def undisturbed_def le_fun_def)

lemma own_effect_mono: "own_effect None w w' \<Longrightarrow> own_effect own w w'"
  by (simp add: own_effect_def undisturbed_def)

section \<open>One call\<close>

text \<open>
  A call on the cache by a request that follows the protocol: what it knows afterwards, and that
  only its own key is touched. A key becomes the request's own only when nobody had it.
\<close>

definition after_call ::
  "(object_key \<Rightarrow> bytes \<Rightarrow> bool) \<Rightarrow> (stage \<Rightarrow> bool) \<Rightarrow> stage \<Rightarrow> 'w \<Rightarrow> 'w \<Rightarrow> bool" where
  "after_call had P st w w' \<longleftrightarrow>
     (\<exists>st'. P st' \<and> knows had w' st' \<and> of_cache st' \<and> own_effect (owned st') w w'
        \<and> (owned st' = owned st \<or> owned st = None \<and> (\<forall>key. owned st' = Some key \<longrightarrow> \<not> claimed w key)))"

lemma after_callI:
  "P st' \<Longrightarrow> knows had w' st' \<Longrightarrow> of_cache st' \<Longrightarrow> own_effect (owned st') w w' \<Longrightarrow> owned st' = owned st \<Longrightarrow>
   after_call had P st w w'"
  by (auto simp: after_call_def)

lemma lookup_call:
  assumes "inv w" and "usable (t, k)" and "mc_get_replica_list mc t k w = (found, w')"
    and "\<forall>key bs. contents w key = Some bs \<longrightarrow> had key bs"
    and "(\<forall>rl r rs. found = Inr rl \<longrightarrow> rl_replicas rl \<noteq> r # rs) \<Longrightarrow> P Start"
    and "\<And>rl r rs bs. found = Inr rl \<Longrightarrow> rl_replicas rl = r # rs \<Longrightarrow> P (Looked (t, k) r bs)"
  shows "after_call had P Start w w'"
proof -
  note found = found_readable [OF assms(1-3)]
  have effect: "own_effect own w w'" for own
    using looked_up [OF assms(1-3)] found by (simp add: own_effect_mono own_effectI)
  show ?thesis
  proof (cases "\<exists>rl r rs. found = Inr rl \<and> rl_replicas rl = r # rs")
    case True
    then obtain rl r rs where rl: "found = Inr rl" "rl_replicas rl = r # rs" by blast
    then obtain bs where "contents w (t, k) = Some bs" "readable w' (t, k) r bs" using found by blast
    then show ?thesis
      using assms(2,4) assms(6) [OF rl] effect by (intro after_callI [of P "Looked (t, k) r bs"]) simp_all
  next
    case False
    then show ?thesis using assms(5) effect by (intro after_callI [of P Start]) simp_all
  qed
qed

lemma read_call:
  assumes "inv w" and "knows had w (Looked (t, k) r bs)" and "from_replica r = Inr h" and "sc_read_chunk sc t k h w = (got, w')"
    and "\<And>e. got = Inl e \<Longrightarrow> P Start" and "\<And>chunk. got = Inr chunk \<Longrightarrow> sch_bytes chunk = bs \<Longrightarrow> P (Got (t, k) bs)"
  shows "after_call had P (Looked (t, k) r bs) w w'"
proof -
  have "usable (t, k)" "readable w (t, k) r bs" using assms(2) by simp_all
  note read = readable_read [OF assms(1) this assms(3,4)]
  then have effect: "own_effect own w w'" for own by (simp add: own_effect_mono own_effectI)
  show ?thesis
  proof (cases got)
    case (Inl e)
    then show ?thesis using assms(5) effect by (intro after_callI [of P Start]) simp_all
  next
    case (Inr chunk)
    then show ?thesis using assms(2,6) effect read by (intro after_callI [of P "Got (t, k) bs"]) simp_all
  qed
qed

lemma start_call:
  assumes "inv w" and "usable (t, k)" and "knows had w (Answered (Inr bs))"
    and "mc_put_start mc t k len replica_count w = (started, w')"
    and "\<And>e. started = Inl e \<Longrightarrow> P (Answered (Inr bs))"
    and "\<And>r h. started = Inr [r] \<Longrightarrow> from_replica r = Inr h \<Longrightarrow> P (Reserved (t, k) r bs)"
  shows "after_call had P (Answered (Inr bs)) w w'"
proof -
  note claims = start_claims [OF assms(1,2,4)]
  show ?thesis
  proof (cases started)
    case (Inl e)
    then show ?thesis
      using start_refused [OF assms(1,2)] assms(3,4,5) claims
      by (intro after_callI [of P "Answered (Inr bs)"] own_effectI) auto
  next
    case (Inr rs)
    obtain r h where r: "rs = [r]" "from_replica r = Inr h" and w': "inv w'" "contents w' = contents w"
      "contents w (t, k) = None" "pending w' (t, k) r"
      using start_granted [OF assms(1,2) assms(4) [unfolded Inr]] by blast
    have "own_effect (Some (t, k)) w w'" using w' claims by (simp add: own_effect_mono own_effectI)
    then show ?thesis
      using assms(2,3) assms(6) [of r h] r w' claims Inr by (auto simp: after_call_def intro!: exI [of _ "Reserved (t, k) r bs"])
  qed
qed

lemma write_call:
  assumes "inv w" and "knows had w (Reserved (t, k) r bs)" and "from_replica r = Inr h"
    and "sc_write_preallocated_chunk sc (rep_node_id r) t k h bs w = (ended, w')"
    and "\<And>e. ended = Inl e \<Longrightarrow> P (Reserved (t, k) r bs)" and "ended = Inr () \<Longrightarrow> P (Filled (t, k) r bs)"
  shows "after_call had P (Reserved (t, k) r bs) w w'"
proof -
  have ok: "usable (t, k)" "pending w (t, k) r" "length bs \<le> u64_max" using assms(2) by simp_all
  note put = written [OF assms(1) ok(1,2) assms(3) ok(3) assms(4)]
  note beside = write_beside [OF assms(1) ok(1,2) assms(3) ok(3) assms(4)]
  have effect: "own_effect (Some (t, k)) w w'" using put beside by (intro own_effectI) simp_all
  have claimed: "claimed w' (t, k)" using assms(2) beside by (simp add: undisturbed_def)
  show ?thesis
  proof (cases ended)
    case (Inl e)
    then show ?thesis using assms(2,5) effect put claimed by (intro after_callI [of P "Reserved (t, k) r bs"]) simp_all
  next
    case (Inr u)
    then show ?thesis using assms(2,6) effect put claimed by (intro after_callI [of P "Filled (t, k) r bs"]) simp_all
  qed
qed

lemma commit_call:
  assumes "inv w" and "knows had w (Filled (t, k) r bs)" and "mc_put_end mc t k w = (ended, w')"
    and "\<And>e. ended = Inl e \<Longrightarrow> P (Withdrawing (t, k) r)" and "ended = Inr () \<Longrightarrow> P (Stored (t, k) bs)"
  shows "after_call had P (Filled (t, k) r bs) w w'"
proof -
  have ok: "usable (t, k)" "filled w (t, k) r bs" "contents w (t, k) = None" using assms(2) by simp_all
  note beside = end_beside [OF assms(1) ok(1,2) assms(3)]
  have claimed: "claimed w' (t, k)" using assms(2) beside by (simp add: undisturbed_def)
  show ?thesis
  proof (cases ended)
    case (Inl e)
    note fin = not_committed [OF assms(1) ok(1,2) assms(3) [unfolded Inl]]
    then have "own_effect (Some (t, k)) w w'" using beside by (intro own_effect_only) auto
    then show ?thesis
      using assms(4) ok fin claimed Inl by (intro after_callI [of P "Withdrawing (t, k) r"]) auto
  next
    case (Inr u)
    note fin = committed [OF assms(1) ok(1,2) assms(3) [unfolded Inr]]
    then have "own_effect (Some (t, k)) w w'" using beside ok(3) by (intro own_effect_only) auto
    then show ?thesis using assms(5) fin claimed Inr by (intro after_callI [of P "Stored (t, k) bs"]) simp_all
  qed
qed

lemma revoke_call:
  assumes "inv w" and "knows had w st" and "st = Withdrawing (t, k) r \<or> st = Reserved (t, k) r bs"
    and "mc_put_revoke mc t k w = (ended, w')" and "P (Abandoned (t, k))"
  shows "after_call had P st w w'"
proof -
  have ok: "usable (t, k)" "claimed w (t, k)" using assms(2,3) by auto
  note beside = revoke_beside [OF assms(1) ok assms(4)]
  have held: "pending w (t, k) r \<or> \<not> exact \<and> contents w (t, k) \<noteq> None" using assms(2,3) by (elim disjE) (simp_all, blast)
  then have "inv w' \<and> (contents w' = contents w \<or> contents w' = (contents w)((t, k) := None))"
    using revoked [OF assms(1) ok(1) _ assms(4)] withdrawn [OF _ assms(1) ok(1) _ assms(4)] by blast
  moreover have "contents w' = contents w" if exact
    using that held revoked [OF assms(1) ok(1) _ assms(4), of r] by blast
  ultimately have "own_effect (Some (t, k)) w w'" using beside by (intro own_effect_only) auto
  moreover have "claimed w' (t, k)" using ok beside by (simp add: undisturbed_def)
  ultimately show ?thesis using assms(3,5) by (intro after_callI [of P "Abandoned (t, k)"]) auto
qed

lemma vendor_call:
  assumes "inv w" and "keeps w w'" and "owned st = None" and "P st'" and "owned st' = None" and "of_cache st'" and "knows had w' st'"
  shows "after_call had P st w w'"
proof -
  have "own_effect None w w'"
    using kept [OF assms(2,1)] kept_beside [OF assms(2,1)] by (intro own_effectI) simp_all
  then show ?thesis using assms by (intro after_callI [of P st']) simp_all
qed

lemma cache_call_followed:
  assumes g: "backed mc sc g" "vendor_keeps keeps (gs_vendor g)" and sj: "serde_bounded sj"
    and usable: "\<forall>key. mine key \<longrightarrow> usable key" and had: "\<forall>key bs. contents (gw_world v) key = Some bs \<longrightarrow> had key bs"
    and inv: "inv (gw_world v)" and knows: "knows had (gw_world v) st"
    and wp: "wp sj mine pub Q p lead st" and run: "program_step g p v = Some (p', v')" and call: "cache_call p"
  shows "after_call had (\<lambda>st'. wp sj mine pub Q p' lead st' \<and> (owned st' = owned st \<or> (\<forall>key. owned st' = Some key \<longrightarrow> mine key))) st (gw_world v) (gw_world v')"
    and "gw_flights v' = gw_flights v" and "gw_metrics v' = gw_metrics v"
proof -
  have clients: "gs_master_client g = mc" "gs_store_client g = sc" using g(1) by (simp_all add: backed_def)
  have streamed: "length bs \<le> u64_max" if "streamed sj stream = Inr bs" for stream bs
    using that sj by (auto simp: streamed_def serde_bounded_def serialize_stream_object_def split: sum.splits)
  have "\<exists>w'. v' = v\<lparr>gw_world := w'\<rparr>" using run call by (cases p) (auto simp: answered_on_world)
  then show "gw_flights v' = gw_flights v" and "gw_metrics v' = gw_metrics v" by auto
  have keeps: "keeps w (snd (va_resolve_model_version (gs_vendor g) m w))" "keeps w (snd (va_complete (gs_vendor g) q w))"
    "keeps w (snd (va_stream (gs_vendor g) q w))" for m q w
    using g(2) by (simp_all add: vendor_keeps_def)
  show "after_call had (\<lambda>st'. wp sj mine pub Q p' lead st' \<and> (owned st' = owned st \<or> (\<forall>key. owned st' = Some key \<longrightarrow> mine key))) st (gw_world v) (gw_world v')"
  proof (cases p)
    case (GetReplicaList t k c)
    then obtain found w' where "mc_get_replica_list mc t k (gw_world v) = (found, w')" "p' = c found" "gw_world v' = w'"
      using run by (auto simp: answered_on_world clients)
    then show ?thesis
      using wp usable had GetReplicaList by (auto intro!: lookup_call [OF inv, of t k found])
  next
    case (ReadChunk t k h c)
    then obtain got w' where "sc_read_chunk sc t k h (gw_world v) = (got, w')" "p' = c got" "gw_world v' = w'"
      using run by (auto simp: answered_on_world clients)
    then show ?thesis
      using wp knows ReadChunk by (auto intro!: read_call [OF inv, of had t k _ _ h got] simp del: knows.simps)
  next
    case (PutStart t k len n c)
    then obtain started w' where "mc_put_start mc t k len n (gw_world v) = (started, w')" "p' = c started" "gw_world v' = w'"
      using run by (auto simp: answered_on_world clients)
    then show ?thesis
      using wp knows usable PutStart by (auto intro!: start_call [OF inv, of t k had _ len started] simp del: knows.simps)
  next
    case (WriteChunk node t k h bs c)
    then obtain ended w' where "sc_write_preallocated_chunk sc node t k h bs (gw_world v) = (ended, w')" "p' = c ended" "gw_world v' = w'"
      using run by (auto simp: answered_on_world clients)
    then show ?thesis
      using wp knows WriteChunk by (auto intro!: write_call [OF inv, of had t k _ bs h ended] simp del: knows.simps)
  next
    case (PutEnd t k c)
    then obtain ended w' where "mc_put_end mc t k (gw_world v) = (ended, w')" "p' = c ended" "gw_world v' = w'"
      using run by (auto simp: answered_on_world clients)
    then show ?thesis
      using wp knows PutEnd by (auto intro!: commit_call [OF inv, of had t k _ _ ended] simp del: knows.simps)
  next
    case (PutRevoke t k c)
    then obtain ended w' where call: "mc_put_revoke mc t k (gw_world v) = (ended, w')" "p' = c ended" "gw_world v' = w'"
      using run by (auto simp: answered_on_world clients)
    obtain r bs where st: "st = Withdrawing (t, k) r \<or> st = Reserved (t, k) r bs" using wp PutRevoke by auto
    then have "owned st = Some (t, k)" by auto
    then show ?thesis using revoke_call [OF inv knows st call(1)] wp PutRevoke call by simp
  next
    case (ResolveModel m c)
    then obtain r w' where call: "va_resolve_model_version (gs_vendor g) m (gw_world v) = (r, w')" "p' = c r" "gw_world v' = w'"
      using run by (auto simp: answered_on_world)
    have "keeps (gw_world v) w'" using keeps(1) [of "gw_world v" m] call(1) by simp
    from vendor_call [OF inv this, of Start _ Start had] show ?thesis using wp ResolveModel call by simp
  next
    case (Complete q c)
    then obtain r w' where call: "va_complete (gs_vendor g) q (gw_world v) = (r, w')" "p' = c r" "gw_world v' = w'"
      using run by (auto simp: answered_on_world)
    have "keeps (gw_world v) w'" using keeps(2) [of "gw_world v" q] call(1) by simp
    note vendor = vendor_call [OF inv this, where had = had]
    show ?thesis
      using wp Complete call sj vendor [of st _ Start] vendor [of st _ "Answered (sj_to_vec sj (projr r))"]
      by (cases r) (simp_all add: serde_bounded_def)
  next
    case (OpenStream q c)
    then obtain r w' where call: "va_stream (gs_vendor g) q (gw_world v) = (r, w')" "p' = c r" "gw_world v' = w'"
      using run by (auto simp: answered_on_world)
    have "keeps (gw_world v) w'" using keeps(3) [of "gw_world v" q] call(1) by simp
    note vendor = vendor_call [OF inv this, where had = had]
    show ?thesis
      using wp OpenStream call streamed vendor [of st _ Start] vendor [of st _ "Answered (streamed sj (projr r))"]
      by (cases r) simp_all
  qed (use call in simp_all)
qed

end

end
