(* ===== verification/Coalescing.thy ===== *)
theory Coalescing
imports Typestate Schedule
begin

text \<open>
  The flights of \<open>Singleflight\<close> in a gateway that runs many requests: each flight has one task that
  leads it, and a task that waits is answered when its leader publishes or is dropped.
\<close>

declare split_paired_All [simp del] split_paired_Ex [simp del]

section \<open>Leaders and waiters\<close>

text \<open>A leader for the same key has published the answer and returned it.\<close>

definition heard ::
  "(bytes \<Rightarrow> bytes) \<Rightarrow> serde \<Rightarrow> (nat \<Rightarrow> 'w gateway_state) \<Rightarrow> 'w system \<Rightarrow> nat \<Rightarrow> singleflight_key \<Rightarrow> gateway_response \<Rightarrow> bool" where
  "heard sha256 sj gateways s g key response \<longleftrightarrow>
     (\<exists>task \<in> set (sy_tasks s). tk_gateway task = g
        \<and> asked sha256 sj (gateways g) (tk_request task) (flight_object key)
        \<and> tk_program task = Some (Return (Inr (with_cache_coalesced ''leader'' response))))"

definition listening ::
  "(bytes \<Rightarrow> bytes) \<Rightarrow> serde \<Rightarrow> (nat \<Rightarrow> 'w gateway_state) \<Rightarrow> 'w system \<Rightarrow> nat \<Rightarrow> singleflight_key \<Rightarrow> nat \<Rightarrow> bool" where
  "listening sha256 sj gateways s g key ch \<longleftrightarrow>
     ch < length (sf_channels (sy_flights s g))
     \<and> (sf_channels (sy_flights s g) ! ch = Open \<longrightarrow>
          (\<exists>f. hm_get (sf_inner (sy_flights s g)) key = Some f \<and> fl_sender f = ch))
     \<and> (\<forall>response. sf_channels (sy_flights s g) ! ch = Published (Inr response) \<longrightarrow>
          shared_answer response \<and> heard sha256 sj gateways s g key response)"

fun hears ::
  "(bytes \<Rightarrow> bytes) \<Rightarrow> serde \<Rightarrow> (nat \<Rightarrow> 'w gateway_state) \<Rightarrow> 'w system \<Rightarrow> nat \<Rightarrow> stage \<Rightarrow> bool" where
  "hears sha256 sj gateways s g (Listening key ch) = listening sha256 sj gateways s g key ch"
| "hears sha256 sj gateways s g (Heard key response) = heard sha256 sj gateways s g key response"
| "hears sha256 sj gateways s g _ = True"

text \<open>The flights are the ones that are led, each by one task that is still there.\<close>

definition leads :: "'w system \<Rightarrow> nat \<Rightarrow> singleflight_key \<Rightarrow> nat \<Rightarrow> bool" where
  "leads s g key i \<longleftrightarrow>
     i < length (sy_tasks s) \<and> tk_gateway (sy_tasks s ! i) = g \<and> tk_leading (sy_tasks s ! i) = Some key"

definition flights_inv :: "'w system \<Rightarrow> bool" where
  "flights_inv s \<longleftrightarrow>
     (\<forall>g. flights_ok (sy_flights s g))
     \<and> (\<forall>g key. hm_get (sf_inner (sy_flights s g)) key \<noteq> None \<longleftrightarrow> (\<exists>i. leads s g key i))
     \<and> (\<forall>g key i j. leads s g key i \<longrightarrow> leads s g key j \<longrightarrow> i = j)
     \<and> (\<forall>g key i. leads s g key i \<longrightarrow> tk_program (sy_tasks s ! i) \<noteq> None)"

text \<open>Answers stay: a task that has returned is not changed.\<close>

definition answers_kept :: "'w system \<Rightarrow> 'w system \<Rightarrow> bool" where
  "answers_kept s s' \<longleftrightarrow>
     (\<forall>task \<in> set (sy_tasks s). \<forall>a. tk_program task = Some (Return a) \<longrightarrow> task \<in> set (sy_tasks s'))"

lemma heard_kept:
  "answers_kept s s' \<Longrightarrow> heard sha256 sj gateways s g key r \<Longrightarrow> heard sha256 sj gateways s' g key r"
  unfolding heard_def answers_kept_def by blast

lemma answers_kept_update:
  assumes "sy_tasks s' = (sy_tasks s)[i := T]" and "i < length (sy_tasks s)" and "\<And>a. tk_program (sy_tasks s ! i) \<noteq> Some (Return a)"
  shows "answers_kept s s'"
  unfolding answers_kept_def
proof (intro ballI allI impI)
  fix task a
  assume "task \<in> set (sy_tasks s)" and "tk_program task = Some (Return a)"
  moreover from this assms(3) obtain j where "j < length (sy_tasks s)" "task = sy_tasks s ! j" "j \<noteq> i"
    by (metis in_set_conv_nth)
  ultimately show "task \<in> set (sy_tasks s')"
    using assms(1) by (metis length_list_update nth_list_update_neq nth_mem)
qed

lemma hears_same_flights:
  assumes "answers_kept s s'" and "sy_flights s' g = sy_flights s g" and "hears sha256 sj gateways s g st"
  shows "hears sha256 sj gateways s' g st"
  using assms(3) heard_kept [OF assms(1)] by (cases st) (simp_all add: listening_def assms(2))

section \<open>Steps of the flights\<close>

lemma leads_update:
  assumes "i < length (sy_tasks s)" and "sy_tasks s' = (sy_tasks s)[i := T]" and "tk_gateway T = tk_gateway (sy_tasks s ! i)"
  shows "leads s' g key j \<longleftrightarrow>
    (if j = i then tk_gateway (sy_tasks s ! i) = g \<and> tk_leading T = Some key else leads s g key j)"
  using assms by (auto simp: leads_def nth_list_update)

lemma flights_inv_update:
  assumes "flights_inv s" and "i < length (sy_tasks s)" and "sy_tasks s' = (sy_tasks s)[i := T]"
    and "tk_gateway T = tk_gateway (sy_tasks s ! i)" and "tk_leading T \<noteq> None \<Longrightarrow> tk_program T \<noteq> None"
    and "sy_flights s' = (sy_flights s)(tk_gateway T := F)" and "flights_ok F"
    and "\<And>key. tk_leading T = Some key \<Longrightarrow> tk_leading T = tk_leading (sy_tasks s ! i)
      \<or> hm_get (sf_inner (sy_flights s (tk_gateway T))) key = None"
    and "\<And>key. hm_get (sf_inner F) key \<noteq> None \<longleftrightarrow> tk_leading T = Some key
      \<or> hm_get (sf_inner (sy_flights s (tk_gateway T))) key \<noteq> None \<and> tk_leading (sy_tasks s ! i) \<noteq> Some key"
  shows "flights_inv s'"
proof -
  let ?g = "tk_gateway T"
  note upd = leads_update [OF assms(2-4)]
  have mine: "leads s g key i \<longleftrightarrow> g = ?g \<and> tk_leading (sy_tasks s ! i) = Some key" for g key
    using assms(2,4) by (auto simp: leads_def)
  have flights: "hm_get (sf_inner (sy_flights s g)) key \<noteq> None \<longleftrightarrow> (\<exists>i. leads s g key i)"
    and one: "leads s g key i \<Longrightarrow> leads s g key j \<Longrightarrow> i = j"
    and there: "leads s g key i \<Longrightarrow> tk_program (sy_tasks s ! i) \<noteq> None" for g key i j
    using assms(1) unfolding flights_inv_def by blast+
  have "hm_get (sf_inner (sy_flights s' g)) key \<noteq> None \<longleftrightarrow> (\<exists>i. leads s' g key i)" for g key
  proof (cases "g = ?g")
    case True
    have "(\<exists>j. leads s' g key j) \<longleftrightarrow> tk_leading T = Some key \<or> (\<exists>j. j \<noteq> i \<and> leads s g key j)"
      using True assms(4) by (auto simp: upd)
    moreover have "(\<exists>j. j \<noteq> i \<and> leads s g key j) \<longleftrightarrow> (\<exists>j. leads s g key j) \<and> tk_leading (sy_tasks s ! i) \<noteq> Some key"
      using True one [of g key i] mine by metis
    ultimately show ?thesis using True assms(6) assms(9) [of key] flights [of g key] by simp
  next
    case False
    then have "leads s' g key j \<longleftrightarrow> leads s g key j" for j using mine assms(4) by (auto simp: upd)
    then show ?thesis using False assms(6) flights [of g key] by simp
  qed
  moreover have "a = b" if a: "leads s' g key a" and b: "leads s' g key b" for g key a b
  proof (rule ccontr)
    assume "a \<noteq> b"
    then obtain j where "g = ?g" "tk_leading T = Some key" "leads s g key j" "j \<noteq> i"
      using a b one assms(4) by (auto simp: upd split: if_splits)
    then show False using assms(8) [of key] flights [of g key] one [of g key i j] mine by metis
  qed
  moreover have "tk_program (sy_tasks s' ! a) \<noteq> None" if "leads s' g key a" for g key a
    using that there assms(2,3,5) by (cases "a = i") (auto simp: upd)
  moreover have "flights_ok (sy_flights s' g)" for g
    using assms(1,6,7) by (simp add: flights_inv_def)
  ultimately show ?thesis unfolding flights_inv_def by blast
qed

lemma leading_flight:
  assumes "flights_inv s" and "i < length (sy_tasks s)" and "tk_leading (sy_tasks s ! i) = Some key"
  shows "\<exists>f. hm_get (sf_inner (sy_flights s (tk_gateway (sy_tasks s ! i)))) key = Some f"
proof -
  have "leads s (tk_gateway (sy_tasks s ! i)) key i" using assms(2,3) by (simp add: leads_def)
  then show ?thesis using assms(1) unfolding flights_inv_def by (metis not_None_eq)
qed

text \<open>The four ways in which a task touches a flight: not at all, beginning one, joining one, ending one.\<close>

lemma flights_inv_same:
  assumes "flights_inv s" and "sy_flights s' = sy_flights s" and "sy_tasks s' = (sy_tasks s)[i := T]" and "i < length (sy_tasks s)"
    and "tk_gateway T = tk_gateway (sy_tasks s ! i)" and "tk_leading T = tk_leading (sy_tasks s ! i)"
    and "tk_leading T \<noteq> None \<Longrightarrow> tk_program T \<noteq> None"
  shows "flights_inv s'"
  by (rule flights_inv_update [OF assms(1,4,3,5,7), where F = "sy_flights s (tk_gateway T)"])
     (use assms leading_flight [OF assms(1,4)] in \<open>auto simp: flights_inv_def\<close>)

lemma flights_inv_begun:
  assumes "flights_inv s" and "i < length (sy_tasks s)" and "tk_leading (sy_tasks s ! i) = None"
    and "sf_begin key (sy_flights s (tk_gateway (sy_tasks s ! i))) = (start, F)"
    and "sy_flights s' = (sy_flights s)(tk_gateway (sy_tasks s ! i) := F)" and "sy_tasks s' = (sy_tasks s)[i := T]"
    and "tk_gateway T = tk_gateway (sy_tasks s ! i)" and "tk_leading T = (case start of Leader k \<Rightarrow> Some k | _ \<Rightarrow> None)"
    and "tk_program T \<noteq> None"
  shows "flights_inv s'"
proof (rule flights_inv_update [OF assms(1,2,6,7,9), where F = F])
  show "flights_ok F" using flights_ok_begin [OF _ assms(4)] assms(1) by (auto simp: flights_inv_def)
qed (use assms in \<open>auto simp: sf_begin_def split: option.splits if_splits\<close>)

lemma flights_inv_finished:
  assumes "flights_inv s" and "i < length (sy_tasks s)" and "tk_leading (sy_tasks s ! i) = Some key"
    and "sy_flights s' = (sy_flights s)(tk_gateway (sy_tasks s ! i) := sf_finish key ch (sy_flights s (tk_gateway (sy_tasks s ! i))))"
    and "sy_tasks s' = (sy_tasks s)[i := T]" and "tk_gateway T = tk_gateway (sy_tasks s ! i)" and "tk_leading T = None"
  shows "flights_inv s'"
proof -
  let ?sf = "sy_flights s (tk_gateway (sy_tasks s ! i))"
  obtain f where f: "hm_get (sf_inner ?sf) key = Some f" using leading_flight [OF assms(1-3)] by blast
  have ok: "flights_ok ?sf" using assms(1) by (simp add: flights_inv_def)
  have left: "hm_get (sf_inner (sf_finish key ch ?sf)) k \<noteq> None \<longleftrightarrow> k \<noteq> key \<and> hm_get (sf_inner ?sf) k \<noteq> None" for k
    using ok by (simp add: sf_finish_Some [OF f] flights_ok_def)
  show ?thesis
  proof (rule flights_inv_update [OF assms(1,2,5,6), where F = "sf_finish key ch ?sf"])
    show "flights_ok (sf_finish key ch ?sf)" by (rule flights_ok_finish [OF ok f])
  qed (simp_all only: assms(3,4,6,7) left simp_thms option.simps, blast)
qed

section \<open>What a waiter knows\<close>

lemma listening_begun:
  assumes "flights_ok (sy_flights s g)" and "sf_begin key (sy_flights s g) = (start, F)" and "sy_flights s' = (sy_flights s)(g := F)"
    and "answers_kept s s'"
  shows "hears sha256 sj gateways s g' st \<Longrightarrow> hears sha256 sj gateways s' g' st"
    and "start = Waiter ch \<Longrightarrow> listening sha256 sj gateways s' g key ch"
proof -
  have "listening sha256 sj gateways s' g k c" if "listening sha256 sj gateways s g k c" for k c
    using that assms heard_kept [OF assms(4)]
    by (cases start) (auto simp: listening_def sf_begin_Leader sf_begin_Waiter sf_begin_OverCapacity nth_append)
  then show "hears sha256 sj gateways s g' st \<Longrightarrow> hears sha256 sj gateways s' g' st"
    using hears_same_flights [OF assms(4), of g' sha256 sj gateways st] heard_kept [OF assms(4)] assms(3)
    by (cases "g' = g"; cases st) (auto simp del: hears.simps, auto)
  show "start = Waiter ch \<Longrightarrow> listening sha256 sj gateways s' g key ch"
    using assms(1-3) by (auto simp: listening_def sf_begin_Waiter flights_ok_def)
qed

lemma hears_finished:
  assumes "flights_ok (sy_flights s g)" and "hm_get (sf_inner (sy_flights s g)) key = Some f"
    and "sy_flights s' = (sy_flights s)(g := sf_finish key ch (sy_flights s g))" and "answers_kept s s'" and "ch \<noteq> Open"
    and "\<And>response. ch = Published (Inr response) \<Longrightarrow> shared_answer response \<and> heard sha256 sj gateways s' g key response"
    and "hears sha256 sj gateways s g' st"
  shows "hears sha256 sj gateways s' g' st"
proof -
  have F: "sf_finish key ch (sy_flights s g) = (sy_flights s g)\<lparr>sf_inner := hm_remove key (sf_inner (sy_flights s g)),
      sf_channels := (sf_channels (sy_flights s g))[fl_sender f := ch]\<rparr>"
    using sf_finish_Some [OF assms(2)] .
  have f: "fl_sender f < length (sf_channels (sy_flights s g))" "sf_channels (sy_flights s g) ! fl_sender f = Open"
    and ok: "hm_ok (sf_inner (sy_flights s g))" using assms(1,2) by (simp_all add: flights_ok_def)
  have other: "k = key" if "hm_get (sf_inner (sy_flights s g)) k = Some f'" "fl_sender f' = fl_sender f" for k f'
    using that assms(1,2) unfolding flights_ok_def by metis
  have "listening sha256 sj gateways s' g k c" if l: "listening sha256 sj gateways s g k c" for k c
  proof (cases "c = fl_sender f")
    case True
    then have "k = key" using l f other by (auto simp: listening_def)
    then show ?thesis using True assms(3,5,6) f by (simp add: listening_def F)
  next
    case False
    then have "k \<noteq> key" if "sf_channels (sy_flights s g) ! c = Open" using l that assms(2) by (auto simp: listening_def)
    then show ?thesis
      using l False ok heard_kept [OF assms(4)] by (auto simp: listening_def F assms(3))
  qed
  then show ?thesis
    using assms(7) hears_same_flights [OF assms(4), of g' sha256 sj gateways st] heard_kept [OF assms(4)] assms(3)
    by (cases "g' = g"; cases st) (auto simp del: hears.simps, auto)
qed


section \<open>One call on the flights\<close>

text \<open>The state after a task has made a call.\<close>

lemma resume_fields:
  assumes "resume gateways i s = Some s'" and "i < length (sy_tasks s)"
  obtains p p' v T where "tk_program (sy_tasks s ! i) = Some p"
    and "program_step (gateways (tk_gateway (sy_tasks s ! i))) p (gateway_view (tk_gateway (sy_tasks s ! i)) s) = Some (p', v)"
    and "sy_tasks s' = (sy_tasks s)[i := T]" and "sy_world s' = gw_world v"
    and "sy_flights s' = (sy_flights s)(tk_gateway (sy_tasks s ! i) := gw_flights v)"
    and "tk_gateway T = tk_gateway (sy_tasks s ! i)" and "tk_request T = tk_request (sy_tasks s ! i)" and "tk_program T = Some p'"
    and "tk_leading T = leading_after p (sy_flights s (tk_gateway (sy_tasks s ! i))) (tk_leading (sy_tasks s ! i))"
    and "answers_kept s s'"
proof -
  obtain p p' v where call: "tk_program (sy_tasks s ! i) = Some p"
    "program_step (gateways (tk_gateway (sy_tasks s ! i))) p (gateway_view (tk_gateway (sy_tasks s ! i)) s) = Some (p', v)"
    and s': "s' = update_task i (\<lambda>task. task\<lparr>tk_program := Some p',
        tk_leading := leading_after p (sy_flights s (tk_gateway task)) (tk_leading task)\<rparr>)
      (with_view (tk_gateway (sy_tasks s ! i)) v s)"
    using assms(1) by (rule resume_program)
  let ?T = "(sy_tasks s ! i)\<lparr>tk_program := Some p',
      tk_leading := leading_after p (sy_flights s (tk_gateway (sy_tasks s ! i))) (tk_leading (sy_tasks s ! i))\<rparr>"
  have tasks: "sy_tasks s' = (sy_tasks s)[i := ?T]" by (simp add: s' update_task_def with_view_def)
  have "p \<noteq> Return a" for a using call(2) by auto
  then have "answers_kept s s'" using call(1) by (intro answers_kept_update [OF tasks assms(2)]) simp
  then show thesis using call tasks by (intro that [of p p' v ?T]) (simp_all add: s' update_task_def with_view_def)
qed

text \<open>
  The calls that do not touch the cache: what the task knows of flights afterwards, and that the
  other tasks lose nothing.
\<close>

lemma flight_call_followed:
  assumes "flights_inv s" and "i < length (sy_tasks s)" and "g = tk_gateway (sy_tasks s ! i)"
    and "tk_program (sy_tasks s ! i) = Some p" and "program_step (gateways g) p (gateway_view g s) = Some (p', v)"
    and "sy_tasks s' = (sy_tasks s)[i := T]" and "sy_flights s' = (sy_flights s)(g := gw_flights v)"
    and "tk_gateway T = g" and "tk_request T = tk_request (sy_tasks s ! i)" and "tk_program T = Some p'"
    and "tk_leading T = leading_after p (sy_flights s g) (tk_leading (sy_tasks s ! i))"
    and "answers_kept s s'" and "\<not> cache_call p"
    and "follows sj (asked sha256 sj (gateways g) (tk_request (sy_tasks s ! i))) p (tk_leading (sy_tasks s ! i)) st"
    and "hears sha256 sj gateways s g st"
  shows "flights_inv s'" and "gw_world v = sy_world s"
    and "hears sha256 sj gateways s g' st' \<Longrightarrow> hears sha256 sj gateways s' g' st'"
    and "\<exists>st'. follows sj (asked sha256 sj (gateways g) (tk_request T)) p' (tk_leading T) st'
      \<and> hears sha256 sj gateways s' g st' \<and> (st' = st \<or> owned st = None \<and> of_flight st')"
proof -
  let ?mine = "asked sha256 sj (gateways g) (tk_request (sy_tasks s ! i))" and ?lead = "tk_leading (sy_tasks s ! i)"
  let ?sf = "sy_flights s g"
  have ok: "flights_ok ?sf" using assms(1) by (simp add: flights_inv_def)
  have same: "flights_inv s' \<and> (hears sha256 sj gateways s g' st' \<longrightarrow> hears sha256 sj gateways s' g' st')"
    if "gw_flights v = ?sf" "tk_leading T = ?lead" for g' st'
  proof -
    have "sy_flights s' = sy_flights s" using that assms(7) by simp
    then show ?thesis
      using flights_inv_same [OF assms(1) _ assms(6,2), of] hears_same_flights [OF assms(12)] that assms(3,8,10) by simp
  qed
  have "flights_inv s' \<and> gw_world v = sy_world s
    \<and> (hears sha256 sj gateways s g' st' \<longrightarrow> hears sha256 sj gateways s' g' st')
    \<and> (\<exists>st'. follows sj ?mine p' (tk_leading T) st' \<and> hears sha256 sj gateways s' g st'
         \<and> (st' = st \<or> owned st = None \<and> of_flight st'))" for g' st'
  proof (cases p)
    case (Count u q)
    then show ?thesis using same assms(5,11,14,15) by (auto simp: gateway_view_def on_metrics_def)
  next
    case (Wait ch c)
    then obtain r where r: "sf_wait ch ?sf = Some r" "p' = c r" "gw_flights v = ?sf" "gw_world v = sy_world s"
      using assms(5) by (auto simp: gateway_view_def)
    obtain key where key: "st = Listening key ch" "\<And>e. follows sj ?mine (c (Inl e)) None Start"
      "\<And>x. shared_answer x \<Longrightarrow> follows sj ?mine (c (Inr x)) None (Heard key x)" and lead: "?lead = None"
      using assms(14) Wait by auto
    have T: "tk_leading T = ?lead" using assms(11) Wait by simp
    show ?thesis
    proof (cases r)
      case (Inl e)
      then show ?thesis using same [OF r(3) T] key lead T r by (auto intro!: exI [of _ Start])
    next
      case (Inr x)
      then have "sf_channels ?sf ! ch = Published (Inr x)" using r(1) by (simp add: sf_wait_def split: channel.splits)
      then have "shared_answer x" "heard sha256 sj gateways s g key x" using assms(15) key(1) by (auto simp: listening_def)
      then show ?thesis
        using same [OF r(3) T] key lead T r Inr heard_kept [OF assms(12)] by (auto intro!: exI [of _ "Heard key x"])
    qed
  next
    case (Publish key res q)
    have "p' = q" "gw_flights v = sf_finish key (Published res) ?sf" "gw_world v = sy_world s"
      using assms(5) Publish by (auto simp: gateway_view_def sf_publish_def)
    note v = this
    have wp: "may_publish ?mine key res q" "?lead = Some key" "follows sj ?mine q None st" using assms(14) Publish by auto
    have T: "tk_leading T = None" using assms(11) Publish by simp
    have inv: "flights_inv s'"
      by (rule flights_inv_finished [OF assms(1,2) wp(2) _ assms(6) _ T, where ch = "Published res"]) (use assms(3,7,8) v in simp_all)
    obtain f where f: "hm_get (sf_inner ?sf) key = Some f" using leading_flight [OF assms(1,2) wp(2)] assms(3) by blast
    have said: "shared_answer x \<and> heard sha256 sj gateways s' g key x" if "Published res = Published (Inr x)" for x
    proof -
      have "q = Return (Inr (with_cache_coalesced ''leader'' x))" "shared_answer x" "?mine (flight_object key)"
        using wp(1) that by (auto simp: may_publish_def)
      moreover have "T \<in> set (sy_tasks s')" using assms(2,6) by (simp add: set_update_memI)
      ultimately show ?thesis using assms(8-10) v(1) unfolding heard_def by auto
    qed
    have kept: "hears sha256 sj gateways s g' st' \<Longrightarrow> hears sha256 sj gateways s' g' st'" for g' st'
      by (rule hears_finished [OF ok f _ assms(12), where ch = "Published res"]) (use assms(7) v said in simp_all)
    then show ?thesis using inv v wp(3) T assms(15) by auto
  next
    case (Begin key c)
    obtain start F where F: "sf_begin key ?sf = (start, F)" by fastforce
    have v: "p' = c start" "gw_flights v = F" "gw_world v = sy_world s"
      using assms(5) Begin F by (auto simp: gateway_view_def)
    have lead: "?lead = None" and owned: "owned st = None" using assms(14) Begin by auto
    have T: "tk_leading T = (case start of Leader k \<Rightarrow> Some k | _ \<Rightarrow> None)"
      using assms(11) Begin F lead by (simp split: singleflight_start.splits)
    have inv: "flights_inv s'"
      by (rule flights_inv_begun [OF assms(1,2) lead, where key = key and start = start and F = F and T = T])
         (use assms(3,6,7,8,10) F v T in simp_all)
    note begun = listening_begun [OF ok F assms(7) [unfolded v(2)] assms(12)]
    show ?thesis
    proof (cases start)
      case (Leader k)
      then have "k = key" using F by (simp add: sf_begin_Leader)
      then show ?thesis using inv v begun(1) T Leader assms(14,15) Begin by auto
    next
      case (Waiter ch)
      then show ?thesis
        using inv v begun T assms(14) Begin owned by (auto intro!: exI [of _ "Listening key ch"])
    next
      case OverCapacity
      then show ?thesis using inv v begun(1) T assms(14,15) Begin by auto
    qed
  qed (use assms(5,13) in auto)
  then show "flights_inv s'" and "gw_world v = sy_world s"
    and "hears sha256 sj gateways s g' st' \<Longrightarrow> hears sha256 sj gateways s' g' st'"
    and "\<exists>st'. follows sj (asked sha256 sj (gateways g) (tk_request T)) p' (tk_leading T) st'
      \<and> hears sha256 sj gateways s' g st' \<and> (st' = st \<or> owned st = None \<and> of_flight st')"
    using assms(9) by auto
qed

end
