(* ===== verification/Concurrent.thy ===== *)
theory Concurrent
imports Shared_Cache Coalescing
begin

text \<open>
  Any number of requests on any number of gateways over one shared cache: what holds in every state
  of every run. The invariant assigns a stage of \<open>Typestate\<close> to every task; no two tasks own the
  same key.
\<close>

declare split_paired_All [simp del] split_paired_Ex [simp del]

context shared_cache
begin

section \<open>The invariant\<close>

definition had :: "'w system list \<Rightarrow> object_key \<Rightarrow> bytes \<Rightarrow> bool" where
  "had ss key bs \<longleftrightarrow> (\<exists>s \<in> set ss. contents (sy_world s) key = Some bs)"

definition task_inv ::
  "(bytes \<Rightarrow> bytes) \<Rightarrow> serde \<Rightarrow> (nat \<Rightarrow> 'w gateway_state) \<Rightarrow> (object_key \<Rightarrow> bytes \<Rightarrow> bool) \<Rightarrow> 'w system \<Rightarrow> task \<Rightarrow> stage \<Rightarrow> bool" where
  "task_inv sha256 sj gateways past s task st \<longleftrightarrow>
     knows past (sy_world s) st \<and> hears sha256 sj gateways s (tk_gateway task) st
     \<and> (\<forall>key. owned st = Some key \<longrightarrow> asked sha256 sj (gateways (tk_gateway task)) (tk_request task) key)
     \<and> (\<forall>p. tk_program task = Some p \<longrightarrow>
          follows sj (asked sha256 sj (gateways (tk_gateway task)) (tk_request task)) p (tk_leading task) st)"

definition tasks_inv ::
  "(bytes \<Rightarrow> bytes) \<Rightarrow> serde \<Rightarrow> (nat \<Rightarrow> 'w gateway_state) \<Rightarrow> (object_key \<Rightarrow> bytes \<Rightarrow> bool) \<Rightarrow> 'w system \<Rightarrow> (nat \<Rightarrow> stage) \<Rightarrow> bool" where
  "tasks_inv sha256 sj gateways past s stages \<longleftrightarrow>
     inv (sy_world s) \<and> flights_inv s
     \<and> (\<forall>i < length (sy_tasks s). task_inv sha256 sj gateways past s (sy_tasks s ! i) (stages i))
     \<and> (\<forall>i < length (sy_tasks s). \<forall>j < length (sy_tasks s). \<forall>key. i \<noteq> j \<longrightarrow>
          owned (stages i) = Some key \<longrightarrow> owned (stages j) \<noteq> Some key)"

text \<open>What is assumed of the gateways.\<close>

definition in_service :: "(bytes \<Rightarrow> bytes) \<Rightarrow> serde \<Rightarrow> (nat \<Rightarrow> 'w gateway_state) \<Rightarrow> bool" where
  "in_service sha256 sj gateways \<longleftrightarrow>
     serde_bounded sj
     \<and> (\<forall>g. backed mc sc (gateways g) \<and> vendor_keeps keeps (gs_vendor (gateways g)))
     \<and> (\<forall>g request key. asked sha256 sj (gateways g) request key \<longrightarrow> usable key)"

lemma owned_claimed: "knows past w st \<Longrightarrow> owned st = Some key \<Longrightarrow> claimed w key"
  by (cases st) auto

lemma of_cache_hears: "of_cache st \<Longrightarrow> hears sha256 sj gateways s g st"
  by (cases st) simp_all

lemma of_flight_knows: "of_flight st \<Longrightarrow> knows past w st"
  by (cases st) simp_all

section \<open>Steps\<close>

text \<open>A change of one task, seen from the others.\<close>

lemma tasks_inv_update:
  assumes "tasks_inv sha256 sj gateways past s stages" and "i < length (sy_tasks s)"
    and "sy_tasks s' = (sy_tasks s)[i := T]" and "flights_inv s'"
    and "own_effect (owned st) (sy_world s) (sy_world s')"
    and "owned st = owned (stages i) \<or> owned (stages i) = None \<and> (\<forall>key. owned st = Some key \<longrightarrow> \<not> claimed (sy_world s) key)"
    and "\<And>g st'. hears sha256 sj gateways s g st' \<Longrightarrow> hears sha256 sj gateways s' g st'"
    and "past \<le> past'" and "task_inv sha256 sj gateways past' s' T st"
  shows "tasks_inv sha256 sj gateways past' s' (stages(i := st))"
proof -
  have others: "owned st = None \<or> owned st \<noteq> owned (stages j)" if "j < length (sy_tasks s)" "j \<noteq> i" for j
  proof (cases "owned st")
    case (Some key)
    have "knows past (sy_world s) (stages j)" using assms(1) that by (simp add: tasks_inv_def task_inv_def)
    then have "owned (stages j) \<noteq> Some key" if "\<not> claimed (sy_world s) key" using owned_claimed that by blast
    moreover have "owned (stages j) \<noteq> Some key" if "owned (stages i) = Some key"
      using assms(1,2) that \<open>j < length (sy_tasks s)\<close> \<open>j \<noteq> i\<close> unfolding tasks_inv_def by metis
    ultimately show ?thesis using assms(6) Some by auto
  qed simp
  have "task_inv sha256 sj gateways past' s' (sy_tasks s ! j) (stages j)" if "j < length (sy_tasks s)" "j \<noteq> i" for j
    using assms(1,7) that others [OF that] knows_stable [OF assms(5) _ _ assms(8), of "stages j"]
    by (auto simp: tasks_inv_def task_inv_def)
  then have "task_inv sha256 sj gateways past' s' (sy_tasks s' ! j) ((stages(i := st)) j)" if "j < length (sy_tasks s')" for j
    using assms(2,3,9) that by (cases "j = i") simp_all
  moreover have "owned ((stages(i := st)) b) \<noteq> Some key"
    if "a < length (sy_tasks s')" "b < length (sy_tasks s')" "a \<noteq> b" "owned ((stages(i := st)) a) = Some key" for a b key
  proof (cases "a = i \<or> b = i")
    case True
    then show ?thesis using others [of a] others [of b] that assms(3) by auto
  next
    case False
    then show ?thesis using assms(1,3) that unfolding tasks_inv_def by (metis fun_upd_other length_list_update)
  qed
  moreover have "inv (sy_world s')" using assms(5) by (simp add: own_effect_def)
  ultimately show ?thesis using assms(4) unfolding tasks_inv_def by blast
qed

lemma resume_inv:
  assumes "in_service sha256 sj gateways" and "tasks_inv sha256 sj gateways past s stages" and "i < length (sy_tasks s)"
    and "resume gateways i s = Some s'" and "\<forall>key bs. contents (sy_world s) key = Some bs \<longrightarrow> past key bs"
    and "past \<le> past'"
  obtains st where "tasks_inv sha256 sj gateways past' s' (stages(i := st))" and "own_effect (owned st) (sy_world s) (sy_world s')"
proof -
  let ?t = "sy_tasks s ! i" and ?g = "tk_gateway (sy_tasks s ! i)"
  let ?mine = "asked sha256 sj (gateways ?g) (tk_request ?t)"
  from assms(4,3) obtain p p' v T where p: "tk_program ?t = Some p"
    and call: "program_step (gateways ?g) p (gateway_view ?g s) = Some (p', v)"
    and s': "sy_tasks s' = (sy_tasks s)[i := T]" "sy_world s' = gw_world v" "sy_flights s' = (sy_flights s)(?g := gw_flights v)"
    and T: "tk_gateway T = ?g" "tk_request T = tk_request ?t" "tk_program T = Some p'"
      "tk_leading T = leading_after p (sy_flights s ?g) (tk_leading ?t)"
    and kept: "answers_kept s s'"
    by (rule resume_fields)
  have here: "inv (sy_world s)" "flights_inv s" "knows past (sy_world s) (stages i)" "hears sha256 sj gateways s ?g (stages i)"
    "follows sj ?mine p (tk_leading ?t) (stages i)"
    and asks: "\<And>key. owned (stages i) = Some key \<Longrightarrow> ?mine key"
    using assms(2,3) p by (simp_all add: tasks_inv_def task_inv_def)
  note update = tasks_inv_update [OF assms(2,3) s'(1) _ _ _ _ assms(6)]
  show thesis
  proof (cases "cache_call p")
    case True
    have gate: "backed mc sc (gateways ?g)" "vendor_keeps keeps (gs_vendor (gateways ?g))" "serde_bounded sj"
      and usable: "\<forall>key. ?mine key \<longrightarrow> usable key"
      using assms(1) by (auto simp: in_service_def)
    have world: "gw_world (gateway_view ?g s) = sy_world s" by (simp add: gateway_view_def)
    note after = cache_call_followed [OF gate usable, where v = "gateway_view ?g s", unfolded world,
        OF assms(5) here(1,3,5) call True]
    obtain st where st: "follows sj ?mine p' (tk_leading ?t) st" "knows past (sy_world s') st" "of_cache st"
      "own_effect (owned st) (sy_world s) (sy_world s')"
      "owned st = owned (stages i) \<or> (\<forall>key. owned st = Some key \<longrightarrow> ?mine key)"
      "owned st = owned (stages i) \<or> owned (stages i) = None \<and> (\<forall>key. owned st = Some key \<longrightarrow> \<not> claimed (sy_world s) key)"
      using after(1) unfolding after_call_def s'(2) [symmetric] by (elim exE conjE) (rule that)
    have "?mine key" if "owned st = Some key" for key using st(5) asks that by metis
    note st = st(1-4) this st(6)
    have lead: "tk_leading T = tk_leading ?t" using T(4) True by (cases p) simp_all
    have flights: "sy_flights s' = sy_flights s" using s'(3) after(2) by (simp add: gateway_view_def)
    have "flights_inv s'"
      by (rule flights_inv_same [OF here(2) flights s'(1) assms(3) T(1) lead]) (simp add: T(3))
    moreover have "task_inv sha256 sj gateways past' s' T st"
      using st lead T of_cache_hears knows_stable [OF own_effect_refl _ st(2) assms(6), of None] st(4)
      by (auto simp: task_inv_def own_effect_def)
    ultimately have "tasks_inv sha256 sj gateways past' s' (stages(i := st))"
      using st(4,6) hears_same_flights [OF kept] flights by (intro update) simp_all
    then show thesis using st(4) that by blast
  next
    case False
    note flight = flight_call_followed [OF here(2) assms(3) refl p call s'(1,3) T kept False here(5,4)]
    have world: "sy_world s' = sy_world s" using flight(2) s'(2) by simp
    obtain st where st: "follows sj (asked sha256 sj (gateways ?g) (tk_request T)) p' (tk_leading T) st"
      "hears sha256 sj gateways s' ?g st" "st = stages i \<or> owned (stages i) = None \<and> of_flight st"
      using flight(4) by blast
    have knows: "knows past' (sy_world s') st"
      using st(3) knows_stable [OF own_effect_refl [OF here(1)] _ here(3) assms(6), of None] of_flight_knows world by auto
    have "owned st = None" if "of_flight st" using that by (cases st) simp_all
    then have owned: "owned st = owned (stages i)" using st(3) by metis
    have effect: "own_effect (owned st) (sy_world s) (sy_world s')" using own_effect_refl [OF here(1)] world by simp
    have "task_inv sha256 sj gateways past' s' T st" using st knows T asks owned by (simp add: task_inv_def)
    then have "tasks_inv sha256 sj gateways past' s' (stages(i := st))"
      using flight(1,3) effect owned by (intro update) simp_all
    then show thesis using effect that by blast
  qed
qed

lemma drop_inv:
  assumes "tasks_inv sha256 sj gateways past s stages" and "i < length (sy_tasks s)" and "\<not> task_over (sy_tasks s ! i)"
    and "past \<le> past'"
  shows "tasks_inv sha256 sj gateways past' (drop_task i s) (stages(i := stages i))" and "sy_world (drop_task i s) = sy_world s"
proof -
  let ?t = "sy_tasks s ! i" and ?g = "tk_gateway (sy_tasks s ! i)" and ?s' = "drop_task i s"
  let ?T = "?t\<lparr>tk_program := None, tk_leading := None\<rparr>"
  show world: "sy_world ?s' = sy_world s" by (simp add: drop_task_def update_task_def Let_def split: option.splits)
  have here: "inv (sy_world s)" "flights_inv s" "knows past (sy_world s) (stages i)" "hears sha256 sj gateways s ?g (stages i)"
    using assms(1,2) by (simp_all add: tasks_inv_def task_inv_def)
  have kept: "answers_kept s ?s'"
    using assms(3) by (intro answers_kept_update [OF drop_task_tasks assms(2)]) (auto simp: task_not_over)
  have "flights_inv ?s' \<and> (hears sha256 sj gateways s g st \<longrightarrow> hears sha256 sj gateways ?s' g st)" for g st
  proof (cases "tk_leading ?t")
    case None
    then have flights: "sy_flights ?s' = sy_flights s" by (simp add: drop_task_def update_task_def Let_def)
    have "flights_inv ?s'"
      by (rule flights_inv_same [OF here(2) flights drop_task_tasks assms(2)]) (simp_all add: None)
    then show ?thesis using hears_same_flights [OF kept] flights by simp
  next
    case (Some key)
    then have flights: "sy_flights ?s' = (sy_flights s)(?g := sf_finish key Closed (sy_flights s ?g))"
      by (simp add: drop_task_def update_task_def Let_def sf_leader_drop_def)
    obtain f where f: "hm_get (sf_inner (sy_flights s ?g)) key = Some f" using leading_flight [OF here(2) assms(2) Some] by blast
    have ok: "flights_ok (sy_flights s ?g)" using here(2) by (simp add: flights_inv_def)
    have "flights_inv ?s'"
      by (rule flights_inv_finished [OF here(2) assms(2) Some flights drop_task_tasks]) simp_all
    then show ?thesis using hears_finished [OF ok f flights kept] by simp
  qed
  note flights = this
  have "knows past' (sy_world ?s') (stages i)"
    using knows_stable [OF own_effect_refl [OF here(1)] _ here(3) assms(4), of None] world by simp
  then have "task_inv sha256 sj gateways past' ?s' ?T (stages i)"
    using flights here(4) assms(1,2) by (simp add: task_inv_def tasks_inv_def)
  then show "tasks_inv sha256 sj gateways past' ?s' (stages(i := stages i))"
    using flights own_effect_refl [OF here(1)] world
    by (intro tasks_inv_update [OF assms(1,2) drop_task_tasks _ _ _ _ assms(4)]) simp_all
qed

lemma arrive_inv:
  assumes "tasks_inv sha256 sj gateways past s stages" and "past \<le> past'"
  shows "tasks_inv sha256 sj gateways past' (arrive sha256 sj gateways g micros request s) (stages(length (sy_tasks s) := Start))"
proof -
  let ?s' = "arrive sha256 sj gateways g micros request s" and ?n = "length (sy_tasks s)"
  obtain T where s': "?s' = s\<lparr>sy_tasks := sy_tasks s @ [T]\<rparr>" and lead: "tk_leading T = None"
    and T: "task_inv sha256 sj gateways past' ?s' T Start"
    using request_follows [of "\<lparr>env_sha256 = sha256, env_serde = sj, env_vendor_micros = micros, env_wait = Inl []\<rparr>"
        "gateways g" request]
    by (auto simp: arrive_def Let_def task_inv_def)
  have kept: "answers_kept s ?s'" by (simp add: answers_kept_def s')
  have "leads ?s' = leads s"
    using lead by (auto simp: fun_eq_iff leads_def s' nth_append not_less less_Suc_eq)
  moreover have "sy_tasks ?s' ! i = sy_tasks s ! i" if "leads s g key i" for g key i
    using that by (simp add: leads_def s' nth_append)
  ultimately have "flights_inv ?s'" using assms(1) unfolding tasks_inv_def flights_inv_def by (simp add: s')
  moreover have inv: "inv (sy_world s)" using assms(1) by (simp add: tasks_inv_def)
  have old: "task_inv sha256 sj gateways past' ?s' (sy_tasks s ! i) (stages i)" if "i < ?n" for i
    using assms(1) that hears_same_flights [OF kept] knows_stable [OF own_effect_refl [OF inv] _ _ assms(2), of None "stages i"]
    by (simp add: tasks_inv_def task_inv_def s')
  have "task_inv sha256 sj gateways past' ?s' (sy_tasks ?s' ! i) ((stages(?n := Start)) i)" if "i < length (sy_tasks ?s')" for i
    using that old [of i] T by (cases "i = ?n") (simp_all add: s' nth_append)
  moreover have "owned ((stages(?n := Start)) b) \<noteq> Some key"
    if "a < length (sy_tasks ?s')" "b < length (sy_tasks ?s')" "a \<noteq> b" "owned ((stages(?n := Start)) a) = Some key" for a b key
  proof (cases "a = ?n \<or> b = ?n")
    case True
    then show ?thesis using that(4) by auto
  next
    case False
    then have "a < ?n" "b < ?n" using that(1,2) by (simp_all add: s')
    then show ?thesis using False assms(1) that(3,4) unfolding tasks_inv_def by (metis fun_upd_other)
  qed
  moreover have "inv (sy_world ?s')" using inv by (simp add: s')
  ultimately show ?thesis unfolding tasks_inv_def by blast
qed

lemma beside_inv:
  assumes "tasks_inv sha256 sj gateways past s stages" and "keeps (sy_world s) w" and "past \<le> past'"
  shows "tasks_inv sha256 sj gateways past' (s\<lparr>sy_world := w\<rparr>) stages" and "own_effect None (sy_world s) w"
proof -
  have inv: "inv (sy_world s)" using assms(1) by (simp add: tasks_inv_def)
  show effect: "own_effect None (sy_world s) w"
    using kept [OF assms(2) inv] kept_beside [OF assms(2) inv] by (intro own_effectI) simp_all
  have "answers_kept s (s\<lparr>sy_world := w\<rparr>)" by (simp add: answers_kept_def)
  note hears = hears_same_flights [OF this]
  show "tasks_inv sha256 sj gateways past' (s\<lparr>sy_world := w\<rparr>) stages"
    using assms(1) hears knows_stable [OF effect _ _ assms(3)] effect
    by (auto simp: tasks_inv_def task_inv_def flights_inv_def leads_def own_effect_def)
qed

text \<open>The invariant holds along every run; each step changes the map under one key at most.\<close>

lemma step_inv:
  assumes "in_service sha256 sj gateways" and "tasks_inv sha256 sj gateways (had (s # ss)) s stages"
    and "system_step sha256 sj gateways keeps s s'"
  shows "\<exists>stages own. tasks_inv sha256 sj gateways (had (s' # s # ss)) s' stages \<and> own_effect own (sy_world s) (sy_world s')
    \<and> (\<forall>key. own = Some key \<longrightarrow>
        (\<exists>task \<in> set (sy_tasks s'). asked sha256 sj (gateways (tk_gateway task)) (tk_request task) key))"
proof -
  have more: "had (s # ss) \<le> had (s' # s # ss)" for s' by (auto simp: had_def le_fun_def)
  have now: "\<forall>key bs. contents (sy_world s) key = Some bs \<longrightarrow> had (s # ss) key bs" by (auto simp: had_def)
  have here: "own_effect None (sy_world s) (sy_world s)" using assms(2) own_effect_refl by (simp add: tasks_inv_def)
  from assms(3) show ?thesis
  proof cases
    case step_turn
    then show ?thesis
    proof cases
      case (turn_resume i)
      obtain st where st: "tasks_inv sha256 sj gateways (had (s' # s # ss)) s' (stages(i := st))"
        "own_effect (owned st) (sy_world s) (sy_world s')"
        by (rule resume_inv [OF assms(1,2) turn_resume now more])
      have i: "i < length (sy_tasks s')"
        using turn_resume by (auto elim!: resume_fields)
      then have "task_inv sha256 sj gateways (had (s' # s # ss)) s' (sy_tasks s' ! i) st"
        using st(1) unfolding tasks_inv_def by (metis fun_upd_same)
      then show ?thesis using st i unfolding task_inv_def by (metis nth_mem)
    next
      case (turn_drop i)
      then show ?thesis using drop_inv [OF assms(2) turn_drop(2,3) more] here by (metis option.distinct(1))
    qed
  next
    case (step_arrive g micros request)
    have "sy_world s' = sy_world s" by (simp add: step_arrive arrive_def Let_def)
    then show ?thesis using arrive_inv [OF assms(2) more] here step_arrive by (metis option.distinct(1))
  next
    case (step_beside w)
    then show ?thesis using beside_inv [OF assms(2) step_beside(2) more] by auto
  qed
qed

lemma run_inv:
  assumes "in_service sha256 sj gateways" and "system_run sha256 sj gateways keeps w run" and "inv w" and "run = s # ss"
  shows "\<exists>stages. tasks_inv sha256 sj gateways (had run) s stages"
  using assms(2,4)
proof (induction arbitrary: s ss)
  case (run_start s0)
  then show ?case
    using assms(3) flights_ok_new by (auto simp: tasks_inv_def flights_inv_def leads_def singleflight_new_def)
next
  case (run_step s1 ss1 s2)
  then show ?case using step_inv [OF assms(1)] by blast
qed

section \<open>Conclusions\<close>

lemma run_safe: "in_service sha256 sj gateways \<Longrightarrow> system_run sha256 sj gateways keeps w (s # ss) \<Longrightarrow> inv w \<Longrightarrow> inv (sy_world s)"
  using run_inv by (fastforce simp: tasks_inv_def)

text \<open>The map changes under one key at a time, by a request for that key; an exact one only grows.\<close>

lemma run_changes:
  assumes "in_service sha256 sj gateways" and "system_run sha256 sj gateways keeps w (s' # s # ss)" and "inv w"
  shows "\<exists>own. (\<forall>key. own \<noteq> Some key \<longrightarrow> contents (sy_world s') key = contents (sy_world s) key)
    \<and> (exact \<longrightarrow> contents (sy_world s) \<subseteq>\<^sub>m contents (sy_world s'))
    \<and> (\<forall>key. own = Some key \<longrightarrow>
        (\<exists>task \<in> set (sy_tasks s'). asked sha256 sj (gateways (tk_gateway task)) (tk_request task) key))"
proof -
  from assms(2) have run: "system_run sha256 sj gateways keeps w (s # ss)" and step: "system_step sha256 sj gateways keeps s s'"
    by (auto elim: system_run.cases)
  obtain stages where "tasks_inv sha256 sj gateways (had (s # ss)) s stages" using run_inv [OF assms(1) run assms(3)] by blast
  from step_inv [OF assms(1) this step] show ?thesis unfolding own_effect_def by blast
qed

lemma run_grows:
  assumes "in_service sha256 sj gateways" and "inv w" and exact
    and "system_run sha256 sj gateways keeps w run" and "run = s # ss" and "s0 \<in> set run"
  shows "contents (sy_world s0) \<subseteq>\<^sub>m contents (sy_world s)"
  using assms(4-6)
proof (induction arbitrary: s ss)
  case (run_step s1 ss1 s2)
  have "contents (sy_world s1) \<subseteq>\<^sub>m contents (sy_world s2)"
    using run_changes [OF assms(1) system_run.run_step [OF run_step.hyps] assms(2)] assms(3) by blast
  then show ?case using run_step map_le_trans by fastforce
qed simp

text \<open>What the answers say.\<close>

lemma run_answer:
  assumes "in_service sha256 sj gateways" and "system_run sha256 sj gateways keeps w (s # ss)" and "inv w"
    and "task \<in> set (sy_tasks s)" and "task_result task = Some (Inr response)"
    and "mine = asked sha256 sj (gateways (tk_gateway task)) (tk_request task)"
  shows "header ''x-cache-status'' response = Some ''hit'' \<Longrightarrow>
      \<exists>key bs. mine key \<and> served sj bs response \<and> (\<exists>s0 \<in> set (s # ss). contents (sy_world s0) key = Some bs)"
    and "header ''x-cache-coalesced'' response = Some ''waiter'' \<Longrightarrow>
      \<exists>key answer leader. mine key \<and> leader \<in> set (sy_tasks s) \<and> tk_gateway leader = tk_gateway task
        \<and> asked sha256 sj (gateways (tk_gateway task)) (tk_request leader) key
        \<and> task_result leader = Some (Inr (with_cache_coalesced ''leader'' answer)) \<and> gr_body response = gr_body answer"
proof -
  obtain i where i: "i < length (sy_tasks s)" "sy_tasks s ! i = task" using assms(4) by (auto simp: in_set_conv_nth)
  obtain stages where "tasks_inv sha256 sj gateways (had (s # ss)) s stages" using run_inv [OF assms(1-3)] by blast
  then have inv: "task_inv sha256 sj gateways (had (s # ss)) s task (stages i)" using i by (auto simp: tasks_inv_def)
  have "tk_program task = Some (Return (Inr response))"
    using assms(5) by (simp add: task_result_eq)
  then have just: "justified sj mine (tk_leading task) (stages i) (Inr response)" using inv assms(6) by (auto simp: task_inv_def)
  show "\<exists>key bs. mine key \<and> served sj bs response \<and> (\<exists>s0 \<in> set (s # ss). contents (sy_world s0) key = Some bs)"
    if hit: "header ''x-cache-status'' response = Some ''hit''"
  proof -
    obtain key bs where "stages i = Got key bs" "mine key" "served sj bs response" using just hit by (auto simp: justified_def)
    moreover from this inv have "had (s # ss) key bs" by (simp add: task_inv_def)
    ultimately show ?thesis unfolding had_def by blast
  qed
  show "\<exists>key answer leader. mine key \<and> leader \<in> set (sy_tasks s) \<and> tk_gateway leader = tk_gateway task
      \<and> asked sha256 sj (gateways (tk_gateway task)) (tk_request leader) key
      \<and> task_result leader = Some (Inr (with_cache_coalesced ''leader'' answer)) \<and> gr_body response = gr_body answer"
    if waiter: "header ''x-cache-coalesced'' response = Some ''waiter''"
  proof -
    obtain key answer where key: "stages i = Heard key answer" "mine (flight_object key)" "gr_body response = gr_body answer"
      using just waiter by (auto simp: justified_def)
    then have "heard sha256 sj gateways s (tk_gateway task) key answer" using inv by (simp add: task_inv_def)
    then show ?thesis using key unfolding heard_def task_result_eq by blast
  qed
qed

lemma run_committed:
  assumes "in_service sha256 sj gateways" and "system_run sha256 sj gateways keeps w (s # ss)" and "inv w"
  obtains stored where "inj_on stored (committed_tasks s)"
    and "\<And>i response. i \<in> committed_tasks s \<Longrightarrow> task_result (sy_tasks s ! i) = Some (Inr response) \<Longrightarrow>
      asked sha256 sj (gateways (tk_gateway (sy_tasks s ! i))) (tk_request (sy_tasks s ! i)) (stored i)
      \<and> (\<exists>bs. payload sj response = Inr bs \<and> contents (sy_world s) (stored i) = Some bs)"
proof -
  obtain stages where stages: "tasks_inv sha256 sj gateways (had (s # ss)) s stages" using run_inv [OF assms] by blast
  have stored: "asked sha256 sj (gateways (tk_gateway (sy_tasks s ! i))) (tk_request (sy_tasks s ! i)) (the (owned (stages i)))
      \<and> (\<exists>bs. payload sj response = Inr bs \<and> contents (sy_world s) (the (owned (stages i))) = Some bs)
      \<and> owned (stages i) \<noteq> None"
    if i: "i \<in> committed_tasks s" and result: "task_result (sy_tasks s ! i) = Some (Inr response)" for i response
  proof -
    have inv: "task_inv sha256 sj gateways (had (s # ss)) s (sy_tasks s ! i) (stages i)"
      using i stages by (simp add: committed_tasks_def tasks_inv_def)
    have "tk_program (sy_tasks s ! i) = Some (Return (Inr response))"
      using result by (simp add: task_result_eq)
    then have "justified sj (asked sha256 sj (gateways (tk_gateway (sy_tasks s ! i))) (tk_request (sy_tasks s ! i)))
        (tk_leading (sy_tasks s ! i)) (stages i) (Inr response)"
      using inv by (auto simp: task_inv_def)
    moreover have "header ''x-cache-write'' response = Some ''committed''" using i result by (auto simp: committed_tasks_def)
    ultimately obtain key bs where "stages i = Stored key bs" "payload sj response = Inr bs"
      "asked sha256 sj (gateways (tk_gateway (sy_tasks s ! i))) (tk_request (sy_tasks s ! i)) key"
      by (auto simp: justified_def)
    then show ?thesis using inv by (simp add: task_inv_def)
  qed
  have "inj_on (\<lambda>i. the (owned (stages i))) (committed_tasks s)"
  proof (rule inj_onI, rule ccontr)
    fix i j
    assume ij: "i \<in> committed_tasks s" "j \<in> committed_tasks s" "the (owned (stages i)) = the (owned (stages j))" "i \<noteq> j"
    then have "owned (stages i) \<noteq> None" "owned (stages j) \<noteq> None" using stored unfolding committed_tasks_def by blast+
    then obtain key where "owned (stages i) = Some key" "owned (stages j) = Some key" using ij(3) by (metis option.exhaust_sel)
    moreover have "i < length (sy_tasks s)" "j < length (sy_tasks s)" using ij by (simp_all add: committed_tasks_def)
    ultimately show False using ij(4) stages unfolding tasks_inv_def by blast
  qed
  then show thesis using stored by (intro that) blast+
qed

text \<open>
  A request dropped between its reservation and its commit leaves the key reserved: nobody can
  store anything under it afterwards.
\<close>

lemma step_dropped:
  assumes "in_service sha256 sj gateways" and "tasks_inv sha256 sj gateways (had (s # ss)) s stages"
    and "system_step sha256 sj gateways keeps s s'"
    and "i < length (sy_tasks s)" and "tk_program (sy_tasks s ! i) = None" and "owned (stages i) = Some key"
  shows "\<exists>stages. tasks_inv sha256 sj gateways (had (s' # s # ss)) s' stages \<and> i < length (sy_tasks s')
    \<and> tk_program (sy_tasks s' ! i) = None \<and> owned (stages i) = Some key
    \<and> contents (sy_world s') key = contents (sy_world s) key"
proof -
  have more: "had (s # ss) \<le> had (s' # s # ss)" for s' by (auto simp: had_def le_fun_def)
  have now: "\<forall>key bs. contents (sy_world s) key = Some bs \<longrightarrow> had (s # ss) key bs" by (auto simp: had_def)
  from assms(3) show ?thesis
  proof cases
    case step_turn
    then show ?thesis
    proof cases
      case (turn_resume j)
      have j: "j \<noteq> i" using turn_resume(2) assms(5) by (auto simp: resume_def)
      obtain st where st: "tasks_inv sha256 sj gateways (had (s' # s # ss)) s' (stages(j := st))"
        "own_effect (owned st) (sy_world s) (sy_world s')"
        by (rule resume_inv [OF assms(1,2) turn_resume now more])
      obtain T where T: "sy_tasks s' = (sy_tasks s)[j := T]" by (rule resume_fields [OF turn_resume(2,1)])
      have "owned ((stages(j := st)) j) \<noteq> Some key"
        using st(1) assms(4,6) turn_resume(1) j T unfolding tasks_inv_def by (metis fun_upd_other length_list_update)
      then have "contents (sy_world s') key = contents (sy_world s) key" using st(2) by (simp add: own_effect_def)
      then show ?thesis using st(1) assms(4-6) j T by (intro exI [of _ "stages(j := st)"]) simp
    next
      case (turn_drop j)
      have j: "j \<noteq> i" using turn_drop(3) assms(5) by (auto simp: task_over_def)
      then show ?thesis
        using drop_inv [OF assms(2) turn_drop(2,3) more] assms(4-6)
        by (intro exI [of _ "stages(j := stages j)"]) (simp add: turn_drop(1) drop_task_tasks)
    qed
  next
    case (step_arrive g micros request)
    then show ?thesis
      using arrive_inv [OF assms(2) more, where g = g and micros = micros and request = request] assms(4-6)
      by (intro exI [of _ "stages(length (sy_tasks s) := Start)"]) (auto simp: arrive_def Let_def nth_append)
  next
    case (step_beside w)
    then show ?thesis
      using beside_inv [OF assms(2) step_beside(2) more] assms(4-6) by (intro exI [of _ stages]) (auto simp: own_effect_def)
  qed
qed

lemma run_dropped:
  assumes "in_service sha256 sj gateways" and "inv w" and "system_run sha256 sj gateways keeps w run"
    and "run = later @ drop_task i s # s # ss" and "i < length (sy_tasks s)"
    and "tk_program (sy_tasks s ! i) = Some p" and "being_written p = Some key"
  shows "\<exists>stages. tasks_inv sha256 sj gateways (had run) (hd run) stages \<and> i < length (sy_tasks (hd run))
    \<and> tk_program (sy_tasks (hd run) ! i) = None \<and> owned (stages i) = Some key \<and> contents (sy_world (hd run)) key = None"
  using assms(3,4)
proof (induction arbitrary: later)
  case (run_start s0)
  then show ?case by (cases later) auto
next
  case (run_step s1 ss1 s2)
  have more: "had (s1 # ss1) \<le> had (s2 # s1 # ss1)" by (auto simp: had_def le_fun_def)
  show ?case
  proof (cases later)
    case Nil
    then have s2: "s2 = drop_task i s" "s1 = s" "ss1 = ss" using run_step.prems by simp_all
    obtain stages where stages: "tasks_inv sha256 sj gateways (had (s # ss)) s stages"
      using run_inv [OF assms(1) run_step.hyps(1) assms(2)] s2 by blast
    then have "follows sj (asked sha256 sj (gateways (tk_gateway (sy_tasks s ! i))) (tk_request (sy_tasks s ! i))) p
        (tk_leading (sy_tasks s ! i)) (stages i)" "knows (had (s # ss)) (sy_world s) (stages i)"
      using assms(5,6) by (auto simp: tasks_inv_def task_inv_def)
    then have "owned (stages i) = Some key \<and> contents (sy_world s) key = None"
      using assms(7) by (cases p) auto
    moreover have "\<not> task_over (sy_tasks s ! i)" using assms(6,7) by (auto simp: task_not_over)
    note drop_inv [OF stages assms(5) this more [unfolded s2]]
    ultimately show ?thesis using assms(5) by (intro exI [of _ "stages(i := stages i)"]) (simp add: s2 drop_task_tasks)
  next
    case (Cons s3 later')
    then have run: "s1 # ss1 = later' @ drop_task i s # s # ss" using run_step.prems by simp
    then obtain stages where "tasks_inv sha256 sj gateways (had (s1 # ss1)) s1 stages" "i < length (sy_tasks s1)"
      "tk_program (sy_tasks s1 ! i) = None" "owned (stages i) = Some key" "contents (sy_world s1) key = None"
      using run_step.IH [OF run] unfolding list.sel by blast
    then show ?thesis using step_dropped [OF assms(1) _ run_step.hyps(2)] by fastforce
  qed
qed

lemma run_blocked:
  assumes "in_service sha256 sj gateways" and "inv w"
    and "system_run sha256 sj gateways keeps w (s' # later @ drop_task i s # s # ss)"
    and "i < length (sy_tasks s)" and "tk_program (sy_tasks s ! i) = Some p" and "being_written p = Some key"
  shows "contents (sy_world s') key = None"
  using run_dropped [OF assms(1-3) _ assms(4-6), of "s' # later"] by auto

text \<open>No request is stuck: a waiter waits for a leader that can go on.\<close>

lemma run_progress:
  assumes "in_service sha256 sj gateways" and "system_run sha256 sj gateways keeps w (s # ss)" and "inv w"
    and "i < length (sy_tasks s)" and "\<not> task_over (sy_tasks s ! i)"
  shows "\<exists>j < length (sy_tasks s). \<exists>s'. resume gateways j s = Some s'"
proof -
  obtain stages where stages: "tasks_inv sha256 sj gateways (had (s # ss)) s stages" using run_inv [OF assms(1-3)] by blast
  have go: "\<exists>s'. resume gateways j s = Some s'"
    if "tk_program (sy_tasks s ! j) = Some p" "\<And>a. p \<noteq> Return a"
      and "\<And>ch c. p = Wait ch c \<Longrightarrow> sf_wait ch (sy_flights s (tk_gateway (sy_tasks s ! j))) \<noteq> None" for j p
    using that program_step_None [of "gateways (tk_gateway (sy_tasks s ! j))" p "gateway_view (tk_gateway (sy_tasks s ! j)) s"]
    by (auto simp: resume_def Let_def gateway_view_def split: option.splits prod.splits)
  obtain p where p: "tk_program (sy_tasks s ! i) = Some p" "\<And>a. p \<noteq> Return a"
    using assms(5) unfolding task_not_over by blast
  show ?thesis
  proof (cases "\<exists>ch c. p = Wait ch c \<and> sf_wait ch (sy_flights s (tk_gateway (sy_tasks s ! i))) = None")
    case False
    then have "\<exists>s'. resume gateways i s = Some s'" by (intro go [OF p]) auto
    then show ?thesis using assms(4) by blast
  next
    case True
    let ?g = "tk_gateway (sy_tasks s ! i)"
    obtain ch c where wait: "p = Wait ch c" "sf_wait ch (sy_flights s ?g) = None" using True by blast
    have inv: "task_inv sha256 sj gateways (had (s # ss)) s (sy_tasks s ! i) (stages i)" "flights_inv s"
      using stages assms(4) by (simp_all add: tasks_inv_def)
    obtain key where "stages i = Listening key ch" using inv(1) p(1) wait(1) by (auto simp: task_inv_def)
    then have "listening sha256 sj gateways s ?g key ch" using inv(1) by (simp add: task_inv_def)
    moreover have "sf_channels (sy_flights s ?g) ! ch = Open" using wait(2) by (simp add: sf_wait_def split: channel.splits)
    ultimately have "hm_get (sf_inner (sy_flights s ?g)) key \<noteq> None" by (auto simp: listening_def)
    then obtain j where lead: "leads s ?g key j" using inv(2) unfolding flights_inv_def by blast
    then have j: "j < length (sy_tasks s)" "tk_leading (sy_tasks s ! j) = Some key" by (simp_all add: leads_def)
    obtain q where q: "tk_program (sy_tasks s ! j) = Some q" using lead inv(2) unfolding flights_inv_def by blast
    have "follows sj (asked sha256 sj (gateways (tk_gateway (sy_tasks s ! j))) (tk_request (sy_tasks s ! j))) q (Some key) (stages j)"
      using stages j q by (auto simp: tasks_inv_def task_inv_def)
    then have "\<And>a. q \<noteq> Return a" "\<And>ch c. q \<noteq> Wait ch c" by (auto simp: justified_def)
    then have "\<exists>s'. resume gateways j s = Some s'" by (intro go [OF q]) blast+
    then show ?thesis using j(1) by blast
  qed
qed

end

end
