(* ===== verification/Concurrent_Local.thy ===== *)
theory Concurrent_Local
imports Concurrent Local_Cache
begin

text \<open>
  The local clients are a shared cache: the calls of one request on the master and on the memory
  store leave the reservations and the readable objects of the others alone.
\<close>

declare split_paired_All [simp del] split_paired_Ex [simp del]

section \<open>What the calls leave of the object table\<close>

definition reserved_object :: "master_state \<Rightarrow> object_key \<Rightarrow> replica_descriptor \<Rightarrow> bool" where
  "reserved_object m key r \<longleftrightarrow>
     (\<exists>obj. hm_get (objects m) key = Some obj \<and> obj_status obj = Reserving \<and> obj_replicas obj = [r])"

definition settled_object :: "master_state \<Rightarrow> object_key \<Rightarrow> replica_descriptor \<Rightarrow> bool" where
  "settled_object m key r \<longleftrightarrow>
     (\<exists>obj rs. hm_get (objects m) key = Some obj \<and> obj_status obj \<in> {Committed, Revoked} \<and> obj_replicas obj = r # rs)"

text \<open>
  Objects stay in the table with their replicas, those of other keys also with their status, and
  what was committed or revoked does not become a reservation again.
\<close>

definition objects_kept :: "object_key option \<Rightarrow> master_state \<Rightarrow> master_state \<Rightarrow> bool" where
  "objects_kept own m m' \<longleftrightarrow>
     (\<forall>key obj. hm_get (objects m) key = Some obj \<longrightarrow>
        (\<exists>obj'. hm_get (objects m') key = Some obj' \<and> obj_replicas obj' = obj_replicas obj
           \<and> (own \<noteq> Some key \<longrightarrow> obj_status obj' = obj_status obj)
           \<and> (obj_status obj \<in> {Committed, Revoked} \<longrightarrow> obj_status obj' \<in> {Committed, Revoked})))"

lemma objects_kept_refl: "objects m' = objects m \<Longrightarrow> objects_kept own m m'"
  by (simp add: objects_kept_def)

lemma lookup_objects: "get_replica_list now t k m = (x, m') \<Longrightarrow> objects m' = objects m"
  by (auto simp: get_replica_list_def lease_refresh_def Let_def split: option.splits if_splits)

lemma objects_kept_start:
  assumes "cache_master m" and "put_start t k len replica_count m = (res, m')"
  shows "objects_kept None m m'" and "res = Inr rs \<Longrightarrow> hm_get (objects m) (t, k) = None \<and> hm_get (objects m') (t, k) \<noteq> None"
proof -
  have "objects_kept None m m'
    \<and> (\<forall>rs. res = Inr rs \<longrightarrow> hm_get (objects m) (t, k) = None \<and> hm_get (objects m') (t, k) \<noteq> None)"
  proof (cases res)
    case (Inl e)
    then have "m' = m" using cache_start_refused [OF assms(1)] assms(2) by blast
    then show ?thesis using Inl by (simp add: objects_kept_refl)
  next
    case (Inr rs)
    obtain obj where "hm_get (objects m) (t, k) = None"
      and "\<And>key. hm_get (objects m') key = (if key = (t, k) then Some obj else hm_get (objects m) key)"
      using cache_start_granted [OF assms(1) assms(2) [unfolded Inr]] by metis
    then show ?thesis by (auto simp: objects_kept_def)
  qed
  then show "objects_kept None m m'" and "res = Inr rs \<Longrightarrow> hm_get (objects m) (t, k) = None \<and> hm_get (objects m') (t, k) \<noteq> None"
    by blast+
qed

lemma objects_kept_end:
  assumes "cache_master m" and "reserved_object m (t, k) r" and "put_end t k m = (res, m')"
  shows "objects_kept (Some (t, k)) m m'"
proof (cases res)
  case (Inl e)
  then have "m' = m" using put_end_Inl assms(3) by blast
  then show ?thesis by (simp add: objects_kept_refl)
next
  case (Inr u)
  obtain obj where obj: "hm_get (objects m) (t, k) = Some obj" using assms(2) by (auto simp: reserved_object_def)
  show ?thesis
    using obj cache_committed(2) [OF assms(1) obj assms(3) [unfolded Inr]] by (auto simp: objects_kept_def)
qed

lemma objects_kept_revoke:
  assumes "cache_master m" and "hm_get (objects m) (t, k) \<noteq> None" and "put_revoke t k m = (res, m')"
  shows "objects_kept (Some (t, k)) m m'"
proof -
  obtain obj where obj: "hm_get (objects m) (t, k) = Some obj" using assms(2) by auto
  show ?thesis using obj cache_revoked(2) [OF assms(1) obj assms(3)] by (auto simp: objects_kept_def)
qed

text \<open>The interface, for a cache whose stages are those of the objects and of what a store holds.\<close>

lemma undisturbed_objects:
  assumes "objects_kept own (m w) (m w')"
    and "\<And>key r bs. own \<noteq> Some key \<and> reserved_object (m w) key r \<or> settled_object (m w) key r \<Longrightarrow> holds w key r bs \<Longrightarrow> holds w' key r bs"
  shows "undisturbed (\<lambda>w. reserved_object (m w)) (\<lambda>w key r bs. reserved_object (m w) key r \<and> holds w key r bs)
    (\<lambda>w key. hm_get (objects (m w)) key \<noteq> None) (\<lambda>w key r bs. settled_object (m w) key r \<and> holds w key r bs) own w w'"
proof -
  have "reserved_object (m w') key r" if "own \<noteq> Some key" "reserved_object (m w) key r" for key r
    using assms(1) that unfolding objects_kept_def reserved_object_def by metis
  moreover have "settled_object (m w') key r" if "settled_object (m w) key r" for key r
    using assms(1) that unfolding objects_kept_def settled_object_def by metis
  moreover have "hm_get (objects (m w')) key \<noteq> None" if "hm_get (objects (m w)) key \<noteq> None" for key
    using assms(1) that unfolding objects_kept_def by fastforce
  ultimately show ?thesis using assms(2) unfolding undisturbed_def by blast
qed

section \<open>The local clients\<close>

definition local_readable ::
  "(bytes \<Rightarrow> bytes) \<Rightarrow> ('x local_world_scheme) \<Rightarrow> object_key \<Rightarrow> replica_descriptor \<Rightarrow> bytes \<Rightarrow> bool" where
  "local_readable sha256 w key r bs \<longleftrightarrow>
     settled_object (lw_master w) key r \<and> read_chunk sha256 (replica_handle r) (lw_store w) = Inr bs"

definition local_claimed :: "('x local_world_scheme) \<Rightarrow> object_key \<Rightarrow> bool" where
  "local_claimed w key \<longleftrightarrow> hm_get (objects (lw_master w)) key \<noteq> None"

lemma local_undisturbed:
  assumes "objects_kept own (lw_master w) (lw_master w')"
    and "\<And>key r bs. own \<noteq> Some key \<and> reserved_object (lw_master w) key r \<or> settled_object (lw_master w) key r \<Longrightarrow>
      read_chunk sha256 (replica_handle r) (lw_store w) = Inr bs \<Longrightarrow> read_chunk sha256 (replica_handle r) (lw_store w') = Inr bs"
  shows "undisturbed local_pending (local_filled sha256) local_claimed (local_readable sha256) own w w'"
proof -
  have defs: "local_pending = (\<lambda>w. reserved_object (lw_master w))"
    "local_filled sha256 = (\<lambda>w key r bs. reserved_object (lw_master w) key r \<and> read_chunk sha256 (replica_handle r) (lw_store w) = Inr bs)"
    "local_claimed = (\<lambda>w key. hm_get (objects (lw_master w)) key \<noteq> None)"
    "local_readable sha256 = (\<lambda>w key r bs. settled_object (lw_master w) key r \<and> read_chunk sha256 (replica_handle r) (lw_store w) = Inr bs)"
    by (simp_all add: fun_eq_iff local_pending_def local_filled_def local_claimed_def local_readable_def reserved_object_def)
  show ?thesis
    unfolding defs
    by (rule undisturbed_objects [where holds = "\<lambda>w key r bs. read_chunk sha256 (replica_handle r) (lw_store w) = Inr bs",
          OF assms(1)]) (rule assms(2))
qed

text \<open>A write to a reserved replica is beside every other object.\<close>

lemma local_write_undisturbed:
  assumes "local_inv sha256 w" and "local_pending w (t, k) r" and "length bs \<le> u64_max"
    and "write_preallocated_chunk sha256 (replica_handle r) bs (lw_store w) = (res, st')"
  shows "undisturbed local_pending (local_filled sha256) local_claimed (local_readable sha256) (Some (t, k)) w (w\<lparr>lw_store := st'\<rparr>)"
proof (rule local_undisturbed)
  show "objects_kept (Some (t, k)) (lw_master w) (lw_master (w\<lparr>lw_store := st'\<rparr>))" by (simp add: objects_kept_refl)
  fix key r' bs'
  assume other: "Some (t, k) \<noteq> Some key \<and> reserved_object (lw_master w) key r' \<or> settled_object (lw_master w) key r'"
    and read: "read_chunk sha256 (replica_handle r') (lw_store w) = Inr bs'"
  have ok: "cache_master (lw_master w)" "memory_inv (lw_store w)" using assms(1) by (simp_all add: local_inv_def)
  obtain obj where obj: "hm_get (objects (lw_master w)) (t, k) = Some obj" "obj_status obj = Reserving" "obj_replicas obj = [r]"
    using assms(2) by (auto simp: local_pending_def)
  have apart: "key \<noteq> (t, k)" using other obj by (auto simp: settled_object_def)
  obtain obj' where obj': "hm_get (objects (lw_master w)) key = Some obj'" "r' \<in> set (obj_replicas obj')"
    using other by (auto simp: reserved_object_def settled_object_def)
  have "chunk_disjoint (replica_handle r) (replica_handle r')"
    using cache_chunks_disjoint [OF ok(1) obj(1) obj'(1) _ _ obj'(2)] apart obj(3) by auto
  moreover have "object_ok key obj'" using ok(1) obj'(1) by (auto simp: cache_master_def master_inv_def)
  then have "0 < unat (ch_len (replica_handle r'))" using obj'(2) by (auto simp: object_ok_def replica_handle_def)
  ultimately have "read_chunk sha256 (replica_handle r') (snd (write_preallocated_chunk sha256 (replica_handle r) bs (lw_store w)))
      = read_chunk sha256 (replica_handle r') (lw_store w)"
    using pre.read_beside [OF ok(2) assms(3)] by blast
  then show "read_chunk sha256 (replica_handle r') (lw_store (w\<lparr>lw_store := st'\<rparr>)) = Inr bs'" using read assms(4) by simp
qed

text \<open>A call on the master leaves the store as it is, so the object table decides.\<close>

lemma local_master_undisturbed:
  "objects_kept own (lw_master w) m' \<Longrightarrow>
   undisturbed local_pending (local_filled sha256) local_claimed (local_readable sha256) own w (w\<lparr>lw_master := m'\<rparr>)"
  by (rule local_undisturbed) simp_all

lemma local_found:
  assumes "local_inv sha256 w" and "mc_get_replica_list local_master_client t k w = (found, w')"
  shows "undisturbed local_pending (local_filled sha256) local_claimed (local_readable sha256) None w w'"
    and "found = Inr rl \<Longrightarrow> rl_replicas rl = r # rs \<Longrightarrow>
      \<exists>bs. local_contents sha256 w (t, k) = Some bs \<and> local_readable sha256 w' (t, k) r bs"
proof -
  have ok: "cache_master (lw_master w)" using assms(1) by (simp add: local_inv_def)
  obtain x m' where get: "get_replica_list (lw_now w) t k (lw_master w) = (x, m')"
    and w': "w' = w\<lparr>lw_master := m'\<rparr>" "found = map_err GeCache x"
    using assms(2) by (auto simp: local_master_client_def elim!: local_master_run)
  have "objects m' = objects (lw_master w) \<and> (\<forall>rl. x = Inr rl \<longrightarrow>
      (\<exists>obj. hm_get (objects m') (t, k) = Some obj \<and> obj_status obj = Committed \<and> obj_replicas obj = rl_replicas rl))"
  proof (cases "\<exists>obj. hm_get (objects (lw_master w)) (t, k) = Some obj \<and> obj_status obj = Committed")
    case True
    then obtain obj where obj: "hm_get (objects (lw_master w)) (t, k) = Some obj" "obj_status obj = Committed" by blast
    show ?thesis by (rule cache_get_present [OF ok obj, of "lw_now w"]) (use get obj in auto)
  next
    case False
    then show ?thesis using cache_get_absent [of "lw_master w" t k "lw_now w"] get by auto
  qed
  note m' = this
  show "undisturbed local_pending (local_filled sha256) local_claimed (local_readable sha256) None w w'"
    unfolding w' by (rule local_master_undisturbed) (simp add: m' objects_kept_refl)
  assume rl: "found = Inr rl" "rl_replicas rl = r # rs"
  have "settled_object m' (t, k) r" using m' rl w' by (auto simp: settled_object_def)
  then show "\<exists>bs. local_contents sha256 w (t, k) = Some bs \<and> local_readable sha256 w' (t, k) r bs"
    using local_lookup [OF assms] rl
    by (fastforce simp: w' local_readable_def local_read_chunk_def split: sum.splits)
qed

interpretation local_shared: shared_cache local_master_client "local_store_client sha256" "local_inv sha256"
  "local_contents sha256" local_pending "local_filled sha256" "\<lambda>_. True" True local_keeps local_claimed "local_readable sha256" for sha256
proof (unfold_locales, goal_cases)
  case (1 w t k found w')
  then show ?case using local_found [OF 1(1,3)] by blast
next
  case (2 w t k r bs h got w')
  then have w': "w' = w" "got = Inr \<lparr>sch_bytes = bs, sch_tier = ''dram''\<rparr>"
    by (auto simp: local_store_client_def local_read_chunk_def local_readable_def from_replica_handle)
  then show ?case using 2(1) by (simp add: local_undisturbed objects_kept_refl)
next
  case (3 w t k len started w')
  then obtain x m' where start: "put_start t k len replica_count (lw_master w) = (x, m')"
    and w': "w' = w\<lparr>lw_master := m'\<rparr>" "started = map_err GeCache x"
    by (auto simp: local_client_defs elim!: local_master_run)
  have "cache_master (lw_master w)" using 3(1) by (simp add: local_inv_def)
  note kept = objects_kept_start [OF this start]
  then show ?case using local_master_undisturbed [OF kept(1)] by (auto simp: w' local_claimed_def)
next
  case (4 w t k r h bs ended w')
  then obtain x st' where put: "write_preallocated_chunk sha256 (replica_handle r) bs (lw_store w) = (x, st')"
    and w': "w' = w\<lparr>lw_store := st'\<rparr>"
    by (auto simp: local_client_defs local_write_preallocated_chunk_def from_replica_handle split: prod.splits)
  show ?case unfolding w' by (rule local_write_undisturbed [OF 4(1,3,5) put])
next
  case (5 w t k r bs ended w')
  then obtain x m' where fin: "put_end t k (lw_master w) = (x, m')" and w': "w' = w\<lparr>lw_master := m'\<rparr>"
    by (auto simp: local_client_defs elim!: local_master_run)
  have "cache_master (lw_master w)" "reserved_object (lw_master w) (t, k) r"
    using 5(1,3) by (simp_all add: local_inv_def local_filled_def local_pending_def reserved_object_def)
  from objects_kept_end [OF this fin] show ?case unfolding w' by (rule local_master_undisturbed)
next
  case (6 w t k ended w')
  then obtain x m' where fin: "put_revoke t k (lw_master w) = (x, m')" and w': "w' = w\<lparr>lw_master := m'\<rparr>"
    by (auto simp: local_client_defs elim!: local_master_run)
  have "cache_master (lw_master w)" "hm_get (objects (lw_master w)) (t, k) \<noteq> None"
    using 6(1,3) by (simp_all add: local_inv_def local_claimed_def)
  from objects_kept_revoke [OF this fin] show ?case unfolding w' by (rule local_master_undisturbed)
next
  case (7 w w')
  then show ?case by (intro local_undisturbed) (simp_all add: local_keeps_def objects_kept_refl)
qed


end
