(* ===== verification/Concurrent_Cluster.thy ===== *)
theory Concurrent_Cluster
imports Concurrent_Local Deployment
begin

text \<open>
  Several gateways in front of one cluster, each with any number of requests in flight: the
  cluster is a shared cache, so what \<open>Concurrent\<close> shows of every interleaving holds of the
  deployed system.
\<close>

declare split_paired_All [simp del] split_paired_Ex [simp del]

section \<open>The cluster is shared\<close>

definition cluster_claimed :: "('m, 'x) cluster_scheme \<Rightarrow> object_key \<Rightarrow> bool" where
  "cluster_claimed w key \<longleftrightarrow> hm_get (objects (mr_master (cl_run w))) key \<noteq> None"

definition cluster_readable ::
  "'m site \<Rightarrow> ssd_store \<Rightarrow> ('m, 'x) cluster_scheme \<Rightarrow> object_key \<Rightarrow> replica_descriptor \<Rightarrow> bytes \<Rightarrow> bool" where
  "cluster_readable site ssd w key r bs \<longleftrightarrow> settled_object (mr_master (cl_run w)) key r \<and> held site ssd w key r bs"

abbreviation cluster_undisturbed ::
  "'m site \<Rightarrow> ssd_store \<Rightarrow> object_key option \<Rightarrow> ('m, 'x) cluster_scheme \<Rightarrow> ('m, 'x) cluster_scheme \<Rightarrow> bool" where
  "cluster_undisturbed site ssd \<equiv> undisturbed cluster_pending (cluster_filled site ssd) cluster_claimed (cluster_readable site ssd)"

lemma cluster_undisturbed:
  assumes "objects_kept own (mr_master (cl_run w)) (mr_master (cl_run w'))"
    and "\<And>key r bs. own \<noteq> Some key \<and> reserved_object (mr_master (cl_run w)) key r \<or> settled_object (mr_master (cl_run w)) key r \<Longrightarrow>
      held site ssd w key r bs \<Longrightarrow> held site ssd w' key r bs"
  shows "cluster_undisturbed site ssd own w w'"
proof -
  have defs: "cluster_pending = (\<lambda>w. reserved_object (mr_master (cl_run w)))"
    "cluster_filled site ssd = (\<lambda>w key r bs. reserved_object (mr_master (cl_run w)) key r \<and> held site ssd w key r bs)"
    "cluster_claimed = (\<lambda>w key. hm_get (objects (mr_master (cl_run w))) key \<noteq> None)"
    "cluster_readable site ssd = (\<lambda>w key r bs. settled_object (mr_master (cl_run w)) key r \<and> held site ssd w key r bs)"
    by (simp_all add: fun_eq_iff cluster_pending_def cluster_filled_def cluster_claimed_def cluster_readable_def reserved_object_def)
  show ?thesis unfolding defs by (rule undisturbed_objects [where holds = "held site ssd", OF assms(1)]) (rule assms(2))
qed

text \<open>A call on the master leaves the node alone, and a call on the node leaves the master alone.\<close>

lemma cluster_master_undisturbed:
  "objects_kept own (mr_master (cl_run w)) (mr_master (cl_run w')) \<Longrightarrow> cl_machine w' = cl_machine w \<Longrightarrow>
   cluster_undisturbed site ssd own w w'"
  using held_machine(2) by (intro cluster_undisturbed) blast+

lemma cluster_node_undisturbed:
  assumes "mr_master (cl_run w') = mr_master (cl_run w)" and "holds_kept site ssd own w w'"
    and "\<And>key. own = Some key \<Longrightarrow> \<exists>r. reserved_object (mr_master (cl_run w)) key r"
  shows "cluster_undisturbed site ssd own w w'"
proof (rule cluster_undisturbed)
  show "objects_kept own (mr_master (cl_run w)) (mr_master (cl_run w'))" by (simp add: assms(1) objects_kept_refl)
  fix key r bs
  assume other: "own \<noteq> Some key \<and> reserved_object (mr_master (cl_run w)) key r \<or> settled_object (mr_master (cl_run w)) key r"
  then have "own \<noteq> Some key" using assms(3) [of key] by (auto simp: reserved_object_def settled_object_def)
  moreover obtain obj rs where "hm_get (objects (mr_master (cl_run w))) key = Some obj" "obj_replicas obj = r # rs"
    using other by (auto simp: reserved_object_def settled_object_def)
  ultimately show "held site ssd w key r bs \<Longrightarrow> held site ssd w' key r bs" using assms(2) unfolding holds_kept_def by blast
qed

lemma cluster_found:
  assumes "site_inv exact site ssd c w" and "url_key (t, k)"
    and "mc_get_replica_list (cluster_master site) t k w = (found, w')"
  shows "cluster_undisturbed site ssd None w w'"
    and "found = Inr rl \<Longrightarrow> rl_replicas rl = r # rs \<Longrightarrow>
      \<exists>bs. cluster_contents site ssd w (t, k) = Some bs \<and> cluster_readable site ssd w' (t, k) r bs"
proof -
  let ?m = "mr_master (cl_run w)"
  have ok: "site_ok exact site" "cache_master ?m" using assms(1) by (simp_all add: cluster_inv_def)
  obtain x m' where get: "get_replica_list (ce_now (cs_oracle site (cl_tick w))) t k ?m = (x, m')" by fastforce
  note looked = cluster_looked_up [OF ok(1) assms(2,3) get]
  have "objects m' = objects ?m" using lookup_objects [OF get] .
  then show "cluster_undisturbed site ssd None w w'"
    using looked(1) by (intro cluster_master_undisturbed objects_kept_refl) auto
  note found = cluster_lookup [OF assms]
  assume rl: "found = Inr rl" "rl_replicas rl = r # rs"
  obtain obj where obj: "hm_get (objects (mr_master (cl_run w'))) (t, k) = Some obj" "obj_status obj = Committed"
    "obj_replicas obj = r # rs"
    using found(2) rl by auto
  have "cluster_inv site ssd c w'" using found(1) by simp
  then obtain bs where "held site ssd w' (t, k) r bs" "cluster_contents site ssd w' (t, k) = Some bs"
    by (rule cluster_committed [OF _ obj(1,2)]) (use obj(3) in auto)
  then show "\<exists>bs. cluster_contents site ssd w (t, k) = Some bs \<and> cluster_readable site ssd w' (t, k) r bs"
    using found(1) obj by (auto simp: cluster_readable_def settled_object_def)
qed

lemma cluster_readable_read:
  assumes "site_inv exact site ssd c w" and "url_key (t, k)" and "cluster_readable site ssd w (t, k) r bs"
    and "sc_read_chunk (cluster_store site node_id) t k (replica_handle r) w = (got, w')"
  shows "site_inv exact site ssd c w' \<and> cluster_contents site ssd w' = cluster_contents site ssd w
    \<and> cluster_undisturbed site ssd None w w' \<and> (\<forall>chunk. got = Inr chunk \<longrightarrow> sch_bytes chunk = bs)"
proof -
  have ok: "site_ok exact site" "cluster_inv site ssd c w" using assms(1) by simp_all
  obtain obj rs where obj: "hm_get (objects (mr_master (cl_run w))) (t, k) = Some obj" "obj_replicas obj = r # rs"
    and bs: "held site ssd w (t, k) r bs"
    using assms(3) by (auto simp: cluster_readable_def settled_object_def)
  obtain result m where node: "node_read_chunk (cs_sha256 site) (cs_cipher site) (ce_read_error (cs_oracle site (cl_tick w)))
      (replica_handle r) (Some (tenant_as_str t)) (Some (key_as_str k)) (cl_machine w) = (result, m)" by fastforce
  note read = cluster_read [OF ok(1) assms(2) node assms(4)]
  note held = held_read [OF ok(2) obj bs node]
  have run: "mr_master (cl_run w') = mr_master (cl_run w)" using read(1) by simp
  have "cluster_inv site ssd c w' \<and> cluster_contents site ssd w' = cluster_contents site ssd w \<and> holds_kept site ssd None w w'"
    using read(1) held(3) [of w'] cluster_same [of w' w] holds_kept_machine [of w' w] ok(2) run by auto
  moreover from this have "cluster_undisturbed site ssd None w w'" using run by (intro cluster_node_undisturbed) simp_all
  ultimately show ?thesis using read(2) held(2) ok(1) by auto
qed

lemma cluster_started:
  assumes "site_inv exact site ssd c w" and "url_key (t, k)"
    and "mc_put_start (cluster_master site) t k len replica_count w = (started, w')"
  shows "cluster_undisturbed site ssd None w w'
    \<and> (\<forall>rs. started = Inr rs \<longrightarrow> \<not> cluster_claimed w (t, k) \<and> cluster_claimed w' (t, k))"
proof -
  have ok: "site_ok exact site" "cache_master (mr_master (cl_run w))" using assms(1) by (simp_all add: cluster_inv_def)
  note kept = objects_kept_start [OF ok(2)]
  from ok(1) assms(2,3) show ?thesis
  proof (cases rule: cluster_start)
    case lost
    then show ?thesis by (simp add: cluster_master_undisturbed objects_kept_refl)
  next
    case refused
    then show ?thesis using kept(1) [OF refused(2)] by (simp add: cluster_master_undisturbed)
  next
    case unsure
    then show ?thesis using kept(1) [OF unsure(2)] by (simp add: cluster_master_undisturbed)
  next
    case changed
    then show ?thesis using kept [OF changed(2)] by (auto simp: cluster_master_undisturbed cluster_claimed_def)
  qed
qed

lemma cluster_ended:
  assumes "site_inv exact site ssd c w" and "url_key (t, k)" and "cluster_pending w (t, k) r"
    and "mc_put_end (cluster_master site) t k w = (ended, w')"
  shows "cluster_undisturbed site ssd (Some (t, k)) w w'"
proof -
  have ok: "site_ok exact site" "cache_master (mr_master (cl_run w))" "reserved_object (mr_master (cl_run w)) (t, k) r"
    using assms(1,3) by (simp_all add: cluster_inv_def cluster_pending_def reserved_object_def)
  note kept = objects_kept_end [OF ok(2,3)]
  from ok(1) assms(2,4) show ?thesis
    by (cases rule: cluster_end) (simp_all add: cluster_master_undisturbed objects_kept_refl kept)
qed

lemma cluster_withdrawn:
  assumes "site_inv exact site ssd c w" and "url_key (t, k)" and "cluster_claimed w (t, k)"
    and "mc_put_revoke (cluster_master site) t k w = (ended, w')"
  shows "cluster_undisturbed site ssd (Some (t, k)) w w'"
proof -
  have ok: "site_ok exact site" "cache_master (mr_master (cl_run w))" using assms(1) by (simp_all add: cluster_inv_def)
  note call = cluster_revoke [OF ok(1) assms(2,4)]
  have "hm_get (objects (mr_master (cl_run w))) (t, k) \<noteq> None" using assms(3) by (simp add: cluster_claimed_def)
  note kept = objects_kept_revoke [OF ok(2) this surjective_pairing]
  show ?thesis using call kept by (intro cluster_master_undisturbed) (auto simp: objects_kept_refl)
qed

lemma cluster_write_beside:
  assumes "site_inv exact site ssd c w" and "cluster_pending w (t, k) r" and "length bs \<le> u64_max"
    and "sc_write_preallocated_chunk (cluster_store site node_id) n t k (replica_handle r) bs w = (res, w')"
  shows "cluster_undisturbed site ssd (Some (t, k)) w w'"
proof -
  have ok: "site_ok exact site" "cluster_inv site ssd c w" using assms(1) by simp_all
  have own: "\<exists>r. reserved_object (mr_master (cl_run w)) (t, k) r"
    using assms(2) by (auto simp: cluster_pending_def reserved_object_def)
  from ok(1) assms(4) show ?thesis
  proof (cases rule: cluster_write)
    case lost
    then show ?thesis by (simp add: cluster_master_undisturbed objects_kept_refl)
  next
    case (tried x)
    show ?thesis
      using pending_written(3) [OF ok assms(2,3) tried(1,4)] tried(4) own by (intro cluster_node_undisturbed) simp_all
  qed
qed

interpretation cluster_shared: shared_cache "cluster_master site" "cluster_store site node_id" "site_inv exact site ssd c"
  "cluster_contents site ssd" cluster_pending "cluster_filled site ssd" url_key exact "cluster_keeps ssd c"
  cluster_claimed "cluster_readable site ssd"
  for site node_id exact ssd c
proof (unfold_locales, goal_cases)
  case (1 w t k found w')
  then show ?case using cluster_found [OF 1] by blast
next
  case (2 w t k r bs h got w')
  then show ?case using cluster_readable_read [of exact site ssd c w t k r bs node_id got w'] by (simp add: from_replica_handle)
next
  case 3
  then show ?case by (rule cluster_started)
next
  case 4
  then show ?case using cluster_write_beside [OF 4(1,3,5)] by (simp add: from_replica_handle)
next
  case (5 w t k r bs ended w')
  then show ?case using cluster_ended [OF 5(1,2) _ 5(4)] by (auto simp: cluster_filled_def)
next
  case 6
  then show ?case by (rule cluster_withdrawn)
next
  case (7 w w')
  then have "holds_kept site ssd None w w'"
    using restart_keeps [of site ssd c w w'] holds_kept_machine [of w' w] unfolding cluster_keeps_def holds_kept_def by blast
  then show ?case using 7(1) by (intro cluster_node_undisturbed) (simp_all add: cluster_keeps_def)
qed

section \<open>Gateways in front of the cluster\<close>

text \<open>
  Gateway processes that started from configurations which name the site. The vendor's answers
  are arbitrary; while a gateway waits for one the node may restart.
\<close>

definition fleet ::
  "'m site \<Rightarrow> string \<Rightarrow> ssd_store \<Rightarrow> usize \<Rightarrow> (nat \<Rightarrow> ('m, 'x) cluster_scheme gateway_startup) \<Rightarrow> (nat \<Rightarrow> gateway_app_config)
   \<Rightarrow> (nat \<Rightarrow> ('m, 'x) cluster_scheme gateway_state) \<Rightarrow> bool" where
  "fleet site node_id ssd dram_capacity io configs gateways \<longleftrightarrow>
     (\<forall>g. build_gateway_state_from_config (io g) (configs g) = Inr (gateways g) \<and> configured site node_id (io g) (configs g)
        \<and> (\<forall>call w. cluster_keeps ssd dram_capacity w (snd (st_send (io g) call w))) \<and> tenants_url_safe (gateways g))"

lemma fleet_in_service:
  assumes "fleet site node_id ssd c io configs gateways" and "serde_bounded sj"
  shows "cluster_shared.in_service site node_id ssd c sha256 sj gateways"
proof -
  have g: "build_gateway_state_from_config (io g) (configs g) = Inr (gateways g)" "configured site node_id (io g) (configs g)"
    "\<And>call w. cluster_keeps ssd c w (snd (st_send (io g) call w))" "tenants_url_safe (gateways g)" for g
    using assms(1) by (simp_all add: fleet_def)
  have "vendor_keeps (cluster_keeps ssd c) (gs_vendor (gateways g))" for g
  proof -
    obtain adapter where "gs_vendor (gateways g) = openai_vendor (st_send (io g)) adapter" by (rule built_gateway [OF g(1)])
    then show ?thesis using g(3) by (auto intro: openai_keeps cluster_keeps_refl)
  qed
  moreover have "url_key key" if "asked sha256 sj (gateways g) request key" for g request key
    using that built_key(1) [OF g(1,4)] by (cases key) (auto simp: asked_def)
  ultimately show ?thesis
    using assms(2) built_backed [OF g(1,2)] unfolding cluster_shared.in_service_def by blast
qed

section \<open>Contract\<close>

text \<open>
  C5: what answers say is true in every interleaving. Any number of gateways with any number of
  requests in flight share one cluster; after every call of a request the others may go on, new
  requests arrive, requests are dropped, and the node restarts. When a request is answered with
  \<^verbatim>\<open>x-cache-status: hit\<close>, the body and the events are those of bytes that the map held, under a key of
  this request (its tenant and the fingerprint of its body), in a state of the run. When it is
  answered with \<^verbatim>\<open>x-cache-coalesced: waiter\<close>, another request for the same tenant and key, on the same
  gateway, was answered as the leader with the same body.
\<close>

theorem interleaved_answers_are_true:
  assumes "fleet site node_id ssd dram_capacity io configs gateways" and "serde_bounded sj"
    and "site_ok exact site" and "cluster_inv site ssd dram_capacity w"
    and "system_run sha256 sj gateways (cluster_keeps ssd dram_capacity) w (s # ss)"
    and "task \<in> set (sy_tasks s)" and "task_result task = Some (Inr response)"
  shows "(header ''x-cache-status'' response = Some ''hit'' \<longrightarrow>
      (\<exists>key bs. asked sha256 sj (gateways (tk_gateway task)) (tk_request task) key \<and> served sj bs response
         \<and> (\<exists>s0 \<in> set (s # ss). cluster_contents site ssd (sy_world s0) key = Some bs)))
    \<and> (header ''x-cache-coalesced'' response = Some ''waiter'' \<longrightarrow>
      (\<exists>key answer leader. asked sha256 sj (gateways (tk_gateway task)) (tk_request task) key
         \<and> leader \<in> set (sy_tasks s) \<and> tk_gateway leader = tk_gateway task
         \<and> asked sha256 sj (gateways (tk_gateway task)) (tk_request leader) key
         \<and> task_result leader = Some (Inr (with_cache_coalesced ''leader'' answer)) \<and> gr_body response = gr_body answer))"
  using cluster_shared.run_answer [OF fleet_in_service [OF assms(1,2)] assms(5) conjI [OF assms(3,4)] assms(6,7) refl] by blast

text \<open>
  C6: answers labelled \<^verbatim>\<open>x-cache-write: committed\<close> are stored, in every interleaving: each under a
  key of its own request, as its serialized body or stream, and no two of them under the same key.
\<close>

theorem interleaved_commits_are_stored:
  assumes "fleet site node_id ssd dram_capacity io configs gateways" and "serde_bounded sj"
    and "site_ok exact site" and "cluster_inv site ssd dram_capacity w"
    and "system_run sha256 sj gateways (cluster_keeps ssd dram_capacity) w (s # ss)"
  shows "\<exists>stored. inj_on stored (committed_tasks s) \<and>
    (\<forall>i \<in> committed_tasks s. \<exists>response bs. task_result (sy_tasks s ! i) = Some (Inr response)
       \<and> asked sha256 sj (gateways (tk_gateway (sy_tasks s ! i))) (tk_request (sy_tasks s ! i)) (stored i)
       \<and> payload sj response = Inr bs \<and> cluster_contents site ssd (sy_world s) (stored i) = Some bs)"
proof (rule cluster_shared.run_committed [OF fleet_in_service [OF assms(1,2)] assms(5) conjI [OF assms(3,4)]])
  fix stored
  assume "inj_on stored (committed_tasks s)"
    and stored: "\<And>i response. i \<in> committed_tasks s \<Longrightarrow> task_result (sy_tasks s ! i) = Some (Inr response) \<Longrightarrow>
      asked sha256 sj (gateways (tk_gateway (sy_tasks s ! i))) (tk_request (sy_tasks s ! i)) (stored i)
      \<and> (\<exists>bs. payload sj response = Inr bs \<and> cluster_contents site ssd (sy_world s) (stored i) = Some bs)"
  then show ?thesis by (intro exI [of _ stored] conjI ballI) (simp, fastforce simp: committed_tasks_def)
qed

text \<open>
  C7: the map behind the cluster in every interleaving. Every state of a run satisfies the
  invariant of the master and the node. A step changes the map under at most one key, and only
  when some request asked for this key; and what the map of an exact site holds stays there.
\<close>

theorem interleaved_map_changes:
  assumes "fleet site node_id ssd dram_capacity io configs gateways" and "serde_bounded sj"
    and "site_ok exact site" and "cluster_inv site ssd dram_capacity w"
    and "system_run sha256 sj gateways (cluster_keeps ssd dram_capacity) w (s' # s # ss)"
  shows "cluster_inv site ssd dram_capacity (sy_world s')
    \<and> (\<exists>own. (\<forall>key. own \<noteq> Some key \<longrightarrow> cluster_contents site ssd (sy_world s') key = cluster_contents site ssd (sy_world s) key)
        \<and> (\<forall>key. own = Some key \<longrightarrow>
             (\<exists>task \<in> set (sy_tasks s'). asked sha256 sj (gateways (tk_gateway task)) (tk_request task) key)))
    \<and> (exact \<longrightarrow> (\<forall>s0 \<in> set (s # ss). cluster_contents site ssd (sy_world s0) \<subseteq>\<^sub>m cluster_contents site ssd (sy_world s')))"
proof -
  note service = fleet_in_service [OF assms(1,2)]
  note ok = conjI [OF assms(3,4)]
  show ?thesis
    using cluster_shared.run_safe [OF service assms(5) ok] cluster_shared.run_changes [OF service assms(5) ok]
      cluster_shared.run_grows [OF service ok _ assms(5) refl] by (meson list.set_intros(2))
qed

text \<open>
  C8: every request is answered. In every state of a run, as long as a request is neither
  answered nor dropped, some request can make its next call: nobody waits for a flight that
  nobody leads. And no schedule goes on for ever without new requests: the turns of the
  scheduler are well-founded. So every schedule that resumes what can be resumed ends, with all
  of its requests answered or dropped.
\<close>

theorem every_schedule_ends:
  assumes "fleet site node_id ssd dram_capacity io configs gateways" and "serde_bounded sj"
    and "site_ok exact site" and "cluster_inv site ssd dram_capacity w"
    and "system_run sha256 sj gateways (cluster_keeps ssd dram_capacity) w (s # ss)"
  shows "wf {(s', s). turn gateways s s'}
    \<and> (\<forall>i < length (sy_tasks s). task_over (sy_tasks s ! i)
         \<or> (\<exists>j < length (sy_tasks s). \<exists>s'. resume gateways j s = Some s'))"
  using wf_turn cluster_shared.run_progress [OF fleet_in_service [OF assms(1,2)] assms(5) conjI [OF assms(3,4)]] by blast

text \<open>
  C33: a request that is dropped after its reservation and before its commit blocks its key. When
  the task of a request is dropped while it is about to write to its reservation or to commit it,
  nothing is ever stored under this key afterwards, whatever requests arrive and on whatever
  gateway: the reservation is neither withdrawn by the drop nor given up by the master.
\<close>

theorem dropped_write_blocks_key:
  assumes "fleet site node_id ssd dram_capacity io configs gateways" and "serde_bounded sj"
    and "site_ok exact site" and "cluster_inv site ssd dram_capacity w"
    and "system_run sha256 sj gateways (cluster_keeps ssd dram_capacity) w (s' # later @ drop_task i s # s # ss)"
    and "i < length (sy_tasks s)" and "tk_program (sy_tasks s ! i) = Some p" and "being_written p = Some key"
  shows "cluster_contents site ssd (sy_world s') key = None"
  using cluster_shared.run_blocked [OF fleet_in_service [OF assms(1,2)] conjI [OF assms(3,4)] assms(5-8)] .


end
