(* ===== verification/Alone.thy ===== *)
theory Alone
imports Schedule
begin

text \<open>
  A request that no other disturbs: resumed until it is over, its task has the answer of the
  handler of \<open>Cache_Flow\<close>, and the world and the counters are as the handler leaves them.
\<close>

section \<open>Runs without a wait\<close>

primrec quiet :: "'w gateway_state \<Rightarrow> 'a program \<Rightarrow> 'w gateway_run \<Rightarrow> bool" where
  "quiet g (Return a) = (\<lambda>s. True)"
| "quiet g (GetReplicaList t k c) = (\<lambda>s.
     case on_world (mc_get_replica_list (gs_master_client g) t k) s of (r, s1) \<Rightarrow> quiet g (c r) s1)"
| "quiet g (ReadChunk t k h c) = (\<lambda>s.
     case on_world (sc_read_chunk (gs_store_client g) t k h) s of (r, s1) \<Rightarrow> quiet g (c r) s1)"
| "quiet g (PutStart t k len n c) = (\<lambda>s.
     case on_world (mc_put_start (gs_master_client g) t k len n) s of (r, s1) \<Rightarrow> quiet g (c r) s1)"
| "quiet g (WriteChunk node t k h bs c) = (\<lambda>s.
     case on_world (sc_write_preallocated_chunk (gs_store_client g) node t k h bs) s of (r, s1) \<Rightarrow> quiet g (c r) s1)"
| "quiet g (PutEnd t k c) = (\<lambda>s.
     case on_world (mc_put_end (gs_master_client g) t k) s of (r, s1) \<Rightarrow> quiet g (c r) s1)"
| "quiet g (PutRevoke t k c) = (\<lambda>s.
     case on_world (mc_put_revoke (gs_master_client g) t k) s of (r, s1) \<Rightarrow> quiet g (c r) s1)"
| "quiet g (ResolveModel m c) = (\<lambda>s.
     case on_world (va_resolve_model_version (gs_vendor g) m) s of (r, s1) \<Rightarrow> quiet g (c r) s1)"
| "quiet g (Complete q c) = (\<lambda>s.
     case on_world (va_complete (gs_vendor g) q) s of (r, s1) \<Rightarrow> quiet g (c r) s1)"
| "quiet g (OpenStream q c) = (\<lambda>s.
     case on_world (va_stream (gs_vendor g) q) s of (r, s1) \<Rightarrow> quiet g (c r) s1)"
| "quiet g (Begin key c) = (\<lambda>s.
     case sf_begin key (gw_flights s) of (start, flights) \<Rightarrow> quiet g (c start) (s\<lparr>gw_flights := flights\<rparr>))"
| "quiet g (Publish key res p) = (\<lambda>s. quiet g p (s\<lparr>gw_flights := sf_publish key res (gw_flights s)\<rparr>))"
| "quiet g (Wait c k) = (\<lambda>s. False)"
| "quiet g (Count u p) = (\<lambda>s. quiet g p (on_metrics u s))"

lemma quiet_bind [simp]:
  "quiet g (bind_program p f) s \<longleftrightarrow>
     quiet g p s \<and> (case run_program g (Inl []) p s of (a, s1) \<Rightarrow> quiet g (f a) s1)"
  by (induction p arbitrary: s) (simp_all split: prod.splits)

lemma quiet_try [simp]:
  "quiet g (try_program p f) s \<longleftrightarrow>
     quiet g p s \<and> (\<forall>a s1. run_program g (Inl []) p s = (Inr a, s1) \<longrightarrow> quiet g (f a) s1)"
  by (auto simp: try_program_def split: prod.splits sum.splits)

lemma quiet_count [simp]:
  "quiet g (count_gateway st ws p) s = quiet g p (record_gateway_metrics st ws s)"
  "quiet g (count_simple st ws p) s = quiet g p (record_simple st ws s)"
  by (simp_all add: count_gateway_def count_simple_def record_gateway_metrics_def record_simple_def)

lemma quiet_step:
  assumes "quiet g p s" and "\<And>a. p \<noteq> Return a"
  obtains p' s' where "program_step g p s = Some (p', s')" and "quiet g p' s'"
    and "run_program g x p s = run_program g x p' s'"
  using assms by (cases p) (auto simp: answered_def split: prod.splits)

text \<open>Only a miss of a plain request can come to wait, and not when there is no flight.\<close>

lemma quiet_reads [simp]:
  "quiet g (read_cached_bytes_program t k) s" "quiet g (read_cached_body_program env t k) s"
  "quiet g (read_cached_stream_object_program env t k) s"
  by (auto simp: read_cached_bytes_program_def read_cached_body_program_def read_cached_stream_object_program_def
      split: prod.splits sum.splits list.splits)

lemma quiet_writes [simp]:
  "quiet g (write_reserved_replicas_program t k rs bs) s" "quiet g (write_or_failed_program t k serialized) s"
proof -
  show replicas: "quiet g (write_reserved_replicas_program t k rs bs) s" for s rs bs
    by (induction rs arbitrary: s) (auto split: prod.splits sum.splits)
  show "quiet g (write_or_failed_program t k serialized) s"
    by (auto simp: write_or_failed_program_def write_cached_bytes_program_def revoke_reservation_program_def replicas
        split: prod.splits sum.splits)
qed

lemma quiet_responses [simp]:
  "quiet g (complete_vendor_program env q) s" "quiet g (capture_vendor_stream_program env q) s"
  "quiet g (vendor_response_program env q st ws key) s" "quiet g (vendor_stream_response_program env q st ws key) s"
  "quiet g (cache_only_miss_program k) s" "quiet g (refuse_program status message) s"
  "quiet g (cacheable_non_streaming_miss_program env t control q k) s"
  "quiet g (streaming_response_program env t control q e k) s"
  by (auto simp: complete_vendor_program_def capture_vendor_stream_program_def vendor_response_program_def
      vendor_stream_response_program_def cache_only_miss_program_def refuse_program_def
      cacheable_non_streaming_miss_program_def streaming_response_program_def split: prod.splits sum.splits option.splits)

lemma read_cached_body_flights: "read_cached_body env g t k s = (r, s') \<Longrightarrow> gw_flights s' = gw_flights s"
  by (auto simp: read_cached_body_def read_cached_bytes_def try_bind_def on_world_def
      split: prod.splits sum.splits list.splits if_splits)

lemma quiet_plain:
  assumes "sf_inner (gw_flights s) = []"
  shows "quiet g (plain_response_program env available t control q e k) s"
proof -
  have "quiet g (coalesced_miss_program env t control q k) s'" if "gw_flights s' = gw_flights s" for s'
    using assms that by (auto simp: coalesced_miss_program_def sf_begin_def hm_get_def split: prod.splits sum.splits)
  then show ?thesis
    by (auto simp: plain_response_program_def dest: read_cached_body_flights split: option.splits)
qed

lemma quiet_request:
  "sf_inner (gw_flights s) = [] \<Longrightarrow> quiet g (handle_response_program env g authorization cache_control body) s"
  by (auto simp: handle_response_program_def on_world_def intro!: quiet_plain split: option.splits sum.splits prod.splits)

section \<open>A task alone\<close>

abbreviation resumes :: "(nat \<Rightarrow> 'w gateway_state) \<Rightarrow> nat \<Rightarrow> 'w system \<Rightarrow> 'w system \<Rightarrow> bool" where
  "resumes gateways i s s' \<equiv> i < length (sy_tasks s) \<and> resume gateways i s = Some s'"

text \<open>Steps of a program on its gateway, and the task that makes them in the system.\<close>

inductive program_steps :: "'w gateway_state \<Rightarrow> 'a program \<Rightarrow> 'w gateway_run \<Rightarrow> 'a program \<Rightarrow> 'w gateway_run \<Rightarrow> bool" for g where
  steps_refl: "program_steps g p v p v"
| steps_step: "program_step g p v = Some (p1, v1) \<Longrightarrow> program_steps g p1 v1 p' v' \<Longrightarrow> program_steps g p v p' v'"

lemma program_steps_trans:
  "program_steps g p v p1 v1 \<Longrightarrow> program_steps g p1 v1 p' v' \<Longrightarrow> program_steps g p v p' v'"
  by (induction rule: program_steps.induct) (auto intro: steps_step)

lemma resumed:
  assumes "i < length (sy_tasks s)" and "tk_program (sy_tasks s ! i) = Some p" and "tk_gateway (sy_tasks s ! i) = g"
    and "program_step (gateways g) p (gateway_view g s) = Some (p', v)"
  obtains s' T where "resumes gateways i s s'" and "sy_tasks s' = (sy_tasks s)[i := T]" and "tk_program T = Some p'"
    and "tk_gateway T = g" and "tk_request T = tk_request (sy_tasks s ! i)" and "gateway_view g s' = v"
    and "\<forall>h. h \<noteq> g \<longrightarrow> sy_flights s' h = sy_flights s h"
  using assms by (auto simp: resume_def Let_def update_task_def with_view_def gateway_view_def)

lemma steps_resumes:
  assumes "program_steps (gateways g) p v p' v'"
    and "i < length (sy_tasks s)" and "tk_program (sy_tasks s ! i) = Some p" and "tk_gateway (sy_tasks s ! i) = g"
    and "gateway_view g s = v"
  shows "\<exists>s' T. (resumes gateways i)\<^sup>*\<^sup>* s s' \<and> sy_tasks s' = (sy_tasks s)[i := T] \<and> tk_program T = Some p'
    \<and> tk_gateway T = g \<and> tk_request T = tk_request (sy_tasks s ! i) \<and> gateway_view g s' = v'
    \<and> (\<forall>h. h \<noteq> g \<longrightarrow> sy_flights s' h = sy_flights s h)"
  using assms
proof (induction arbitrary: s rule: program_steps.induct)
  case (steps_refl p v)
  then show ?case by (intro exI [of _ s] exI [of _ "sy_tasks s ! i"]) simp
next
  case (steps_step p v p1 v1 p' v')
  obtain s1 T where s1: "resumes gateways i s s1" "sy_tasks s1 = (sy_tasks s)[i := T]" "tk_program T = Some p1"
    "tk_gateway T = g" "tk_request T = tk_request (sy_tasks s ! i)" "gateway_view g s1 = v1"
    "\<forall>h. h \<noteq> g \<longrightarrow> sy_flights s1 h = sy_flights s h"
    by (rule resumed [where gateways = gateways and g = g, OF steps_step.prems(1-3)]) (use steps_step in auto)
  then obtain s' T' where "(resumes gateways i)\<^sup>*\<^sup>* s1 s'" "sy_tasks s' = (sy_tasks s1)[i := T']"
    "tk_program T' = Some p'" "tk_gateway T' = g" "tk_request T' = tk_request (sy_tasks s1 ! i)" "gateway_view g s' = v'"
    "\<forall>h. h \<noteq> g \<longrightarrow> sy_flights s' h = sy_flights s1 h"
    using steps_step.IH [of s1] steps_step.prems(1) by auto
  then show ?case
    using s1 steps_step.prems(1) by (intro exI [of _ s'] exI [of _ T']) (auto intro: converse_rtranclp_into_rtranclp)
qed

lemma quiet_steps:
  assumes "quiet (g :: 'w gateway_state) p v" and "run_program g x p v = (a, v')"
  shows "program_steps g p v (Return a) v'"
proof -
  have "\<forall>p v. q = Some p \<longrightarrow> quiet g p v \<longrightarrow> run_program g x p v = (a, v') \<longrightarrow> program_steps g p v (Return a) v'" for q
  proof (induction q rule: wf_induct_rule [OF wf_left_to_do [where 'w = 'w]])
    case (1 q)
    show ?case
    proof (intro allI impI)
      fix p v
      assume p: "q = Some p" "quiet g p v" "run_program g x p v = (a, v')"
      show "program_steps g p v (Return a) v'"
      proof (cases "\<exists>b. p = Return b")
        case True
        then show ?thesis using p(3) by (auto intro: steps_refl)
      next
        case False
        then obtain p1 v1 where step: "program_step g p v = Some (p1, v1)" "quiet g p1 v1" "run_program g x p1 v1 = (a, v')"
          using quiet_step [OF p(2), of x] p(3) by metis
        then have "(Some p1, q) \<in> left_to_do TYPE('w)" using p(1) by (auto simp: left_to_do_def)
        then show ?thesis using 1 step by (blast intro: steps_step)
      qed
    qed
  qed
  then show ?thesis using assms by blast
qed

text \<open>A task that makes steps, as turns of the scheduler.\<close>

lemma arrive_steps:
  assumes "program_steps (gateways g) (handle_response_program
      \<lparr>env_sha256 = sha256, env_serde = sj, env_vendor_micros = micros, env_wait = Inl []\<rparr> (gateways g)
      (gq_authorization request) (gq_cache_control request) (gq_body request)) (gateway_view g s) p v"
  shows "\<exists>s' T. (turn gateways)\<^sup>*\<^sup>* (arrive sha256 sj gateways g micros request s) s' \<and> sy_tasks s' = sy_tasks s @ [T]
    \<and> tk_program T = Some p \<and> tk_gateway T = g \<and> tk_request T = request \<and> gateway_view g s' = v
    \<and> (\<forall>h. h \<noteq> g \<longrightarrow> sy_flights s' h = sy_flights s h)"
proof -
  let ?s = "arrive sha256 sj gateways g micros request s" and ?i = "length (sy_tasks s)"
  have "gateway_view g ?s = gateway_view g s" "?i < length (sy_tasks ?s)" "tk_gateway (sy_tasks ?s ! ?i) = g"
    "tk_program (sy_tasks ?s ! ?i) = Some (handle_response_program
      \<lparr>env_sha256 = sha256, env_serde = sj, env_vendor_micros = micros, env_wait = Inl []\<rparr> (gateways g)
      (gq_authorization request) (gq_cache_control request) (gq_body request))"
    by (simp_all add: arrive_def gateway_view_def Let_def)
  then obtain s' T where s': "(resumes gateways ?i)\<^sup>*\<^sup>* ?s s'" "sy_tasks s' = (sy_tasks ?s)[?i := T]"
    "tk_program T = Some p" "tk_gateway T = g" "tk_request T = tk_request (sy_tasks ?s ! ?i)" "gateway_view g s' = v"
    "\<forall>h. h \<noteq> g \<longrightarrow> sy_flights s' h = sy_flights ?s h"
    using steps_resumes [where gateways = gateways and g = g, OF assms, of ?i ?s] by blast
  have "(resumes gateways ?i)\<^sup>*\<^sup>* \<le> (turn gateways)\<^sup>*\<^sup>*" by (rule rtranclp_mono) (auto intro: turn_resume)
  then have "(turn gateways)\<^sup>*\<^sup>* ?s s'" using s'(1) by blast
  then show ?thesis using s' by (auto simp: arrive_def Let_def list_update_append)
qed

text \<open>A request that arrives at a gateway without flights and is then left alone.\<close>

lemma handled_alone:
  assumes "sf_inner (sy_flights s g) = []"
    and "handle_response_request \<lparr>env_sha256 = sha256, env_serde = sj, env_vendor_micros = micros, env_wait = Inl []\<rparr> (gateways g)
      (gq_authorization request) (gq_cache_control request) (gq_body request) (gateway_view g s) = (a, v)"
  shows "\<exists>s' T. (turn gateways)\<^sup>*\<^sup>* (arrive sha256 sj gateways g micros request s) s' \<and> sy_tasks s' = sy_tasks s @ [T]
    \<and> task_result T = Some a \<and> tk_gateway T = g \<and> tk_request T = request \<and> gateway_view g s' = v
    \<and> (\<forall>h. h \<noteq> g \<longrightarrow> sy_flights s' h = sy_flights s h)"
proof -
  let ?env = "\<lparr>env_sha256 = sha256, env_serde = sj, env_vendor_micros = micros, env_wait = Inl []\<rparr>"
  let ?p = "handle_response_program ?env (gateways g) (gq_authorization request) (gq_cache_control request) (gq_body request)"
  have "quiet (gateways g) ?p (gateway_view g s)" using assms(1) by (intro quiet_request) (simp add: gateway_view_def)
  moreover have "run_program (gateways g) (env_wait ?env) ?p (gateway_view g s) = (a, v)"
    using assms(2) by (simp only: run_handler)
  ultimately have "program_steps (gateways g) ?p (gateway_view g s) (Return a) v" by (rule quiet_steps)
  from arrive_steps [where gateways = gateways and g = g, OF this] show ?thesis by (simp add: task_result_eq)
qed

lemma turns_run:
  assumes "(turn gateways)\<^sup>*\<^sup>* s s'" and "system_run sha256 sj gateways keeps w (s # ss)"
  shows "\<exists>ss' later. system_run sha256 sj gateways keeps w (s' # ss') \<and> s' # ss' = later @ s # ss"
  using assms
proof (induction rule: rtranclp_induct)
  case base
  then show ?case by (metis append_Nil)
next
  case (step s1 s2)
  then obtain ss' later where run: "system_run sha256 sj gateways keeps w (s1 # ss')" "s1 # ss' = later @ s # ss" by blast
  then have "system_run sha256 sj gateways keeps w (s2 # s1 # ss')" using step(2) by (intro run_step step_turn)
  then show ?case using run(2) by (metis append_Cons)
qed

text \<open>Both as extensions of a run.\<close>

lemma resumed_run:
  assumes "system_run sha256 sj gateways keeps w (s # ss)" and "program_steps (gateways g) p (gateway_view g s) p' v'"
    and "i < length (sy_tasks s)" and "tk_program (sy_tasks s ! i) = Some p" and "tk_gateway (sy_tasks s ! i) = g"
  obtains s' ss' T where "system_run sha256 sj gateways keeps w (s' # ss')" and "sy_tasks s' = (sy_tasks s)[i := T]"
    and "tk_program T = Some p'" and "tk_gateway T = g" and "tk_request T = tk_request (sy_tasks s ! i)" and "gateway_view g s' = v'"
    and "\<forall>h. h \<noteq> g \<longrightarrow> sy_flights s' h = sy_flights s h"
proof -
  obtain s' T where s': "(resumes gateways i)\<^sup>*\<^sup>* s s'" "sy_tasks s' = (sy_tasks s)[i := T]" "tk_program T = Some p'"
    "tk_gateway T = g" "tk_request T = tk_request (sy_tasks s ! i)" "gateway_view g s' = v'"
    "\<forall>h. h \<noteq> g \<longrightarrow> sy_flights s' h = sy_flights s h"
    using steps_resumes [where gateways = gateways and g = g, OF assms(2-5) refl] by blast
  have "(resumes gateways i)\<^sup>*\<^sup>* \<le> (turn gateways)\<^sup>*\<^sup>*" by (rule rtranclp_mono) (auto intro: turn_resume)
  then have "(turn gateways)\<^sup>*\<^sup>* s s'" using s'(1) by blast
  from turns_run [OF this assms(1)] show thesis using that s' by blast
qed

lemma arrived_run:
  assumes "system_run sha256 sj gateways keeps w (s # ss)"
    and "program_steps (gateways g) (handle_response_program
      \<lparr>env_sha256 = sha256, env_serde = sj, env_vendor_micros = micros, env_wait = Inl []\<rparr> (gateways g)
      (gq_authorization request) (gq_cache_control request) (gq_body request)) (gateway_view g s) p v"
  obtains s' ss' T where "system_run sha256 sj gateways keeps w (s' # ss')" and "sy_tasks s' = sy_tasks s @ [T]"
    and "tk_program T = Some p" and "tk_gateway T = g" and "tk_request T = request" and "gateway_view g s' = v"
    and "\<forall>h. h \<noteq> g \<longrightarrow> sy_flights s' h = sy_flights s h"
proof -
  let ?s = "arrive sha256 sj gateways g micros request s"
  have run: "system_run sha256 sj gateways keeps w (?s # s # ss)" using assms(1) by (intro run_step step_arrive)
  obtain s' T where s': "(turn gateways)\<^sup>*\<^sup>* ?s s'" "sy_tasks s' = sy_tasks s @ [T]" "tk_program T = Some p"
    "tk_gateway T = g" "tk_request T = request" "gateway_view g s' = v" "\<forall>h. h \<noteq> g \<longrightarrow> sy_flights s' h = sy_flights s h"
    using arrive_steps [where gateways = gateways and g = g, OF assms(2)] by blast
  from turns_run [OF s'(1) run] obtain ss' where "system_run sha256 sj gateways keeps w (s' # ss')" by blast
  then show thesis using that s' by blast
qed

end
