(* ===== verification/Concurrent_Examples.thy ===== *)
theory Concurrent_Examples
imports Concurrent_Cluster Alone Cluster_Examples
begin

text \<open>
  Gateways of \<open>Cluster_Examples\<close> that share the example cluster: two requests of one gateway, of
  which one waits for the other, and one of a second gateway, which finds what the first has
  stored; and a request that is dropped while it writes. The contracts of \<open>Concurrent_Cluster\<close>
  are applied to these runs.
\<close>

declare split_paired_All [simp del] split_paired_Ex [simp del]

section \<open>A miss, step by step\<close>

fun begun :: "'a program \<Rightarrow> singleflight_start \<Rightarrow> 'a program" where
  "begun (Begin key c) start = c start"
| "begun p start = p"

lemma miss_steps:
  assumes "dispatched env g auth cc body s t CcDefault q key s" and "\<not> is_streaming_request body"
    and "request_eligibility g CcDefault q body = Cacheable" and "gs_cache_available g"
    and "mc_get_replica_list (gs_master_client g) t key (gw_world s) = (Inl (GeCache NotFound), w0)"
    and "sf_begin \<lparr>sfk_tenant_id = t, sfk_cache_key = key, sfk_write_mode = Writable\<rparr> (gw_flights s) = (start, flights)"
  shows "program_steps g (handle_response_program env g auth cc body) s
    (begun (coalesced_miss_program env t CcDefault q key) start) (s\<lparr>gw_world := w0, gw_flights := flights\<rparr>)"
proof -
  let ?read = "plain_response_program env True t CcDefault q Cacheable key"
  have "program_step g (handle_response_program env g auth cc body) s = Some (?read, s)"
    using assms(1-4) by (auto simp: dispatched_def handle_response_program_def answered_def)
  moreover have "program_step g ?read s = Some (coalesced_miss_program env t CcDefault q key, s\<lparr>gw_world := w0\<rparr>)"
    using assms(5)
    by (simp add: plain_response_program_def read_cached_body_program_def read_cached_bytes_program_def try_program_def
        answered_def on_world_def)
  moreover have "program_step g (coalesced_miss_program env t CcDefault q key) (s\<lparr>gw_world := w0\<rparr>) =
      Some (begun (coalesced_miss_program env t CcDefault q key) start, s\<lparr>gw_world := w0, gw_flights := flights\<rparr>)"
    using assms(6) by (simp add: coalesced_miss_program_def flight_write_mode_def)
  ultimately show ?thesis by (blast intro: steps_step steps_refl)
qed

lemma write_keeps_flights:
  "write_cached_bytes g t k bs s = (r, s') \<Longrightarrow> gw_flights s' = gw_flights s"
proof -
  have replicas: "write_reserved_replicas g t k rs bs s = (r, s') \<Longrightarrow> gw_flights s' = gw_flights s" for rs r s s'
    by (induction rs arbitrary: s) (auto simp: try_bind_cases on_world_def split: prod.splits sum.splits)
  show "write_cached_bytes g t k bs s = (r, s') \<Longrightarrow> gw_flights s' = gw_flights s"
    by (auto simp: write_cached_bytes_def revoke_reservation_after_write_failure_def on_world_def Let_def
        split: prod.splits sum.splits dest!: replicas)
qed

lemma leader_steps:
  assumes "va_complete (gs_vendor g) q (gw_world s) = (Inr answer, gw_world s)" and "sj_to_vec (env_serde env) answer = Inr bs"
    and "\<And>s'. gw_world s' = gw_world s \<Longrightarrow> \<exists>s''. write_cached_bytes g t key bs s' = (Inr WriteCommitted, s'')"
    and "response = response_ok answer Miss ''committed'' ''vendor'' (Some key)"
  shows "\<exists>s'. program_steps g (begun (coalesced_miss_program env t CcDefault q key) (Leader leader)) s
    (Return (Inr (with_cache_coalesced ''leader'' response))) s' \<and> gw_flights s' = sf_publish leader (Inr response) (gw_flights s)"
proof -
  let ?p = "begun (coalesced_miss_program env t CcDefault q key) (Leader leader)"
  let ?s1 = "on_metrics (record_singleflight RoleLeader) s"
  obtain s2 where call: "complete_vendor env g q ?s1 = (Inr answer, s2)" and s2: "gw_world s2 = gw_world s" "gw_flights s2 = gw_flights s"
    using assms(1) by (simp add: complete_vendor_def on_world_def on_metrics_def)
  then obtain s3 where wrote: "write_cached_bytes g t key bs s2 = (Inr WriteCommitted, s3)" using assms(3) by blast
  then have "write_or_failed (write_cached_body env g t key answer) s2 = (WriteCommitted, s3)"
    by (simp add: write_or_failed_def write_cached_body_def assms(2))
  then have "cacheable_non_streaming_miss env g t CcDefault q key ?s1 =
      (Inr response, record_gateway_metrics Miss WriteCommitted s3)"
    using call by (simp add: cacheable_non_streaming_miss_def try_bind_cases assms(4))
  moreover have "gw_flights (record_gateway_metrics Miss WriteCommitted s3) = gw_flights s"
    using write_keeps_flights [OF wrote] s2 by (simp add: record_gateway_metrics_def on_metrics_def)
  ultimately have "\<exists>s'. run_program g (Inl []) ?p s = (Inr (with_cache_coalesced ''leader'' response), s')
      \<and> gw_flights s' = sf_publish leader (Inr response) (gw_flights s)"
    by (simp add: coalesced_miss_program_def)
  moreover have "quiet g ?p s" by (simp add: coalesced_miss_program_def split: prod.splits sum.splits)
  ultimately show ?thesis using quiet_steps by metis
qed

lemma waiter_steps:
  assumes "sf_wait ch (gw_flights s) = Some (Inr response)"
  shows "\<exists>s'. program_steps g (begun (coalesced_miss_program env t CcDefault q key) (Waiter ch)) s
    (Return (Inr (with_cache_write (write_header_value WriteSkipped) (with_cache_coalesced ''waiter'' response)))) s'"
proof -
  let ?r = "Inr (with_cache_write (write_header_value WriteSkipped) (with_cache_coalesced ''waiter'' response))"
  have "\<exists>u1 u2. program_step g (begun (coalesced_miss_program env t CcDefault q key) (Waiter ch)) s =
      Some (Count u1 (Count u2 (Return ?r)), s)"
    using assms by (simp add: coalesced_miss_program_def count_gateway_def)
  then obtain u1 u2 where step: "program_step g (begun (coalesced_miss_program env t CcDefault q key) (Waiter ch)) s =
      Some (Count u1 (Count u2 (Return ?r)), s)" by blast
  have "program_steps g (Count u1 (Count u2 (Return ?r))) s (Return ?r) (on_metrics u2 (on_metrics u1 s))"
    by (rule steps_step [OF program_step.simps(14)], rule steps_step [OF program_step.simps(14)], rule steps_refl)
  then show ?thesis using steps_step [OF step] by blast
qed

section \<open>The shared system\<close>

definition idle_system :: "master_metadata_snapshot option cluster system" where
  "idle_system =
     \<lparr>sy_world = example_cluster, sy_metrics = (\<lambda>_. gateway_metrics_default),
      sy_flights = (\<lambda>_. singleflight_new default_max_waiters_per_key), sy_tasks = []\<rparr>"

definition example_gateway_request :: gateway_request where
  "example_gateway_request = \<lparr>gq_authorization = Some ''Bearer t'', gq_cache_control = None, gq_body = example_body\<rparr>"

abbreviation example_response :: gateway_response where
  "example_response \<equiv> response_ok example_answer Miss ''committed'' ''vendor'' (Some local_key)"

abbreviation shared_run ::
  "master_metadata_snapshot option cluster gateway_state \<Rightarrow> master_metadata_snapshot option cluster system list \<Rightarrow> bool" where
  "shared_run g \<equiv> system_run local_digest (env_serde deployment_env) (\<lambda>_. g) (cluster_keeps example_node_ssd 8) example_cluster"

lemma idle_run: "shared_run g [idle_system]" and idle_inv: "cluster_inv example_site example_node_ssd 8 example_cluster"
  using example_cluster_inv by (auto simp: idle_system_def gateway_run_new_def intro!: run_start)

lemma deployment_env_eq:
  "\<lparr>env_sha256 = local_digest, env_serde = env_serde deployment_env, env_vendor_micros = 5, env_wait = Inl []\<rparr> = deployment_env"
  by (simp add: deployment_env_def example_env_def)

definition deployed :: "master_metadata_snapshot option cluster gateway_state \<Rightarrow> bool" where
  "deployed g \<longleftrightarrow>
     backed (cluster_master example_site) (cluster_store example_site ''a'') g \<and> gs_cache_available g
     \<and> gs_tenant_configs g = Some [(test_tenant_id, example_tenant_config)]
     \<and> gs_vendor g = openai_vendor (st_send example_startup) example_adapter"

lemma example_fleet:
  obtains g where "fleet example_site ''a'' example_node_ssd 8 (\<lambda>_. example_startup) (\<lambda>_. example_app_config) (\<lambda>_. g)"
    and "deployed g"
proof -
  obtain g where g: "build_gateway_state_from_config example_startup example_app_config = Inr g"
    "gs_tenant_configs g = Some [(test_tenant_id, example_tenant_config)]"
    "gs_vendor g = openai_vendor (st_send example_startup) example_adapter"
    by (rule example_build)
  have "tenants_url_safe g"
    using example_url_key by (simp add: tenants_url_safe_def g(2) config_tenants_def example_tenant_config_def)
  then have "fleet example_site ''a'' example_node_ssd 8 (\<lambda>_. example_startup) (\<lambda>_. example_app_config) (\<lambda>_. g)"
    using g(1) example_configured by (simp add: fleet_def example_startup_def cluster_keeps_refl)
  then show thesis
    using that g built_backed [OF g(1) example_configured] started_gateway [OF g(1)] unfolding deployed_def by blast
qed

lemma example_serde_bounded: "serde_bounded (env_serde deployment_env)"
  by (auto simp: serde_bounded_def deployment_env_def split: if_splits)

lemma deployed_request:
  assumes "deployed g"
  shows "dispatched deployment_env g (Some ''Bearer t'') None example_body s
      (TenantId test_tenant_id) CcDefault example_request local_key s"
    and "request_eligibility g CcDefault example_request example_body = Cacheable"
    and "va_complete (gs_vendor g) example_request w = (Inr example_answer, w)"
    and "vendor_keeps (cluster_keeps example_node_ssd 8) (gs_vendor g)"
proof -
  have vendor: "gs_vendor g = openai_vendor (st_send example_startup) example_adapter" using assms by (simp add: deployed_def)
  show "dispatched deployment_env g (Some ''Bearer t'') None example_body s
      (TenantId test_tenant_id) CcDefault example_request local_key s"
    using assms by (intro deployed_dispatched) (simp_all add: deployed_def)
  show "request_eligibility g CcDefault example_request example_body = Cacheable"
    by (simp add: request_eligibility_def vendor openai_vendor_def openai_model_cache_eligible_def example_adapter_def
        bt_get_def example_request_def classify_request_def example_body_def json_get_def)
  show "va_complete (gs_vendor g) example_request w = (Inr example_answer, w)"
    by (simp add: vendor openai_vendor_def openai_complete_def openai_post_json_def example_startup_def is_success_def)
  show "vendor_keeps (cluster_keeps example_node_ssd 8) (gs_vendor g)"
    unfolding vendor by (rule openai_keeps) (simp_all add: example_startup_def cluster_keeps_refl)
qed

text \<open>The world before anything was written.\<close>

definition unwritten :: "master_metadata_snapshot option cluster \<Rightarrow> bool" where
  "unwritten w \<longleftrightarrow> mr_master (cl_run w) = mount_segment ''a'' 8 master_new \<and> cl_machine w = example_machine"

abbreviation request_flight :: singleflight_key where
  "request_flight \<equiv> \<lparr>sfk_tenant_id = TenantId test_tenant_id, sfk_cache_key = local_key, sfk_write_mode = Writable\<rparr>"

abbreviation example_miss :: "(gateway_error + gateway_response) program" where
  "example_miss \<equiv> coalesced_miss_program deployment_env (TenantId test_tenant_id) CcDefault example_request local_key"

lemma example_miss_steps:
  assumes "deployed g" and "unwritten (gw_world v)" and "sf_begin request_flight (gw_flights v) = (start, flights)"
  shows "\<exists>w0. program_steps g (handle_response_program deployment_env g (Some ''Bearer t'') None example_body) v
    (begun example_miss start) (v\<lparr>gw_world := w0, gw_flights := flights\<rparr>) \<and> unwritten w0"
proof -
  have "get_replica_list (ce_now (cs_oracle example_site (cl_tick (gw_world v)))) (TenantId test_tenant_id) local_key
      (mr_master (cl_run (gw_world v))) = (Inl NotFound, mount_segment ''a'' 8 master_new)"
    using assms(2) by (simp add: get_replica_list_def unwritten_def mount_segment_def master_new_def)
  then obtain w0 where w0: "mc_get_replica_list (cluster_master example_site) (TenantId test_tenant_id) local_key (gw_world v) =
       (Inl (GeCache NotFound), w0)" and "unwritten w0"
    by (rule cluster_get [OF example_site_ok example_url_key]) (use assms(2) in \<open>auto simp: unwritten_def\<close>)
  moreover have "mc_get_replica_list (gs_master_client g) (TenantId test_tenant_id) local_key (gw_world v) =
      (Inl (GeCache NotFound), w0)"
    using w0 assms(1) by (simp add: deployed_def backed_def)
  moreover have "gs_cache_available g" using assms(1) by (simp add: deployed_def)
  ultimately show ?thesis
    using miss_steps [OF deployed_request(1) [OF assms(1)] example_plain deployed_request(2) [OF assms(1)] _ _ assms(3)] by blast
qed

lemma example_leader_steps:
  assumes "deployed g" and "unwritten (gw_world v)"
  shows "\<exists>v'. program_steps g (begun example_miss (Leader leader)) v (Return (Inr (with_cache_coalesced ''leader'' example_response))) v'
    \<and> gw_flights v' = sf_publish leader (Inr example_response) (gw_flights v)"
proof (rule leader_steps [OF deployed_request(3) [OF assms(1)] _ _ refl])
  show "sj_to_vec (env_serde deployment_env) example_answer = Inr ''a''" by (simp add: deployment_env_def)
  show "\<exists>s''. write_cached_bytes g (TenantId test_tenant_id) local_key ''a'' s' = (Inr WriteCommitted, s'')"
    if "gw_world s' = gw_world v" for s'
    using that assms by (intro cluster_write_committed) (simp_all add: deployed_def unwritten_def)
qed


section \<open>A leader, a waiter and another gateway\<close>

abbreviation waiter_response :: gateway_response where
  "waiter_response \<equiv> with_cache_write (write_header_value WriteSkipped) (with_cache_coalesced ''waiter'' example_response)"

abbreviation example_program ::
  "master_metadata_snapshot option cluster gateway_state \<Rightarrow> (gateway_error + gateway_response) program" where
  "example_program g \<equiv> handle_response_program deployment_env g (Some ''Bearer t'') None example_body"

lemma example_arrives:
  assumes "shared_run g (s # ss)" and "program_steps g (example_program g) (gateway_view h s) p v"
  obtains s' ss' T where "shared_run g (s' # ss')" and "sy_tasks s' = sy_tasks s @ [T]" and "tk_program T = Some p"
    and "tk_gateway T = h" and "tk_request T = example_gateway_request" and "gateway_view h s' = v"
    and "\<forall>h'. h' \<noteq> h \<longrightarrow> sy_flights s' h' = sy_flights s h'"
proof -
  have "program_steps ((\<lambda>_. g) h) (handle_response_program \<lparr>env_sha256 = local_digest, env_serde = env_serde deployment_env,
      env_vendor_micros = 5, env_wait = Inl []\<rparr> ((\<lambda>_. g) h) (gq_authorization example_gateway_request)
      (gq_cache_control example_gateway_request) (gq_body example_gateway_request)) (gateway_view h s) p v"
    using assms(2) unfolding deployment_env_eq by (simp add: example_gateway_request_def)
  from arrived_run [where gateways = "\<lambda>_. g" and g = h, OF assms(1) this] show thesis using that by blast
qed

lemma example_resumed:
  assumes "shared_run g (s # ss)" and "program_steps g p (gateway_view h s) p' v'"
    and "i < length (sy_tasks s)" and "tk_program (sy_tasks s ! i) = Some p" and "tk_gateway (sy_tasks s ! i) = h"
  obtains s' ss' T where "shared_run g (s' # ss')" and "sy_tasks s' = (sy_tasks s)[i := T]"
    and "tk_program T = Some p'" and "tk_gateway T = h" and "tk_request T = tk_request (sy_tasks s ! i)" and "gateway_view h s' = v'"
    and "\<forall>h'. h' \<noteq> h \<longrightarrow> sy_flights s' h' = sy_flights s h'"
  using resumed_run [where gateways = "\<lambda>_. g" and g = h, OF assms] that by blast

text \<open>Two requests for the same key on gateway 0: the second waits until the first has published.\<close>

lemma coalesced_run:
  assumes "deployed g"
  obtains s ss T0 T1 where "shared_run g (s # ss)" and "sy_tasks s = [T0, T1]"
    and "task_result T0 = Some (Inr (with_cache_coalesced ''leader'' example_response))"
    and "task_result T1 = Some (Inr waiter_response)" and "tk_gateway T0 = 0" and "tk_gateway T1 = 0"
    and "tk_request T0 = example_gateway_request" and "tk_request T1 = example_gateway_request"
    and "sf_inner (sy_flights s 1) = []"
proof -
  let ?f0 = "singleflight_new default_max_waiters_per_key :: gateway_response singleflight_group"
  obtain f1 f2 where begin_leader: "sf_begin request_flight ?f0 = (Leader request_flight, f1)"
    and begin_waiter: "sf_begin request_flight f1 = (Waiter 0, f2)"
    and published: "sf_wait 0 (sf_publish request_flight (Inr example_response) f2) = Some (Inr example_response)"
    by (simp add: sf_begin_def singleflight_new_def hm_get_def hm_insert_def hm_modify_def sf_publish_def sf_finish_def
        sf_wait_def default_max_waiters_per_key_def)
  have "unwritten (gw_world (gateway_view 0 idle_system))" "gw_flights (gateway_view 0 idle_system) = ?f0"
    by (simp_all add: idle_system_def gateway_view_def unwritten_def example_cluster_def)
  then obtain v1 where steps1: "program_steps g (example_program g) (gateway_view 0 idle_system) (begun example_miss (Leader request_flight)) v1"
    and v1: "unwritten (gw_world v1)" "gw_flights v1 = f1"
    using example_miss_steps [OF assms, of "gateway_view 0 idle_system"] begin_leader by force
  obtain s1 ss1 T0 where s1: "shared_run g (s1 # ss1)" "sy_tasks s1 = sy_tasks idle_system @ [T0]"
    "tk_program T0 = Some (begun example_miss (Leader request_flight))" "tk_gateway T0 = 0" "tk_request T0 = example_gateway_request"
    "gateway_view 0 s1 = v1" "\<forall>h. h \<noteq> 0 \<longrightarrow> sy_flights s1 h = sy_flights idle_system h"
    by (rule example_arrives [OF idle_run steps1])
  obtain v2 where steps2: "program_steps g (example_program g) (gateway_view 0 s1) (begun example_miss (Waiter 0)) v2"
    and v2: "unwritten (gw_world v2)" "gw_flights v2 = f2"
    using example_miss_steps [OF assms, of "gateway_view 0 s1"] begin_waiter v1 s1(6) by force
  obtain s2 ss2 T1 where s2: "shared_run g (s2 # ss2)" "sy_tasks s2 = sy_tasks s1 @ [T1]"
    "tk_program T1 = Some (begun example_miss (Waiter 0))" "tk_gateway T1 = 0" "tk_request T1 = example_gateway_request"
    "gateway_view 0 s2 = v2" "\<forall>h. h \<noteq> 0 \<longrightarrow> sy_flights s2 h = sy_flights s1 h"
    by (rule example_arrives [OF s1(1) steps2])
  have tasks2: "sy_tasks s2 = [T0, T1]" by (simp add: s2(2) s1(2) idle_system_def)
  obtain v3 where steps3: "program_steps g (begun example_miss (Leader request_flight)) (gateway_view 0 s2)
      (Return (Inr (with_cache_coalesced ''leader'' example_response))) v3"
    and v3: "gw_flights v3 = sf_publish request_flight (Inr example_response) f2"
    using example_leader_steps [OF assms v2(1), of request_flight] v2(2) s2(6) by auto
  obtain s3 ss3 T0' where s3: "shared_run g (s3 # ss3)" "sy_tasks s3 = (sy_tasks s2)[0 := T0']"
    "tk_program T0' = Some (Return (Inr (with_cache_coalesced ''leader'' example_response)))" "tk_gateway T0' = 0"
    "tk_request T0' = tk_request (sy_tasks s2 ! 0)" "gateway_view 0 s3 = v3" "\<forall>h. h \<noteq> 0 \<longrightarrow> sy_flights s3 h = sy_flights s2 h"
    by (rule example_resumed [OF s2(1) steps3, of 0]) (simp_all add: tasks2 s1(3,4))
  have tasks3: "sy_tasks s3 = [T0', T1]" by (simp add: s3(2) tasks2)
  obtain v4 where steps4: "program_steps g (begun example_miss (Waiter 0)) (gateway_view 0 s3) (Return (Inr waiter_response)) v4"
    using waiter_steps [where s = v3] published v3 s3(6) by fastforce
  obtain s4 ss4 T1' where s4: "shared_run g (s4 # ss4)" "sy_tasks s4 = (sy_tasks s3)[1 := T1']"
    "tk_program T1' = Some (Return (Inr waiter_response))" "tk_gateway T1' = 0"
    "tk_request T1' = tk_request (sy_tasks s3 ! 1)" "\<forall>h. h \<noteq> 0 \<longrightarrow> sy_flights s4 h = sy_flights s3 h"
    by (rule example_resumed [OF s3(1) steps4, of 1]) (simp_all add: tasks3 s2(3,4))
  have "sf_inner (sy_flights s4 1) = []"
    using s4(6) s3(7) s2(7) s1(7) by (simp add: idle_system_def singleflight_new_def)
  moreover have "sy_tasks s4 = [T0', T1']" by (simp add: s4(2) tasks3)
  ultimately show thesis
    using that [OF s4(1)] s3(3-5) s4(3-5) s1(5) s2(5) by (simp add: task_result_eq tasks2 tasks3)
qed

text \<open>Whatever is asked for in the example has one key, because the digest of the example is constant.\<close>

lemma example_asked:
  assumes "deployed g" and "asked local_digest (env_serde deployment_env) g example_gateway_request key"
  shows "key = (TenantId test_tenant_id, local_key)"
proof -
  have "authenticate local_digest g (Some ''Bearer t'') = Some (TenantId test_tenant_id)"
    using deployed_request(1) [OF assms(1)] by (simp add: dispatched_def deployment_env_def example_env_def)
  moreover have "compute_cache_key to_vec local_digest input = Inr k \<Longrightarrow> k = local_key" for to_vec input k
    using valid_key_text_hex_lower [of "replicate 32 (CHR 0x00)"]
    by (auto simp: compute_cache_key_def local_digest_def local_key_def split: sum.splits if_splits)
  ultimately show ?thesis
    using assms(2) by (cases key) (auto simp: asked_def example_gateway_request_def)
qed


text \<open>What the leader was answered is stored, and the next request finds it.\<close>

lemma example_stored:
  assumes "fleet example_site ''a'' example_node_ssd 8 (\<lambda>_. example_startup) (\<lambda>_. example_app_config) (\<lambda>_. g)" and "deployed g"
    and "shared_run g (s # ss)" and "sy_tasks s = T0 # tasks" and "tk_request T0 = example_gateway_request"
    and "task_result T0 = Some (Inr (with_cache_coalesced ''leader'' example_response))"
  shows "cluster_contents example_site example_node_ssd (sy_world s) (TenantId test_tenant_id, local_key) = Some ''a''"
    and "site_inv True example_site example_node_ssd 8 (sy_world s)"
proof -
  let ?sj = "env_serde deployment_env" and ?c = "cluster_contents example_site example_node_ssd (sy_world s)"
  note service = fleet_in_service [OF assms(1) example_serde_bounded, of local_digest]
  note ok = conjI [OF example_site_ok idle_inv]
  show "site_inv True example_site example_node_ssd 8 (sy_world s)" by (rule cluster_shared.run_safe [OF service assms(3) ok])
  have committed: "0 \<in> committed_tasks s" and T0: "task_result (sy_tasks s ! 0) = Some (Inr (with_cache_coalesced ''leader'' example_response))"
    "tk_request (sy_tasks s ! 0) = example_gateway_request"
    using assms(4-6) by (simp_all add: committed_tasks_def with_cache_coalesced_def header_labels)
  have payload: "payload ?sj (with_cache_coalesced ''leader'' example_response) = Inr ''a''"
    by (simp add: with_cache_coalesced_def payload_ok deployment_env_def)
  show "?c (TenantId test_tenant_id, local_key) = Some ''a''"
  proof (rule cluster_shared.run_committed [OF service assms(3) ok])
    fix stored
    assume "\<And>i response. i \<in> committed_tasks s \<Longrightarrow> task_result (sy_tasks s ! i) = Some (Inr response) \<Longrightarrow>
      asked local_digest ?sj g (tk_request (sy_tasks s ! i)) (stored i)
      \<and> (\<exists>bs. payload ?sj response = Inr bs \<and> ?c (stored i) = Some bs)"
    from this [OF committed T0(1)] have "asked local_digest ?sj g example_gateway_request (stored 0)" "?c (stored 0) = Some ''a''"
      by (auto simp: T0(2) payload)
    then show ?thesis using example_asked [OF assms(2)] by metis
  qed
qed

lemma example_hit:
  assumes "deployed g" and "site_inv True example_site example_node_ssd 8 (gw_world v)"
    and "cluster_contents example_site example_node_ssd (gw_world v) (TenantId test_tenant_id, local_key) = Some ''a''"
  obtains tier v' where "handle_response_request
      \<lparr>env_sha256 = local_digest, env_serde = env_serde deployment_env, env_vendor_micros = 5, env_wait = Inl []\<rparr> g
      (gq_authorization example_gateway_request) (gq_cache_control example_gateway_request) (gq_body example_gateway_request) v =
      (Inr (response_ok example_answer Hit ''skipped'' tier (Some local_key)), v')"
proof -
  have body: "cached_body_from_bytes (env_serde deployment_env) ''a'' = Inr example_answer"
    by (simp add: cached_body_from_bytes_def deployment_env_def example_answer_def json_get_def try_result_def
        is_streaming_object_def)
  have backed: "backed (cluster_master example_site) (cluster_store example_site ''a'') g" "gs_cache_available g"
    using assms(1) by (simp_all add: deployed_def)
  have control: "CcDefault \<notin> {CcBypass, CcWriteOnly}" by simp
  obtain tier v' where "plain_response deployment_env g (TenantId test_tenant_id) CcDefault example_request Cacheable local_key v =
      (Inr (response_ok example_answer Hit ''skipped'' tier (Some local_key)), v')"
    by (rule cluster.plain_hit [OF backed(1) assms(2) example_url_key assms(3) body control backed(2) TrueI])
  then have "handle_response_request deployment_env g (Some ''Bearer t'') None example_body v =
      (Inr (response_ok example_answer Hit ''skipped'' tier (Some local_key)), v')"
    by (simp add: handle_dispatched [OF deployed_request(1) [OF assms(1)]] respond_def example_plain
        deployed_request(2) [OF assms(1)])
  then show thesis by (intro that [of tier v']) (simp only: deployment_env_eq, simp add: example_gateway_request_def)
qed

lemma busy_run:
  assumes "fleet example_site ''a'' example_node_ssd 8 (\<lambda>_. example_startup) (\<lambda>_. example_app_config) (\<lambda>_. g)" and "deployed g"
  obtains s ss T0 T1 T2 hit where "shared_run g (s # ss)" and "sy_tasks s = [T0, T1, T2]"
    and "task_result T0 = Some (Inr (with_cache_coalesced ''leader'' example_response))" and "tk_gateway T0 = 0"
    and "task_result T1 = Some (Inr waiter_response)" and "tk_gateway T1 = 0"
    and "task_result T2 = Some (Inr hit)" and "tk_gateway T2 = 1" and "header ''x-cache-status'' hit = Some ''hit''"
proof -
  obtain s ss T0 T1 where s: "shared_run g (s # ss)" "sy_tasks s = [T0, T1]"
    "task_result T0 = Some (Inr (with_cache_coalesced ''leader'' example_response))"
    "task_result T1 = Some (Inr waiter_response)" "tk_gateway T0 = 0" "tk_gateway T1 = 0"
    "tk_request T0 = example_gateway_request" "sf_inner (sy_flights s 1) = []"
    by (rule coalesced_run [OF assms(2)])
  note stored = example_stored [OF assms s(1,2,7,3)]
  have world: "gw_world (gateway_view 1 s) = sy_world s" by (simp add: gateway_view_def)
  obtain tier v where "handle_response_request
      \<lparr>env_sha256 = local_digest, env_serde = env_serde deployment_env, env_vendor_micros = 5, env_wait = Inl []\<rparr> g
      (gq_authorization example_gateway_request) (gq_cache_control example_gateway_request) (gq_body example_gateway_request)
      (gateway_view 1 s) = (Inr (response_ok example_answer Hit ''skipped'' tier (Some local_key)), v)"
    by (rule example_hit [OF assms(2) stored(2,1) [folded world]])
  from handled_alone [where gateways = "\<lambda>_. g" and g = 1, OF s(8) this]
  obtain s' T2 where turns: "(turn (\<lambda>_. g))\<^sup>*\<^sup>*
      (arrive local_digest (env_serde deployment_env) (\<lambda>_. g) 1 5 example_gateway_request s) s'"
    and s': "sy_tasks s' = sy_tasks s @ [T2]" "tk_gateway T2 = 1"
      "task_result T2 = Some (Inr (response_ok example_answer Hit ''skipped'' tier (Some local_key)))"
    by blast
  obtain ss' where "shared_run g (s' # ss')" using turns_run [OF turns run_step [OF s(1) step_arrive]] by blast
  then show thesis
    using s s'
    by (intro that [of s' ss' T0 T1 T2 "response_ok example_answer Hit ''skipped'' tier (Some local_key)"])
       (simp_all add: header_labels cache_status_header_def)
qed

section \<open>The contracts at work\<close>

theorem interleaved_answers_are_true_witness:
  "\<exists>g s ss hit waiter. shared_run g (s # ss) \<and> length (sy_tasks s) = 3
     \<and> task_result (sy_tasks s ! 1) = Some (Inr waiter) \<and> header ''x-cache-coalesced'' waiter = Some ''waiter''
     \<and> (\<exists>answer leader. leader \<in> set (sy_tasks s) \<and> tk_gateway leader = 0
          \<and> task_result leader = Some (Inr (with_cache_coalesced ''leader'' answer)) \<and> gr_body waiter = gr_body answer)
     \<and> task_result (sy_tasks s ! 2) = Some (Inr hit) \<and> header ''x-cache-status'' hit = Some ''hit''
     \<and> (\<exists>key bs. served (env_serde deployment_env) bs hit
          \<and> (\<exists>s0 \<in> set (s # ss). cluster_contents example_site example_node_ssd (sy_world s0) key = Some bs))"
proof -
  obtain g where g: "fleet example_site ''a'' example_node_ssd 8 (\<lambda>_. example_startup) (\<lambda>_. example_app_config) (\<lambda>_. g)" "deployed g"
    by (rule example_fleet)
  obtain s ss T0 T1 T2 hit where s: "shared_run g (s # ss)" "sy_tasks s = [T0, T1, T2]"
    "task_result T0 = Some (Inr (with_cache_coalesced ''leader'' example_response))" "tk_gateway T0 = 0"
    "task_result T1 = Some (Inr waiter_response)" "tk_gateway T1 = 0"
    "task_result T2 = Some (Inr hit)" "tk_gateway T2 = 1" "header ''x-cache-status'' hit = Some ''hit''"
    by (rule busy_run [OF g])
  note answer = interleaved_answers_are_true [OF g(1) example_serde_bounded example_site_ok idle_inv s(1)]
  have T: "T1 \<in> set (sy_tasks s)" "T2 \<in> set (sy_tasks s)" using s(2) by simp_all
  have waiter: "header ''x-cache-coalesced'' waiter_response = Some ''waiter''"
    by (simp add: with_cache_write_def with_cache_coalesced_def)
  from mp [OF conjunct2 [OF answer [OF T(1) s(5)]] waiter]
  have led: "\<exists>answer leader. leader \<in> set (sy_tasks s) \<and> tk_gateway leader = 0
      \<and> task_result leader = Some (Inr (with_cache_coalesced ''leader'' answer)) \<and> gr_body waiter_response = gr_body answer"
    unfolding s(6) by blast
  from mp [OF conjunct1 [OF answer [OF T(2) s(7)]] s(9)]
  have held: "\<exists>key bs. served (env_serde deployment_env) bs hit
      \<and> (\<exists>s0 \<in> set (s # ss). cluster_contents example_site example_node_ssd (sy_world s0) key = Some bs)" by blast
  have tasks: "length (sy_tasks s) = 3" "sy_tasks s ! 1 = T1" "sy_tasks s ! 2 = T2" using s(2) by simp_all
  show ?thesis
    by (rule exI [of _ g], rule exI [of _ s], rule exI [of _ ss], rule exI [of _ hit], rule exI [of _ waiter_response],
        intro conjI, rule s(1))
       (simp_all only: tasks s(5,7,9) waiter led held)
qed

theorem interleaved_commits_are_stored_witness:
  "\<exists>g s ss bs. shared_run g (s # ss) \<and> 0 \<in> committed_tasks s
     \<and> cluster_contents example_site example_node_ssd (sy_world s) (TenantId test_tenant_id, local_key) = Some bs"
proof -
  obtain g where g: "fleet example_site ''a'' example_node_ssd 8 (\<lambda>_. example_startup) (\<lambda>_. example_app_config) (\<lambda>_. g)" "deployed g"
    by (rule example_fleet)
  obtain s ss T0 T1 where s: "shared_run g (s # ss)" "sy_tasks s = [T0, T1]"
    "task_result T0 = Some (Inr (with_cache_coalesced ''leader'' example_response))" "tk_gateway T0 = 0"
    "tk_request T0 = example_gateway_request"
    by (rule coalesced_run [OF g(2)])
  have committed: "0 \<in> committed_tasks s" using s(2,3) by (simp add: committed_tasks_def with_cache_coalesced_def header_labels)
  have T0: "sy_tasks s ! 0 = T0" using s(2) by simp
  obtain stored where "\<forall>i \<in> committed_tasks s. \<exists>response bs. task_result (sy_tasks s ! i) = Some (Inr response)
      \<and> asked local_digest (env_serde deployment_env) g (tk_request (sy_tasks s ! i)) (stored i)
      \<and> payload (env_serde deployment_env) response = Inr bs
      \<and> cluster_contents example_site example_node_ssd (sy_world s) (stored i) = Some bs"
    using interleaved_commits_are_stored [OF g(1) example_serde_bounded example_site_ok idle_inv s(1)] by blast
  then obtain bs where "asked local_digest (env_serde deployment_env) g example_gateway_request (stored 0)"
    "cluster_contents example_site example_node_ssd (sy_world s) (stored 0) = Some bs"
    using committed s(5) unfolding T0 [symmetric] by metis
  then show ?thesis using s(1) committed example_asked [OF g(2)] by metis
qed

theorem interleaved_map_changes_witness:
  "\<exists>g s' s ss. shared_run g (s' # s # ss) \<and> length (sy_tasks s') = 3
     \<and> cluster_inv example_site example_node_ssd 8 (sy_world s')
     \<and> cluster_contents example_site example_node_ssd (sy_world s) \<subseteq>\<^sub>m cluster_contents example_site example_node_ssd (sy_world s')"
proof -
  obtain g where g: "fleet example_site ''a'' example_node_ssd 8 (\<lambda>_. example_startup) (\<lambda>_. example_app_config) (\<lambda>_. g)" "deployed g"
    by (rule example_fleet)
  obtain s' ss' T0 T1 T2 where s': "shared_run g (s' # ss')" "sy_tasks s' = [T0, T1, T2]" by (rule busy_run [OF g])
  then obtain s ss where ss: "ss' = s # ss" by (cases ss') (auto elim: system_run.cases)
  from interleaved_map_changes [OF g(1) example_serde_bounded example_site_ok idle_inv s'(1) [unfolded ss]]
  show ?thesis using s' unfolding ss by (intro exI [of _ g] exI [of _ s'] exI [of _ s] exI [of _ ss]) simp
qed

theorem every_schedule_ends_witness:
  "\<exists>g s. shared_run g [s, idle_system] \<and> length (sy_tasks s) = 1 \<and> \<not> task_over (sy_tasks s ! 0)
     \<and> (\<exists>s'. resume (\<lambda>_. g) 0 s = Some s')"
proof -
  obtain g where g: "fleet example_site ''a'' example_node_ssd 8 (\<lambda>_. example_startup) (\<lambda>_. example_app_config) (\<lambda>_. g)" "deployed g"
    by (rule example_fleet)
  let ?s = "arrive local_digest (env_serde deployment_env) (\<lambda>_. g) 0 5 example_gateway_request idle_system"
  have run: "shared_run g [?s, idle_system]" using idle_run by (intro run_step step_arrive)
  have one: "length (sy_tasks ?s) = 1" by (simp add: arrive_def idle_system_def Let_def)
  have "tk_program (sy_tasks ?s ! 0) = Some (example_program g)"
    unfolding arrive_def deployment_env_eq by (simp add: idle_system_def example_gateway_request_def)
  moreover have "example_program g \<noteq> Return a" for a
    using deployed_request(1) [OF g(2)] by (auto simp: dispatched_def handle_response_program_def)
  ultimately have "\<not> task_over (sy_tasks ?s ! 0)" by (auto simp: task_not_over)
  moreover from this have "\<exists>j < length (sy_tasks ?s). \<exists>s'. resume (\<lambda>_. g) j ?s = Some s'"
    using every_schedule_ends [OF g(1) example_serde_bounded example_site_ok idle_inv run] one by (metis less_one)
  ultimately show ?thesis using run one by (intro exI [of _ g] exI [of _ ?s]) auto
qed


section \<open>A dropped request\<close>

text \<open>The leader's program, up to the write into its reservation.\<close>

lemma example_reserved_steps:
  assumes "deployed g" and "unwritten (gw_world v)"
  shows "\<exists>p v'. program_steps g (begun example_miss (Leader leader)) v p v'
    \<and> being_written p = Some (TenantId test_tenant_id, local_key)"
proof -
  let ?t = "TenantId test_tenant_id" and ?w = "gw_world v"
  obtain r1 w1 where start: "mc_put_start (cluster_master example_site) ?t local_key 1 1 ?w = (r1, w1)" by fastforce
  have "r1 = Inr [example_replica]"
    by (rule Network.cluster_start [OF example_site_ok example_url_key start])
       (use assms(2) in \<open>auto simp: example_calm unwritten_def example_reserved\<close>)
  then have start': "mc_put_start (gs_master_client g) ?t local_key 1 1 ?w = (Inr [example_replica], w1)"
    using start assms(1) by (simp add: deployed_def backed_def)
  have bytes: "sj_to_vec (env_serde deployment_env) example_answer = Inr ''a''" by (simp add: deployment_env_def)
  let ?micros = "record_vendor_call (env_vendor_micros deployment_env)"
  let ?v1 = "on_metrics (record_singleflight RoleLeader) v" and ?v2 = "on_metrics ?micros (on_metrics (record_singleflight RoleLeader) v)"
  have worlds: "gw_world ?v1 = ?w" "gw_world ?v2 = ?w" by (simp_all add: on_metrics_def)
  obtain c where c: "program_step g (begun example_miss (Leader leader)) v = Some (Complete example_request c, ?v1)"
    "\<exists>c'. c (Inr example_answer) = Count ?micros (PutStart ?t local_key 1 1 c')
       \<and> being_written (c' (Inr [example_replica])) = Some (?t, local_key)"
    by (simp add: coalesced_miss_program_def cacheable_non_streaming_miss_program_def complete_vendor_program_def
        try_program_def write_or_failed_program_def write_cached_bytes_program_def bytes replica_count_def from_replica_def)
  then obtain c' where c': "c (Inr example_answer) = Count ?micros (PutStart ?t local_key 1 1 c')"
    "being_written (c' (Inr [example_replica])) = Some (?t, local_key)"
    by blast
  have s2: "program_step g (Complete example_request c) ?v1 = Some (Count ?micros (PutStart ?t local_key 1 1 c'), ?v1)"
    by (simp add: c'(1) answered_def on_world_def deployed_request(3) [OF assms(1)])
  have s3: "program_step g (Count ?micros (PutStart ?t local_key 1 1 c')) ?v1 = Some (PutStart ?t local_key 1 1 c', ?v2)" by simp
  have s4: "program_step g (PutStart ?t local_key 1 1 c') ?v2 = Some (c' (Inr [example_replica]), ?v2\<lparr>gw_world := w1\<rparr>)"
    using start' worlds by (simp add: answered_def on_world_def)
  have "program_steps g (begun example_miss (Leader leader)) v (c' (Inr [example_replica])) (?v2\<lparr>gw_world := w1\<rparr>)"
    by (rule steps_step [OF c(1)], rule steps_step [OF s2], rule steps_step [OF s3], rule steps_step [OF s4], rule steps_refl)
  then show ?thesis using c'(2) by blast
qed

theorem dropped_write_blocks_key_witness:
  "\<exists>g s' later s ss p. shared_run g (s' # later @ drop_task 0 s # s # ss) \<and> tk_program (sy_tasks s ! 0) = Some p
     \<and> being_written p = Some (TenantId test_tenant_id, local_key)
     \<and> length (sy_tasks s') = 2 \<and> task_over (sy_tasks s' ! 1)
     \<and> cluster_contents example_site example_node_ssd (sy_world s') (TenantId test_tenant_id, local_key) = None"
proof -
  obtain g where g: "fleet example_site ''a'' example_node_ssd 8 (\<lambda>_. example_startup) (\<lambda>_. example_app_config) (\<lambda>_. g)" "deployed g"
    by (rule example_fleet)
  obtain f1 where "sf_begin request_flight (gw_flights (gateway_view 0 idle_system)) = (Leader request_flight, f1)"
    by (simp add: sf_begin_def singleflight_new_def idle_system_def gateway_view_def)
  moreover have "unwritten (gw_world (gateway_view 0 idle_system))"
    by (simp add: idle_system_def gateway_view_def unwritten_def example_cluster_def)
  ultimately obtain v1 where v1: "program_steps g (example_program g) (gateway_view 0 idle_system) (begun example_miss (Leader request_flight)) v1"
    "unwritten (gw_world v1)"
    using example_miss_steps [OF g(2), of "gateway_view 0 idle_system"] by force
  obtain p v2 where p: "program_steps g (begun example_miss (Leader request_flight)) v1 p v2"
    "being_written p = Some (TenantId test_tenant_id, local_key)"
    using example_reserved_steps [OF g(2) v1(2)] by blast
  obtain s ss T where s: "shared_run g (s # ss)" "sy_tasks s = sy_tasks idle_system @ [T]" "tk_program T = Some p" "tk_gateway T = 0"
    "\<forall>h. h \<noteq> 0 \<longrightarrow> sy_flights s h = sy_flights idle_system h"
    by (rule example_arrives [OF idle_run program_steps_trans [OF v1(1) p(1)]])
  have tasks: "sy_tasks s = [T]" using s(2) by (simp add: idle_system_def)
  then have opened: "0 < length (sy_tasks s)" "tk_program (sy_tasks s ! 0) = Some p" "\<not> task_over (sy_tasks s ! 0)"
    using s(3) p(2) by (auto simp: task_not_over)
  have dropped: "shared_run g (drop_task 0 s # s # ss)" using s(1) opened by (intro run_step step_turn turn_drop)
  have flights: "sf_inner (sy_flights (drop_task 0 s) 1) = []"
    using s(4,5) tasks by (simp add: drop_task_def update_task_def Let_def idle_system_def singleflight_new_def split: option.splits)
  obtain a v where "handle_response_request \<lparr>env_sha256 = local_digest, env_serde = env_serde deployment_env, env_vendor_micros = 5,
      env_wait = Inl []\<rparr> ((\<lambda>_. g) 1) (gq_authorization example_gateway_request) (gq_cache_control example_gateway_request)
      (gq_body example_gateway_request) (gateway_view 1 (drop_task 0 s)) = (a, v)" by fastforce
  from handled_alone [where gateways = "\<lambda>_. g" and g = 1, OF flights this]
  obtain s' T' where turns: "(turn (\<lambda>_. g))\<^sup>*\<^sup>*
      (arrive local_digest (env_serde deployment_env) (\<lambda>_. g) 1 5 example_gateway_request (drop_task 0 s)) s'"
    and s': "sy_tasks s' = sy_tasks (drop_task 0 s) @ [T']" "task_result T' = Some a" by blast
  obtain later where run: "shared_run g (s' # later @ drop_task 0 s # s # ss)"
  proof -
    obtain ss' before where "shared_run g (s' # ss')" "s' # ss' = before @
        arrive local_digest (env_serde deployment_env) (\<lambda>_. g) 1 5 example_gateway_request (drop_task 0 s) # drop_task 0 s # s # ss"
      using turns_run [OF turns run_step [OF dropped step_arrive]] by blast
    then show thesis by (cases before) (auto intro: that [of "[]"] that [of "tl before @ [x]" for x])
  qed
  have "length (sy_tasks s') = 2" "task_over (sy_tasks s' ! 1)"
    using s' tasks by (simp_all add: drop_task_tasks task_over_def)
  moreover have "cluster_contents example_site example_node_ssd (sy_world s') (TenantId test_tenant_id, local_key) = None"
    by (rule dropped_write_blocks_key [OF g(1) example_serde_bounded example_site_ok idle_inv run opened(1,2) p(2)])
  ultimately show ?thesis using run opened(2) p(2) by blast
qed

end
