(* ===== verification/Master_Tasks.thy ===== *)
theory Master_Tasks
imports Master_App
begin

text \<open>
  The master service with any number of requests in flight. A handler of
  \<^verbatim>\<open>apps/master/src/main.rs\<close> that changes the master locks it for the change, locks it again
  for the snapshot, and awaits the save with the lock released; between these steps the other
  requests take theirs. What an acknowledged change means under every interleaving, and what it
  does not.
\<close>

section \<open>Handlers as tasks\<close>

datatype handler_task =
    Received change_request
  | Changed json
  | Saving json master_metadata_snapshot
  | Replied reply
  | Dropped

record 'w service =
  sv_run :: "'w master_run"
  sv_tasks :: "handler_task list"

text \<open>A task up to its next release of the lock, or its next answer of the metadata store.\<close>

fun take_turn :: "'w master_app_state \<Rightarrow> handler_task \<Rightarrow> 'w master_run \<Rightarrow> handler_task \<times> 'w master_run" where
  "take_turn app (Received req) s =
     (case make_change app req (mr_master s) of
        (Inl reply, st) \<Rightarrow> (Replied reply, s\<lparr>mr_master := st\<rparr>)
      | (Inr body, st) \<Rightarrow> (Changed body, s\<lparr>mr_master := st\<rparr>))"
| "take_turn app (Changed body) s = (Saving body (metadata_snapshot (mr_master s)), s)"
| "take_turn app (Saving body snap) s =
     (case save_snapshot app snap (mr_world s) of
        (r, w) \<Rightarrow> (Replied (saved_reply body r), s\<lparr>mr_world := w\<rparr>))"
| "take_turn app (Replied reply) s = (Replied reply, s)"
| "take_turn app Dropped s = (Dropped, s)"

text \<open>
  What happens next: a request arrives, a task takes a turn, the caller of a task that awaits its
  save hangs up (the save itself may be done or not), or a lookup is served.
\<close>

datatype service_event =
    Receive change_request
  | Turn nat
  | HangUp nat bool
  | LookUp u64 replica_list_query

fun service_step :: "'w master_app_state \<Rightarrow> service_event \<Rightarrow> 'w service \<Rightarrow> 'w service" where
  "service_step app (Receive req) c = c\<lparr>sv_tasks := sv_tasks c @ [Received req]\<rparr>"
| "service_step app (Turn i) c =
     (if i < length (sv_tasks c)
      then (case take_turn app (sv_tasks c ! i) (sv_run c) of
              (t, s) \<Rightarrow> \<lparr>sv_run = s, sv_tasks = (sv_tasks c)[i := t]\<rparr>)
      else c)"
| "service_step app (HangUp i save_done) c =
     (if i < length (sv_tasks c)
      then (case sv_tasks c ! i of
              Saving body snap \<Rightarrow>
                \<lparr>sv_run = (if save_done then snd (take_turn app (Saving body snap) (sv_run c)) else sv_run c),
                 sv_tasks = (sv_tasks c)[i := Dropped]\<rparr>
            | _ \<Rightarrow> c)
      else c)"
| "service_step app (LookUp now query) c = c\<lparr>sv_run := snd (handle_get_replica_list now query (sv_run c))\<rparr>"

definition serve :: "'w master_app_state \<Rightarrow> service_event list \<Rightarrow> 'w service \<Rightarrow> 'w service" where
  "serve app events c = fold (service_step app) events c"

abbreviation master_after :: "'w master_app_state \<Rightarrow> service_event list \<Rightarrow> 'w service \<Rightarrow> master_state" where
  "master_after app events c \<equiv> mr_master (sv_run (serve app events c))"

abbreviation world_after :: "'w master_app_state \<Rightarrow> service_event list \<Rightarrow> 'w service \<Rightarrow> 'w" where
  "world_after app events c \<equiv> mr_world (sv_run (serve app events c))"

lemma serve_simps [simp]:
  "serve app [] c = c"
  "serve app (e1 @ e2) c = serve app e2 (serve app e1 c)"
  "serve app (e # es) c = serve app es (service_step app e c)"
  by (simp_all add: serve_def)

text \<open>A task that is not disturbed is the handler.\<close>

lemma undisturbed_task:
  assumes "handle_change app req (sv_run c) = (reply, s')"
  shows "\<exists>n \<le> 3. serve app (Receive req # replicate n (Turn (length (sv_tasks c)))) c =
    \<lparr>sv_run = s', sv_tasks = sv_tasks c @ [Replied reply]\<rparr>"
proof -
  obtain r st where change: "make_change app req (mr_master (sv_run c)) = (r, st)" by fastforce
  show ?thesis
  proof (cases r)
    case (Inl response)
    then show ?thesis
      using assms change
      by (intro exI [of _ "Suc 0"]) (simp add: handle_change_uninterrupted uninterrupted_def)
  next
    case (Inr body)
    then show ?thesis
      using assms change
      by (intro exI [of _ "Suc (Suc (Suc 0))"])
         (auto simp: handle_change_uninterrupted uninterrupted_def split: prod.splits)
  qed
qed

section \<open>What a step does to one task\<close>

lemma length_service_step: "length (sv_tasks c) \<le> length (sv_tasks (service_step app ev c))"
  by (cases ev) (auto split: handler_task.splits prod.splits)

lemma length_serve: "length (sv_tasks c) \<le> length (sv_tasks (serve app es c))"
  by (induction es arbitrary: c) (simp, metis le_trans length_service_step serve_simps(3))

lemma service_step_task:
  assumes "i < length (sv_tasks c)"
  shows "sv_tasks (service_step app ev c) ! i = sv_tasks c ! i
    \<or> (ev = Turn i \<and> take_turn app (sv_tasks c ! i) (sv_run c)
         = (sv_tasks (service_step app ev c) ! i, sv_run (service_step app ev c)))
    \<or> sv_tasks (service_step app ev c) ! i = Dropped"
  using assms by (cases ev) (auto simp: nth_append nth_list_update split: handler_task.splits prod.splits)

text \<open>A task that awaits its save took its snapshot in this step, or was awaiting it before.\<close>

lemma service_step_saving:
  assumes "Saving body snap \<in> set (sv_tasks (service_step app ev c))"
  shows "Saving body snap \<in> set (sv_tasks c) \<or> snap = metadata_snapshot (mr_master (sv_run c))"
proof (cases ev)
  case (Turn i)
  then show ?thesis
    using assms
    by (cases "i < length (sv_tasks c)"; cases "sv_tasks c ! i")
       (auto dest!: set_update_subset_insert [THEN subsetD] split: prod.splits sum.splits if_splits)
next
  case (HangUp i b)
  then show ?thesis
    using assms
    by (auto dest!: set_update_subset_insert [THEN subsetD] split: handler_task.splits if_splits)
qed (use assms in auto)

lemma service_step_saves:
  assumes "i < length (sv_tasks c)" and "sv_tasks c ! i = Received req" and "\<forall>body snap. Saving body snap \<notin> set (sv_tasks c)"
    and "Saving body snap \<in> set (sv_tasks (service_step app (Turn i) c))"
  shows False
  using assms
  by (auto dest!: set_update_subset_insert [THEN subsetD] split: prod.splits sum.splits)

lemma handle_get_replica_list_world [simp]: "mr_world (snd (handle_get_replica_list now q s)) = mr_world s"
  by (simp add: handle_get_replica_list_def split: sum.splits prod.splits)

context atomic_metadata_store
begin

text \<open>A step stores nothing, or the snapshot of a task that awaits its save.\<close>

lemma service_step_stored:
  assumes "ma_metadata app = ops"
  shows "stored (mr_world (sv_run (service_step app ev c))) = stored (mr_world (sv_run c))
    \<or> (\<exists>body snap. Saving body snap \<in> set (sv_tasks c)
         \<and> stored (mr_world (sv_run (service_step app ev c))) = Some snap)"
proof (cases ev)
  case (Turn i)
  show ?thesis
  proof (cases "\<exists>body snap. i < length (sv_tasks c) \<and> sv_tasks c ! i = Saving body snap")
    case True
    then obtain body snap where task: "i < length (sv_tasks c)" "sv_tasks c ! i = Saving body snap" by blast
    then have "Saving body snap \<in> set (sv_tasks c)" by (metis nth_mem)
    then show ?thesis
      using save_stores [of snap "mr_world (sv_run c)"] Turn task assms
      by (auto simp: save_snapshot_def split: prod.splits)
  next
    case False
    then show ?thesis
      using Turn by (cases "sv_tasks c ! i") (auto split: prod.splits sum.splits)
  qed
next
  case (HangUp i b)
  show ?thesis
  proof (cases "\<exists>body snap. i < length (sv_tasks c) \<and> sv_tasks c ! i = Saving body snap")
    case True
    then obtain body snap where task: "i < length (sv_tasks c)" "sv_tasks c ! i = Saving body snap" by blast
    then have "Saving body snap \<in> set (sv_tasks c)" by (metis nth_mem)
    then show ?thesis
      using save_stores [of snap "mr_world (sv_run c)"] HangUp task assms
      by (auto simp: save_snapshot_def split: prod.splits)
  next
    case False
    then show ?thesis using HangUp by (auto split: handler_task.splits)
  qed
qed simp_all

text \<open>
  From a moment on without a save in flight, whatever is saved is the snapshot of a later state.
\<close>

lemma saving_after:
  assumes "\<forall>body snap. Saving body snap \<notin> set (sv_tasks c)"
    and "Saving body snap \<in> set (sv_tasks (serve app es c))"
  shows "\<exists>d1 d2. es = d1 @ d2 \<and> snap = metadata_snapshot (master_after app d1 c)"
  using assms(2)
proof (induction es rule: rev_induct)
  case (snoc ev es)
  then show ?case
    using service_step_saving [of body snap app ev "serve app es c"]
    by simp (metis append.assoc append_Nil2)
qed (use assms(1) in simp)

lemma stored_after:
  assumes "ma_metadata app = ops" and "\<forall>body snap. Saving body snap \<notin> set (sv_tasks c)"
    and "es = d1 @ d2" and "stored (world_after app es c) = Some (metadata_snapshot (master_after app d1 c))"
  shows "\<exists>d1 d2. es @ fs = d1 @ d2
    \<and> stored (world_after app (es @ fs) c) = Some (metadata_snapshot (master_after app d1 c))"
proof (induction fs rule: rev_induct)
  case Nil
  then show ?case using assms(3,4) by auto
next
  case (snoc ev fs)
  then obtain d1 d2 where old: "es @ fs = d1 @ d2"
    "stored (world_after app (es @ fs) c) = Some (metadata_snapshot (master_after app d1 c))" by blast
  have last: "serve app (es @ fs @ [ev]) c = service_step app ev (serve app (es @ fs) c)" by simp
  from service_step_stored [OF assms(1), of ev "serve app (es @ fs) c"] show ?case
  proof
    assume "stored (mr_world (sv_run (service_step app ev (serve app (es @ fs) c)))) = stored (world_after app (es @ fs) c)"
    then have "es @ fs @ [ev] = d1 @ (d2 @ [ev])
      \<and> stored (world_after app (es @ fs @ [ev]) c) = Some (metadata_snapshot (master_after app d1 c))"
      using old last by (simp del: serve_simps)
    then show ?thesis by blast
  next
    assume "\<exists>body snap. Saving body snap \<in> set (sv_tasks (serve app (es @ fs) c))
      \<and> stored (mr_world (sv_run (service_step app ev (serve app (es @ fs) c)))) = Some snap"
    then obtain body snap where "Saving body snap \<in> set (sv_tasks (serve app (es @ fs) c))"
      and new: "stored (world_after app (es @ fs @ [ev]) c) = Some snap" using last by (auto simp del: serve_simps)
    from saving_after [OF assms(2) this(1)] obtain e1 e2 where "es @ fs = e1 @ e2"
      "snap = metadata_snapshot (master_after app e1 c)" by blast
    then have "es @ fs @ [ev] = e1 @ (e2 @ [ev])
      \<and> stored (world_after app (es @ fs @ [ev]) c) = Some (metadata_snapshot (master_after app e1 c))"
      using new by (simp del: serve_simps)
    then show ?thesis by blast
  qed
qed

end

section \<open>The history of a task\<close>

definition changed_at ::
  "'w master_app_state \<Rightarrow> 'w service \<Rightarrow> nat \<Rightarrow> change_request \<Rightarrow> service_event list \<Rightarrow> json \<Rightarrow> bool" where
  "changed_at app c i req es body \<longleftrightarrow> sv_tasks (serve app es c) ! i = Received req \<and>
     make_change app req (master_after app es c) = (Inr body, master_after app (es @ [Turn i]) c)"

definition saved_at ::
  "'w master_app_state \<Rightarrow> 'w service \<Rightarrow> nat \<Rightarrow> service_event list \<Rightarrow> service_event list \<Rightarrow> reply + unit \<Rightarrow> bool" where
  "saved_at app c i taken es r \<longleftrightarrow>
     save_snapshot app (metadata_snapshot (master_after app taken c)) (world_after app es c) =
       (r, world_after app (es @ [Turn i]) c)"

fun history ::
  "'w master_app_state \<Rightarrow> 'w service \<Rightarrow> nat \<Rightarrow> change_request \<Rightarrow> service_event list \<Rightarrow> handler_task \<Rightarrow> bool" where
  "history app c i req es (Received r) \<longleftrightarrow> r = req"
| "history app c i req es (Changed body) \<longleftrightarrow> (\<exists>e1 e2. es = e1 @ Turn i # e2 \<and> changed_at app c i req e1 body)"
| "history app c i req es (Saving body snap) \<longleftrightarrow>
     (\<exists>e1 e2 e3. es = e1 @ Turn i # e2 @ Turn i # e3 \<and> changed_at app c i req e1 body
        \<and> snap = metadata_snapshot (master_after app (e1 @ Turn i # e2) c))"
| "history app c i req es (Replied reply) \<longleftrightarrow>
     (\<exists>e1 e2. es = e1 @ Turn i # e2
        \<and> make_change app req (master_after app e1 c) = (Inl reply, master_after app (e1 @ [Turn i]) c)
        \<and> sv_run (serve app (e1 @ [Turn i]) c) =
            (sv_run (serve app e1 c))\<lparr>mr_master := master_after app (e1 @ [Turn i]) c\<rparr>)
     \<or> (\<exists>e1 e2 e3 e4 body r. es = e1 @ Turn i # e2 @ Turn i # e3 @ Turn i # e4 \<and> changed_at app c i req e1 body
        \<and> saved_at app c i (e1 @ Turn i # e2) (e1 @ Turn i # e2 @ Turn i # e3) r \<and> reply = saved_reply body r)"
| "history app c i req es Dropped \<longleftrightarrow> True"

lemma history_mono:
  assumes "history app c i req es t"
  shows "history app c i req (es @ fs) t"
proof -
  have "e1 @ (Turn i # e2) @ fs = e1 @ Turn i # (e2 @ fs)" for e1 e2 by simp
  then show ?thesis
    using assms by (cases t; simp del: serve_simps) (metis append_Cons append_assoc)+
qed

lemma take_turn_history:
  assumes "history app c i req es t" and "serve app (es @ [Turn i]) c = c'" and "sv_run c' = s'"
    and "take_turn app t (sv_run (serve app es c)) = (t', s')" and "t = sv_tasks (serve app es c) ! i"
  shows "history app c i req (es @ [Turn i]) t'"
proof (cases t)
  case (Received r)
  obtain res st where change: "make_change app req (master_after app es c) = (res, st)" by fastforce
  have "mr_master s' = st" using assms(1,4) change Received by (auto split: sum.splits)
  then have st: "st = master_after app (es @ [Turn i]) c" using assms(2,3) by blast
  show ?thesis
  proof (cases res)
    case (Inl reply)
    then have "t' = Replied reply" "s' = (sv_run (serve app es c))\<lparr>mr_master := st\<rparr>"
      using assms(1,4) Received change by auto
    then have "es @ [Turn i] = es @ Turn i # []"
      "make_change app req (master_after app es c) = (Inl reply, master_after app (es @ [Turn i]) c)"
      "sv_run (serve app (es @ [Turn i]) c) = (sv_run (serve app es c))\<lparr>mr_master := master_after app (es @ [Turn i]) c\<rparr>"
      using Inl change st assms(2,3) by (simp_all del: serve_simps)
    then show ?thesis unfolding \<open>t' = Replied reply\<close> history.simps(4) by blast
  next
    case (Inr body)
    then have "t' = Changed body" "r = req" using assms(1,4) Received change by auto
    moreover have "es @ [Turn i] = es @ Turn i # []" by simp
    moreover have "changed_at app c i req es body"
      using Inr change st assms(5) Received \<open>r = req\<close> by (simp add: changed_at_def del: serve_simps)
    ultimately show ?thesis by (simp del: serve_simps) blast
  qed
next
  case (Changed body)
  then obtain e1 e2 where "es = e1 @ Turn i # e2" "changed_at app c i req e1 body" using assms(1) by auto
  moreover from this have "t' = Saving body (metadata_snapshot (master_after app (e1 @ Turn i # e2) c))"
    using assms(4) Changed by (auto simp del: serve_simps)
  moreover have "es @ [Turn i] = e1 @ Turn i # e2 @ Turn i # []" if "es = e1 @ Turn i # e2" using that by simp
  ultimately show ?thesis by (simp del: serve_simps) blast
next
  case (Saving body snap)
  then obtain e1 e2 e3 where es: "es = e1 @ Turn i # e2 @ Turn i # e3" and c1: "changed_at app c i req e1 body"
    and snap: "snap = metadata_snapshot (master_after app (e1 @ Turn i # e2) c)" using assms(1) by auto
  obtain r w where sv: "save_snapshot app snap (world_after app es c) = (r, w)" by fastforce
  then have "t' = Replied (saved_reply body r)" "mr_world s' = w" using assms(4) Saving by auto
  moreover from this have "w = world_after app (es @ [Turn i]) c" using assms(2,3) by blast
  moreover from this have "saved_at app c i (e1 @ Turn i # e2) (e1 @ Turn i # e2 @ Turn i # e3) r"
    using sv snap unfolding es saved_at_def by (simp del: serve_simps)
  moreover have "es @ [Turn i] = e1 @ Turn i # e2 @ Turn i # e3 @ Turn i # []" using es by simp
  ultimately show ?thesis using c1 by (simp del: serve_simps) blast
next
  case (Replied reply)
  then show ?thesis using assms(1,4) history_mono by (metis prod.inject take_turn.simps(4))
next
  case Dropped
  then show ?thesis using assms(4) by auto
qed

lemma task_history:
  assumes "i < length (sv_tasks c)" and "sv_tasks c ! i = Received req"
  shows "history app c i req es (sv_tasks (serve app es c) ! i)"
proof (induction es rule: rev_induct)
  case (snoc ev es)
  have "i < length (sv_tasks (serve app es c))" using assms(1) length_serve le_trans not_less by metis
  then have "sv_tasks (serve app (es @ [ev]) c) ! i = sv_tasks (serve app es c) ! i
    \<or> (ev = Turn i \<and> take_turn app (sv_tasks (serve app es c) ! i) (sv_run (serve app es c))
         = (sv_tasks (serve app (es @ [ev]) c) ! i, sv_run (serve app (es @ [ev]) c)))
    \<or> sv_tasks (serve app (es @ [ev]) c) ! i = Dropped"
    using service_step_task [of i "serve app es c" app ev] by simp
  then show ?case
  proof (elim disjE conjE)
    assume "ev = Turn i" "take_turn app (sv_tasks (serve app es c) ! i) (sv_run (serve app es c))
      = (sv_tasks (serve app (es @ [ev]) c) ! i, sv_run (serve app (es @ [ev]) c))"
    then show ?thesis using take_turn_history [OF snoc.IH refl refl _ refl] by blast
  qed (use snoc.IH history_mono in \<open>simp_all del: serve_simps\<close>)
qed (use assms in simp)

lemma service_step_reachable:
  assumes "master_reachable (mr_master (sv_run c))"
  shows "master_reachable (mr_master (sv_run (service_step app ev c)))"
proof -
  have turn: "master_reachable (mr_master (snd (take_turn app t (sv_run c))))" for t
    using make_change_reachable [OF assms] assms
    by (cases t) (auto split: prod.splits sum.splits)
  show ?thesis
  proof (cases ev)
    case (Turn i)
    then show ?thesis using turn [of "sv_tasks c ! i"] assms by (auto split: prod.splits)
  next
    case (HangUp i b)
    then show ?thesis using turn [of "sv_tasks c ! i"] assms by (auto split: handler_task.splits)
  next
    case (LookUp now q)
    then show ?thesis
      using assms reach_step [OF assms step_get]
      by (auto simp: handle_get_replica_list_def split: sum.splits prod.splits) (metis snd_conv)+
  qed (use assms in simp)
qed

lemma serve_reachable:
  "master_reachable (mr_master (sv_run c)) \<Longrightarrow> master_reachable (master_after app es c)"
  by (induction es arbitrary: c) (simp_all add: service_step_reachable)

section \<open>What an answer means\<close>

definition no_save_in_flight :: "'w service \<Rightarrow> bool" where
  "no_save_in_flight c \<longleftrightarrow> list_all (\<lambda>t. case t of Saving _ _ \<Rightarrow> False | _ \<Rightarrow> True) (sv_tasks c)"

lemma no_save_in_flight_iff: "no_save_in_flight c \<longleftrightarrow> (\<forall>body snap. Saving body snap \<notin> set (sv_tasks c))"
  by (auto simp: no_save_in_flight_def list_all_iff split: handler_task.splits)

text \<open>A master that restores what the store loads has the objects and the quotas of \<open>st\<close>.\<close>

definition loads_tables_of :: "'w master_app_state \<Rightarrow> 'w \<Rightarrow> master_state \<Rightarrow> bool" where
  "loads_tables_of app w st \<longleftrightarrow>
     (\<forall>x w'. md_load (ma_metadata app) w = (Inr x, w') \<longrightarrow>
        (\<exists>snap. x = Some snap \<and> hm_get (objects (from_metadata_snapshot snap)) = hm_get (objects st)
           \<and> hm_get (quotas (from_metadata_snapshot snap)) = hm_get (quotas st)))"

lemma loads_tables_ofI:
  "atomic_metadata_store (ma_metadata app) stored \<Longrightarrow> master_reachable st \<Longrightarrow>
   stored w = Some (metadata_snapshot st) \<Longrightarrow> loads_tables_of app w st"
  using persisted_tables [of "ma_metadata app" stored st w] atomic_metadata_store.axioms(1) [of "ma_metadata app" stored]
  by (simp add: loads_tables_of_def)

text \<open>When no save is in flight at the change, what is stored later is never older than it.\<close>

lemma stored_covers_change:
  assumes "atomic_metadata_store (ma_metadata app) stored" and "i < length (sv_tasks c)"
    and "sv_tasks (serve app e1 c) ! i = Received req" and "no_save_in_flight (serve app e1 c)"
    and "stored (world_after app (e1 @ Turn i # d1 @ d2) c) = Some (metadata_snapshot (master_after app (e1 @ Turn i # d1) c))"
  shows "\<exists>f1 f2. d1 @ d2 @ d3 = f1 @ f2
    \<and> stored (world_after app (e1 @ Turn i # d1 @ d2 @ d3) c) = Some (metadata_snapshot (master_after app (e1 @ Turn i # f1) c))"
proof -
  let ?c = "service_step app (Turn i) (serve app e1 c)"
  have len: "i < length (sv_tasks (serve app e1 c))" using assms(2) length_serve le_trans not_less by metis
  have "\<forall>body snap. Saving body snap \<notin> set (sv_tasks ?c)"
    using service_step_saves [OF len assms(3)] assms(4) unfolding no_save_in_flight_iff by blast
  note after = atomic_metadata_store.stored_after [OF assms(1) refl this refl, of d1 d2 d3]
  have eq: "serve app (e1 @ Turn i # es) c = serve app es ?c" for es by simp
  show ?thesis using after assms(5) unfolding eq append_assoc by blast
qed

lemma save_snapshot_reply:
  assumes "save_snapshot app snap w = (r, w')"
  shows "fst (saved_reply body r) = 200 \<and> md_save (ma_metadata app) snap w = (Inr (), w')
    \<or> fst (saved_reply body r) = 503 \<and> (\<exists>e. md_save (ma_metadata app) snap w = (Inl e, w'))"
proof -
  obtain sv w1 where "md_save (ma_metadata app) snap w = (sv, w1)" by fastforce
  then show ?thesis using assms by (cases sv) (auto simp: save_snapshot_def saved_reply_def)
qed

lemma acknowledged_history:
  assumes "atomic_metadata_store (ma_metadata app) stored" and "master_reachable (mr_master (sv_run c))"
    and "i < length (sv_tasks c)" and "saved_at app c i (e1 @ Turn i # d1) (e1 @ Turn i # d1 @ Turn i # d2) r"
    and "saved_reply body r = (200, b)" and "sv_tasks (serve app e1 c) ! i = Received req"
  shows "loads_tables_of app (world_after app (e1 @ Turn i # d1 @ Turn i # d2 @ [Turn i]) c)
      (master_after app (e1 @ Turn i # d1) c)"
    and "no_save_in_flight (serve app e1 c) \<Longrightarrow> \<exists>f1 f2. d1 @ Turn i # d2 @ Turn i # d3 = f1 @ f2
      \<and> loads_tables_of app (world_after app (e1 @ Turn i # d1 @ Turn i # d2 @ Turn i # d3) c)
          (master_after app (e1 @ Turn i # f1) c)"
proof -
  have loads: "stored w = Some (metadata_snapshot (master_after app es c))
      \<Longrightarrow> loads_tables_of app w (master_after app es c)" for w es
    using loads_tables_ofI [OF assms(1) serve_reachable [OF assms(2)]] by blast
  have "md_save (ma_metadata app) (metadata_snapshot (master_after app (e1 @ Turn i # d1) c))
      (world_after app (e1 @ Turn i # d1 @ Turn i # d2) c)
      = (Inr (), world_after app (e1 @ Turn i # d1 @ Turn i # d2 @ [Turn i]) c)"
    using save_snapshot_reply [OF assms(4) [unfolded saved_at_def append_assoc append_Cons], of body] assms(5) by auto
  then have st: "stored (world_after app (e1 @ Turn i # d1 @ Turn i # d2 @ [Turn i]) c)
      = Some (metadata_snapshot (master_after app (e1 @ Turn i # d1) c))"
    using metadata_store.save_stored [OF atomic_metadata_store.axioms(1) [OF assms(1)]] by blast
  then show "loads_tables_of app (world_after app (e1 @ Turn i # d1 @ Turn i # d2 @ [Turn i]) c)
      (master_after app (e1 @ Turn i # d1) c)" by (rule loads)
  assume "no_save_in_flight (serve app e1 c)"
  from stored_covers_change [OF assms(1,3,6) this, of d1 "Turn i # d2 @ [Turn i]" d3] st
  obtain f1 f2 where "d1 @ (Turn i # d2 @ [Turn i]) @ d3 = f1 @ f2"
    "stored (world_after app (e1 @ Turn i # d1 @ (Turn i # d2 @ [Turn i]) @ d3) c) = Some (metadata_snapshot (master_after app (e1 @ Turn i # f1) c))"
    by blast
  then have "d1 @ Turn i # d2 @ Turn i # d3 = f1 @ f2
      \<and> loads_tables_of app (world_after app (e1 @ Turn i # d1 @ Turn i # d2 @ Turn i # d3) c) (master_after app (e1 @ Turn i # f1) c)"
    using loads by (simp del: serve_simps)
  then show "\<exists>f1 f2. d1 @ Turn i # d2 @ Turn i # d3 = f1 @ f2
      \<and> loads_tables_of app (world_after app (e1 @ Turn i # d1 @ Turn i # d2 @ Turn i # d3) c)
          (master_after app (e1 @ Turn i # f1) c)" by blast
qed

lemma error_response_status [simp]: "fst (error_response e) = cache_error_status e"
  by (simp add: error_response_def)

text \<open>
  C13: What the answers of the master service mean, under every interleaving of its requests,
  with callers that hang up and lookups in between. A request that was answered has had its
  turn at the master at one moment of the run. The answer is 200, or 503 of a leader, if and
  only if the control plane made the change at that moment; otherwise that turn changed
  nothing, and a standby answers 503. An answer 200 is given after the store has acknowledged
  a snapshot that was taken at or after the change: whoever loads the metadata at that moment
  restores the objects and quotas of that state. What is loaded later is never older than the
  change provided that no save was in flight when the change was made. Without this condition
  the change may be lost (the theorem after this one).
\<close>

theorem acknowledged_changes_are_persisted:
  assumes "atomic_metadata_store (ma_metadata app) stored" and "master_reachable (mr_master (sv_run c))"
    and "i < length (sv_tasks c)" and "sv_tasks c ! i = Received req"
    and "sv_tasks (serve app es c) ! i = Replied (status, body)"
  shows "\<exists>e1 e2. es = e1 @ Turn i # e2
    \<and> (if is_leader (ma_leadership app) \<and> status \<in> {200, 503}
       then apply_change req (master_after app e1 c) = (Inr (), master_after app (e1 @ [Turn i]) c)
       else sv_run (serve app (e1 @ [Turn i]) c) = sv_run (serve app e1 c))
    \<and> (\<not> is_leader (ma_leadership app) \<longrightarrow> status = 503)
    \<and> (status = 200 \<longrightarrow>
         (\<exists>d1 d2 d3. e2 = d1 @ Turn i # d2 @ Turn i # d3
            \<and> loads_tables_of app (world_after app (e1 @ Turn i # d1 @ Turn i # d2 @ [Turn i]) c)
                (master_after app (e1 @ Turn i # d1) c)))
    \<and> (status = 200 \<and> no_save_in_flight (serve app e1 c) \<longrightarrow>
         (\<exists>d1 d2. e2 = d1 @ d2
            \<and> loads_tables_of app (world_after app es c) (master_after app (e1 @ Turn i # d1) c)))"
proof -
  have "history app c i req es (Replied (status, body))" using task_history [OF assms(3,4), of app es] assms(5) by simp
  then show ?thesis unfolding history.simps(4)
  proof (elim disjE exE conjE)
    fix e1 e2
    assume es: "es = e1 @ Turn i # e2"
      and change: "make_change app req (master_after app e1 c) = (Inl (status, body), master_after app (e1 @ [Turn i]) c)"
      and run: "sv_run (serve app (e1 @ [Turn i]) c) = (sv_run (serve app e1 c))\<lparr>mr_master := master_after app (e1 @ [Turn i]) c\<rparr>"
    from serve_reachable [OF assms(2)] change
    have "master_after app (e1 @ [Turn i]) c = master_after app e1 c
      \<and> (if is_leader (ma_leadership app) then status \<notin> {200, 503} else status = 503)"
      by (cases rule: make_change_cases) (auto simp: error_response_def simp del: serve_simps)
    then have "sv_run (serve app (e1 @ [Turn i]) c) = sv_run (serve app e1 c)"
      "is_leader (ma_leadership app) \<longrightarrow> status \<notin> {200, 503}" "status = 200 \<longrightarrow> False" "\<not> is_leader (ma_leadership app) \<longrightarrow> status = 503"
      using run by (simp_all del: serve_simps split: if_splits)
    note facts = this es
    show ?thesis by (rule exI [of _ e1], rule exI [of _ e2]) (use facts in \<open>auto simp del: serve_simps\<close>)
  next
    fix e1 d1 d2 d3 v r
    assume es: "es = e1 @ Turn i # d1 @ Turn i # d2 @ Turn i # d3" and at: "changed_at app c i req e1 v"
      and saved: "saved_at app c i (e1 @ Turn i # d1) (e1 @ Turn i # d1 @ Turn i # d2) r"
      and reply: "(status, body) = saved_reply v r"
    have change: "make_change app req (master_after app e1 c) = (Inr v, master_after app (e1 @ [Turn i]) c)"
      and req: "sv_tasks (serve app e1 c) ! i = Received req" using at by (simp_all add: changed_at_def del: serve_simps)
    from serve_reachable [OF assms(2)] change have leader: "is_leader (ma_leadership app)"
      and "apply_change req (master_after app e1 c) = (Inr (), master_after app (e1 @ [Turn i]) c)"
      by (cases rule: make_change_cases; simp del: serve_simps)+
    moreover have "status \<in> {200, 503}"
      using save_snapshot_reply [OF saved [unfolded saved_at_def], of v] reply by (metis fst_conv insertCI)
    moreover have loads: "status = 200 \<Longrightarrow> loads_tables_of app (world_after app (e1 @ Turn i # d1 @ Turn i # d2 @ [Turn i]) c)
        (master_after app (e1 @ Turn i # d1) c)"
      "status = 200 \<Longrightarrow> no_save_in_flight (serve app e1 c) \<Longrightarrow> \<exists>f1 f2. d1 @ Turn i # d2 @ Turn i # d3 = f1 @ f2
        \<and> loads_tables_of app (world_after app es c) (master_after app (e1 @ Turn i # f1) c)"
      using acknowledged_history [OF assms(1-3) saved _ req, of v body] reply unfolding es by metis+
    ultimately have facts: "is_leader (ma_leadership app) \<and> status \<in> {200, 503}"
      "apply_change req (master_after app e1 c) = (Inr (), master_after app (e1 @ [Turn i]) c)" by blast+
    show ?thesis
      by (rule exI [of _ e1], rule exI [of _ "d1 @ Turn i # d2 @ Turn i # d3"])
         (use facts es loads in \<open>auto simp del: serve_simps\<close>)
  qed
qed

text \<open>
  C14: An acknowledged change can be lost. For any two changes that a leader can make one after
  the other there is a run in which the second request arrives, makes its change, saves and is
  answered 200 while the first awaits its save, which then replaces the newer snapshot: both are
  answered 200, the master has both changes, and whoever loads the metadata restores the
  objects and quotas without the second.
\<close>

theorem late_save_loses_change:
  assumes "atomic_metadata_store (ma_metadata app) stored" and "is_leader (ma_leadership app)"
    and "\<And>snap w. \<exists>w'. md_save (ma_metadata app) snap w = (Inr (), w')"
    and "master_reachable (mr_master s)"
    and "apply_change r1 (mr_master s) = (Inr (), st1)" and "apply_change r2 st1 = (Inr (), st2)"
  shows "\<exists>es b1 b2 s'. serve app es \<lparr>sv_run = s, sv_tasks = []\<rparr> =
      \<lparr>sv_run = s', sv_tasks = [Replied (200, b1), Replied (200, b2)]\<rparr>
    \<and> mr_master s' = st2 \<and> loads_tables_of app (mr_world s') st1"
proof -
  obtain b1 b2 where change: "make_change app r1 (mr_master s) = (Inr b1, st1)" "make_change app r2 st1 = (Inr b2, st2)"
    using make_change_leader [OF assms(2)] assms(5,6) by (metis apfst_conv map_sum.simps(2))
  obtain w1 where w1: "md_save (ma_metadata app) (metadata_snapshot st2) (mr_world s) = (Inr (), w1)" using assms(3) by blast
  obtain w2 where w2: "md_save (ma_metadata app) (metadata_snapshot st1) w1 = (Inr (), w2)" using assms(3) by blast
  have "serve app [Receive r1, Turn 0, Turn 0, Receive r2, Turn 1, Turn 1, Turn 1, Turn 0] \<lparr>sv_run = s, sv_tasks = []\<rparr> =
      \<lparr>sv_run = s\<lparr>mr_master := st2, mr_world := w2\<rparr>, sv_tasks = [Replied (200, b1), Replied (200, b2)]\<rparr>"
    using change w1 w2 by (simp add: save_snapshot_def saved_reply_def)
  moreover have "master_reachable st1" using make_change_reachable [OF assms(4) change(1)] .
  then have "loads_tables_of app w2 st1"
    using loads_tables_ofI [OF assms(1)] metadata_store.save_stored [OF atomic_metadata_store.axioms(1) [OF assms(1)] w2]
    by blast
  moreover have "mr_master (s\<lparr>mr_master := st2, mr_world := w2\<rparr>) = st2"
    "mr_world (s\<lparr>mr_master := st2, mr_world := w2\<rparr>) = w2" by simp_all
  ultimately show ?thesis by (metis (no_types, lifting))
qed

section \<open>Examples\<close>

definition example_mount :: change_request where
  "example_mount = ReqMount \<lparr>msr_node_id = ''n1'', msr_len = 64\<rparr>"

definition example_quota :: "string \<Rightarrow> change_request" where
  "example_quota t = ReqSetQuota \<lparr>sqr_tenant_id = t, sqr_dram_bytes = 9, sqr_ssd_bytes = 0\<rparr>"

definition example_service :: "master_metadata_snapshot option service" where
  "example_service = \<lparr>sv_run = \<lparr>mr_master = master_new, mr_world = None\<rparr>,
     sv_tasks = [Received (example_quota ''a''), Received (example_quota ''b'')]\<rparr>"

lemma example_store: "atomic_metadata_store (ma_metadata example_app) id"
  by (simp add: example_app_def cell.atomic_metadata_store_axioms)

lemma example_leader: "is_leader (ma_leadership example_app)"
  by (simp add: example_app_def is_leader_def leadership_leader_def)

lemma example_saves: "md_save (ma_metadata example_app) snap w = (Inr (), Some snap)"
  by (simp add: example_app_def memory_metadata_def memory_save_def)

lemma example_tenants: "parse_tenant_id ''a'' = Inr (TenantId ''a'')" "parse_tenant_id ''b'' = Inr (TenantId ''b'')"
  by code_simp+

lemma example_quota_made:
  "apply_change (example_quota ''a'') st =
     (Inr (), st\<lparr>quotas := hm_insert (TenantId ''a'')
        (quota_with_usage 9 0 (tenant_used_bytes (TenantId ''a'') (objects st))) (quotas st)\<rparr>)"
  "apply_change (example_quota ''b'') st =
     (Inr (), st\<lparr>quotas := hm_insert (TenantId ''b'')
        (quota_with_usage 9 0 (tenant_used_bytes (TenantId ''b'') (objects st))) (quotas st)\<rparr>)"
  by (simp_all add: example_quota_def set_tenant_quota_def Let_def example_tenants)

lemma example_change:
  "make_change example_app (example_quota ''a'') st = (Inr ok_json, snd (apply_change (example_quota ''a'') st))"
  "make_change example_app (example_quota ''b'') st = (Inr ok_json, snd (apply_change (example_quota ''b'') st))"
  using example_leader
  by (simp_all add: example_quota_def change_defs require_leader_def set_tenant_quota_def Let_def example_tenants)

text \<open>Two requests in turns: the second makes its change while no save is in flight.\<close>

definition example_events :: "service_event list" where
  "example_events = [Turn 0, Turn 1, Turn 1, Turn 0, Turn 1, Turn 0]"

lemma example_run:
  "sv_tasks (serve example_app example_events example_service) ! 1 = Replied (200, ok_json)"
  by (simp add: example_events_def example_service_def example_change save_snapshot_def saved_reply_def
      example_saves del: apply_change.simps)

theorem acknowledged_changes_are_persisted_witness:
  "\<exists>e1 e2. example_events = e1 @ Turn 1 # e2
    \<and> apply_change (example_quota ''b'') (master_after example_app e1 example_service)
        = (Inr (), master_after example_app (e1 @ [Turn 1]) example_service)"
proof -
  have c: "master_reachable (mr_master (sv_run example_service))" "1 < length (sv_tasks example_service)"
    "sv_tasks example_service ! 1 = Received (example_quota ''b'')"
    by (simp_all add: example_service_def reach_new)
  show ?thesis
    using acknowledged_changes_are_persisted [OF example_store c example_run] example_leader
    by (elim exE conjE) (simp del: serve_simps apply_change.simps, blast)
qed

text \<open>Two tenants get their quota; the store keeps the first one only.\<close>

theorem late_save_loses_change_witness:
  "\<exists>es b1 b2 s' snap.
     serve example_app es \<lparr>sv_run = \<lparr>mr_master = master_new, mr_world = None\<rparr>, sv_tasks = []\<rparr> =
       \<lparr>sv_run = s', sv_tasks = [Replied (200, b1), Replied (200, b2)]\<rparr>
     \<and> hm_get (quotas (mr_master s')) (TenantId ''b'') \<noteq> None
     \<and> mr_world s' = Some snap \<and> hm_get (quotas (from_metadata_snapshot snap)) (TenantId ''b'') = None"
proof -
  let ?s = "\<lparr>mr_master = master_new, mr_world = None :: master_metadata_snapshot option\<rparr>"
  let ?st1 = "snd (apply_change (example_quota ''a'') master_new)"
  let ?st2 = "snd (apply_change (example_quota ''b'') ?st1)"
  have save: "\<And>snap w. \<exists>w'. md_save (ma_metadata example_app) snap w = (Inr (), w')" by (simp add: example_saves)
  have changes: "apply_change (example_quota ''a'') (mr_master ?s) = (Inr (), ?st1)"
    "apply_change (example_quota ''b'') ?st1 = (Inr (), ?st2)"
    and tables: "hm_get (quotas ?st1) (TenantId ''b'') = None" "hm_get (quotas ?st2) (TenantId ''b'') \<noteq> None"
    by (simp_all add: example_quota_made master_new_def del: apply_change.simps)
  have "master_reachable (mr_master ?s)" by (simp add: reach_new)
  from late_save_loses_change [OF example_store example_leader save this changes]
  obtain es b1 b2 s' where run: "serve example_app es \<lparr>sv_run = ?s, sv_tasks = []\<rparr> =
      \<lparr>sv_run = s', sv_tasks = [Replied (200, b1), Replied (200, b2)]\<rparr>" "mr_master s' = ?st2"
    and loads: "loads_tables_of example_app (mr_world s') ?st1" by blast
  have "md_load (ma_metadata example_app) (mr_world s') = (Inr (mr_world s'), mr_world s')"
    by (simp add: example_app_def memory_metadata_def memory_load_def)
  with loads tables(1) obtain snap where "mr_world s' = Some snap"
    "hm_get (quotas (from_metadata_snapshot snap)) (TenantId ''b'') = None"
    unfolding loads_tables_of_def by metis
  then show ?thesis using run tables(2) by metis
qed

end
