(* ===== verification/Spec2Isabelle.thy ===== *)
theory Spec2Isabelle
imports Cluster_Examples Concurrent_Examples Master_Tasks
begin

text \<open>
  A verification of mooncache, a distributed cache for the answers of language model vendors.

  \<^bold>\<open>The program.\<close> A gateway takes requests for the Responses API. It authenticates the tenant,
  computes a cache key from a canonical form of the request, and answers from the cache or
  from the vendor; concurrent misses for one key are coalesced (singleflight), and answers
  are written back. The master is the control plane: it places objects on the segments of
  store nodes with a bump allocator, accounts for them in per-tenant quotas, protects read
  objects by leases, evicts, and hands its metadata to etcd. Store nodes keep chunks in an
  arena with checksums and, for named objects, as encrypted files on an SSD. The admin
  service watches and drains nodes under roles and an audit log. Four programs under
  \<^verbatim>\<open>apps/\<close> serve these crates over HTTP.

  \<^bold>\<open>The theories\<close>, with the code they model (paths under \<^verbatim>\<open>src/\<close>):

  \<^item> \<^verbatim>\<open>Prelude\<close>, \<^verbatim>\<open>Text\<close>: machine integers at their width with checked and saturating operations,
    the \<^verbatim>\<open>?\<close> operator, hash maps and B-tree maps (and the interface \<open>map_impl\<close> both
    implement), the string functions of the standard library that the code uses.
  \<^item> \<^verbatim>\<open>Common\<close>, \<^verbatim>\<open>Metrics\<close>: \<^verbatim>\<open>crates/common\<close>. Errors with their texts, identifiers, counters.
  \<^item> \<^verbatim>\<open>Quota\<close>, \<^verbatim>\<open>Allocator\<close>, \<^verbatim>\<open>Lease\<close>, \<^verbatim>\<open>Master\<close>: \<^verbatim>\<open>crates/master\<close>, one definition per method of
    \<^verbatim>\<open>MasterState\<close>. \<^verbatim>\<open>Master_Invariants\<close>, \<^verbatim>\<open>Master_Properties\<close>, \<^verbatim>\<open>Master_Contract\<close>: its steps as a
    relation, the invariants of every reachable state (a locale \<open>master_preserved\<close> carries
    the induction, interpreted once per invariant), and the contract of the control plane.
  \<^item> \<^verbatim>\<open>Memory_Store\<close>, \<^verbatim>\<open>Ssd_Store\<close>: \<^verbatim>\<open>crates/store\<close>. The arena and its chunks, with the interface
    \<open>chunk_store\<close> interpreted for both ways to write; the encrypted files on an explicit disk
    on which every call may fail.
  \<^item> \<^verbatim>\<open>Json\<close>, \<^verbatim>\<open>Fingerprint\<close>, \<^verbatim>\<open>Protocol\<close>: \<^verbatim>\<open>crates/fingerprint\<close> and \<^verbatim>\<open>crates/protocol\<close>. JSON values,
    canonical JSON, cache keys, eligibility, headers, typed requests.
  \<^item> \<^verbatim>\<open>Config\<close>, \<^verbatim>\<open>Vendor\<close>, \<^verbatim>\<open>Streaming\<close>, \<^verbatim>\<open>Routes\<close>, \<^verbatim>\<open>Singleflight\<close>, \<^verbatim>\<open>Clients\<close>, \<^verbatim>\<open>Cache_Flow\<close>:
    \<^verbatim>\<open>crates/gateway\<close>, file by file. A handler is a function over the mutable part of the gateway.
  \<^item> \<^verbatim>\<open>Gateway_Contract\<close>: what the request flow guarantees for any clients and any vendor.
    \<^verbatim>\<open>Cache_Backend\<close>: the interface \<open>cache_backend\<close> of a master client and a store client that
    together implement a map from tenants and keys to bytes, and what the flow does over
    it. \<^verbatim>\<open>Local_Cache\<close> interprets it for the local clients, that is, for the real master and the
    real memory store; \<^verbatim>\<open>Network\<close> has the remote clients against the services, over a network that
    loses calls and answers, and \<^verbatim>\<open>Cluster\<close> interprets the interface for them; \<^verbatim>\<open>Deployment\<close> puts a
    gateway started from its configuration in front, with its routes. \<^verbatim>\<open>Gateway_Examples\<close> and
    \<^verbatim>\<open>Cluster_Examples\<close> have the concrete runs.
  \<^item> \<^verbatim>\<open>Async_Flow\<close>: the request flow of \<^verbatim>\<open>crates/gateway/src/cache_flow.rs\<close> again, as programs that
    give up control at every call of a client, of the vendor and of a flight, one program per
    \<^verbatim>\<open>async fn\<close>; run without interruption they are the handlers of \<^verbatim>\<open>Cache_Flow\<close> (\<open>run_handler\<close>).
    \<^verbatim>\<open>Schedule\<close>: any number of gateways, each with its counters and flights, over one world; their
    requests are tasks that make one call at a time, in any order, arrive at any time and may be
    dropped at every call, which runs the destructor of \<^verbatim>\<open>SingleflightLeader\<close>. \<^verbatim>\<open>Alone\<close>: a task that
    is not disturbed does what the handler does (\<open>handled_alone\<close>), so the two renderings of the
    flow agree.
  \<^item> \<^verbatim>\<open>Typestate\<close>: the stages of a request (what it has looked up, read, been answered, reserved,
    filled, stored), a weakest precondition of programs over them, and that every request follows
    the protocol. \<^verbatim>\<open>Shared_Cache\<close>: the interface \<open>shared_cache\<close>, which adds to \<open>cache_backend\<close> what a call
    under one key leaves to the requests under other keys. \<^verbatim>\<open>Coalescing\<close>: flights, their leaders and
    waiters among the tasks. \<^verbatim>\<open>Concurrent\<close>: inside the interface, the invariant of all interleavings,
    a non-interference proof over the stages, and its consequences. \<^verbatim>\<open>Concurrent_Local\<close> and
    \<^verbatim>\<open>Concurrent_Cluster\<close> interpret the interface for the local clients and for the cluster;
    \<^verbatim>\<open>Concurrent_Cluster\<close> has the contract of gateways that share a cluster, and
    \<^verbatim>\<open>Concurrent_Examples\<close> concrete interleaved runs of it.
  \<^item> \<^verbatim>\<open>Admin_Service\<close>: \<^verbatim>\<open>crates/admin-api\<close>.
  \<^item> \<^verbatim>\<open>Cli\<close>, \<^verbatim>\<open>Store_Node\<close>, \<^verbatim>\<open>Master_App\<close>, \<^verbatim>\<open>Gateway_App\<close>, \<^verbatim>\<open>Admin_App\<close>: the programs under \<^verbatim>\<open>apps/\<close>.
    \<^verbatim>\<open>Master_App\<close> states the interfaces \<open>metadata_store\<close> and \<open>atomic_metadata_store\<close> (a save lands
    as a whole or not at all), interprets them for the store in memory, and shows that etcd
    implements them; its handlers are made of a change under the lock, a snapshot, and a save,
    and \<open>uninterrupted\<close> runs the three in a row. \<^verbatim>\<open>Master_Tasks\<close> has the same handlers as tasks that
    release the lock between these steps, with any number in flight. \<^verbatim>\<open>Service_Http\<close> has the route tables of the master and the
    store node with the types of their requests and answers; \<^verbatim>\<open>Startup\<close> those of the gateway
    and the admin service, and the programs from \<^verbatim>\<open>main\<close> to the listener.

  \<^bold>\<open>How the code is rendered.\<close> A \<^verbatim>\<open>struct\<close> is a record and an \<^verbatim>\<open>enum\<close> a datatype; \<^verbatim>\<open>u64\<close>, \<^verbatim>\<open>usize\<close>,
  \<^verbatim>\<open>u32\<close> and \<^verbatim>\<open>u16\<close> are words of 64, 64, 32 and 16 bits; bytes and UTF-8 strings are lists of
  characters. \<^verbatim>\<open>Result\<close> is a sum with the error on the left. A \<^verbatim>\<open>&mut self\<close> method takes the
  state last and returns it with the result, also on every error path. A mutex is its
  content; where the code handles a poisoned lock that can occur, the flag is part of the
  state. Hash maps are lists of entries with distinct keys; where the outcome depends on
  the order of iteration, the order is an argument. Loops are structural recursions, or
  a \<open>while_option\<close> (the command line, \<open>parse_loop\<close> in \<^verbatim>\<open>Cli\<close>, which ends by \<open>parse_loop_ends\<close>); the
  one bound is the length of the text in \<^verbatim>\<open>strip_all\<close>, which every turn shortens, and
  \<open>strip_all_done\<close> shows that it is enough. An \<^verbatim>\<open>async fn\<close> is
  modelled twice, as a function on the state and as a program with its suspension points.

  \<^bold>\<open>What is assumed.\<close> Code outside the repository is an argument: SHA-256, the cipher, the JSON
  and TOML libraries, HTTP, base64, the clock, the random generator, the file system calls,
  etcd. What a theorem needs of them is one of its hypotheses and is documented behaviour:
  the cipher decrypts what it encrypted (\<open>aead_decrypts\<close>), the JSON library reads back
  what it prints up to the last bits of finite floats, in documents nested less than 128 deep
  (\<open>serde_reads_back\<close>: the workspace does not enable \<^verbatim>\<open>float_roundtrip\<close>, so floats are not
  assumed to be exact), and yields documents of less than 2^64 bytes (\<open>serde_bounded\<close>), the
  vendor does not touch the master and store of the process (\<open>vendor_keeps\<close>), etcd sets and
  returns values, and a put takes effect as a whole or not at all (\<open>etcd_serves\<close>,
  \<open>etcd_puts_atomic\<close>, \<open>etcd_elects\<close>). For the deployed system, \<open>site_ok\<close>: a call or an
  answer that is lost is not seen as a success, and the two services have different addresses;
  and tenants have names that need no encoding in a URL. A site may be exact: the master's
  saves succeed, answers are not lost, lookups and reads are delivered. Without this the map
  behind the cache may get an entry whose answer does not say so; what holds then is part of the
  same theorem. Each such theorem has a witness in which the argument is a concrete function.

  \<^bold>\<open>What is shown.\<close>

  \<^item> The gateway over the local clients refines a map from tenants and keys to bytes: a request
    changes at most its own entry, and only from absent to the serialized answer, when the
    answer says so; a committed answer is replayed, exactly when it has no floats and otherwise
    up to their last bits. Only enabled tenants are served, modes
    are respected, failing writes never fail a request, every answer is counted.
  \<^item> A gateway started from its configuration, over its remote clients, the master service and a
    store node with an SSD, refines the same map, seen from its HTTP answers, whatever calls,
    answers, saves and files are lost on the way; a committed answer is replayed after the node
    has lost its memory.
  \<^item> Several such gateways with any number of requests in flight, in every interleaving of their
    calls, with requests dropped at any call and the node restarting: every hit carries what
    the map held under the request's own key, every waiter the answer of a leader for its key,
    committed answers are stored under distinct keys, a step changes the map under one key only
    and an exact map only grows, nobody waits for ever and every schedule ends.
  \<^item> The control plane never hands out overlapping space, accounts for every byte, never
    evicts leased or pinned objects (a lookup protects an object from all evictions of the next
    five seconds), evicts in the order of its policy, and keeps its
    tables in a snapshot.
  \<^item> The stores serve only bytes that were written; persisting is atomic and reads back; what a
    store node answers from its SSD is what it acknowledged, and right after a restart every
    acknowledged write within its memory reads back.
  \<^item> In every interleaving of the handlers of the master service, a request answered 200 was made
    by the leader, and the metadata store has acknowledged a snapshot taken at or after the change;
    a standby changes nothing. The invariants of the control plane hold after any HTTP requests,
    disjointness as long as no node is mounted twice and exact charges as long as the mounted
    capacities fit into 64 bits. Command lines are read as their usage says.
  \<^item> Keys identify requests up to the order of members; streams, server-sent events and stored
    objects round-trip; configurations that load are valid.
  \<^item> A singleflight group has one leader per key, a bounded number of waiters, and delivers a
    result or an error to every waiter.
  \<^item> Admin requests are authorized; metrics, audit log, fingerprint, purge and drain requests leave
    one audit entry with their outcome, the others none; the audit log explains the state.
  \<^item> Some theorems state behaviour that the documentation or common sense contradicts: a master
    restored from its snapshot hands out used space again, a failing lookup fails the
    request, an ineligible cache-only request calls the vendor, a body with the stream marker
    is not replayed, masters with one address all lead, a purge never finds an object, and
    with two store nodes a lookup may be answered with the bytes of another tenant, a request
    that is dropped while it writes blocks its key, a removal takes an object under an active
    lease, and a save that lands late overwrites a change that was answered 200.

  \<^bold>\<open>What is not modelled.\<close> Interleavings inside one call of the cluster: there a handler of the
  master or of a store node runs to its end, although the master awaits its save with the lock
  released (what this means for the metadata store is \<^verbatim>\<open>Master_Tasks\<close>; the gateways see only the
  memory of the master, which changes under the lock) and a store node gives up its lock between
  its memory and its SSD; and while the vendor answers, only the effects of \<open>cluster_keeps\<close> and of
  the other requests' calls before and after are seen. Eviction, removal, drains and a failover of
  the master during the requests of the gateways: the contracts of the cluster are about a master
  that only the gateways use. Panics and exhaustion of memory. What \<^verbatim>\<open>axum\<close> sends for a request that
  reaches no handler, percent-decoding, the text form of JSON and the JSON form of a metadata
  snapshot are arguments. Several store nodes are modelled (the last section of \<^verbatim>\<open>Cluster\<close>) but have
  no contract, because the read path of the gateway does not support them. The control panel
  (TypeScript) and the integration tests.
\<close>

end
